(* ===== verification/Prelude.thy ===== *)
theory Prelude
  imports Complex_Main "HOL-Library.AList" "HOL-Library.Char_ord" "HOL-Library.List_Lexorder"
    "HOL-Library.Product_Lexorder" "HOL-Library.Sublist"
begin

text \<open>
  The prelude of the development: what the components of the conformance suite share.

  \<^item> Results: a fallible function returns \<open>'e + 'a\<close>, \<open>Inl\<close> for the exception it raises.
    \<open>rbind\<close> sequences two of them and \<open>rtraverse\<close> maps one over a list, stopping at the
    first exception, as a Python loop does.
  \<^item> Strings: a Python \<open>str\<close> is an Isabelle \<open>string\<close>, one character per code point, for code
    points below 256 (Latin-1). The classifications (\<open>isspace\<close>, \<open>isalnum\<close>, \<open>lower\<close>) are
    those of Python on that range.
  \<^item> Dictionaries: a Python \<open>dict\<close> is an association list with distinct keys in insertion
    order, updated with the library's \<open>AList.update\<close> (which keeps the position of a key that
    is already present) and \<open>AList.delete\<close>. The locale \<open>finite_dict\<close> states the contract
    its clients rely on.
  \<^item> Transition systems: the locale \<open>inductive_invariant\<close> lifts a step-wise invariant to
    every reachable state; the stores interpret it.
\<close>

section \<open>Proof-rule collections\<close>

named_theorems result_simps "unfolding of the result combinators"
named_theorems str_simps "unfolding of the Python string operations"
named_theorems inv_intros "preservation of component invariants"

section \<open>Results\<close>

definition rbind :: "'e + 'a \<Rightarrow> ('a \<Rightarrow> 'e + 'b) \<Rightarrow> 'e + 'b" where
  "rbind r f = (case r of Inl e \<Rightarrow> Inl e | Inr x \<Rightarrow> f x)"

lemma rbind_simps [simp]:
  "rbind (Inl e) f = Inl e"
  "rbind (Inr x) f = f x"
  by (simp_all add: rbind_def)

lemma rbind_eq_Inr: "rbind r f = Inr y \<longleftrightarrow> (\<exists>x. r = Inr x \<and> f x = Inr y)"
  by (cases r) auto

lemma rbind_eq_Inl: "rbind r f = Inl e \<longleftrightarrow> r = Inl e \<or> (\<exists>x. r = Inr x \<and> f x = Inl e)"
  by (cases r) auto

lemmas rbind_eqs [result_simps] = rbind_eq_Inr rbind_eq_Inl

lemma rbind_cong [fundef_cong]:
  "r = r' \<Longrightarrow> (\<And>x. r' = Inr x \<Longrightarrow> f x = f' x) \<Longrightarrow> rbind r f = rbind r' f'"
  by (cases r') auto

definition rguard :: "bool \<Rightarrow> 'e \<Rightarrow> 'e + unit" where
  "rguard b e = (if b then Inr () else Inl e)"

lemma rguard_eqs [result_simps]:
  "rguard b e = Inr u \<longleftrightarrow> b"
  "rguard b e = Inl e' \<longleftrightarrow> \<not> b \<and> e' = e"
  by (auto simp: rguard_def)

fun rtraverse :: "('a \<Rightarrow> 'e + 'b) \<Rightarrow> 'a list \<Rightarrow> 'e + 'b list" where
  "rtraverse f [] = Inr []"
| "rtraverse f (x # xs) = rbind (f x) (\<lambda>y. rbind (rtraverse f xs) (\<lambda>ys. Inr (y # ys)))"

lemma rtraverse_cong [fundef_cong]:
  "xs = ys \<Longrightarrow> (\<And>x. x \<in> set ys \<Longrightarrow> f x = g x) \<Longrightarrow> rtraverse f xs = rtraverse g ys"
proof (induction ys arbitrary: xs)
  case (Cons y ys)
  then show ?case by simp
qed simp

lemma rtraverse_Inr:
  "rtraverse f xs = Inr ys \<longleftrightarrow> list_all2 (\<lambda>x y. f x = Inr y) xs ys"
  by (induction xs arbitrary: ys) (auto simp: rbind_eq_Inr list_all2_Cons1)

lemma rtraverse_length: "rtraverse f xs = Inr ys \<Longrightarrow> length ys = length xs"
  by (auto simp: rtraverse_Inr dest: list_all2_lengthD)

lemma rtraverse_Inr_member:
  "rtraverse f xs = Inr ys \<Longrightarrow> y \<in> set ys \<Longrightarrow> \<exists>x \<in> set xs. f x = Inr y"
  by (induction xs arbitrary: ys) (auto simp: rbind_eq_Inr)

lemma rtraverse_Inr_source:
  "rtraverse f xs = Inr ys \<Longrightarrow> x \<in> set xs \<Longrightarrow> \<exists>y \<in> set ys. f x = Inr y"
  by (induction xs arbitrary: ys) (auto simp: rbind_eq_Inr)

lemma rtraverse_Inl:
  "rtraverse f xs = Inl e \<Longrightarrow> \<exists>x \<in> set xs. f x = Inl e"
  by (induction xs) (auto simp: rbind_eq_Inl)

lemma rtraverse_total: "(\<And>x. x \<in> set xs \<Longrightarrow> \<exists>y. f x = Inr y) \<Longrightarrow> \<exists>ys. rtraverse f xs = Inr ys"
  by (induction xs) (fastforce simp: rbind_def)+

lemma rtraverse_pure: "(\<And>x. x \<in> set xs \<Longrightarrow> f x = Inr (g x)) \<Longrightarrow> rtraverse f xs = Inr (map g xs)"
  by (induction xs) auto

section \<open>Python strings\<close>

subsection \<open>Character classes on Latin-1\<close>

definition code_of :: "char \<Rightarrow> nat" where
  "code_of c = of_char c"

definition is_space :: "char \<Rightarrow> bool" where
  "is_space c = (let n = code_of c in
     (9 \<le> n \<and> n \<le> 13) \<or> (28 \<le> n \<and> n \<le> 32) \<or> n = 133 \<or> n = 160)"

definition is_digit_char :: "char \<Rightarrow> bool" where
  "is_digit_char c = (48 \<le> code_of c \<and> code_of c \<le> 57)"

definition is_ascii_alpha :: "char \<Rightarrow> bool" where
  "is_ascii_alpha c = (let n = code_of c in (65 \<le> n \<and> n \<le> 90) \<or> (97 \<le> n \<and> n \<le> 122))"

text \<open>
  \<open>str.isalnum\<close> on Latin-1: letters, the feminine and masculine ordinal indicators, the micro
  sign, the superscript digits and the vulgar fractions count as well.
\<close>

definition is_alnum :: "char \<Rightarrow> bool" where
  "is_alnum c = (let n = code_of c in
     is_ascii_alpha c \<or> is_digit_char c \<or> n \<in> {170, 178, 179, 181, 185, 186, 188, 189, 190}
     \<or> (192 \<le> n \<and> n \<noteq> 215 \<and> n \<noteq> 247))"

definition is_ascii :: "char \<Rightarrow> bool" where
  "is_ascii c = (code_of c < 128)"

definition lower_char :: "char \<Rightarrow> char" where
  "lower_char c = (let n = code_of c in
     if (65 \<le> n \<and> n \<le> 90) \<or> (192 \<le> n \<and> n \<le> 222 \<and> n \<noteq> 215) then char_of (n + 32) else c)"

lemma code_of_less: "code_of c < 256"
  by (simp add: code_of_def)

lemma code_of_char_of: "n < 256 \<Longrightarrow> code_of (char_of n) = n"
  by (simp add: code_of_def)

lemma lower_char_idem [simp]: "lower_char (lower_char c) = lower_char c"
  using code_of_less [of c]
  by (auto simp: lower_char_def Let_def code_of_char_of)

definition py_lower :: "string \<Rightarrow> string" where
  "py_lower s = map lower_char s"

lemma py_lower_idem [simp]: "py_lower (py_lower s) = py_lower s"
  by (simp add: py_lower_def)

lemma length_py_lower [simp]: "length (py_lower s) = length s"
  by (simp add: py_lower_def)

lemma py_lower_Nil [simp]: "py_lower [] = []"
  by (simp add: py_lower_def)

definition py_isdecimal :: "string \<Rightarrow> bool" where
  "py_isdecimal s = (s \<noteq> [] \<and> list_all is_digit_char s)"

subsection \<open>Stripping, splitting, joining\<close>

definition py_lstrip :: "string \<Rightarrow> string" where
  "py_lstrip s = dropWhile is_space s"

definition py_strip :: "string \<Rightarrow> string" where
  "py_strip s = rev (dropWhile is_space (rev (dropWhile is_space s)))"

definition stripped :: "string \<Rightarrow> bool" where
  "stripped s = (s = [] \<or> (\<not> is_space (hd s) \<and> \<not> is_space (last s)))"

lemma dropWhile_hd: "dropWhile P xs = ys \<Longrightarrow> ys \<noteq> [] \<Longrightarrow> \<not> P (hd ys)"
  using hd_dropWhile by blast

lemma py_strip_stripped: "stripped s \<Longrightarrow> py_strip s = s"
proof -
  assume st: "stripped s"
  show ?thesis
  proof (cases "s = []")
    case True
    then show ?thesis by (simp add: py_strip_def)
  next
    case False
    with st have hd: "\<not> is_space (hd s)" and la: "\<not> is_space (last s)"
      by (auto simp: stripped_def)
    from False hd have 1: "dropWhile is_space s = s"
      by (cases s) auto
    from False la have 2: "dropWhile is_space (rev s) = rev s"
      by (cases s rule: rev_cases) auto
    show ?thesis by (simp add: py_strip_def 1 2)
  qed
qed

lemma stripped_py_strip: "stripped (py_strip s)"
proof -
  define t where "t = dropWhile is_space s"
  define u where "u = dropWhile is_space (rev t)"
  show ?thesis
  proof (cases "u = []")
    case True
    then show ?thesis by (simp add: py_strip_def stripped_def t_def u_def)
  next
    case False
    then have "\<not> is_space (hd u)" unfolding u_def by (rule hd_dropWhile)
    moreover obtain v where v: "rev t = v @ u"
      unfolding u_def by (metis takeWhile_dropWhile_id)
    then have "last u = hd t" "t \<noteq> []"
      using False by (metis hd_rev last_appendR rev_rev_ident, auto)
    moreover have "\<not> is_space (hd t)"
      using \<open>t \<noteq> []\<close> unfolding t_def by (rule hd_dropWhile)
    ultimately show ?thesis
      by (simp add: py_strip_def stripped_def hd_rev last_rev flip: t_def u_def)
  qed
qed

lemma py_strip_idem [simp]: "py_strip (py_strip s) = py_strip s"
  by (rule py_strip_stripped [OF stripped_py_strip])

fun split_on :: "char \<Rightarrow> string \<Rightarrow> string list" where
  "split_on c [] = [[]]"
| "split_on c (x # xs) =
     (if x = c then [] # split_on c xs
      else (case split_on c xs of [] \<Rightarrow> [[x]] | w # ws \<Rightarrow> (x # w) # ws))"

fun join :: "string \<Rightarrow> string list \<Rightarrow> string" where
  "join sep [] = []"
| "join sep [w] = w"
| "join sep (w # ws) = w @ sep @ join sep ws"

lemma split_on_ne [simp]: "split_on c s \<noteq> []"
  by (induction s) (auto split: list.splits)

lemma split_on_parts: "w \<in> set (split_on c s) \<Longrightarrow> c \<notin> set w"
proof (induction s arbitrary: w)
  case (Cons x xs)
  then show ?case by (cases "split_on c xs") (auto split: if_splits)
qed simp

lemma split_on_subset: "w \<in> set (split_on c s) \<Longrightarrow> set w \<subseteq> set s"
  by (induction s arbitrary: w) (fastforce split: list.splits if_splits)+

lemma join_split_on: "join [c] (split_on c s) = s"
proof (induction s)
  case (Cons x xs)
  obtain w ws where ws: "split_on c xs = w # ws"
    by (cases "split_on c xs") auto
  with Cons show ?case by (cases ws) auto
qed simp

lemma split_on_no_sep: "c \<notin> set s \<Longrightarrow> split_on c s = [s]"
  by (induction s) auto

lemma split_on_append:
  "c \<notin> set w \<Longrightarrow> split_on c (w @ c # s) = w # split_on c s"
  by (induction w) auto

lemma split_on_join:
  assumes "ws \<noteq> []" and "\<forall>w \<in> set ws. c \<notin> set w"
  shows "split_on c (join [c] ws) = ws"
  using assms
proof (induction "[c]" ws rule: join.induct)
  case (2 w)
  then show ?case by (simp add: split_on_no_sep)
next
  case (3 w v vs)
  then show ?case by (simp add: split_on_append)
qed simp

text \<open>A value set in single quotes by a format string, without escapes.\<close>

definition quoted :: "string \<Rightarrow> string" where
  "quoted s = [CHR 0x27] @ s @ [CHR 0x27]"

subsection \<open>Search\<close>

definition starts_with :: "string \<Rightarrow> string \<Rightarrow> bool" where
  "starts_with p s = (take (length p) s = p)"

definition ends_with :: "string \<Rightarrow> string \<Rightarrow> bool" where
  "ends_with p s = (length p \<le> length s \<and> drop (length s - length p) s = p)"

fun str_contains :: "string \<Rightarrow> string \<Rightarrow> bool" where
  "str_contains p [] = (p = [])"
| "str_contains p (x # xs) = (starts_with p (x # xs) \<or> str_contains p xs)"

lemma starts_with_iff: "starts_with p s \<longleftrightarrow> (\<exists>t. s = p @ t)"
  unfolding starts_with_def by (metis append_eq_conv_conj append_take_drop_id)

lemma str_contains_iff: "str_contains p s \<longleftrightarrow> (\<exists>a b. s = a @ p @ b)"
proof (induction s)
  case (Cons x xs)
  show ?case
  proof
    assume "str_contains p (x # xs)"
    then consider "starts_with p (x # xs)" | "str_contains p xs" by auto
    then show "\<exists>a b. x # xs = a @ p @ b"
    proof cases
      case 1
      then show ?thesis by (metis append_Nil starts_with_iff)
    next
      case 2
      with Cons.IH show ?thesis by (metis append_Cons)
    qed
  next
    assume "\<exists>a b. x # xs = a @ p @ b"
    then obtain a b where ab: "x # xs = a @ p @ b" by blast
    show "str_contains p (x # xs)"
    proof (cases a)
      case Nil
      with ab have "starts_with p (x # xs)" by (auto simp: starts_with_iff)
      then show ?thesis by simp
    next
      case (Cons y ys)
      with ab Cons.IH show ?thesis by auto
    qed
  qed
qed simp

lemma starts_with_single: "starts_with [c] s \<longleftrightarrow> s \<noteq> [] \<and> hd s = c"
  by (cases s) (auto simp: starts_with_def)

lemma ends_with_single: "ends_with [c] s \<longleftrightarrow> s \<noteq> [] \<and> last s = c"
  by (cases s rule: rev_cases) (auto simp: ends_with_def)

text \<open>\<open>s.partition(c)\<close> for a one-character separator: the part before, whether it occurs, the rest.\<close>

fun partition_at :: "char \<Rightarrow> string \<Rightarrow> string \<times> bool \<times> string" where
  "partition_at c [] = ([], False, [])"
| "partition_at c (x # xs) =
     (if x = c then ([], True, xs)
      else (case partition_at c xs of (a, found, b) \<Rightarrow> (x # a, found, b)))"

text \<open>\<open>s.rpartition(c)\<close>: split at the last occurrence; without one, the whole string comes last.\<close>

definition rpartition_at :: "char \<Rightarrow> string \<Rightarrow> string \<times> bool \<times> string" where
  "rpartition_at c s =
     (case partition_at c (rev s) of
        (a, True, b) \<Rightarrow> (rev b, True, rev a)
      | (a, False, b) \<Rightarrow> ([], False, s))"

subsection \<open>Numbers as text\<close>

definition digit_char :: "nat \<Rightarrow> char" where
  "digit_char n = char_of (48 + n)"

fun str_nat :: "nat \<Rightarrow> string" where
  "str_nat n = (if n < 10 then [digit_char n] else str_nat (n div 10) @ [digit_char (n mod 10)])"

declare str_nat.simps [simp del]

definition str_int :: "int \<Rightarrow> string" where
  "str_int i = (if i < 0 then ''-'' @ str_nat (nat (- i)) else str_nat (nat i))"

definition digit_value :: "char \<Rightarrow> nat" where
  "digit_value c = code_of c - 48"

definition nat_of_digits :: "string \<Rightarrow> nat" where
  "nat_of_digits s = foldl (\<lambda>n c. 10 * n + digit_value c) 0 s"

text \<open>
  \<open>int(s)\<close> for a string of decimal digits. CPython refuses more than 4300 digits with a
  \<open>ValueError\<close> (the integer string conversion length limit), here \<open>None\<close>.
\<close>

definition max_str_digits :: nat where
  "max_str_digits = 4300"

definition int_of_decimal :: "string \<Rightarrow> nat option" where
  "int_of_decimal s = (if length s \<le> max_str_digits then Some (nat_of_digits s) else None)"

lemma nat_of_digits_snoc: "nat_of_digits (s @ [c]) = 10 * nat_of_digits s + digit_value c"
  by (simp add: nat_of_digits_def)

lemma digit_char_props:
  "n < 10 \<Longrightarrow> digit_value (digit_char n) = n"
  "n < 10 \<Longrightarrow> is_digit_char (digit_char n)"
  by (simp_all add: digit_value_def digit_char_def is_digit_char_def code_of_char_of)

lemma nat_of_digits_str_nat: "nat_of_digits (str_nat n) = n"
proof (induction n rule: str_nat.induct)
  case (1 n)
  show ?case
  proof (cases "n < 10")
    case True
    then show ?thesis
      by (simp add: str_nat.simps [of n] nat_of_digits_def digit_char_props)
  next
    case False
    with 1 show ?thesis
      by (simp add: str_nat.simps [of n] nat_of_digits_snoc digit_char_props)
  qed
qed

lemma py_isdecimal_str_nat: "py_isdecimal (str_nat n)"
proof (induction n rule: str_nat.induct)
  case (1 n)
  then show ?case
    by (cases "n < 10") (simp_all add: str_nat.simps [of n] py_isdecimal_def digit_char_props)
qed

section \<open>Dictionaries\<close>

type_synonym ('k, 'v) dict = "('k \<times> 'v) list"

abbreviation keys :: "('k, 'v) dict \<Rightarrow> 'k list" where
  "keys d \<equiv> map fst d"

abbreviation dict_wf :: "('k, 'v) dict \<Rightarrow> bool" where
  "dict_wf d \<equiv> distinct (keys d)"

text \<open>
  The contract of a Python dictionary, as its clients use it: a lookup after an update or a
  deletion, and that both keep the keys distinct.
\<close>

locale finite_dict =
  fixes lookup :: "'d \<Rightarrow> 'k \<Rightarrow> 'v option"
    and update :: "'k \<Rightarrow> 'v \<Rightarrow> 'd \<Rightarrow> 'd"
    and delete :: "'k \<Rightarrow> 'd \<Rightarrow> 'd"
    and wf :: "'d \<Rightarrow> bool"
  assumes lookup_update: "lookup (update k v d) = (lookup d)(k \<mapsto> v)"
    and lookup_delete: "lookup (delete k d) = (lookup d)(k := None)"
    and wf_update: "wf d \<Longrightarrow> wf (update k v d)"
    and wf_delete: "wf d \<Longrightarrow> wf (delete k d)"
    and finite_lookup: "finite (dom (lookup d))"
begin

lemma lookup_update_same: "lookup (update k v d) k = Some v"
  by (simp add: lookup_update)

lemma lookup_update_other: "k \<noteq> k' \<Longrightarrow> lookup (update k v d) k' = lookup d k'"
  by (simp add: lookup_update)

lemma lookup_delete_other: "k \<noteq> k' \<Longrightarrow> lookup (delete k d) k' = lookup d k'"
  by (simp add: lookup_delete)

lemma lookup_fold_delete:
  "lookup (fold delete ks d) k = (if k \<in> set ks then None else lookup d k)"
  by (induction ks arbitrary: d) (auto simp: lookup_delete)

lemma wf_fold_delete: "wf d \<Longrightarrow> wf (fold delete ks d)"
  by (induction ks arbitrary: d) (auto simp: wf_delete)

lemma dom_update: "dom (lookup (update k v d)) = insert k (dom (lookup d))"
  by (simp add: lookup_update)

lemma all_values_update:
  "(\<And>k' v'. lookup d k' = Some v' \<Longrightarrow> P k' v') \<Longrightarrow> P k v \<Longrightarrow>
   lookup (update k v d) k' = Some v' \<Longrightarrow> P k' v'"
  by (cases "k = k'") (auto simp: lookup_update)

end

interpretation alist: finite_dict map_of AList.update AList.delete dict_wf
proof (unfold_locales, goal_cases)
  case (1 k v d)
  show ?case by (rule update_conv')
next
  case (2 k d)
  show ?case by (rule delete_conv')
next
  case (3 d k v)
  then show ?case by (rule distinct_update)
next
  case (4 d k)
  then show ?case by (simp add: delete_keys distinct_removeAll)
next
  case (5 d)
  show ?case by (rule finite_dom_map_of)
qed

lemma fold_delete_filter:
  "fold AList.delete ks d = filter (\<lambda>(k, _). k \<notin> set ks) d"
proof (induction ks arbitrary: d)
  case (Cons k ks)
  show ?case unfolding fold.simps comp_def Cons.IH
    by (auto simp: AList.delete_eq case_prod_unfold intro: filter_cong)
qed (simp add: case_prod_unfold)

lemma set_update_subset: "set (AList.update k v d) \<subseteq> insert (k, v) (set d)"
  by (induction d) auto

lemma keys_update_new: "k \<notin> set (keys d) \<Longrightarrow> AList.update k v d = d @ [(k, v)]"
  by (induction d) auto

lemma keys_update_old: "k \<in> set (keys d) \<Longrightarrow> keys (AList.update k v d) = keys d"
  by (induction d) auto

section \<open>UTC timestamps\<close>

text \<open>
  A \<open>datetime\<close> in UTC: year, month, day, hour, minute, second, microsecond. The library's
  lexicographic order on tuples is the chronological order. The clock is an argument of the
  operations that read it.
\<close>

type_synonym datetime = "nat \<times> nat \<times> nat \<times> nat \<times> nat \<times> nat \<times> nat"

definition pad :: "nat \<Rightarrow> nat \<Rightarrow> string" where
  "pad w n = (let s = str_nat n in replicate (w - length s) (CHR ''0'') @ s)"

definition isoformat :: "datetime \<Rightarrow> string" where
  "isoformat t = (case t of (y, mo, d, h, mi, s, us) \<Rightarrow>
     pad 4 y @ ''-'' @ pad 2 mo @ ''-'' @ pad 2 d @ ''T'' @ pad 2 h @ '':'' @ pad 2 mi @ '':'' @ pad 2 s @
     (if us = 0 then [] else ''.'' @ pad 6 us) @ ''+00:00'')"

definition datetime_min :: datetime where
  "datetime_min = (1, 1, 1, 0, 0, 0, 0)"

section \<open>Reachable states\<close>

inductive reachable_from :: "('s \<Rightarrow> bool) \<Rightarrow> ('s \<Rightarrow> 's \<Rightarrow> bool) \<Rightarrow> 's \<Rightarrow> bool"
  for init :: "'s \<Rightarrow> bool" and step :: "'s \<Rightarrow> 's \<Rightarrow> bool" where
  reach_init: "init s \<Longrightarrow> reachable_from init step s"
| reach_step: "reachable_from init step s \<Longrightarrow> step s t \<Longrightarrow> reachable_from init step t"

text \<open>
  The contract of a component whose invariant every operation keeps; the client's lemmas say
  that the invariant then holds in every reachable state and along every run.
\<close>

locale inductive_invariant =
  fixes init :: "'s \<Rightarrow> bool"
    and step :: "'s \<Rightarrow> 's \<Rightarrow> bool"
    and I :: "'s \<Rightarrow> bool"
  assumes holds_init: "init s \<Longrightarrow> I s"
    and holds_step: "I s \<Longrightarrow> step s t \<Longrightarrow> I t"
begin

lemma holds_reachable: "reachable_from init step s \<Longrightarrow> I s"
  by (induction rule: reachable_from.induct) (auto intro: holds_init holds_step)

lemma holds_steps: "step\<^sup>*\<^sup>* s t \<Longrightarrow> I s \<Longrightarrow> I t"
  by (induction rule: rtranclp_induct) (auto intro: holds_step)

end

end
