(* ===== verification/Headers.thy ===== *)
theory Headers
  imports Prelude
begin

text \<open>
  Immutable case-insensitive headers (\<open>conformance/headers.py\<close>). \<open>FrozenHeaders\<close> keeps the
  display items in first-occurrence order and a lookup table keyed by the lower-cased name.
\<close>

datatype header_error = HeaderKeyError string

record FrozenHeaders =
  fh_items :: "(string \<times> string) list"
  fh_lookup :: "(string, string) dict"

definition iter_header_items :: "(string \<times> string) list option \<Rightarrow> (string \<times> string) list" where
  "iter_header_items hs = (case hs of None \<Rightarrow> [] | Some items \<Rightarrow> items)"

fun normalize_headers ::
  "(string, string \<times> string) dict \<Rightarrow> (string \<times> string) list \<Rightarrow> (string, string \<times> string) dict" where
  "normalize_headers normalized [] = normalized"
| "normalize_headers normalized ((name, v) # rest) =
     (case map_of normalized (py_lower name) of
        Some (original_name, _) \<Rightarrow>
          normalize_headers (AList.update (py_lower name) (original_name, v) normalized) rest
      | None \<Rightarrow> normalize_headers (AList.update (py_lower name) (name, v) normalized) rest)"

definition freeze_headers :: "(string \<times> string) list option \<Rightarrow> FrozenHeaders" where
  "freeze_headers hs =
     (let normalized = normalize_headers [] (iter_header_items hs)
      in \<lparr>fh_items = map snd normalized,
          fh_lookup = map (\<lambda>(lower_name, (_, v)). (lower_name, v)) normalized\<rparr>)"

definition headers_getitem :: "FrozenHeaders \<Rightarrow> string \<Rightarrow> header_error + string" where
  "headers_getitem h key =
     (case map_of (fh_lookup h) (py_lower key) of
        None \<Rightarrow> Inl (HeaderKeyError (py_lower key))
      | Some v \<Rightarrow> Inr v)"

definition headers_iter :: "FrozenHeaders \<Rightarrow> string list" where
  "headers_iter h = map fst (fh_items h)"

definition headers_len :: "FrozenHeaders \<Rightarrow> nat" where
  "headers_len h = length (fh_items h)"

definition headers_contains :: "FrozenHeaders \<Rightarrow> string \<Rightarrow> bool" where
  "headers_contains h key = (py_lower key \<in> set (keys (fh_lookup h)))"

section \<open>Specification: the last value under any casing of the name\<close>

definition last_value :: "(string \<times> string) list \<Rightarrow> string \<Rightarrow> string option" where
  "last_value items key =
     (case filter (\<lambda>(n, _). py_lower n = py_lower key) items of
        [] \<Rightarrow> None
      | x # xs \<Rightarrow> Some (snd (last (x # xs))))"

text \<open>The first spelling of each name, in order of first appearance.\<close>

fun first_spellings :: "string list \<Rightarrow> string list \<Rightarrow> string list" where
  "first_spellings seen [] = []"
| "first_spellings seen (n # ns) =
     (if py_lower n \<in> set seen then first_spellings seen ns
      else n # first_spellings (py_lower n # seen) ns)"

section \<open>Lemmas\<close>

lemma normalize_headers_wf: "dict_wf d \<Longrightarrow> dict_wf (normalize_headers d items)"
proof (induction d items rule: normalize_headers.induct)
  case (2 normalized name v rest)
  then show ?case by (auto split: option.splits simp: distinct_update)
qed simp

lemma last_value_Nil [simp]: "last_value [] key = None"
  by (simp add: last_value_def)

lemma last_value_Cons:
  "last_value ((n, v) # items) key =
     (case last_value items key of
        Some w \<Rightarrow> Some w
      | None \<Rightarrow> if py_lower n = py_lower key then Some v else None)"
  by (auto simp: last_value_def split: list.splits)

lemma normalize_headers_value:
  "map_option snd (map_of (normalize_headers d items) (py_lower key)) =
     (case last_value items key of
        Some w \<Rightarrow> Some w
      | None \<Rightarrow> map_option snd (map_of d (py_lower key)))"
proof (induction d items rule: normalize_headers.induct)
  case (2 normalized name v rest)
  then show ?case
    by (cases "map_of normalized (py_lower name)")
       (auto simp: last_value_Cons alist.lookup_update split: option.splits)
qed simp

lemma map_of_values:
  "map_of (map (\<lambda>(lower_name, (_, v)). (lower_name, v)) d) k = map_option snd (map_of d k)"
  by (induction d) auto

lemma fh_lookup_value:
  "map_of (fh_lookup (freeze_headers hs)) (py_lower key) = last_value (iter_header_items hs) key"
  using normalize_headers_value [of "[]" "iter_header_items hs" key]
  by (simp add: freeze_headers_def Let_def map_of_values split: option.splits)

definition display :: "(string, string \<times> string) dict \<Rightarrow> string list" where
  "display d = map (\<lambda>p. fst (snd p)) d"

lemma display_update_old:
  "map_of d l = Some (n, w) \<Longrightarrow> display (AList.update l (n, v) d) = display d"
  by (induction d) (auto simp: display_def)

lemma first_spellings_cong: "set xs = set ys \<Longrightarrow> first_spellings xs ns = first_spellings ys ns"
proof (induction ns arbitrary: xs ys)
  case (Cons n ns)
  have 1: "set (py_lower n # xs) = set (py_lower n # ys)" using Cons.prems by simp
  show ?case
    by (simp add: Cons.IH [OF Cons.prems] Cons.IH [OF 1] Cons.prems)
qed simp

lemma normalize_headers_display:
  "display (normalize_headers d items) = display d @ first_spellings (keys d) (map fst items)"
proof (induction d items rule: normalize_headers.induct)
  case (2 d name v rest)
  show ?case
  proof (cases "map_of d (py_lower name)")
    case None
    then have new: "py_lower name \<notin> set (keys d)"
      by (simp add: map_of_eq_None_iff)
    have "first_spellings (keys d @ [py_lower name]) ns =
          first_spellings (py_lower name # keys d) ns" for ns
      by (rule first_spellings_cong) simp
    with 2(1) [OF None] None new show ?thesis
      by (simp add: keys_update_new display_def)
  next
    case (Some q)
    obtain n w where q: "q = (n, w)" by (cases q)
    have mem: "py_lower name \<in> set (keys d)"
      using Some by (metis dom_map_of_conv_image_fst domI list.set_map)
    have "keys (AList.update (py_lower name) (n, v) d) = keys d"
      using mem by (rule keys_update_old)
    with 2(2) [OF Some q [symmetric]] Some q mem display_update_old [OF Some [unfolded q], of v]
    show ?thesis by simp
  qed
qed simp

lemma headers_iter_spelling:
  "headers_iter (freeze_headers hs) = first_spellings [] (map fst (iter_header_items hs))"
  using normalize_headers_display [of "[]" "iter_header_items hs"]
  by (simp add: headers_iter_def freeze_headers_def display_def Let_def comp_def)

section \<open>Properties\<close>

text \<open>Frozen headers are a case-insensitive map: looking a name up under any casing gives the value of the last
  item whose name matches up to case, or the KeyError of the lower-cased name; membership agrees with lookup;
  and iteration shows each name once, in its first spelling and first-occurrence order.\<close>

lemma frozen_headers_case_insensitive:
  "headers_getitem (freeze_headers hs) key =
     (case last_value (iter_header_items hs) key of
        None \<Rightarrow> Inl (HeaderKeyError (py_lower key)) | Some v \<Rightarrow> Inr v) \<and>
   (headers_contains (freeze_headers hs) key \<longleftrightarrow> last_value (iter_header_items hs) key \<noteq> None) \<and>
   headers_iter (freeze_headers hs) = first_spellings [] (map fst (iter_header_items hs))"
proof -
  have "headers_contains (freeze_headers hs) key \<longleftrightarrow> map_of (fh_lookup (freeze_headers hs)) (py_lower key) \<noteq> None"
    by (simp add: headers_contains_def map_of_eq_None_iff)
  then show ?thesis
    unfolding headers_getitem_def fh_lookup_value by (simp add: headers_iter_spelling)
qed

end
