(* ===== verification/Json.thy ===== *)
theory Json
  imports Prelude
begin

text \<open>
  JSON values (\<open>conformance/json_types.py\<close>) as Python decodes them, and the operations of the
  language the suite applies to them: \<open>==\<close>, \<open>str\<close>, \<open>repr\<close> and \<open>json.dumps\<close>.

  A decoded object is an association list in document order; \<open>wf_json\<close> says that no object
  repeats a key, which holds of every decoded document because a Python \<open>dict\<close> cannot repeat
  one. A finite float is its exact value (a rational) together with the text \<open>repr\<close> prints for
  it; the three other floats a JSON document can hold are constructors of their own.
\<close>

datatype pyfloat = Finite rat string | NaN | PosInf | NegInf

datatype json =
    JNull
  | JBool bool
  | JInt int
  | JFloat pyfloat
  | JStr string
  | JArr "json list"
  | JObj "(string \<times> json) list"

type_synonym json_object = "(string \<times> json) list"

section \<open>Induction and termination support\<close>

lemma size_member [termination_simp]:
  "(k, v) \<in> set kvs \<Longrightarrow> size v < Suc (size_list (size_prod (\<lambda>_. 0) size) kvs)"
  by (induction kvs) auto

lemma size_member_zip [termination_simp]:
  "(x, y) \<in> set (zip xs ys) \<Longrightarrow> size x < Suc (size_list size xs)"
proof (induction xs ys rule: list_induct2')
  case (4 x xs y ys)
  then show ?case by auto
qed auto

lemma json_induct [case_names JNull JBool JInt JFloat JStr JArr JObj, induct type: json]:
  assumes "P JNull" "\<And>b. P (JBool b)" "\<And>i. P (JInt i)" "\<And>f. P (JFloat f)" "\<And>s. P (JStr s)"
    and "\<And>xs. (\<And>x. x \<in> set xs \<Longrightarrow> P x) \<Longrightarrow> P (JArr xs)"
    and "\<And>kvs. (\<And>k v. (k, v) \<in> set kvs \<Longrightarrow> P v) \<Longrightarrow> P (JObj kvs)"
  shows "P j"
proof (induction j rule: json.induct)
  case (JObj kvs)
  have "P v" if "(k, v) \<in> set kvs" for k v
    using JObj.IH [OF that] by simp
  then show ?case by (rule assms(7))
qed (auto intro: assms(1-6))

fun is_object :: "json \<Rightarrow> bool" where
  "is_object (JObj _) = True"
| "is_object _ = False"

fun is_array :: "json \<Rightarrow> bool" where
  "is_array (JArr _) = True"
| "is_array _ = False"

fun is_string :: "json \<Rightarrow> bool" where
  "is_string (JStr _) = True"
| "is_string _ = False"

fun obj_of :: "json \<Rightarrow> json_object" where
  "obj_of (JObj kvs) = kvs"
| "obj_of _ = []"

fun str_of :: "json \<Rightarrow> string" where
  "str_of (JStr s) = s"
| "str_of _ = []"

fun arr_of :: "json \<Rightarrow> json list" where
  "arr_of (JArr xs) = xs"
| "arr_of _ = []"

text \<open>\<open>obj.get(key)\<close>: a missing key reads as \<open>None\<close>, like a null member.\<close>

definition jget :: "json_object \<Rightarrow> string \<Rightarrow> json" where
  "jget obj key = (case map_of obj key of None \<Rightarrow> JNull | Some v \<Rightarrow> v)"

lemma jget_Cons [simp]: "jget ((k, v) # obj) key = (if key = k then v else jget obj key)"
  by (simp add: jget_def)

lemma jget_Nil [simp]: "jget [] key = JNull"
  by (simp add: jget_def)

lemma jget_append: "jget (a @ b) key = (if key \<in> set (keys a) then jget a key else jget b key)"
  by (induction a) (auto split: if_splits)

section \<open>Typed field readers\<close>

text \<open>
  The boundary parsers of the suite share four readers that differ only in the exception they
  raise: the exception's constructor is the first argument.
\<close>

definition read_object :: "(string \<Rightarrow> 'e) \<Rightarrow> json \<Rightarrow> string \<Rightarrow> 'e + json_object" where
  "read_object err v location =
     (case v of JObj kvs \<Rightarrow> Inr kvs | _ \<Rightarrow> Inl (err (location @ '' must be a JSON object'')))"

definition read_field :: "(string \<Rightarrow> 'e) \<Rightarrow> json_object \<Rightarrow> string \<Rightarrow> string \<Rightarrow> 'e + json" where
  "read_field err parent key location =
     (case map_of parent key of
        None \<Rightarrow> Inl (err (location @ ''.'' @ key @ '' is required''))
      | Some v \<Rightarrow> Inr v)"

definition read_array :: "(string \<Rightarrow> 'e) \<Rightarrow> json_object \<Rightarrow> string \<Rightarrow> string \<Rightarrow> 'e + json list" where
  "read_array err parent key location =
     rbind (read_field err parent key location)
       (\<lambda>v. case v of JArr xs \<Rightarrow> Inr xs
              | _ \<Rightarrow> Inl (err (location @ ''.'' @ key @ '' must be a JSON array'')))"

definition read_non_empty_string ::
  "(string \<Rightarrow> 'e) \<Rightarrow> json_object \<Rightarrow> string \<Rightarrow> string \<Rightarrow> 'e + string" where
  "read_non_empty_string err parent key location =
     rbind (read_field err parent key location)
       (\<lambda>v. case v of
               JStr s \<Rightarrow> (if py_strip s = [] then Inl (err (location @ ''.'' @ key @ '' must not be empty''))
                          else Inr (py_strip s))
             | _ \<Rightarrow> Inl (err (location @ ''.'' @ key @ '' must be a string'')))"

lemma read_non_empty_string_Inr:
  "read_non_empty_string err parent key loc = Inr s \<longleftrightarrow>
     (\<exists>raw. map_of parent key = Some (JStr raw) \<and> py_strip raw = s \<and> s \<noteq> [])"
  by (auto simp: read_non_empty_string_def read_field_def result_simps
      split: option.splits json.splits if_splits)

lemma read_array_Inr:
  "read_array err parent key loc = Inr xs \<longleftrightarrow> map_of parent key = Some (JArr xs)"
  by (auto simp: read_array_def read_field_def result_simps split: option.splits json.splits)

lemma read_object_Inr: "read_object err v loc = Inr kvs \<longleftrightarrow> v = JObj kvs"
  by (auto simp: read_object_def split: json.splits)

lemmas reader_Inr = read_non_empty_string_Inr read_array_Inr read_object_Inr

section \<open>Well-formed values\<close>

fun wf_json :: "json \<Rightarrow> bool" where
  "wf_json (JArr xs) = (\<forall>x \<in> set xs. wf_json x)"
| "wf_json (JObj kvs) = (dict_wf kvs \<and> (\<forall>(k, v) \<in> set kvs. wf_json v))"
| "wf_json _ = True"

lemma wf_json_member: "wf_json (JObj kvs) \<Longrightarrow> map_of kvs k = Some v \<Longrightarrow> wf_json v"
  by (auto dest!: map_of_SomeD)

section \<open>Python equality\<close>

text \<open>
  The number of a value that compares as one: \<open>bool\<close> is a subclass of \<open>int\<close>, so \<open>True == 1\<close>;
  an integer and a finite float compare by exact value.
\<close>

fun num_eq :: "pyfloat \<Rightarrow> pyfloat \<Rightarrow> bool" where
  "num_eq (Finite a _) (Finite b _) = (a = b)"
| "num_eq PosInf PosInf = True"
| "num_eq NegInf NegInf = True"
| "num_eq _ _ = False"

fun as_number :: "json \<Rightarrow> pyfloat option" where
  "as_number (JBool b) = Some (Finite (if b then 1 else 0) [])"
| "as_number (JInt i) = Some (Finite (of_int i) [])"
| "as_number (JFloat f) = Some f"
| "as_number _ = None"

fun py_eq :: "json \<Rightarrow> json \<Rightarrow> bool" where
  "py_eq (JArr xs) (JArr ys) =
     (length xs = length ys \<and> list_all (\<lambda>(x, y). py_eq x y) (zip xs ys))"
| "py_eq (JObj kvs) (JObj lws) =
     (set (keys kvs) = set (keys lws) \<and>
      list_all (\<lambda>(k, v). case map_of lws k of None \<Rightarrow> False | Some w \<Rightarrow> py_eq v w) kvs)"
| "py_eq (JStr s) (JStr t) = (s = t)"
| "py_eq JNull JNull = True"
| "py_eq a b =
     (case (as_number a, as_number b) of
        (Some x, Some y) \<Rightarrow> num_eq x y
      | _ \<Rightarrow> False)"

section \<open>Text of a value\<close>

definition hex_digit :: "nat \<Rightarrow> char" where
  "hex_digit n = (if n < 10 then digit_char n else char_of (87 + n))"

definition hex2 :: "nat \<Rightarrow> string" where
  "hex2 n = [hex_digit (n div 16), hex_digit (n mod 16)]"

fun float_repr :: "pyfloat \<Rightarrow> string" where
  "float_repr (Finite _ r) = r"
| "float_repr NaN = ''nan''"
| "float_repr PosInf = ''inf''"
| "float_repr NegInf = ''-inf''"

text \<open>
  \<open>repr\<close> of a string: single quotes unless the text holds a single quote and no double quote;
  the quote in use, the backslash and the unprintable characters of Latin-1 are escaped.
\<close>

definition repr_quote :: "string \<Rightarrow> char" where
  "repr_quote s =
     (if CHR 39 \<in> set s \<and> CHR 34 \<notin> set s then CHR 34 else CHR 39)"

definition repr_char :: "char \<Rightarrow> char \<Rightarrow> string" where
  "repr_char q c = (let n = code_of c in
     if c = q \<or> n = 92 then [CHR 92, c]
     else if n = 9 then [CHR 92, CHR ''t'']
     else if n = 10 then [CHR 92, CHR ''n'']
     else if n = 13 then [CHR 92, CHR ''r'']
     else if n < 32 \<or> (127 \<le> n \<and> n \<le> 160) \<or> n = 173 then [CHR 92, CHR ''x''] @ hex2 n
     else [c])"

definition repr_str :: "string \<Rightarrow> string" where
  "repr_str s = (let q = repr_quote s in [q] @ concat (map (repr_char q) s) @ [q])"

fun py_repr :: "json \<Rightarrow> string" where
  "py_repr JNull = ''None''"
| "py_repr (JBool b) = (if b then ''True'' else ''False'')"
| "py_repr (JInt i) = str_int i"
| "py_repr (JFloat f) = float_repr f"
| "py_repr (JStr s) = repr_str s"
| "py_repr (JArr xs) = ''['' @ join '', '' (map py_repr xs) @ '']''"
| "py_repr (JObj kvs) =
     ''{'' @ join '', '' (map (\<lambda>(k, v). repr_str k @ '': '' @ py_repr v) kvs) @ ''}''"

definition py_str :: "json \<Rightarrow> string" where
  "py_str j = (case j of JStr s \<Rightarrow> s | _ \<Rightarrow> py_repr j)"

text \<open>\<open>json.dumps\<close> with the default \<open>ensure_ascii\<close> and the separators the suite passes.\<close>

definition dumps_char :: "char \<Rightarrow> string" where
  "dumps_char c = (let n = code_of c in
     if n = 34 \<or> n = 92 then [CHR 92, c]
     else if n = 8 then [CHR 92, CHR ''b'']
     else if n = 9 then [CHR 92, CHR ''t'']
     else if n = 10 then [CHR 92, CHR ''n'']
     else if n = 12 then [CHR 92, CHR ''f'']
     else if n = 13 then [CHR 92, CHR ''r'']
     else if n < 32 \<or> 127 < n then [CHR 92] @ ''u00'' @ hex2 n
     else [c])"

definition dumps_str :: "string \<Rightarrow> string" where
  "dumps_str s = [CHR 34] @ concat (map dumps_char s) @ [CHR 34]"

fun float_dumps :: "pyfloat \<Rightarrow> string" where
  "float_dumps (Finite _ r) = r"
| "float_dumps NaN = ''NaN''"
| "float_dumps PosInf = ''Infinity''"
| "float_dumps NegInf = ''-Infinity''"

fun json_dumps :: "string \<Rightarrow> string \<Rightarrow> json \<Rightarrow> string" where
  "json_dumps isep ksep JNull = ''null''"
| "json_dumps isep ksep (JBool b) = (if b then ''true'' else ''false'')"
| "json_dumps isep ksep (JInt i) = str_int i"
| "json_dumps isep ksep (JFloat f) = float_dumps f"
| "json_dumps isep ksep (JStr s) = dumps_str s"
| "json_dumps isep ksep (JArr xs) = ''['' @ join isep (map (json_dumps isep ksep) xs) @ '']''"
| "json_dumps isep ksep (JObj kvs) =
     ''{'' @ join isep (map (\<lambda>(k, v). dumps_str k @ ksep @ json_dumps isep ksep v) kvs) @ ''}''"

end
