(* ===== verification/Manifest_Model.thy ===== *)
theory Manifest_Model
  imports Json
begin

text \<open>
  The data of a parsed manifest (\<open>conformance/manifest.py\<close>): requests, assertions, v0 tests, v1
  steps and the manifest itself. A \<open>Literal\<close> type of the source is a datatype with one
  constructor per literal; a frozen dataclass is a record whose field names carry a prefix,
  because record fields share one name space.
\<close>

section \<open>Literals\<close>

datatype ManifestSchemaVersion = V0 | V1

datatype CertificationCoverage = Partial | Complete

fun coverage_name :: "CertificationCoverage \<Rightarrow> string" where
  "coverage_name Partial = ''partial''"
| "coverage_name Complete = ''complete''"

datatype StepPhase = SetupPhase | ExecutionPhase

fun phase_name :: "StepPhase \<Rightarrow> string" where
  "phase_name SetupPhase = ''setup''"
| "phase_name ExecutionPhase = ''execution''"

datatype RequestMethod = GET | POST | PUT | PATCH | DELETE

datatype DetachedJwsProfile = LegacyB64False | ObV314Plus

datatype JsonFieldRule =
    RuleRequired | RuleHttpsUrl | RuleArray | RuleAbsent | RuleString | RuleNumber
  | RuleBoolean | RuleObject | RuleNonEmptyArray | RuleMinItems | RuleEquals | RuleOneOf
  | RuleAllItemsHaveField | RuleAllItemsAbsentFields

datatype HeaderRule = HeaderPresent | HeaderAbsent | HeaderEquals | HeaderContains

section \<open>Requests\<close>

datatype ManifestBody = JsonBody json | FormBody "(string, string) dict"

record DetachedJwsPolicy =
  dj_omit_protected_headers :: "string list"
  dj_profile :: "DetachedJwsProfile option"

record ManifestRequest =
  rq_method :: RequestMethod
  rq_url :: string
  rq_headers :: "(string, string) dict option"
  rq_body :: "ManifestBody option"
  rq_detached_jws :: "DetachedJwsPolicy option"

record GeneratedRequestObject =
  go_audience :: "string option"
  go_openbanking_intent_id :: "string option"

datatype RequestObjectValue = OpaqueRequestObject string | GeneratedObject GeneratedRequestObject

section \<open>Assertions\<close>

record HttpStatusAssertion =
  hs_expected :: "int option"
  hs_expected_one_of :: "int list"

record JsonFieldAssertion =
  jf_path :: string
  jf_rule :: JsonFieldRule
  jf_value :: json
  jf_values :: "json list option"
  jf_min_items :: "int option"
  jf_field :: "string option"
  jf_fields :: "string list"

record HeaderAssertion =
  ha_name :: string
  ha_rule :: HeaderRule
  ha_value :: "string option"

record ResponseSchemaAssertion =
  rs_source :: string
  rs_document :: string
  rs_schema_ref :: "string option"
  rs_schema :: "json_object option"
  rs_body_path :: "string option"

record LegacyFcsAssertion =
  lf_row_key :: string
  lf_all_of :: "json_object list"
  lf_one_of :: "json_object list"
  lf_last_if_all :: "json_object list"
  lf_schema_document :: "string option"
  lf_schema_refs :: "(int, string) dict"

datatype ManifestAssertion =
    AHttpStatus HttpStatusAssertion
  | AJsonField JsonFieldAssertion
  | AHeader HeaderAssertion
  | AResponseSchema ResponseSchemaAssertion
  | ALegacyFcs LegacyFcsAssertion

section \<open>v0 tests\<close>

record ManifestFollowUp =
  fu_assertions :: "ManifestAssertion list"

record ManifestTest =
  mt_id :: string
  mt_name :: string
  mt_request :: ManifestRequest
  mt_assertions :: "ManifestAssertion list"
  mt_follow_up :: "ManifestFollowUp option"

section \<open>v1 steps\<close>

record ManifestStep =
  ms_id :: string
  ms_name :: string
  ms_request :: ManifestRequest
  ms_assertions :: "ManifestAssertion list"
  ms_warning :: "string option"
  ms_mandatory :: bool
  ms_optional :: bool
  ms_group :: string
  ms_phase :: StepPhase
  ms_token_endpoint_auth_policy :: bool
  ms_required_token_id :: "string option"
  ms_produces_token_id :: "string option"
  ms_response_signature_policy :: bool

datatype PsuAuthorizationMode = Manual | Headless

record PsuAuthorizationStep =
  pa_id :: string
  pa_name :: string
  pa_mode :: PsuAuthorizationMode
  pa_authorization_endpoint :: string
  pa_client_id :: string
  pa_redirect_uri :: string
  pa_response_type :: string
  pa_scope :: string
  pa_state :: "string option"
  pa_nonce :: "string option"
  pa_request_object :: "RequestObjectValue option"
  pa_mandatory :: bool
  pa_optional :: bool
  pa_group :: string
  pa_phase :: StepPhase

datatype V1Step = HttpStep ManifestStep | PsuStep PsuAuthorizationStep

text \<open>The attributes both step kinds have.\<close>

fun step_id :: "V1Step \<Rightarrow> string" where
  "step_id (HttpStep s) = ms_id s"
| "step_id (PsuStep s) = pa_id s"

fun step_name :: "V1Step \<Rightarrow> string" where
  "step_name (HttpStep s) = ms_name s"
| "step_name (PsuStep s) = pa_name s"

fun step_mandatory :: "V1Step \<Rightarrow> bool" where
  "step_mandatory (HttpStep s) = ms_mandatory s"
| "step_mandatory (PsuStep s) = pa_mandatory s"

fun step_optional :: "V1Step \<Rightarrow> bool" where
  "step_optional (HttpStep s) = ms_optional s"
| "step_optional (PsuStep s) = pa_optional s"

fun step_group :: "V1Step \<Rightarrow> string" where
  "step_group (HttpStep s) = ms_group s"
| "step_group (PsuStep s) = pa_group s"

fun step_phase :: "V1Step \<Rightarrow> StepPhase" where
  "step_phase (HttpStep s) = ms_phase s"
| "step_phase (PsuStep s) = pa_phase s"

section \<open>The manifest\<close>

record Manifest =
  mf_schema_version :: ManifestSchemaVersion
  mf_name :: string
  mf_tests :: "ManifestTest list"
  mf_steps :: "V1Step list"
  mf_certification_coverage :: CertificationCoverage

text \<open>
  What the parser guarantees of a v1 manifest and the clients rely on: step ids are distinct,
  and no step is both mandatory and optional.
\<close>

definition wf_manifest :: "Manifest \<Rightarrow> bool" where
  "wf_manifest m =
     (distinct (map step_id (mf_steps m)) \<and>
      (\<forall>s \<in> set (mf_steps m). \<not> (step_mandatory s \<and> step_optional s)))"

section \<open>A small manifest\<close>

text \<open>A setup step and a mandatory execution step, the input of the concrete instances below.\<close>

definition sample_step :: "string \<Rightarrow> StepPhase \<Rightarrow> bool \<Rightarrow> V1Step" where
  "sample_step i phase mandatory = HttpStep
     \<lparr>ms_id = i, ms_name = ''Step '' @ i,
      ms_request = \<lparr>rq_method = GET, rq_url = ''https://bank.example/x'', rq_headers = None, rq_body = None,
                    rq_detached_jws = None\<rparr>,
      ms_assertions = [], ms_warning = None, ms_mandatory = mandatory, ms_optional = False, ms_group = ''ais'',
      ms_phase = phase, ms_token_endpoint_auth_policy = False, ms_required_token_id = None,
      ms_produces_token_id = None, ms_response_signature_policy = False\<rparr>"

definition sample_manifest :: Manifest where
  "sample_manifest =
     \<lparr>mf_schema_version = V1, mf_name = ''sample'', mf_tests = [],
      mf_steps = [sample_step ''token'' SetupPhase False, sample_step ''accounts'' ExecutionPhase True],
      mf_certification_coverage = Complete\<rparr>"

lemma sample_manifest_facts [simp]:
  "mf_schema_version sample_manifest = V1" "mf_certification_coverage sample_manifest = Complete"
  "mf_steps sample_manifest = [sample_step ''token'' SetupPhase False, sample_step ''accounts'' ExecutionPhase True]"
  "step_id (sample_step i ph b) = i" "step_mandatory (sample_step i ph b) = b"
  "step_optional (sample_step i ph b) = False" "step_phase (sample_step i ph b) = ph"
  "step_group (sample_step i ph b) = ''ais''" "wf_manifest sample_manifest"
  by (simp_all add: sample_manifest_def sample_step_def wf_manifest_def)

end
