(* ===== verification/Placeholder_Context.thy ===== *)
theory Placeholder_Context
  imports Json Headers
begin

text \<open>
  The execution context and its placeholders (\<open>conformance/context.py\<close>): the records of executed steps and
  captured tokens, the resolution of one dot path, and the substitution of every \<open>${...}\<close> token of a template or
  of the string leaves of a JSON structure. The two regular expressions of the module are the functions
  \<open>has_malformed\<close> and \<open>substitute\<close>. \<open>EmptyPlaceholderError\<close> is the \<open>PlaceholderResolutionError\<close> with the
  fixed message about \<open>${}\<close>.
\<close>

datatype placeholder_error =
    PlaceholderResolutionError string
  | MissingPredecessorResponseError string
  | EmptyPlaceholderError

record RequestRecord =
  rr_method :: string
  rr_url :: string

record ResponseRecord =
  rp_status_code :: int
  rp_headers :: FrozenHeaders
  rp_body :: json_object

record StepRecord =
  rec_request :: RequestRecord
  rec_response :: "ResponseRecord option"

record RuntimeConfig =
  cf_discovery_url :: "string option"
  cf_oauth_resource_base_url :: "string option"
  cf_oauth_client_id :: "string option"
  cf_oauth_redirect_uri :: "string option"
  cf_oauth_authorization_endpoint :: "string option"
  cf_oauth_issuer :: "string option"
  cf_oauth_token_endpoint :: "string option"
  cf_oauth_response_type :: "string option"
  cf_oauth_request_object_signing_alg :: "string option"

record TokenRecord =
  tk_access_token :: string

record ExecutionContext =
  ec_steps :: "(string, StepRecord) dict"
  ec_tokens :: "(string, TokenRecord) dict"
  ec_config :: "RuntimeConfig option"

definition response_record :: "int \<Rightarrow> json_object \<Rightarrow> (string \<times> string) list option \<Rightarrow> ResponseRecord" where
  "response_record status_code body headers =
     \<lparr>rp_status_code = status_code, rp_headers = freeze_headers headers, rp_body = body\<rparr>"

definition record_step :: "ExecutionContext \<Rightarrow> string \<Rightarrow> RequestRecord \<Rightarrow> ResponseRecord option \<Rightarrow> ExecutionContext" where
  "record_step context step_id request response =
     context\<lparr>ec_steps := AList.update step_id \<lparr>rec_request = request, rec_response = response\<rparr> (ec_steps context)\<rparr>"

definition record_token :: "ExecutionContext \<Rightarrow> string \<Rightarrow> string \<Rightarrow> ExecutionContext" where
  "record_token context token_id access_token =
     context\<lparr>ec_tokens := AList.update token_id \<lparr>tk_access_token = access_token\<rparr> (ec_tokens context)\<rparr>"

section \<open>Syntax of placeholders\<close>

definition TRUNCATION_CONTEXT_CHARS :: nat where
  "TRUNCATION_CONTEXT_CHARS = 20"

definition opener :: string where
  "opener = ''${''"

text \<open>The suffix of the template from its last \<open>${\<close> on (\<open>rfind\<close>).\<close>

fun last_opener :: "string \<Rightarrow> string option" where
  "last_opener [] = None"
| "last_opener (c # cs) =
     (case last_opener cs of
        Some t \<Rightarrow> Some t
      | None \<Rightarrow> if starts_with opener (c # cs) then Some (c # cs) else None)"

definition truncate_around_malformed :: "string \<Rightarrow> string" where
  "truncate_around_malformed template =
     (case last_opener template of
        None \<Rightarrow> ''...''
      | Some t \<Rightarrow>
          let n = 2 + TRUNCATION_CONTEXT_CHARS
          in take n t @ (if n < length t then ''...'' else []))"

definition before_brace :: "string \<Rightarrow> string" where
  "before_brace s = takeWhile (\<lambda>c. c \<noteq> CHR ''}'') s"

definition after_brace :: "string \<Rightarrow> string" where
  "after_brace s = dropWhile (\<lambda>c. c \<noteq> CHR ''}'') s"

text \<open>
  \<open>\$\{[^}]*$\<close> with \<open>re.MULTILINE\<close>: an opener from which the end of the text, or of a line, is reached
  without a closing brace.
\<close>

definition malformed_here :: "string \<Rightarrow> bool" where
  "malformed_here rest = (after_brace rest = [] \<or> CHR ''\<newline>'' \<in> set (before_brace rest))"

fun has_malformed :: "string \<Rightarrow> bool" where
  "has_malformed [] = False"
| "has_malformed (c # cs) =
     (starts_with opener (c # cs) \<and> malformed_here (drop 2 (c # cs)) \<or> has_malformed cs)"

definition validate_placeholder_syntax :: "string \<Rightarrow> placeholder_error + unit" where
  "validate_placeholder_syntax template =
     (if str_contains ''${}'' template then Inl EmptyPlaceholderError
      else if has_malformed template
      then Inl (PlaceholderResolutionError (''Unterminated placeholder in template (missing closing ''
             @ quoted ''}'' @ ''): '' @ truncate_around_malformed template))
      else Inr ())"

section \<open>Resolution of one path\<close>

definition ph :: "string \<Rightarrow> string" where
  "ph dot_path = ''${'' @ dot_path @ ''}''"

definition ALLOWED_CONFIG_PLACEHOLDERS :: "string list" where
  "ALLOWED_CONFIG_PLACEHOLDERS =
     [''${config.discoveryUrl}'', ''${config.oauth.clientId}'', ''${config.oauth.redirectUri}'',
      ''${config.oauth.authorizationEndpoint}'', ''${config.oauth.issuer}'', ''${config.oauth.tokenEndpoint}'',
      ''${config.oauth.resourceBaseUrl}'', ''${config.oauth.responseType}'',
      ''${config.oauth.requestObjectSigningAlg}'']"

definition oauth_config_fields :: "string list" where
  "oauth_config_fields =
     [''clientId'', ''redirectUri'', ''authorizationEndpoint'', ''issuer'', ''tokenEndpoint'', ''resourceBaseUrl'',
      ''responseType'', ''requestObjectSigningAlg'']"

definition unavailable :: "string \<Rightarrow> string \<Rightarrow> placeholder_error" where
  "unavailable what dot_path =
     PlaceholderResolutionError (what @ '' is not available for placeholder: '' @ ph dot_path)"

definition config_value :: "string option \<Rightarrow> string \<Rightarrow> string \<Rightarrow> placeholder_error + string" where
  "config_value v what dot_path = (case v of None \<Rightarrow> Inl (unavailable what dot_path) | Some s \<Rightarrow> Inr s)"

definition resolve_config_path :: "string list \<Rightarrow> ExecutionContext \<Rightarrow> string \<Rightarrow> placeholder_error + string" where
  "resolve_config_path segments context dot_path =
     (let is_simple_field = (length segments = 2 \<and> segments ! 1 = ''discoveryUrl'');
          is_oauth_field = (length segments = 3 \<and> segments ! 1 = ''oauth'' \<and> segments ! 2 \<in> set oauth_config_fields)
      in if \<not> (is_simple_field \<or> is_oauth_field)
         then Inl (PlaceholderResolutionError (''Unsupported config placeholder: '' @ ph dot_path
                @ '' (allowed: '' @ join '', '' ALLOWED_CONFIG_PLACEHOLDERS @ '')''))
         else case ec_config context of
           None \<Rightarrow> Inl (unavailable ''Runtime config'' dot_path)
         | Some cfg \<Rightarrow>
             let oauth_section = (cf_oauth_client_id cfg \<noteq> None \<or> cf_oauth_redirect_uri cfg \<noteq> None);
                 sub_field = segments ! 2
             in if is_simple_field then config_value (cf_discovery_url cfg) ''config.discoveryUrl'' dot_path
                else if sub_field = ''clientId'' then config_value (cf_oauth_client_id cfg) ''OAuth config'' dot_path
                else if sub_field = ''resourceBaseUrl''
                then config_value (cf_oauth_resource_base_url cfg)
                       (if oauth_section then ''oauth.resourceBaseUrl'' else ''OAuth config'') dot_path
                else if sub_field = ''authorizationEndpoint''
                then config_value (cf_oauth_authorization_endpoint cfg)
                       (if oauth_section then ''oauth.authorizationEndpoint'' else ''OAuth config'') dot_path
                else if sub_field = ''issuer'' then config_value (cf_oauth_issuer cfg) ''oauth.issuer'' dot_path
                else if sub_field = ''tokenEndpoint''
                then config_value (cf_oauth_token_endpoint cfg) ''oauth.tokenEndpoint'' dot_path
                else if sub_field = ''responseType''
                then config_value (cf_oauth_response_type cfg) ''oauth.responseType'' dot_path
                else if sub_field = ''requestObjectSigningAlg''
                then config_value (cf_oauth_request_object_signing_alg cfg) ''oauth.requestObjectSigningAlg'' dot_path
                else config_value (cf_oauth_redirect_uri cfg) ''OAuth config'' dot_path)"

definition resolve_token_path :: "string list \<Rightarrow> ExecutionContext \<Rightarrow> string \<Rightarrow> placeholder_error + string" where
  "resolve_token_path segments context dot_path =
     (if length segments \<noteq> 3
      then Inl (PlaceholderResolutionError (''Unsupported token placeholder: '' @ ph dot_path))
      else case map_of (ec_tokens context) (segments ! 1) of
        None \<Rightarrow> Inl (MissingPredecessorResponseError (''Token '' @ quoted (segments ! 1)
                  @ '' not found in execution context''))
      | Some token_record \<Rightarrow>
          if segments ! 2 \<noteq> ''access_token''
          then Inl (PlaceholderResolutionError (''Unsupported token field '' @ quoted (segments ! 2) @ '': '' @ ph dot_path))
          else Inr (tk_access_token token_record))"

definition resolve_request_path :: "RequestRecord \<Rightarrow> string \<Rightarrow> string list \<Rightarrow> string \<Rightarrow> placeholder_error + string" where
  "resolve_request_path request field_name remaining dot_path =
     (if field_name = ''method'' \<and> remaining = [] then Inr (rr_method request)
      else if field_name = ''url'' \<and> remaining = [] then Inr (rr_url request)
      else Inl (PlaceholderResolutionError (''Cannot resolve request path: '' @ ph dot_path)))"

definition resolve_list_segment :: "json list \<Rightarrow> string \<Rightarrow> string \<Rightarrow> placeholder_error + json" where
  "resolve_list_segment items segment dot_path =
     (let non_numeric = PlaceholderResolutionError (''Cannot traverse array with non-numeric segment ''
            @ quoted segment @ '': '' @ ph dot_path)
      in if \<not> py_isdecimal segment then Inl non_numeric
         else case int_of_decimal segment of
           None \<Rightarrow> Inl non_numeric
         | Some index \<Rightarrow>
             if length items \<le> index
             then Inl (PlaceholderResolutionError (''Array index '' @ str_nat index @ '' out of bounds: '' @ ph dot_path))
             else Inr (items ! index))"

fun walk_body :: "json \<Rightarrow> string list \<Rightarrow> string \<Rightarrow> placeholder_error + json" where
  "walk_body current [] dot_path = Inr current"
| "walk_body current (segment # segments) dot_path =
     (case current of
        JObj obj \<Rightarrow>
          (case map_of obj segment of
             None \<Rightarrow> Inl (PlaceholderResolutionError (''Path segment '' @ quoted segment @ '' not found: '' @ ph dot_path))
           | Some v \<Rightarrow> walk_body v segments dot_path)
      | JArr items \<Rightarrow> rbind (resolve_list_segment items segment dot_path) (\<lambda>v. walk_body v segments dot_path)
      | _ \<Rightarrow> Inl (PlaceholderResolutionError (''Cannot traverse non-object at '' @ quoted segment @ '': '' @ ph dot_path)))"

definition resolve_body_path :: "json_object \<Rightarrow> string list \<Rightarrow> string \<Rightarrow> placeholder_error + string" where
  "resolve_body_path body segments dot_path =
     rbind (walk_body (JObj body) segments dot_path) (\<lambda>current.
       case current of
         JObj _ \<Rightarrow> Inl (PlaceholderResolutionError (''Resolved value is not a primitive (got object): '' @ ph dot_path))
       | JArr _ \<Rightarrow> Inl (PlaceholderResolutionError (''Resolved value is not a primitive (got array): '' @ ph dot_path))
       | JNull \<Rightarrow> Inr ''null''
       | _ \<Rightarrow> Inr (py_str current))"

definition resolve_response_path :: "ResponseRecord \<Rightarrow> string \<Rightarrow> string list \<Rightarrow> string \<Rightarrow> placeholder_error + string" where
  "resolve_response_path response field_name remaining dot_path =
     (if field_name = ''status_code'' \<and> remaining = [] then Inr (str_int (rp_status_code response))
      else if field_name = ''body'' then resolve_body_path (rp_body response) remaining dot_path
      else Inl (PlaceholderResolutionError (''Cannot resolve response path: '' @ ph dot_path)))"

definition resolve_dot_path :: "string \<Rightarrow> ExecutionContext \<Rightarrow> placeholder_error + string" where
  "resolve_dot_path dot_path context =
     (let segments = split_on CHR ''.'' dot_path
      in if hd segments = ''config'' then resolve_config_path segments context dot_path
         else if hd segments = ''tokens'' then resolve_token_path segments context dot_path
         else if length segments < 4 \<or> hd segments \<noteq> ''steps''
         then Inl (PlaceholderResolutionError (''Invalid placeholder path: '' @ ph dot_path))
         else
           let step_id = segments ! 1; direction = segments ! 2; field_name = segments ! 3
           in case map_of (ec_steps context) step_id of
                None \<Rightarrow> Inl (PlaceholderResolutionError (''Step '' @ quoted step_id @ '' not found in execution context''))
              | Some record \<Rightarrow>
                  if direction = ''request''
                  then resolve_request_path (rec_request record) field_name (drop 4 segments) dot_path
                  else if direction = ''response''
                  then (case rec_response record of
                          None \<Rightarrow> Inl (MissingPredecessorResponseError (''Step '' @ quoted step_id
                                    @ '' has no response (request may have failed)''))
                        | Some response \<Rightarrow> resolve_response_path response field_name (drop 4 segments) dot_path)
                  else Inl (PlaceholderResolutionError (''Invalid placeholder path segment '' @ quoted direction
                         @ '': '' @ ph dot_path)))"

section \<open>Substitution\<close>

text \<open>\<open>\$\{([^}]+)\}\<close>, substituted from left to right.\<close>

definition placeholder_here :: "string \<Rightarrow> bool" where
  "placeholder_here s =
     (starts_with opener s \<and> before_brace (drop 2 s) \<noteq> [] \<and> after_brace (drop 2 s) \<noteq> [])"

lemma after_brace_shorter: "length (after_brace (drop n s)) - k \<le> length s"
  using length_dropWhile_le [of "\<lambda>c. c \<noteq> CHR ''}''" "drop n s"] by (simp add: after_brace_def)

function substitute :: "(string \<Rightarrow> placeholder_error + string) \<Rightarrow> string \<Rightarrow> placeholder_error + string" where
  "substitute f [] = Inr []"
| "substitute f (c # cs) =
     (if placeholder_here (c # cs)
      then rbind (f (before_brace (drop 2 (c # cs)))) (\<lambda>v.
           rbind (substitute f (tl (after_brace (drop 2 (c # cs))))) (\<lambda>rest. Inr (v @ rest)))
      else rbind (substitute f cs) (\<lambda>rest. Inr (c # rest)))"
  by pat_completeness auto
termination
  by (relation "measure (\<lambda>(f, s). length s)")
     (auto simp: less_Suc_eq_le after_brace_shorter)

definition resolve_placeholders :: "string \<Rightarrow> ExecutionContext \<Rightarrow> placeholder_error + string" where
  "resolve_placeholders template context =
     (if \<not> str_contains opener template then Inr template
      else rbind (validate_placeholder_syntax template) (\<lambda>_.
           substitute (\<lambda>dot_path. resolve_dot_path dot_path context) template))"

fun resolve_in_structure :: "json \<Rightarrow> ExecutionContext \<Rightarrow> placeholder_error + json" where
  "resolve_in_structure (JStr s) context = rbind (resolve_placeholders s context) (\<lambda>r. Inr (JStr r))"
| "resolve_in_structure (JObj obj) context =
     rbind (rtraverse (\<lambda>(key, child). rbind (resolve_in_structure child context) (\<lambda>v. Inr (key, v))) obj)
       (\<lambda>kvs. Inr (JObj kvs))"
| "resolve_in_structure (JArr xs) context =
     rbind (rtraverse (\<lambda>child. resolve_in_structure child context) xs) (\<lambda>ys. Inr (JArr ys))"
| "resolve_in_structure v context = Inr v"

section \<open>Templates as pieces\<close>

text \<open>
  A template read as literal characters and placeholders. Substitution resolves the pieces one by one, so a resolved
  value is never read as a template again.
\<close>

datatype piece = Lit char | Placeholder string

fun render_piece :: "piece \<Rightarrow> string" where
  "render_piece (Lit c) = [c]"
| "render_piece (Placeholder p) = ''${'' @ p @ ''}''"

definition render :: "piece list \<Rightarrow> string" where
  "render ps = concat (map render_piece ps)"

fun resolve_piece :: "(string \<Rightarrow> placeholder_error + string) \<Rightarrow> piece \<Rightarrow> placeholder_error + string" where
  "resolve_piece f (Lit c) = Inr [c]"
| "resolve_piece f (Placeholder p) = f p"

function parse_template :: "string \<Rightarrow> piece list" where
  "parse_template [] = []"
| "parse_template (c # cs) =
     (if placeholder_here (c # cs)
      then Placeholder (before_brace (drop 2 (c # cs))) # parse_template (tl (after_brace (drop 2 (c # cs))))
      else Lit c # parse_template cs)"
  by pat_completeness auto
termination
  by (relation "measure length") (auto simp: less_Suc_eq_le after_brace_shorter)

text \<open>No opener is left among the literals, and every placeholder is a path on one line.\<close>

fun well_formed :: "piece list \<Rightarrow> bool" where
  "well_formed [] = True"
| "well_formed (Lit c # ps) =
     (\<not> (c = CHR ''$'' \<and> (\<exists>qs. ps = Lit (CHR ''{'') # qs)) \<and> well_formed ps)"
| "well_formed (Placeholder p # ps) =
     (p \<noteq> [] \<and> CHR ''}'' \<notin> set p \<and> CHR ''\<newline>'' \<notin> set p \<and> well_formed ps)"

lemma brace_split: "after_brace s \<noteq> [] \<Longrightarrow> s = before_brace s @ CHR ''}'' # tl (after_brace s)"
proof -
  assume ne: "after_brace s \<noteq> []"
  then have "hd (after_brace s) = CHR ''}''" unfolding after_brace_def by (metis (mono_tags, lifting) hd_dropWhile)
  then have "after_brace s = CHR ''}'' # tl (after_brace s)" using ne by (metis list.collapse)
  then show ?thesis unfolding before_brace_def after_brace_def by (metis takeWhile_dropWhile_id)
qed

lemma placeholder_split:
  assumes "placeholder_here s"
  shows "s = render_piece (Placeholder (before_brace (drop 2 s))) @ tl (after_brace (drop 2 s))"
proof -
  obtain t where "s = ''${'' @ t" using assms by (auto simp: placeholder_here_def opener_def starts_with_iff)
  then show ?thesis using assms brace_split [of t] by (simp add: placeholder_here_def)
qed

lemma render_parse: "render (parse_template t) = t"
proof (induction t rule: parse_template.induct)
  case (2 c cs)
  then show ?case using placeholder_split [of "c # cs"] by (auto simp: render_def)
qed (simp add: render_def)

lemma substitute_parse:
  "substitute f t = rbind (rtraverse (resolve_piece f) (parse_template t)) (\<lambda>vs. Inr (concat vs))"
proof (induction f t rule: substitute.induct)
  case (2 f c cs)
  show ?case
  proof (cases "placeholder_here (c # cs)")
    case True
    then show ?thesis using "2.IH"(1) [OF True]
      by (cases "f (before_brace (drop 2 (c # cs)))") (auto simp: rbind_def split: sum.splits)
  next
    case False
    then show ?thesis using "2.IH"(2) [OF False] by (auto simp: rbind_def split: sum.splits)
  qed
qed simp

lemma has_malformed_suffix: "\<not> has_malformed (a @ b) \<Longrightarrow> \<not> has_malformed b"
  by (induction a) auto

lemma valid_opener:
  assumes "\<not> str_contains ''${}'' s" and "\<not> has_malformed s" and "starts_with opener s"
  shows "placeholder_here s" and "CHR ''\<newline>'' \<notin> set (before_brace (drop 2 s))"
proof -
  obtain t where s: "s = ''${'' @ t" using assms(3) by (auto simp: opener_def starts_with_iff)
  then have m: "\<not> malformed_here t" using assms(2,3) by (simp add: opener_def)
  have "before_brace t \<noteq> []"
  proof
    assume "before_brace t = []"
    then have "t = CHR ''}'' # tl (after_brace t)" using m brace_split [of t] by (simp add: malformed_here_def)
    then have "s = [] @ ''${}'' @ tl (after_brace t)" using s by simp
    then show False using assms(1) str_contains_iff by blast
  qed
  then show "placeholder_here s" using m s assms(3) by (simp add: placeholder_here_def malformed_here_def)
  show "CHR ''\<newline>'' \<notin> set (before_brace (drop 2 s))" using m s by (simp add: malformed_here_def)
qed

lemma parse_well_formed: "\<not> str_contains ''${}'' t \<Longrightarrow> \<not> has_malformed t \<Longrightarrow> well_formed (parse_template t)"
proof (induction t rule: parse_template.induct)
  case (2 c cs)
  show ?case
  proof (cases "placeholder_here (c # cs)")
    case True
    let ?p = "before_brace (drop 2 (c # cs))" and ?rest = "tl (after_brace (drop 2 (c # cs)))"
    have split: "c # cs = render_piece (Placeholder ?p) @ ?rest" by (rule placeholder_split [OF True])
    have "\<not> has_malformed ?rest" using "2.prems"(2) has_malformed_suffix split by metis
    moreover have "\<not> str_contains ''${}'' ?rest" using "2.prems"(1) split unfolding str_contains_iff by (metis append.assoc)
    ultimately have "well_formed (parse_template ?rest)" using "2.IH"(1) [OF True] by blast
    moreover have "starts_with opener (c # cs)" "?p \<noteq> []" using True by (simp_all add: placeholder_here_def)
    moreover have "CHR ''}'' \<notin> set ?p" by (auto simp: before_brace_def dest: set_takeWhileD)
    ultimately show ?thesis using True valid_opener(2) [OF "2.prems"] by simp
  next
    case False
    have ns: "\<not> starts_with opener (c # cs)" using valid_opener(1) [OF "2.prems"] False by blast
    have "well_formed (parse_template cs)" using "2.IH"(2) [OF False] "2.prems" by simp
    moreover have "\<not> (c = CHR ''$'' \<and> (\<exists>qs. parse_template cs = Lit (CHR ''{'') # qs))"
      using ns by (cases cs) (auto simp: opener_def starts_with_def split: if_splits)
    ultimately show ?thesis using False by simp
  qed
qed simp

lemma no_opener_suffix: "\<not> str_contains opener (a @ b) \<Longrightarrow> \<not> str_contains opener b"
proof (erule contrapos_nn)
  assume "str_contains opener b"
  then obtain u v where "b = u @ opener @ v" unfolding str_contains_iff by (elim exE)
  then have "a @ b = (a @ u) @ opener @ v" by simp
  then show "str_contains opener (a @ b)" unfolding str_contains_iff by (intro exI)
qed

lemma no_opener_start: "\<not> str_contains opener s \<Longrightarrow> \<not> starts_with opener s"
proof (erule contrapos_nn)
  assume "starts_with opener s"
  then obtain v where "s = [] @ opener @ v" unfolding starts_with_iff by auto
  then show "str_contains opener s" unfolding str_contains_iff by (intro exI)
qed

lemma opener_of_empty: "str_contains ''${}'' t \<Longrightarrow> str_contains opener t"
proof -
  assume "str_contains ''${}'' t"
  then obtain u v where "t = u @ ''${}'' @ v" unfolding str_contains_iff by (elim exE)
  then have "t = u @ opener @ (''}'' @ v)" by (simp add: opener_def)
  then show ?thesis unfolding str_contains_iff by (intro exI)
qed

lemma no_opener_valid: "\<not> str_contains opener t \<Longrightarrow> \<not> str_contains ''${}'' t \<and> \<not> has_malformed t"
proof
  assume no: "\<not> str_contains opener t"
  show "\<not> str_contains ''${}'' t" using no opener_of_empty by blast
  show "\<not> has_malformed t" using no
  proof (induction t)
    case (Cons c cs)
    have "\<not> str_contains opener cs" using no_opener_suffix [of "[c]" cs] Cons.prems by (metis append_Cons append_Nil)
    then have "\<not> has_malformed cs" by (rule Cons.IH)
    then show ?case using no_opener_start [OF Cons.prems] by simp
  qed simp
qed

lemma no_opener_parse: "\<not> str_contains opener t \<Longrightarrow> parse_template t = map Lit t"
proof (induction t)
  case (Cons c cs)
  have "\<not> str_contains opener cs" using no_opener_suffix [of "[c]" cs] Cons.prems by (metis append_Cons append_Nil)
  then have "parse_template cs = map Lit cs" by (rule Cons.IH)
  then show ?case using no_opener_start [OF Cons.prems] by (simp add: placeholder_here_def)
qed simp

lemma resolve_literals: "rtraverse (resolve_piece f) (map Lit t) = Inr (map (\<lambda>c. [c]) t)"
  by (induction t) auto

lemma concat_singletons: "concat (map (\<lambda>c. [c]) t) = t"
  by (induction t) auto

lemma resolved_pieces:
  assumes "resolve_placeholders t ctx = Inr r"
  shows "well_formed (parse_template t)
       \<and> (\<exists>vs. rtraverse (resolve_piece (\<lambda>p. resolve_dot_path p ctx)) (parse_template t) = Inr vs \<and> r = concat vs)"
proof (cases "str_contains opener t")
  case True
  then have "\<not> str_contains ''${}'' t" "\<not> has_malformed t" "substitute (\<lambda>p. resolve_dot_path p ctx) t = Inr r"
    using assms by (auto simp: resolve_placeholders_def validate_placeholder_syntax_def split: if_splits)
  then show ?thesis using parse_well_formed [of t]
    by (auto simp: substitute_parse rbind_def split: sum.splits)
next
  case False
  then have "r = t" using assms by (simp add: resolve_placeholders_def)
  then show ?thesis
    using parse_well_formed [of t] no_opener_valid [OF False] no_opener_parse [OF False]
    by (simp add: resolve_literals concat_singletons)
qed

section \<open>Error messages\<close>

lemma last_opener_suffix: "last_opener s = Some t \<Longrightarrow> \<exists>a. s = a @ t"
proof (induction s)
  case (Cons c cs)
  show ?case
  proof (cases "last_opener cs")
    case None
    then have "c # cs = [] @ t" using Cons.prems by (simp split: if_splits)
    then show ?thesis by blast
  next
    case (Some u)
    then obtain a where "cs = a @ t" using Cons by auto
    then have "c # cs = (c # a) @ t" by simp
    then show ?thesis by blast
  qed
qed simp

lemma last_opener_append: "last_opener b = Some t \<Longrightarrow> last_opener (a @ b) = Some t"
  by (induction a) auto

lemma last_opener_present: "starts_with opener b \<Longrightarrow> last_opener b \<noteq> None"
  by (cases b) (auto simp: opener_def starts_with_def split: option.splits)

lemma truncate_prefix:
  assumes "starts_with opener b"
  shows "truncate_around_malformed (a @ b) = truncate_around_malformed b"
proof -
  obtain t where "last_opener b = Some t" using last_opener_present [OF assms] by blast
  then show ?thesis using last_opener_append [of b t a] by (simp add: truncate_around_malformed_def)
qed

lemma truncate_length: "length (truncate_around_malformed t) \<le> 25"
  by (simp add: truncate_around_malformed_def TRUNCATION_CONTEXT_CHARS_def Let_def split: option.splits)

section \<open>Properties\<close>

text \<open>C39: Placeholder resolution is a single left-to-right pass over the template. Whenever it succeeds, the template
  is the rendering of a sequence of literal characters and placeholders in which no opener is left among the literals
  and every placeholder is a non-empty path without closing brace or line break, and the result is the concatenation
  of the literals and of the values each placeholder's path has in the context: nothing of a resolved value is
  interpreted again as a placeholder, and no token of the template is left unresolved.\<close>

theorem placeholders_resolved_in_one_pass:
  assumes "resolve_placeholders t ctx = Inr r"
  shows "\<exists>ps vs. t = render ps \<and> well_formed ps
           \<and> rtraverse (resolve_piece (\<lambda>p. resolve_dot_path p ctx)) ps = Inr vs \<and> r = concat vs"
  using resolved_pieces [OF assms] render_parse [of t] by metis

definition sample_context :: ExecutionContext where
  "sample_context =
     record_token (record_step \<lparr>ec_steps = [], ec_tokens = [], ec_config = None\<rparr> ''s1''
        \<lparr>rr_method = ''GET'', rr_url = ''u''\<rparr>
        (Some (response_record 200 [(''Data'', JObj [(''Id'', JArr [JStr ''${x}'']) ])] None))) ''t'' ''tok''"

lemma sample_resolution:
  "resolve_placeholders ''a/${steps.s1.response.body.Data.Id.0}/b'' sample_context = Inr ''a/${x}/b''"
  by code_simp

theorem placeholders_resolved_in_one_pass_witness:
  "\<exists>ps vs. ''a/${steps.s1.response.body.Data.Id.0}/b'' = render ps \<and> well_formed ps
     \<and> rtraverse (resolve_piece (\<lambda>p. resolve_dot_path p sample_context)) ps = Inr vs \<and> ''a/${x}/b'' = concat vs"
  using placeholders_resolved_in_one_pass [OF sample_resolution] .

text \<open>The message about an unterminated placeholder shows at most the 22 characters from the last opener on (and
  an ellipsis): it depends on nothing of the template before that opener, so a secret that precedes a malformed token
  in a header or body template never reaches the log through it.\<close>

lemma malformed_message_hides_prefix:
  assumes "starts_with opener b"
  shows "truncate_around_malformed (a @ b) = truncate_around_malformed b
       \<and> length (truncate_around_malformed (a @ b)) \<le> 25"
  using truncate_prefix [OF assms] truncate_length by simp

theorem malformed_message_hides_prefix_witness:
  "truncate_around_malformed (''Bearer secret '' @ ''${steps.a.response.body.x'')
     = truncate_around_malformed ''${steps.a.response.body.x''
   \<and> length (truncate_around_malformed (''Bearer secret '' @ ''${steps.a.response.body.x'')) \<le> 25"
  by (rule malformed_message_hides_prefix) (simp add: opener_def starts_with_def)

end
