(* ===== verification/Manifest_Templates.thy ===== *)
theory Manifest_Templates
  imports Manifest_Model Placeholder_Context
begin

text \<open>
  The placeholders of manifest templates, as the parser checks them (\<open>conformance/manifest.py\<close>), and what the check
  is for: a template it accepts is understood by the resolver of \<open>conformance/context.py\<close>. The regular expressions
  of the parser are predicates on the text between \<open>${\<close> and \<open>}\<close>. \<open>ManifestValueError\<close> is a \<open>ValueError\<close> of the
  standard library that the parser does not turn into a \<open>ManifestError\<close>.
\<close>

datatype manifest_error = ManifestError string | ManifestValueError

abbreviation merr :: "string \<Rightarrow> manifest_error + 'a" where
  "merr message \<equiv> Inl (ManifestError message)"

section \<open>Identifiers\<close>

definition id_start :: "char \<Rightarrow> bool" where
  "id_start c = (is_ascii_alpha c \<or> is_digit_char c)"

definition id_char :: "char \<Rightarrow> bool" where
  "id_char c = (id_start c \<or> c = CHR ''_'' \<or> c = CHR ''-'')"

definition id_match :: "string \<Rightarrow> bool" where
  "id_match s = (s \<noteq> [] \<and> id_start (hd s) \<and> list_all id_char s)"

text \<open>A pattern that ends in \<open>$\<close> and is used with \<open>match\<close> also accepts a line break after the text.\<close>

definition dollar_match :: "(string \<Rightarrow> bool) \<Rightarrow> string \<Rightarrow> bool" where
  "dollar_match P s = (P s \<or> s \<noteq> [] \<and> last s = CHR ''\<newline>'' \<and> P (butlast s))"

section \<open>Placeholder tokens\<close>

text \<open>\<open>\$\{[^}]*\}\<close>, found from left to right: the texts between the braces.\<close>

function find_tokens :: "string \<Rightarrow> string list" where
  "find_tokens [] = []"
| "find_tokens (c # cs) =
     (if starts_with opener (c # cs) \<and> after_brace (drop 2 (c # cs)) \<noteq> []
      then before_brace (drop 2 (c # cs)) # find_tokens (tl (after_brace (drop 2 (c # cs))))
      else find_tokens cs)"
  by pat_completeness auto
termination
  by (relation "measure length") (auto simp: less_Suc_eq_le after_brace_shorter)

fun count_openers :: "string \<Rightarrow> nat" where
  "count_openers [] = 0"
| "count_openers (c # cs) = (if starts_with opener (c # cs) then Suc (count_openers cs) else count_openers cs)"

definition CONFIG_PLACEHOLDER_KEYS :: "string list" where
  "CONFIG_PLACEHOLDER_KEYS =
     [''discoveryUrl'', ''oauth.clientId'', ''oauth.redirectUri'', ''oauth.authorizationEndpoint'', ''oauth.issuer'',
      ''oauth.tokenEndpoint'', ''oauth.resourceBaseUrl'', ''oauth.responseType'', ''oauth.requestObjectSigningAlg'']"

definition config_token :: "string \<Rightarrow> bool" where
  "config_token body = (body \<in> set (map (\<lambda>key. ''config.'' @ key) CONFIG_PLACEHOLDER_KEYS))"

definition token_token :: "string \<Rightarrow> string option" where
  "token_token body =
     (case split_on CHR ''.'' body of
        [a, token_id, b] \<Rightarrow>
          if a = ''tokens'' \<and> id_match token_id \<and> b = ''access_token'' then Some token_id else None
      | _ \<Rightarrow> None)"

definition body_segment :: "string \<Rightarrow> bool" where
  "body_segment s = (s \<noteq> [] \<and> list_all id_char s)"

definition step_direction :: "string list \<Rightarrow> bool" where
  "step_direction segments =
     (segments = [''request'', ''method''] \<or> segments = [''request'', ''url'']
      \<or> segments = [''response'', ''status_code'']
      \<or> (2 < length segments \<and> take 2 segments = [''response'', ''body''] \<and> list_all body_segment (drop 2 segments)))"

definition step_token :: "string \<Rightarrow> string option" where
  "step_token body =
     (case split_on CHR ''.'' body of
        a # sid # direction \<Rightarrow>
          if a = ''steps'' \<and> id_match sid \<and> step_direction direction then Some sid else None
      | _ \<Rightarrow> None)"

definition has_placeholder :: "string \<Rightarrow> bool" where
  "has_placeholder s = (find_tokens s \<noteq> [])"

definition check_token :: "string \<Rightarrow> string list \<Rightarrow> string \<Rightarrow> manifest_error + unit" where
  "check_token location seen_ids body =
     (if config_token body \<or> token_token body \<noteq> None then Inr ()
      else case step_token body of
        None \<Rightarrow>
          if starts_with ''config.'' body
          then merr (location @ '' contains unsupported config placeholder: '' @ ph body @ '' (allowed: ''
                 @ join '', '' (map (\<lambda>key. ph (''config.'' @ key)) CONFIG_PLACEHOLDER_KEYS) @ '')'')
          else if starts_with ''tokens.'' body
          then merr (location @ '' contains unsupported token placeholder: '' @ ph body
                 @ '' (allowed: ${tokens.<tokenId>.access_token})'')
          else merr (location @ '' contains malformed placeholder: '' @ ph body)
      | Some referenced_id \<Rightarrow>
          if referenced_id \<in> set seen_ids then Inr ()
          else merr (location @ '' references undefined step '' @ quoted referenced_id))"

fun check_tokens :: "string \<Rightarrow> string list \<Rightarrow> string list \<Rightarrow> manifest_error + unit" where
  "check_tokens location seen_ids [] = Inr ()"
| "check_tokens location seen_ids (body # rest) =
     rbind (check_token location seen_ids body) (\<lambda>_. check_tokens location seen_ids rest)"

definition validate_manifest_placeholders :: "string \<Rightarrow> string list \<Rightarrow> string \<Rightarrow> manifest_error + unit" where
  "validate_manifest_placeholders location seen_ids v =
     (if length (find_tokens v) < count_openers v
      then merr (location @ '' contains an unterminated placeholder (missing closing '' @ quoted ''}'' @ '')'')
      else check_tokens location seen_ids (find_tokens v))"

lemma enumerate_member: "(i, x) \<in> set (enumerate n xs) \<Longrightarrow> x \<in> set xs"
  by (auto simp: enumerate_eq_zip dest: set_zip_rightD)

lemma enumerate_size [termination_simp]: "(i, x) \<in> set (enumerate n xs) \<Longrightarrow> size x < Suc (size_list size xs)"
  by (drule enumerate_member) (simp add: less_Suc_eq_le size_list_estimation')

fun validate_placeholders_in_structure :: "string \<Rightarrow> string list \<Rightarrow> json \<Rightarrow> manifest_error + unit" where
  "validate_placeholders_in_structure location seen_ids (JStr s) = validate_manifest_placeholders location seen_ids s"
| "validate_placeholders_in_structure location seen_ids (JObj kvs) =
     rbind (rtraverse (\<lambda>(key, child). validate_placeholders_in_structure (location @ ''.'' @ key) seen_ids child) kvs)
       (\<lambda>_. Inr ())"
| "validate_placeholders_in_structure location seen_ids (JArr xs) =
     rbind (rtraverse (\<lambda>(index, child). validate_placeholders_in_structure (location @ ''['' @ str_nat index @ '']'') seen_ids child)
              (enumerate 0 xs))
       (\<lambda>_. Inr ())"
| "validate_placeholders_in_structure location seen_ids v = Inr ()"

section \<open>What an accepted template looks like\<close>

definition valid_token :: "string list \<Rightarrow> string \<Rightarrow> bool" where
  "valid_token seen_ids body =
     (config_token body \<or> token_token body \<noteq> None \<or> (\<exists>i \<in> set seen_ids. step_token body = Some i))"

lemma check_token_Inr: "check_token loc seen body = Inr u \<longleftrightarrow> valid_token seen body"
  by (auto simp: check_token_def valid_token_def split: option.splits)

lemma check_tokens_Inr: "check_tokens loc seen bodies = Inr u \<longleftrightarrow> (\<forall>body \<in> set bodies. valid_token seen body)"
  by (induction bodies) (auto simp: rbind_eq_Inr check_token_Inr)

definition accepted_template :: "string list \<Rightarrow> string \<Rightarrow> bool" where
  "accepted_template seen_ids v =
     (count_openers v \<le> length (find_tokens v) \<and> (\<forall>body \<in> set (find_tokens v). valid_token seen_ids body))"

lemma validate_manifest_placeholders_Inr:
  "validate_manifest_placeholders loc seen v = Inr u \<longleftrightarrow> accepted_template seen v"
  by (auto simp: validate_manifest_placeholders_def accepted_template_def check_tokens_Inr not_less)

fun accepted_structure :: "string list \<Rightarrow> json \<Rightarrow> bool" where
  "accepted_structure seen_ids (JStr s) = accepted_template seen_ids s"
| "accepted_structure seen_ids (JObj kvs) = (\<forall>(k, v) \<in> set kvs. accepted_structure seen_ids v)"
| "accepted_structure seen_ids (JArr xs) = (\<forall>x \<in> set xs. accepted_structure seen_ids x)"
| "accepted_structure seen_ids _ = True"

lemma member_enumerate: "x \<in> set xs \<Longrightarrow> \<exists>i. (i, x) \<in> set (enumerate n xs)"
proof -
  assume "x \<in> set xs"
  then obtain j where "j < length xs" "xs ! j = x" by (auto simp: in_set_conv_nth)
  then have "(n + j, x) \<in> set (enumerate n xs)" by (simp add: in_set_enumerate_eq)
  then show ?thesis by blast
qed

lemma validate_structure_Inr:
  "validate_placeholders_in_structure loc seen v = Inr u \<Longrightarrow> accepted_structure seen v"
proof (induction v arbitrary: loc u)
  case (JObj kvs)
  then obtain us where us: "rtraverse (\<lambda>(key, child). validate_placeholders_in_structure (loc @ ''.'' @ key) seen child) kvs = Inr us"
    by (auto simp: rbind_eq_Inr)
  have "accepted_structure seen v" if "(k, v) \<in> set kvs" for k v
    using rtraverse_Inr_source [OF us that] JObj.IH [OF that] by auto
  then show ?case by auto
next
  case (JArr xs)
  then obtain us where us: "rtraverse (\<lambda>(index, child). validate_placeholders_in_structure
      (loc @ ''['' @ str_nat index @ '']'') seen child) (enumerate 0 xs) = Inr us"
    by (auto simp: rbind_eq_Inr)
  have "accepted_structure seen x" if x: "x \<in> set xs" for x
  proof -
    obtain i where "(i, x) \<in> set (enumerate 0 xs)" using member_enumerate [OF x] by blast
    then show ?thesis using rtraverse_Inr_source [OF us] JArr.IH [OF x] by auto
  qed
  then show ?case by auto
qed (auto simp: validate_manifest_placeholders_Inr)

section \<open>Openers and tokens\<close>

lemma opener_Cons: "starts_with opener (c # cs) \<longleftrightarrow> c = CHR ''$'' \<and> cs \<noteq> [] \<and> hd cs = CHR ''{''"
  by (cases cs) (auto simp: opener_def starts_with_def)

lemma count_openers_drop: "count_openers (drop n s) \<le> count_openers s"
proof (induction n arbitrary: s)
  case (Suc n)
  then show ?case by (cases s) (auto intro: le_trans le_SucI)
qed simp

lemma count_openers_append_brace: "count_openers (a @ CHR ''}'' # b) = count_openers a + count_openers b"
proof (induction a)
  case Nil
  show ?case by (simp add: opener_Cons)
next
  case (Cons c a)
  have "starts_with opener (c # a @ CHR ''}'' # b) \<longleftrightarrow> starts_with opener (c # a)"
    by (cases a) (auto simp: opener_Cons)
  then show ?case using Cons by simp
qed

lemma count_openers_token:
  assumes "starts_with opener s" and "after_brace (drop 2 s) \<noteq> []"
  shows "count_openers s = Suc (count_openers (before_brace (drop 2 s)) + count_openers (tl (after_brace (drop 2 s))))"
proof -
  obtain t where s: "s = CHR ''$'' # CHR ''{'' # t" using assms(1) by (auto simp: opener_def starts_with_iff)
  have "count_openers s = Suc (count_openers t)" by (simp add: s opener_Cons)
  moreover have "t = before_brace t @ CHR ''}'' # tl (after_brace t)" using brace_split assms(2) s by simp
  ultimately show ?thesis using count_openers_append_brace [of "before_brace t" "tl (after_brace t)"] s by simp
qed

lemma tokens_need_brace: "CHR ''}'' \<notin> set s \<Longrightarrow> find_tokens s = []"
proof (induction s rule: find_tokens.induct)
  case (2 c cs)
  have "after_brace (drop 2 (c # cs)) = []" using "2.prems" by (auto simp: after_brace_def dest: in_set_dropD)
  then show ?case using 2 by simp
qed simp

lemma find_tokens_le: "length (find_tokens s) \<le> count_openers s"
proof (induction s rule: find_tokens.induct)
  case (2 c cs)
  show ?case
  proof (cases "starts_with opener (c # cs) \<and> after_brace (drop 2 (c # cs)) \<noteq> []")
    case True
    then show ?thesis using 2 count_openers_token [of "c # cs"] by (simp del: count_openers.simps)
  next
    case False
    then show ?thesis using 2 by auto
  qed
qed simp

lemma opener_prefix: "starts_with opener (c # a @ CHR ''}'' # b) \<longleftrightarrow> starts_with opener (c # a)"
  by (cases a) (auto simp: opener_Cons)

lemma empty_placeholder_opener: "starts_with ''${}'' s \<Longrightarrow> starts_with opener s"
  by (auto simp: opener_def starts_with_iff)

lemma no_opener_skip:
  "count_openers a = 0 \<Longrightarrow>
   (has_malformed (a @ CHR ''}'' # b) \<longleftrightarrow> has_malformed b)
   \<and> (str_contains ''${}'' (a @ CHR ''}'' # b) \<longleftrightarrow> str_contains ''${}'' b)"
proof (induction a)
  case Nil
  have "\<not> starts_with opener (CHR ''}'' # b)" by (simp add: opener_Cons)
  then show ?case using empty_placeholder_opener by auto
next
  case (Cons c a)
  then have no: "\<not> starts_with opener (c # a)" and "count_openers a = 0" by (auto split: if_splits)
  then have "\<not> starts_with opener (c # a @ CHR ''}'' # b)" by (simp only: opener_prefix not_False_eq_True)
  then show ?case using Cons.IH [OF \<open>count_openers a = 0\<close>] empty_placeholder_opener by auto
qed

lemma no_brace_after: "after_brace s = [] \<Longrightarrow> CHR ''}'' \<notin> set s"
  by (auto simp: after_brace_def)

definition placeholders_of :: "piece list \<Rightarrow> string list" where
  "placeholders_of ps = concat (map (\<lambda>p. case p of Lit c \<Rightarrow> [] | Placeholder x \<Rightarrow> [x]) ps)"

text \<open>Where every opener starts a token, the tokens are the placeholders the resolver reads.\<close>

lemma tokens_are_placeholders:
  "count_openers s \<le> length (find_tokens s) \<Longrightarrow> \<forall>p \<in> set (find_tokens s). p \<noteq> [] \<and> CHR ''\<newline>'' \<notin> set p \<Longrightarrow>
   placeholders_of (parse_template s) = find_tokens s \<and> \<not> has_malformed s \<and> \<not> str_contains ''${}'' s"
proof (induction s rule: find_tokens.induct)
  case (2 c cs)
  show ?case
  proof (cases "starts_with opener (c # cs) \<and> after_brace (drop 2 (c # cs)) \<noteq> []")
    case True
    define p rest where "p = before_brace (drop 2 (c # cs))" and "rest = tl (after_brace (drop 2 (c # cs)))"
    have toks: "find_tokens (c # cs) = p # find_tokens rest" using True by (simp add: p_def rest_def)
    have "count_openers (c # cs) = Suc (count_openers p + count_openers rest)"
      unfolding p_def rest_def using count_openers_token True by blast
    then have cnt: "count_openers p = 0" "count_openers rest \<le> length (find_tokens rest)"
      using "2.prems"(1) find_tokens_le [of rest] unfolding toks by simp_all
    have p: "p \<noteq> []" "CHR ''\<newline>'' \<notin> set p" using "2.prems"(2) unfolding toks by auto
    have here: "placeholder_here (c # cs)" using True p(1) by (simp add: placeholder_here_def p_def)
    have split: "c # cs = ''${'' @ p @ CHR ''}'' # rest"
      using placeholder_split [OF here] by (simp add: p_def rest_def)
    have IH: "placeholders_of (parse_template rest) = find_tokens rest" "\<not> has_malformed rest" "\<not> str_contains ''${}'' rest"
      using "2.IH"(1) [OF True] cnt(2) "2.prems"(2) unfolding p_def [symmetric] rest_def [symmetric] toks by auto
    have skip: "\<not> has_malformed (CHR ''{'' # p @ CHR ''}'' # rest)" "\<not> str_contains ''${}'' (CHR ''{'' # p @ CHR ''}'' # rest)"
      using no_opener_skip [of "CHR ''{'' # p" rest] cnt(1) IH(2,3) by (simp_all add: opener_Cons)
    have "before_brace (p @ CHR ''}'' # rest) = p" using p_def unfolding split by simp
    then have "\<not> malformed_here (p @ CHR ''}'' # rest)" using True p(2) unfolding split by (simp add: malformed_here_def)
    then have "\<not> has_malformed (c # cs)" using skip(1) unfolding split by (simp add: opener_def)
    moreover have "\<not> str_contains ''${}'' (c # cs)" using skip(2) p(1) p_def unfolding split
      by (cases p) (auto simp: starts_with_def before_brace_def split: if_splits)
    moreover have "parse_template (c # cs) = Placeholder p # parse_template rest"
      using here by (simp add: p_def rest_def)
    ultimately show ?thesis using IH(1) unfolding toks by (simp add: placeholders_of_def)
  next
    case False
    have no: "\<not> starts_with opener (c # cs)"
    proof
      assume st: "starts_with opener (c # cs)"
      then have "CHR ''}'' \<notin> set (drop 2 (c # cs))" using False no_brace_after by blast
      then have "CHR ''}'' \<notin> set cs" using st by (cases cs) (auto simp: opener_Cons)
      then have "find_tokens (c # cs) = []" using False tokens_need_brace [of cs] by simp
      then show False using "2.prems"(1) st by simp
    qed
    then have "\<not> placeholder_here (c # cs)" by (simp add: placeholder_here_def)
    then show ?thesis
      using "2.IH"(2) [OF False] "2.prems" False no empty_placeholder_opener [of "c # cs"] by (auto simp: placeholders_of_def)
  qed
qed (simp add: placeholders_of_def)

section \<open>Accepted templates resolve\<close>

definition config_lookup :: "RuntimeConfig \<Rightarrow> string \<Rightarrow> string option" where
  "config_lookup cfg key =
     (case map_of
        [(''discoveryUrl'', cf_discovery_url cfg), (''oauth.clientId'', cf_oauth_client_id cfg),
         (''oauth.redirectUri'', cf_oauth_redirect_uri cfg),
         (''oauth.authorizationEndpoint'', cf_oauth_authorization_endpoint cfg), (''oauth.issuer'', cf_oauth_issuer cfg),
         (''oauth.tokenEndpoint'', cf_oauth_token_endpoint cfg),
         (''oauth.resourceBaseUrl'', cf_oauth_resource_base_url cfg),
         (''oauth.responseType'', cf_oauth_response_type cfg),
         (''oauth.requestObjectSigningAlg'', cf_oauth_request_object_signing_alg cfg)] key of
        None \<Rightarrow> None | Some v \<Rightarrow> v)"

text \<open>The value a placeholder asks for exists in the context.\<close>

inductive value_available :: "ExecutionContext \<Rightarrow> string \<Rightarrow> bool" for ctx :: ExecutionContext where
  config_value: "ec_config ctx = Some cfg \<Longrightarrow> config_lookup cfg key = Some v \<Longrightarrow> value_available ctx (''config.'' @ key)"
| token_value: "split_on CHR ''.'' p = [''tokens'', i, ''access_token''] \<Longrightarrow> map_of (ec_tokens ctx) i = Some r \<Longrightarrow> value_available ctx p"
| request_value: "split_on CHR ''.'' p = ''steps'' # i # ''request'' # rest \<Longrightarrow> value_available ctx p"
| status_value: "split_on CHR ''.'' p = [''steps'', i, ''response'', ''status_code''] \<Longrightarrow> map_of (ec_steps ctx) i = Some rec \<Longrightarrow>
    rec_response rec = Some resp \<Longrightarrow> value_available ctx p"
| body_value: "split_on CHR ''.'' p = ''steps'' # i # ''response'' # ''body'' # segments \<Longrightarrow> map_of (ec_steps ctx) i = Some rec \<Longrightarrow>
    rec_response rec = Some resp \<Longrightarrow> walk_body (JObj (rp_body resp)) segments p = Inr v \<Longrightarrow> \<not> is_object v \<Longrightarrow> \<not> is_array v \<Longrightarrow>
    value_available ctx p"

lemma config_keys: "config_lookup cfg key = Some v \<Longrightarrow> key \<in> set CONFIG_PLACEHOLDER_KEYS"
  by (auto simp: config_lookup_def CONFIG_PLACEHOLDER_KEYS_def split: option.splits if_splits)

lemma resolve_config_available:
  assumes "ec_config ctx = Some cfg" and "config_lookup cfg key = Some v"
  shows "resolve_dot_path (''config.'' @ key) ctx = Inr v"
proof -
  have "key \<in> set CONFIG_PLACEHOLDER_KEYS" by (rule config_keys [OF assms(2)])
  then have "key = ''discoveryUrl'' \<or> key = ''oauth.clientId'' \<or> key = ''oauth.redirectUri'' \<or> key = ''oauth.authorizationEndpoint''
    \<or> key = ''oauth.issuer'' \<or> key = ''oauth.tokenEndpoint'' \<or> key = ''oauth.resourceBaseUrl'' \<or> key = ''oauth.responseType''
    \<or> key = ''oauth.requestObjectSigningAlg''"
    by (simp add: CONFIG_PLACEHOLDER_KEYS_def)
  then show ?thesis
    by (elim disjE; use assms in \<open>simp add: config_lookup_def resolve_dot_path_def resolve_config_path_def config_value_def
      oauth_config_fields_def\<close>)
qed

lemma step_token_parts:
  "step_token p = Some i \<longleftrightarrow> (\<exists>dir. split_on CHR ''.'' p = ''steps'' # i # dir \<and> id_match i \<and> step_direction dir)"
  by (auto simp: step_token_def split: list.splits if_splits)

lemma token_token_parts:
  "token_token p = Some i \<longleftrightarrow> split_on CHR ''.'' p = [''tokens'', i, ''access_token''] \<and> id_match i"
  by (auto simp: token_token_def split: list.splits if_splits)

lemma valid_step_parts:
  assumes "valid_token seen p" and "split_on CHR ''.'' p = ''steps'' # i # dir"
  shows "i \<in> set seen \<and> step_direction dir"
proof -
  have "\<not> config_token p" using assms(2) by (auto simp: config_token_def CONFIG_PLACEHOLDER_KEYS_def)
  moreover have "token_token p = None" using assms(2) token_token_parts [of p] by (cases "token_token p") auto
  ultimately show ?thesis using assms by (auto simp: valid_token_def step_token_parts)
qed

lemma available_resolves:
  assumes "value_available ctx p" and "valid_token seen p" and "set seen \<subseteq> set (keys (ec_steps ctx))"
  shows "\<exists>s. resolve_dot_path p ctx = Inr s"
  using assms(1)
proof cases
  case (config_value cfg key v)
  then show ?thesis using resolve_config_available by blast
next
  case (token_value i r)
  then show ?thesis by (simp add: resolve_dot_path_def resolve_token_path_def)
next
  case (request_value i rest)
  then have i: "i \<in> set seen" "step_direction (''request'' # rest)" using valid_step_parts [OF assms(2)] by auto
  then obtain rec where "map_of (ec_steps ctx) i = Some rec" using assms(3) map_of_eq_None_iff [of "ec_steps ctx" i] by auto
  then show ?thesis using request_value i(2)
    by (auto simp: resolve_dot_path_def resolve_request_path_def step_direction_def)
next
  case (status_value i rec resp)
  then show ?thesis by (simp add: resolve_dot_path_def resolve_response_path_def)
next
  case (body_value i segments rec resp v)
  then show ?thesis by (cases v) (auto simp: resolve_dot_path_def resolve_response_path_def resolve_body_path_def)
qed

lemma split_on_chars: "c \<in> set s \<Longrightarrow> c \<noteq> sep \<Longrightarrow> \<exists>w \<in> set (split_on sep s). c \<in> set w"
proof (induction s)
  case (Cons x xs)
  then show ?case by (cases "split_on sep xs") (auto split: if_splits)
qed simp

lemma id_char_newline: "\<not> id_char (CHR ''\<newline>'')"
  by (simp add: id_char_def id_start_def is_ascii_alpha_def is_digit_char_def code_of_def)

lemma id_text_newline: "list_all id_char w \<Longrightarrow> CHR ''\<newline>'' \<notin> set w"
  using id_char_newline by (auto simp: list_all_iff)

lemma direction_newline: "step_direction dir \<Longrightarrow> w \<in> set dir \<Longrightarrow> CHR ''\<newline>'' \<notin> set w"
proof (cases "w \<in> set (take 2 dir)")
  case True
  assume "step_direction dir"
  then show ?thesis using True by (auto simp: step_direction_def)
next
  case False
  assume a: "step_direction dir" and w: "w \<in> set dir"
  have "w \<in> set (drop 2 dir)" using w False by (metis Un_iff append_take_drop_id set_append)
  then have "list_all id_char w" using a by (auto simp: step_direction_def list_all_iff body_segment_def)
  then show ?thesis by (rule id_text_newline)
qed

lemma valid_token_text:
  assumes "valid_token seen p"
  shows "p \<noteq> [] \<and> CHR ''\<newline>'' \<notin> set p"
proof -
  consider "config_token p" | i where "token_token p = Some i" | i where "step_token p = Some i"
    using assms by (auto simp: valid_token_def)
  then show ?thesis
  proof cases
    case 1
    then show ?thesis by (auto simp: config_token_def CONFIG_PLACEHOLDER_KEYS_def)
  next
    case 2
    then have "\<forall>w \<in> set (split_on CHR ''.'' p). CHR ''\<newline>'' \<notin> set w" and "p \<noteq> []"
      by (auto simp: token_token_parts id_match_def dest: id_text_newline)
    then show ?thesis using split_on_chars [of "CHR ''\<newline>''" p "CHR ''.''"] by auto
  next
    case 3
    then have "\<forall>w \<in> set (split_on CHR ''.'' p). CHR ''\<newline>'' \<notin> set w" and "p \<noteq> []"
      by (auto simp: step_token_parts id_match_def dest: id_text_newline direction_newline)
    then show ?thesis using split_on_chars [of "CHR ''\<newline>''" p "CHR ''.''"] by auto
  qed
qed

lemma resolve_pieces_total:
  "(\<And>p. p \<in> set (placeholders_of ps) \<Longrightarrow> \<exists>s. f p = Inr s) \<Longrightarrow> \<exists>vs. rtraverse (resolve_piece f) ps = Inr vs"
proof (rule rtraverse_total)
  fix q
  assume f: "\<And>p. p \<in> set (placeholders_of ps) \<Longrightarrow> \<exists>s. f p = Inr s" and q: "q \<in> set ps"
  show "\<exists>y. resolve_piece f q = Inr y"
  proof (cases q)
    case (Placeholder x)
    then have "x \<in> set (placeholders_of ps)" using q by (force simp: placeholders_of_def)
    then show ?thesis using f Placeholder by simp
  qed simp
qed

lemma accepted_resolves:
  assumes "accepted_template seen t" and "set seen \<subseteq> set (keys (ec_steps ctx))"
    and "\<And>p. p \<in> set (find_tokens t) \<Longrightarrow> value_available ctx p"
  shows "\<exists>r. resolve_placeholders t ctx = Inr r"
proof -
  have tok: "\<forall>p \<in> set (find_tokens t). p \<noteq> [] \<and> CHR ''\<newline>'' \<notin> set p"
    using assms(1) valid_token_text by (auto simp: accepted_template_def)
  have t: "placeholders_of (parse_template t) = find_tokens t" "\<not> has_malformed t" "\<not> str_contains ''${}'' t"
    using tokens_are_placeholders [OF _ tok] assms(1) by (auto simp: accepted_template_def)
  have "\<exists>s. resolve_dot_path p ctx = Inr s" if "p \<in> set (placeholders_of (parse_template t))" for p
    using available_resolves [OF assms(3) _ assms(2)] assms(1) that t(1) by (auto simp: accepted_template_def)
  then obtain vs where "rtraverse (resolve_piece (\<lambda>p. resolve_dot_path p ctx)) (parse_template t) = Inr vs"
    using resolve_pieces_total by meson
  then show ?thesis using t(2,3)
    by (simp add: resolve_placeholders_def validate_placeholder_syntax_def substitute_parse)
qed

end
