(* ===== verification/Py_Url.thy ===== *)
theory Py_Url
  imports Prelude
begin

text \<open>
  The part of Python's standard library the URL checks rest on: \<open>urllib.parse.urlparse\<close> with the
  properties of its result (\<open>hostname\<close>, \<open>port\<close>, \<open>username\<close>, \<open>password\<close>), and whether
  \<open>ipaddress.ip_address\<close> accepts a string. Both follow CPython's algorithm. Strings are Latin-1,
  where NFKC normalisation introduces none of the characters \<open>_checknetloc\<close> looks for, so that check
  never raises and is left out. A \<open>ValueError\<close> is \<open>Inl ValueError\<close>.
\<close>

datatype value_error = ValueError

section \<open>Partitions\<close>

text \<open>What the two partition operations return, as equations on the string.\<close>

lemma partition_at_True: "partition_at c s = (a, True, b) \<longleftrightarrow> s = a @ c # b \<and> c \<notin> set a"
proof (induction s arbitrary: a)
  case (Cons x xs)
  show ?case
  proof (cases a)
    case Nil
    then show ?thesis by (auto split: prod.splits)
  next
    case (Cons y ys)
    then show ?thesis using Cons.IH [of ys] by (auto split: prod.splits)
  qed
qed simp

lemma partition_at_False: "partition_at c s = (a, False, b) \<longleftrightarrow> a = s \<and> b = [] \<and> c \<notin> set s"
proof (induction s arbitrary: a)
  case (Cons x xs)
  obtain u f v where "partition_at c xs = (u, f, v)" by (cases "partition_at c xs")
  then show ?case using Cons.IH [of u] Cons.IH [of xs] by auto
qed auto

lemma partition_at_found [simp]: "fst (snd (partition_at c s)) = (c \<in> set s)"
  by (induction s) (auto split: prod.splits)

lemma partition_at_absent: "c \<notin> set s \<Longrightarrow> partition_at c s = (s, False, [])"
  by (simp add: partition_at_False)

lemma partition_at_append: "c \<notin> set a \<Longrightarrow> partition_at c (a @ c # b) = (a, True, b)"
  by (simp add: partition_at_True)

lemma rpartition_at_absent: "c \<notin> set s \<Longrightarrow> rpartition_at c s = ([], False, s)"
  by (simp add: rpartition_at_def partition_at_absent)

lemma rpartition_at_found: "fst (snd (rpartition_at c s)) = (c \<in> set s)"
proof -
  obtain u f v where "partition_at c (rev s) = (u, f, v)" by (cases "partition_at c (rev s)")
  then show ?thesis using partition_at_found [of c "rev s"] by (cases f) (auto simp: rpartition_at_def)
qed

lemma rpartition_at_True: "rpartition_at c s = (a, True, b) \<longleftrightarrow> s = a @ c # b \<and> c \<notin> set b"
proof -
  obtain u f v where uv: "partition_at c (rev s) = (u, f, v)" by (cases "partition_at c (rev s)")
  have "partition_at c (rev s) = (rev b, True, rev a) \<longleftrightarrow> s = a @ c # b \<and> c \<notin> set b"
    unfolding partition_at_True by (auto simp: rev_swap)
  then show ?thesis using uv by (cases f) (auto simp: rpartition_at_def)
qed

section \<open>IP address literals\<close>

definition is_hex_char :: "char \<Rightarrow> bool" where
  "is_hex_char c = (let n = code_of c in
     is_digit_char c \<or> (65 \<le> n \<and> n \<le> 70) \<or> (97 \<le> n \<and> n \<le> 102))"

definition valid_octet :: "string \<Rightarrow> bool" where
  "valid_octet s = (py_isdecimal s \<and> length s \<le> 3 \<and> (s = ''0'' \<or> hd s \<noteq> CHR ''0'') \<and> nat_of_digits s \<le> 255)"

definition is_ipv4 :: "string \<Rightarrow> bool" where
  "is_ipv4 s = (let octets = split_on CHR ''.'' s in length octets = 4 \<and> list_all valid_octet octets)"

definition valid_hextet :: "string \<Rightarrow> bool" where
  "valid_hextet s = (s \<noteq> [] \<and> list_all is_hex_char s \<and> length s \<le> 4)"

text \<open>
  \<open>_BaseV6._ip_int_from_string\<close> after an embedded IPv4 suffix has become two hextets: the interior
  empty parts (at most one, the \<open>::\<close>), the parts before and after it, and the eight-hextet count.
\<close>

definition interior_empties :: "string list \<Rightarrow> nat list" where
  "interior_empties parts = filter (\<lambda>i. parts ! i = []) [1 ..< length parts - 1]"

definition valid_v6_parts :: "string list \<Rightarrow> bool" where
  "valid_v6_parts parts =
     (length parts \<le> 9 \<and>
      (case interior_empties parts of
         [] \<Rightarrow> length parts = 8 \<and> list_all valid_hextet parts
       | [skip_index] \<Rightarrow>
           (let hi0 = skip_index; lo0 = length parts - skip_index - 1;
                hi = (if hd parts = [] then hi0 - 1 else hi0);
                lo = (if last parts = [] then lo0 - 1 else lo0)
            in (hd parts = [] \<longrightarrow> hi = 0) \<and> (last parts = [] \<longrightarrow> lo = 0) \<and> hi + lo < 8 \<and>
               list_all valid_hextet (take hi parts) \<and>
               list_all valid_hextet (drop (length parts - lo) parts))
       | _ \<Rightarrow> False))"

definition v6_int_ok :: "string \<Rightarrow> bool" where
  "v6_int_ok s =
     (let parts = split_on CHR '':'' s
      in 3 \<le> length parts \<and>
         (if CHR ''.'' \<in> set (last parts)
          then is_ipv4 (last parts) \<and> valid_v6_parts (butlast parts @ [''0'', ''0''])
          else valid_v6_parts parts))"

definition is_ipv6 :: "string \<Rightarrow> bool" where
  "is_ipv6 s =
     (CHR ''/'' \<notin> set s \<and>
      (case partition_at CHR ''%'' s of (addr, sep, scope_id) \<Rightarrow>
         (sep \<longrightarrow> scope_id \<noteq> [] \<and> CHR ''%'' \<notin> set scope_id) \<and> v6_int_ok addr))"

definition ip_address_ok :: "string \<Rightarrow> bool" where
  "ip_address_ok s = (is_ipv4 s \<or> is_ipv6 s)"

lemma split_on_length: "c \<notin> set s \<longleftrightarrow> length (split_on c s) = 1"
  by (induction s) (auto split: list.splits)

lemma is_ipv6_colon: "is_ipv6 s \<Longrightarrow> CHR '':'' \<in> set s"
proof -
  assume "is_ipv6 s"
  then obtain addr sep scope where p: "partition_at CHR ''%'' s = (addr, sep, scope)" "v6_int_ok addr"
    by (auto simp: is_ipv6_def split: prod.splits)
  then have "CHR '':'' \<in> set addr"
    using split_on_length [of "CHR '':''" addr] by (auto simp: v6_int_ok_def Let_def)
  then show ?thesis using p by (cases sep) (auto simp: partition_at_True partition_at_False)
qed

section \<open>\<open>urlparse\<close>\<close>

record ParseResult =
  pr_scheme :: string
  pr_netloc :: string
  pr_path :: string
  pr_params :: string
  pr_query :: string
  pr_fragment :: string

definition c0_or_space :: "char \<Rightarrow> bool" where
  "c0_or_space c = (code_of c \<le> 32)"

definition scheme_char :: "char \<Rightarrow> bool" where
  "scheme_char c = (is_ascii_alpha c \<or> is_digit_char c \<or> c \<in> set ''+-.'')"

definition clean_url :: "string \<Rightarrow> string" where
  "clean_url url = filter (\<lambda>c. code_of c \<notin> {9, 10, 13}) (dropWhile c0_or_space url)"

definition split_scheme :: "string \<Rightarrow> string \<times> string" where
  "split_scheme url =
     (case partition_at CHR '':'' url of
        (a, found, b) \<Rightarrow>
          if found \<and> a \<noteq> [] \<and> is_ascii_alpha (hd a) \<and> list_all scheme_char a then (py_lower a, b)
          else ([], url))"

definition netloc_end :: "char \<Rightarrow> bool" where
  "netloc_end c = (c \<in> set ''/?#'')"

text \<open>The pattern \<open>\A v[a-fA-F0-9]+\..+\Z\<close> of \<open>IPvFuture\<close> addresses.\<close>

definition ipv_future :: "string \<Rightarrow> bool" where
  "ipv_future hostname =
     (starts_with ''v'' hostname \<and>
      (let rest = dropWhile is_hex_char (tl hostname)
       in rest \<noteq> tl hostname \<and> starts_with ''.'' rest \<and> 2 \<le> length rest \<and> CHR ''\<newline>'' \<notin> set (tl rest)))"

definition check_bracketed_host :: "string \<Rightarrow> bool" where
  "check_bracketed_host hostname =
     (if starts_with ''v'' hostname then ipv_future hostname else is_ipv6 hostname)"

definition check_bracketed_netloc :: "string \<Rightarrow> bool" where
  "check_bracketed_netloc netloc =
     (let hostname_and_port = snd (snd (rpartition_at CHR ''@'' netloc))
      in case partition_at CHR ''['' hostname_and_port of (before_bracket, have_open_br, bracketed) \<Rightarrow>
           if have_open_br then
             (case partition_at CHR '']'' bracketed of (hostname, _, port) \<Rightarrow>
                before_bracket = [] \<and> (port = [] \<or> starts_with '':'' port) \<and> check_bracketed_host hostname)
           else check_bracketed_host (fst (partition_at CHR '':'' hostname_and_port)))"

definition netloc_ok :: "string \<Rightarrow> bool" where
  "netloc_ok netloc =
     ((CHR ''['' \<in> set netloc \<longleftrightarrow> CHR '']'' \<in> set netloc) \<and>
      (CHR ''['' \<in> set netloc \<longrightarrow> check_bracketed_netloc netloc))"

definition split_fragment_query :: "string \<Rightarrow> string \<times> string \<times> string" where
  "split_fragment_query url =
     (case partition_at CHR ''#'' url of (u, _, fragment) \<Rightarrow>
        case partition_at CHR ''?'' u of (path, _, query) \<Rightarrow> (path, query, fragment))"

definition urlsplit :: "string \<Rightarrow> value_error + string \<times> string \<times> string \<times> string \<times> string" where
  "urlsplit raw =
     (case split_scheme (clean_url raw) of (scheme, url) \<Rightarrow>
        let (netloc, rest) =
              (if starts_with ''//'' url
               then (takeWhile (\<lambda>c. \<not> netloc_end c) (drop 2 url), dropWhile (\<lambda>c. \<not> netloc_end c) (drop 2 url))
               else ([], url))
        in if netloc_ok netloc then
             (case split_fragment_query rest of (path, query, fragment) \<Rightarrow>
                Inr (scheme, netloc, path, query, fragment))
           else Inl ValueError)"

definition uses_params :: "string list" where
  "uses_params = ['''', ''ftp'', ''hdl'', ''prospero'', ''http'', ''imap'', ''https'', ''shttp'',
                  ''rtsp'', ''rtsps'', ''rtspu'', ''sip'', ''sips'', ''mms'', ''sftp'', ''tel'']"

definition splitparams :: "string \<Rightarrow> string \<times> string" where
  "splitparams url =
     (case rpartition_at CHR ''/'' url of (a, found, b) \<Rightarrow>
        if found then
          (case partition_at CHR '';'' b of (x, semi, y) \<Rightarrow> if semi then (a @ ''/'' @ x, y) else (url, []))
        else (case partition_at CHR '';'' url of (x, _, y) \<Rightarrow> (x, y)))"

definition urlparse :: "string \<Rightarrow> value_error + ParseResult" where
  "urlparse raw =
     rbind (urlsplit raw) (\<lambda>(scheme, netloc, url, query, fragment).
       let (path, params) = (if scheme \<in> set uses_params \<and> CHR '';'' \<in> set url then splitparams url else (url, []))
       in Inr \<lparr>pr_scheme = scheme, pr_netloc = netloc, pr_path = path, pr_params = params,
               pr_query = query, pr_fragment = fragment\<rparr>)"

section \<open>Properties of a parse result\<close>

definition userinfo :: "ParseResult \<Rightarrow> string option \<times> string option" where
  "userinfo p =
     (case rpartition_at CHR ''@'' (pr_netloc p) of (info, have_info, _) \<Rightarrow>
        if have_info then
          (case partition_at CHR '':'' info of (username, have_password, password) \<Rightarrow>
             (Some username, if have_password then Some password else None))
        else (None, None))"

definition hostinfo :: "ParseResult \<Rightarrow> string \<times> string option" where
  "hostinfo p =
     (let hi = snd (snd (rpartition_at CHR ''@'' (pr_netloc p)))
      in case partition_at CHR ''['' hi of (_, have_open_br, bracketed) \<Rightarrow>
           let (hostname, port) =
                 (if have_open_br then
                    (case partition_at CHR '']'' bracketed of (hostname, _, port) \<Rightarrow>
                       (hostname, snd (snd (partition_at CHR '':'' port))))
                  else (case partition_at CHR '':'' hi of (hostname, _, port) \<Rightarrow> (hostname, port)))
           in (hostname, if port = [] then None else Some port))"

definition url_hostname :: "ParseResult \<Rightarrow> string option" where
  "url_hostname p =
     (let hostname = fst (hostinfo p)
      in if hostname = [] then None
         else (case partition_at CHR ''%'' hostname of (host, percent, zone) \<Rightarrow>
                 Some (py_lower host @ (if percent then ''%'' else []) @ zone)))"

definition url_port :: "ParseResult \<Rightarrow> value_error + nat option" where
  "url_port p =
     (case snd (hostinfo p) of
        None \<Rightarrow> Inr None
      | Some port \<Rightarrow>
          if \<not> py_isdecimal port then Inl ValueError
          else (case int_of_decimal port of
                  None \<Rightarrow> Inl ValueError
                | Some n \<Rightarrow> if n \<le> 65535 then Inr (Some n) else Inl ValueError))"

section \<open>The authority of a parsed URL\<close>

text \<open>
  An accepted authority without credentials is a host, in brackets or not, followed by nothing or by a
  colon and the text of the port.
\<close>

definition port_of_suffix :: "string \<Rightarrow> string option" where
  "port_of_suffix sfx = (if length sfx \<le> 1 then None else Some (tl sfx))"

definition port_suffix :: "string \<Rightarrow> bool" where
  "port_suffix sfx = (sfx = [] \<or> hd sfx = CHR '':'')"

definition plain_authority :: "string \<Rightarrow> string \<Rightarrow> string \<Rightarrow> bool" where
  "plain_authority n host sfx =
     (n = host @ sfx \<and> CHR '':'' \<notin> set host \<and> CHR ''['' \<notin> set n \<and> CHR '']'' \<notin> set n)"

definition bracketed_authority :: "string \<Rightarrow> string \<Rightarrow> string \<Rightarrow> bool" where
  "bracketed_authority n host sfx =
     (n = ''['' @ host @ '']'' @ sfx \<and> CHR '']'' \<notin> set host \<and> check_bracketed_host host)"

lemma partition_port:
  "partition_at CHR '':'' s = (a, f, t) \<Longrightarrow>
   \<exists>sfx. s = a @ sfx \<and> port_suffix sfx \<and> CHR '':'' \<notin> set a \<and>
            (if t = [] then None else Some t) = port_of_suffix sfx"
proof (cases f)
  case True
  assume "partition_at CHR '':'' s = (a, f, t)"
  with True have "s = a @ CHR '':'' # t" "CHR '':'' \<notin> set a" by (auto simp: partition_at_True)
  then show ?thesis
    by (intro exI [of _ "CHR '':'' # t"]) (auto simp: port_of_suffix_def port_suffix_def)
next
  case False
  assume "partition_at CHR '':'' s = (a, f, t)"
  with False show ?thesis
    by (intro exI [of _ "[]"]) (auto simp: partition_at_False port_of_suffix_def port_suffix_def)
qed

lemma suffix_partition:
  assumes "port_suffix sfx" and "CHR '':'' \<notin> set a"
  shows "\<exists>f t. partition_at CHR '':'' (a @ sfx) = (a, f, t) \<and>
               (if t = [] then None else Some t) = port_of_suffix sfx"
proof (cases sfx)
  case Nil
  then show ?thesis using assms by (auto simp: partition_at_absent port_of_suffix_def)
next
  case (Cons c t)
  then show ?thesis using assms by (auto simp: partition_at_append port_suffix_def port_of_suffix_def)
qed

lemma hostinfo_plain:
  assumes "CHR ''@'' \<notin> set (pr_netloc p)" and "plain_authority (pr_netloc p) host sfx" and "port_suffix sfx"
  shows "hostinfo p = (host, port_of_suffix sfx)"
  using assms suffix_partition [OF assms(3), of host]
  by (auto simp: hostinfo_def plain_authority_def rpartition_at_absent partition_at_absent Let_def)

lemma hostinfo_bracketed:
  assumes "CHR ''@'' \<notin> set (pr_netloc p)" and "bracketed_authority (pr_netloc p) host sfx" and "port_suffix sfx"
  shows "hostinfo p = (host, port_of_suffix sfx)"
  using assms suffix_partition [OF assms(3), of "[]"] partition_at_append [of "CHR '']''" host sfx]
  by (auto simp: hostinfo_def bracketed_authority_def rpartition_at_absent Let_def)

lemma netloc_ok_plain: "plain_authority n host sfx \<Longrightarrow> netloc_ok n"
  by (auto simp: plain_authority_def netloc_ok_def)

lemma netloc_ok_bracketed:
  assumes "CHR ''@'' \<notin> set n" and "bracketed_authority n host sfx" and "port_suffix sfx"
  shows "netloc_ok n"
  using assms partition_at_append [of "CHR '']''" host sfx]
  by (cases sfx)
     (auto simp: bracketed_authority_def netloc_ok_def check_bracketed_netloc_def rpartition_at_absent
       starts_with_def port_suffix_def Let_def)

lemma netloc_cases:
  assumes at: "CHR ''@'' \<notin> set n" and ok: "netloc_ok n"
  obtains host sfx where "port_suffix sfx" "plain_authority n host sfx \<or> bracketed_authority n host sfx"
proof (cases "CHR ''['' \<in> set n")
  case False
  then have nb: "CHR ''['' \<notin> set n" "CHR '']'' \<notin> set n" using ok by (auto simp: netloc_ok_def)
  obtain a f t where "partition_at CHR '':'' n = (a, f, t)" by (cases "partition_at CHR '':'' n")
  from partition_port [OF this] nb that show thesis by (auto simp: plain_authority_def)
next
  case True
  then obtain before br where o: "partition_at CHR ''['' n = (before, True, br)"
    using partition_at_found [of "CHR ''[''" n] by (cases "partition_at CHR ''['' n") auto
  obtain h f port where c: "partition_at CHR '']'' br = (h, f, port)" by (cases "partition_at CHR '']'' br")
  have chk: "before = []" "port = [] \<or> starts_with '':'' port" "check_bracketed_host h"
    using ok True at o c
    by (auto simp: netloc_ok_def check_bracketed_netloc_def rpartition_at_absent Let_def)
  have n: "n = CHR ''['' # br" using o chk(1) by (simp add: partition_at_True)
  have "CHR '']'' \<in> set br" using ok True n by (auto simp: netloc_ok_def)
  then have "f" using c partition_at_found [of "CHR '']''" br] by simp
  then have "br = h @ CHR '']'' # port" "CHR '']'' \<notin> set h" using c by (auto simp: partition_at_True)
  moreover have "port_suffix port" using chk(2) by (cases port) (auto simp: port_suffix_def starts_with_def)
  ultimately show thesis using that n chk(3) by (auto simp: bracketed_authority_def)
qed

section \<open>Schemes\<close>

lemma ascii_alpha_lower: "is_ascii_alpha (lower_char c) \<Longrightarrow> is_ascii_alpha c"
  using code_of_less [of c]
  by (auto simp: is_ascii_alpha_def lower_char_def Let_def code_of_char_of split: if_splits)

lemma ascii_alpha_scheme: "is_ascii_alpha c \<Longrightarrow> scheme_char c \<and> c \<noteq> CHR '':''"
  by (auto simp: scheme_char_def is_ascii_alpha_def code_of_def)

lemma split_scheme_https: "split_scheme v = (''https'', u) \<longleftrightarrow> (\<exists>s. v = s @ CHR '':'' # u \<and> py_lower s = ''https'')"
proof
  assume "split_scheme v = (''https'', u)"
  then show "\<exists>s. v = s @ CHR '':'' # u \<and> py_lower s = ''https''"
    by (auto simp: split_scheme_def partition_at_True split: prod.splits if_splits)
next
  assume "\<exists>s. v = s @ CHR '':'' # u \<and> py_lower s = ''https''"
  then obtain s where s: "v = s @ CHR '':'' # u" "py_lower s = ''https''" by blast
  have "list_all is_ascii_alpha (py_lower s)" unfolding s(2) by (simp add: is_ascii_alpha_def code_of_def)
  then have alpha: "is_ascii_alpha c" if "c \<in> set s" for c
    using that ascii_alpha_lower by (auto simp: py_lower_def list_all_iff)
  then have "CHR '':'' \<notin> set s" using ascii_alpha_scheme by blast
  moreover have "s \<noteq> []" using s(2) by auto
  ultimately show "split_scheme v = (''https'', u)"
    using s alpha ascii_alpha_scheme by (auto simp: split_scheme_def partition_at_append list_all_iff)
qed

end
