(* ===== verification/Url_Validation.thy ===== *)
theory Url_Validation
  imports Py_Url
begin

text \<open>
  The URL checks at the network boundary (\<open>conformance/url_validation.py\<close>), on the model of
  \<open>urlparse\<close> and \<open>ip_address\<close> of \<open>Py_Url\<close>. \<open>UrlValueError\<close> is the plain \<open>ValueError\<close> that
  \<open>urlparse\<close> raises outside the \<open>try\<close> block and that is no \<open>HttpsUrlValidationError\<close>.
\<close>

datatype url_error = HttpsUrlValidationError string | UrlValueError

definition LEGACY_FCS_REDIRECT_HOST :: string where
  "LEGACY_FCS_REDIRECT_HOST = ''0.0.0.0''"

definition bad_url_char :: "char \<Rightarrow> bool" where
  "bad_url_char c = (is_space c \<or> code_of c < 32 \<or> code_of c = 127)"

definition invalid_url :: "string \<Rightarrow> url_error" where
  "invalid_url label = HttpsUrlValidationError (label @ '' must be a valid HTTPS URL'')"

definition removesuffix_dot :: "string \<Rightarrow> string" where
  "removesuffix_dot s = (if ends_with ''.'' s then butlast s else s)"

definition hostname_label_ok :: "string \<Rightarrow> bool" where
  "hostname_label_ok l =
     (l \<noteq> [] \<and> length l \<le> 63 \<and> \<not> starts_with ''-'' l \<and> \<not> ends_with ''-'' l \<and>
      list_all (\<lambda>c. is_alnum c \<or> c = CHR ''-'') l)"

definition validate_dns_hostname :: "string \<Rightarrow> string \<Rightarrow> url_error + unit" where
  "validate_dns_hostname hostname label =
     (if \<not> list_all is_ascii hostname then Inl (invalid_url label)
      else let trimmed_hostname = removesuffix_dot hostname;
               labels = split_on CHR ''.'' trimmed_hostname
           in if trimmed_hostname = [] \<or> length trimmed_hostname > 253 then Inl (invalid_url label)
              else if \<not> list_all hostname_label_ok labels then Inl (invalid_url label)
              else Inr ())"

definition validate_hostname :: "string \<Rightarrow> string \<Rightarrow> url_error + unit" where
  "validate_hostname hostname label =
     (if ip_address_ok hostname
      then Inl (HttpsUrlValidationError (label @ '' must use a DNS hostname, not an IP literal''))
      else validate_dns_hostname hostname label)"

definition validate_https_url :: "string \<Rightarrow> string \<Rightarrow> url_error + unit" where
  "validate_https_url v label =
     (if list_ex bad_url_char v then Inl (invalid_url label)
      else case urlparse v of
        Inl _ \<Rightarrow> Inl UrlValueError
      | Inr parsed_url \<Rightarrow>
          (case url_port parsed_url of
             Inl _ \<Rightarrow> Inl (invalid_url label)
           | Inr parsed_port \<Rightarrow>
               if parsed_port = Some 0 then Inl (invalid_url label)
               else (case url_hostname parsed_url of
                   None \<Rightarrow> Inl (HttpsUrlValidationError (label @ '' must be an HTTPS URL''))
                 | Some hostname \<Rightarrow>
                     if pr_scheme parsed_url \<noteq> ''https''
                     then Inl (HttpsUrlValidationError (label @ '' must be an HTTPS URL''))
                     else if userinfo parsed_url \<noteq> (None, None)
                     then Inl (HttpsUrlValidationError (label @ '' must not include credentials''))
                     else validate_hostname hostname label)))"

definition rstrip_slash :: "string \<Rightarrow> string" where
  "rstrip_slash s = rev (dropWhile (\<lambda>c. c = CHR ''/'') (rev s))"

definition is_legacy_fcs_redirect_uri :: "string \<Rightarrow> url_error + bool" where
  "is_legacy_fcs_redirect_uri v =
     (if list_ex bad_url_char v then Inr False
      else case urlparse v of
        Inl _ \<Rightarrow> Inl UrlValueError
      | Inr parsed_url \<Rightarrow>
          (case url_port parsed_url of
             Inl _ \<Rightarrow> Inr False
           | Inr parsed_port \<Rightarrow>
               Inr (pr_scheme parsed_url = ''https'' \<and>
                    url_hostname parsed_url = Some LEGACY_FCS_REDIRECT_HOST \<and>
                    parsed_port = Some 8443 \<and> userinfo parsed_url = (None, None) \<and>
                    rstrip_slash (pr_path parsed_url) = ''/conformancesuite/callback'' \<and>
                    pr_query parsed_url = [] \<and> pr_fragment parsed_url = [])))"

definition validate_oauth_redirect_uri :: "string \<Rightarrow> string \<Rightarrow> url_error + unit" where
  "validate_oauth_redirect_uri v label =
     (case validate_https_url v label of
        Inr _ \<Rightarrow> Inr ()
      | Inl UrlValueError \<Rightarrow> Inl UrlValueError
      | Inl (HttpsUrlValidationError m) \<Rightarrow>
          rbind (is_legacy_fcs_redirect_uri v) (\<lambda>legacy.
            if legacy then Inr () else Inl (HttpsUrlValidationError m)))"

section \<open>What an accepted URL looks like\<close>

text \<open>Host names after RFC 1123, as a grammar: labels joined by dots, with an optional final dot.\<close>

definition rfc1123_label :: "string \<Rightarrow> bool" where
  "rfc1123_label l =
     (l \<noteq> [] \<and> length l \<le> 63 \<and> hd l \<noteq> CHR ''-'' \<and> last l \<noteq> CHR ''-'' \<and>
      list_all (\<lambda>c. is_ascii_alpha c \<or> is_digit_char c \<or> c = CHR ''-'') l)"

definition rfc1123_name :: "string \<Rightarrow> bool" where
  "rfc1123_name h =
     (\<exists>ls. ls \<noteq> [] \<and> list_all rfc1123_label ls \<and> length (join ''.'' ls) \<le> 253 \<and>
           (h = join ''.'' ls \<or> h = join ''.'' ls @ ''.''))"

definition port_text_ok :: "string \<Rightarrow> bool" where
  "port_text_ok sfx =
     (sfx = [] \<or> sfx = '':'' \<or>
      hd sfx = CHR '':'' \<and> py_isdecimal (tl sfx) \<and> length (tl sfx) \<le> max_str_digits \<and>
      1 \<le> nat_of_digits (tl sfx) \<and> nat_of_digits (tl sfx) \<le> 65535)"

lemma alnum_ascii: "is_ascii c \<Longrightarrow> is_alnum c \<longleftrightarrow> is_ascii_alpha c \<or> is_digit_char c"
  by (auto simp: is_alnum_def is_ascii_def Let_def)

lemma rfc1123_label_ok: "list_all is_ascii l \<Longrightarrow> hostname_label_ok l = rfc1123_label l"
  by (auto simp: hostname_label_ok_def rfc1123_label_def starts_with_single ends_with_single list_all_iff alnum_ascii)

lemma rfc1123_label_ascii: "rfc1123_label l \<Longrightarrow> c \<in> set l \<Longrightarrow> is_ascii c \<and> c \<noteq> CHR ''.''"
  by (auto simp: rfc1123_label_def list_all_iff is_ascii_def is_ascii_alpha_def is_digit_char_def code_of_def Let_def)

lemma set_join: "set (join s ws) \<subseteq> set s \<union> (\<Union>w \<in> set ws. set w)"
  by (induction s ws rule: join.induct) auto

lemma rfc1123_join:
  assumes "list_all rfc1123_label ls" and "ls \<noteq> []"
  shows "split_on CHR ''.'' (join ''.'' ls) = ls" and "list_all is_ascii (join ''.'' ls)"
    and "join ''.'' ls \<noteq> []" and "last (join ''.'' ls) \<noteq> CHR ''.''"
proof -
  have nodot: "CHR ''.'' \<notin> set l" if "l \<in> set ls" for l
    using assms(1) that rfc1123_label_ascii by (auto simp: list_all_iff)
  show "split_on CHR ''.'' (join ''.'' ls) = ls"
    using split_on_join [of ls "CHR ''.''"] nodot assms(2) by auto
  show "list_all is_ascii (join ''.'' ls)"
    using assms(1) set_join [of "''.''" ls] rfc1123_label_ascii
    by (fastforce simp: list_all_iff is_ascii_def code_of_def)
  have ne: "w \<noteq> []" if "w \<in> set ls" for w using assms(1) that by (auto simp: list_all_iff rfc1123_label_def)
  have "join ''.'' ls \<noteq> [] \<and> last (join ''.'' ls) \<in> set (last ls)"
    using assms(2) ne
    by (induction "''.''" ls rule: join.induct) auto
  then show "join ''.'' ls \<noteq> []" "last (join ''.'' ls) \<noteq> CHR ''.''"
    using nodot [of "last ls"] assms(2) by auto
qed

lemma validate_dns_iff: "validate_dns_hostname h label = Inr u \<longleftrightarrow> rfc1123_name h"
proof -
  let ?t = "removesuffix_dot h"
  have split: "h = ?t \<or> h = ?t @ ''.''"
    by (cases h rule: rev_cases) (auto simp: removesuffix_dot_def ends_with_single)
  have "rfc1123_name h" if ok: "list_all is_ascii h" "?t \<noteq> []" "length ?t \<le> 253"
    "list_all hostname_label_ok (split_on CHR ''.'' ?t)"
  proof -
    have asc: "list_all is_ascii l" if "l \<in> set (split_on CHR ''.'' ?t)" for l
    proof -
      have "set l \<subseteq> set ?t" using that by (rule split_on_subset)
      also have "\<dots> \<subseteq> set h" using split by (metis UnCI set_append subsetI)
      finally show ?thesis using ok(1) by (auto simp: list_all_iff)
    qed
    show ?thesis
      unfolding rfc1123_name_def
      using ok asc split join_split_on [of "CHR ''.''" ?t] rfc1123_label_ok
      by (intro exI [of _ "split_on CHR ''.'' ?t"]) (auto simp: list_all_iff)
  qed
  moreover have "list_all is_ascii h \<and> ?t \<noteq> [] \<and> length ?t \<le> 253 \<and> list_all hostname_label_ok (split_on CHR ''.'' ?t)"
    if name: "rfc1123_name h"
  proof -
    obtain ls where ls: "ls \<noteq> []" "list_all rfc1123_label ls" "length (join ''.'' ls) \<le> 253"
      "h = join ''.'' ls \<or> h = join ''.'' ls @ ''.''" using name by (auto simp: rfc1123_name_def)
    note j = rfc1123_join [OF ls(2,1)]
    have t: "?t = join ''.'' ls"
      using ls(4) j(3,4) by (auto simp: removesuffix_dot_def ends_with_single)
    have "list_all hostname_label_ok ls"
      using ls(2) rfc1123_label_ok rfc1123_label_ascii by (auto simp: list_all_iff)
    then show ?thesis using t j ls by (auto simp: list_all_iff is_ascii_def code_of_def)
  qed
  moreover have "validate_dns_hostname h label = Inr u \<longleftrightarrow>
      list_all is_ascii h \<and> ?t \<noteq> [] \<and> length ?t \<le> 253 \<and> list_all hostname_label_ok (split_on CHR ''.'' ?t)"
    by (simp add: validate_dns_hostname_def Let_def not_less)
  ultimately show ?thesis by blast
qed

text \<open>A clean URL is parsed as it stands: the scheme, the authority and the rest can be read off it.\<close>

definition https_shape :: "string \<Rightarrow> string \<Rightarrow> bool" where
  "https_shape v authority =
     (\<exists>s rest. v = s @ ''://'' @ authority @ rest \<and> py_lower s = ''https'' \<and>
               list_all (\<lambda>c. \<not> netloc_end c) authority \<and> (rest = [] \<or> netloc_end (hd rest)))"

lemma clean_url_id: "\<not> list_ex bad_url_char v \<Longrightarrow> clean_url v = v"
proof -
  assume "\<not> list_ex bad_url_char v"
  then have ok: "\<not> c0_or_space c \<and> code_of c \<notin> {9, 10, 13}" if "c \<in> set v" for c
    using that by (force simp: list_ex_iff bad_url_char_def c0_or_space_def is_space_def Let_def)
  then have "dropWhile c0_or_space v = v" by (cases v) auto
  then show ?thesis using ok by (simp add: clean_url_def)
qed

lemma span_netloc:
  "takeWhile (\<lambda>c. \<not> netloc_end c) u = n \<and> dropWhile (\<lambda>c. \<not> netloc_end c) u = rest \<longleftrightarrow>
   u = n @ rest \<and> list_all (\<lambda>c. \<not> netloc_end c) n \<and> (rest = [] \<or> netloc_end (hd rest))" (is "?l \<longleftrightarrow> ?r")
proof
  assume l: ?l
  then have "u = n @ rest" by (metis takeWhile_dropWhile_id)
  moreover have "list_all (\<lambda>c. \<not> netloc_end c) n" using l by (auto simp: list_all_iff dest: set_takeWhileD)
  moreover have "rest = [] \<or> netloc_end (hd rest)" using l hd_dropWhile [of "\<lambda>c. \<not> netloc_end c" u] by auto
  ultimately show ?r by blast
next
  assume r: ?r
  then have "takeWhile (\<lambda>c. \<not> netloc_end c) rest = []" "dropWhile (\<lambda>c. \<not> netloc_end c) rest = rest"
    by (cases rest; auto)+
  then show ?l using r by (auto simp: list_all_iff takeWhile_append dropWhile_append)
qed

definition https_parts :: "string \<Rightarrow> string \<Rightarrow> ParseResult" where
  "https_parts authority rest =
     (case split_fragment_query rest of (url, query, fragment) \<Rightarrow>
        let pp = (if CHR '';'' \<in> set url then splitparams url else (url, []))
        in \<lparr>pr_scheme = ''https'', pr_netloc = authority, pr_path = fst pp, pr_params = snd pp,
            pr_query = query, pr_fragment = fragment\<rparr>)"

lemma urlparse_https:
  assumes "\<not> list_ex bad_url_char v" and "n \<noteq> []"
  shows "urlparse v = Inr p \<and> pr_scheme p = ''https'' \<and> pr_netloc p = n \<longleftrightarrow>
         netloc_ok n \<and> (\<exists>s rest. v = s @ ''://'' @ n @ rest \<and> py_lower s = ''https'' \<and>
           list_all (\<lambda>c. \<not> netloc_end c) n \<and> (rest = [] \<or> netloc_end (hd rest)) \<and> p = https_parts n rest)"
proof -
  obtain sc u where sc: "split_scheme v = (sc, u)" by (cases "split_scheme v")
  let ?t = "\<lambda>w. takeWhile (\<lambda>c. \<not> netloc_end c) w" and ?d = "\<lambda>w. dropWhile (\<lambda>c. \<not> netloc_end c) w"
  have up: "''https'' \<in> set uses_params" by (simp add: uses_params_def)
  have "urlparse v = Inr p \<and> pr_scheme p = ''https'' \<and> pr_netloc p = n \<longleftrightarrow>
        sc = ''https'' \<and> netloc_ok n \<and> starts_with ''//'' u \<and> ?t (drop 2 u) = n \<and> p = https_parts n (?d (drop 2 u))"
    using assms(2) sc up
    by (auto simp: urlparse_def urlsplit_def clean_url_id [OF assms(1)] rbind_def Let_def https_parts_def
        split: prod.splits if_splits)
  also have "\<dots> \<longleftrightarrow> netloc_ok n \<and>
      (\<exists>w rest. split_scheme v = (''https'', ''//'' @ w) \<and> (?t w = n \<and> ?d w = rest) \<and> p = https_parts n rest)"
    using sc by (auto simp: starts_with_iff)
  also have "\<dots> \<longleftrightarrow> netloc_ok n \<and> (\<exists>s rest. v = s @ ''://'' @ n @ rest \<and> py_lower s = ''https'' \<and>
           list_all (\<lambda>c. \<not> netloc_end c) n \<and> (rest = [] \<or> netloc_end (hd rest)) \<and> p = https_parts n rest)"
    unfolding split_scheme_https span_netloc by auto
  finally show ?thesis .
qed

lemma urlparse_netloc:
  assumes "\<not> list_ex bad_url_char v" and "n \<noteq> []"
  shows "(\<exists>p. urlparse v = Inr p \<and> pr_scheme p = ''https'' \<and> pr_netloc p = n) \<longleftrightarrow> netloc_ok n \<and> https_shape v n"
  unfolding urlparse_https [OF assms] https_shape_def by blast

lemma port_text_iff:
  assumes "snd (hostinfo p) = port_of_suffix sfx" and "port_suffix sfx"
  shows "(\<exists>port. url_port p = Inr port \<and> port \<noteq> Some 0) \<longleftrightarrow> port_text_ok sfx"
proof (cases "length sfx \<le> 1")
  case True
  then show ?thesis using assms
    by (cases sfx) (auto simp: url_port_def port_of_suffix_def port_text_ok_def port_suffix_def)
next
  case False
  then obtain t where "sfx = CHR '':'' # t" "t \<noteq> []" using assms(2) by (cases sfx) (auto simp: port_suffix_def)
  then show ?thesis using assms
    by (auto simp: url_port_def port_of_suffix_def port_text_ok_def int_of_decimal_def)
qed

text \<open>A valid host name has none of the characters that delimit the parts of a URL.\<close>

lemma delimiters:
  assumes "c \<in> set ''@:[]%/?#''"
  shows "\<not> is_ascii_alpha c" "\<not> is_digit_char c" "c \<noteq> CHR ''-''" "c \<noteq> CHR ''.''" "lower_char c = c"
  using assms by (auto simp: is_ascii_alpha_def is_digit_char_def lower_char_def code_of_def)

lemma rfc1123_name_chars:
  assumes "rfc1123_name h" and "c \<in> set ''@:[]%/?#''"
  shows "c \<notin> set h"
proof
  assume c: "c \<in> set h"
  obtain ls where ls: "ls \<noteq> []" "list_all rfc1123_label ls" "h = join ''.'' ls \<or> h = join ''.'' ls @ ''.''"
    using assms(1) by (auto simp: rfc1123_name_def)
  have "c = CHR ''.'' \<or> (\<exists>l \<in> set ls. c \<in> set l)" using c ls(3) set_join [of "''.''" ls] by auto
  then show False using ls(2) delimiters [OF assms(2)] by (auto simp: list_all_iff rfc1123_label_def)
qed

lemma host_chars:
  assumes "rfc1123_name (py_lower host)" and "c \<in> set ''@:[]%/?#''"
  shows "c \<notin> set host"
proof
  assume "c \<in> set host"
  then have "lower_char c \<in> set (py_lower host)" by (simp add: py_lower_def)
  then have "c \<in> set (py_lower host)" by (simp only: delimiters(5) [OF assms(2)])
  then show False using rfc1123_name_chars [OF assms] by simp
qed

lemma port_text_chars: "port_text_ok sfx \<Longrightarrow> c \<in> set ''@[]'' \<Longrightarrow> c \<notin> set sfx"
  by (cases sfx) (auto simp: port_text_ok_def py_isdecimal_def list_all_iff is_digit_char_def code_of_def)

lemma port_text_suffix: "port_text_ok sfx \<Longrightarrow> port_suffix sfx"
  by (auto simp: port_text_ok_def port_suffix_def)

lemma rfc1123_name_ne: "rfc1123_name h \<Longrightarrow> h \<noteq> []"
  by (auto simp: rfc1123_name_def dest: rfc1123_join(3))

lemma validate_hostname_iff:
  "validate_hostname h label = Inr u \<longleftrightarrow> rfc1123_name h \<and> \<not> is_ipv4 h"
  using is_ipv6_colon [of h] rfc1123_name_chars [of h "CHR '':''"]
  by (auto simp: validate_hostname_def ip_address_ok_def validate_dns_iff)

lemma hostname_accepted_iff:
  "(\<exists>h. url_hostname p = Some h \<and> validate_hostname h label = Inr u) \<longleftrightarrow>
   rfc1123_name (py_lower (fst (hostinfo p))) \<and> \<not> is_ipv4 (py_lower (fst (hostinfo p)))"
proof -
  let ?host = "fst (hostinfo p)"
  obtain a f z where part: "partition_at CHR ''%'' ?host = (a, f, z)" by (cases "partition_at CHR ''%'' ?host")
  show ?thesis
  proof (cases f)
    case True
    then have "?host = a @ CHR ''%'' # z" using part by (simp add: partition_at_True)
    then have "\<not> rfc1123_name (py_lower ?host)" "\<not> rfc1123_name (py_lower a @ ''%'' @ z)"
      using host_chars [of ?host "CHR ''%''"] rfc1123_name_chars [of "py_lower a @ ''%'' @ z" "CHR ''%''"] by auto
    then show ?thesis using part True by (auto simp: url_hostname_def validate_hostname_iff Let_def)
  next
    case False
    then have "a = ?host" "z = []" using part by (auto simp: partition_at_False)
    then show ?thesis using part False rfc1123_name_ne [of "py_lower ?host"]
      by (auto simp: url_hostname_def validate_hostname_iff Let_def)
  qed
qed

lemma userinfo_none: "userinfo p = (None, None) \<longleftrightarrow> CHR ''@'' \<notin> set (pr_netloc p)"
  using rpartition_at_found [of "CHR ''@''" "pr_netloc p"] by (auto simp: userinfo_def split: prod.splits)

text \<open>The checks in one line: the whole handler is the conjunction of what it tests.\<close>

lemma validate_https_conj:
  "validate_https_url v label = Inr u \<longleftrightarrow>
   \<not> list_ex bad_url_char v \<and>
   (\<exists>p. urlparse v = Inr p \<and> pr_scheme p = ''https'' \<and> CHR ''@'' \<notin> set (pr_netloc p) \<and>
        (\<exists>port. url_port p = Inr port \<and> port \<noteq> Some 0) \<and>
        (\<exists>h. url_hostname p = Some h \<and> validate_hostname h label = Inr u))"
  by (auto simp: validate_https_url_def userinfo_none split: sum.splits option.splits if_splits)

lemma https_url_grammar:
  "validate_https_url v label = Inr u \<longleftrightarrow>
   \<not> list_ex bad_url_char v \<and>
   (\<exists>host sfx. port_text_ok sfx \<and> rfc1123_name (py_lower host) \<and> \<not> is_ipv4 (py_lower host) \<and>
      (https_shape v (host @ sfx) \<or> ipv_future host \<and> https_shape v (''['' @ host @ '']'' @ sfx)))"
  (is "_ \<longleftrightarrow> _ \<and> (\<exists>host sfx. ?ok host sfx)")
proof (cases "list_ex bad_url_char v")
  case False
  have "\<exists>host sfx. ?ok host sfx"
    if p: "urlparse v = Inr p" "pr_scheme p = ''https''" and at: "CHR ''@'' \<notin> set (pr_netloc p)"
      and port: "\<exists>port. url_port p = Inr port \<and> port \<noteq> Some 0"
      and host: "rfc1123_name (py_lower (fst (hostinfo p)))" "\<not> is_ipv4 (py_lower (fst (hostinfo p)))" for p
  proof -
    have "pr_netloc p \<noteq> []"
    proof
      assume "pr_netloc p = []"
      then have "fst (hostinfo p) = []" by (simp add: hostinfo_def rpartition_at_def)
      then show False using host(1) rfc1123_name_ne [of "[]"] by simp
    qed
    then have n: "netloc_ok (pr_netloc p)" "https_shape v (pr_netloc p)"
      using urlparse_netloc [OF False, of "pr_netloc p"] p by auto
    obtain h sfx where h: "port_suffix sfx"
      "plain_authority (pr_netloc p) h sfx \<or> bracketed_authority (pr_netloc p) h sfx"
      by (rule netloc_cases [OF at n(1)])
    then have info: "hostinfo p = (h, port_of_suffix sfx)" using hostinfo_plain hostinfo_bracketed at by blast
    have "port_text_ok sfx" using port_text_iff [of p sfx] info h(1) port by simp
    moreover have "\<not> is_ipv6 h" using is_ipv6_colon [of h] host_chars [of h "CHR '':''"] host(1) info by auto
    ultimately have "?ok h sfx"
      using h(2) n(2) host info
      by (auto simp: plain_authority_def bracketed_authority_def check_bracketed_host_def split: if_splits)
    then show ?thesis by blast
  qed
  moreover have "\<exists>p. urlparse v = Inr p \<and> pr_scheme p = ''https'' \<and> CHR ''@'' \<notin> set (pr_netloc p) \<and>
      (\<exists>port. url_port p = Inr port \<and> port \<noteq> Some 0) \<and>
      rfc1123_name (py_lower (fst (hostinfo p))) \<and> \<not> is_ipv4 (py_lower (fst (hostinfo p)))"
    if ok: "?ok host sfx" for host sfx
  proof -
    define n where "n = (if https_shape v (host @ sfx) then host @ sfx else ''['' @ host @ '']'' @ sfx)"
    have ps: "port_suffix sfx" using ok port_text_suffix by blast
    have hc: "c \<notin> set host" if "c \<in> set ''@:[]%/?#''" for c using ok host_chars that by blast
    have sc: "c \<notin> set sfx" if "c \<in> set ''@[]''" for c using ok port_text_chars that by blast
    have at: "CHR ''@'' \<notin> set n" using hc sc by (auto simp: n_def)
    have auth: "plain_authority n host sfx \<or> bracketed_authority n host sfx"
      using hc sc ok
      by (auto simp: n_def plain_authority_def bracketed_authority_def check_bracketed_host_def ipv_future_def)
    have "netloc_ok n" using auth netloc_ok_plain netloc_ok_bracketed at ps by blast
    moreover have "https_shape v n" using ok by (auto simp: n_def)
    moreover have "n \<noteq> []" using rfc1123_name_ne [of "py_lower host"] ok by (auto simp: n_def)
    ultimately obtain p where p: "urlparse v = Inr p" "pr_scheme p = ''https''" "pr_netloc p = n"
      using urlparse_netloc [OF False, of n] by auto
    have "hostinfo p = (host, port_of_suffix sfx)"
      using auth hostinfo_plain [of p] hostinfo_bracketed [of p] at p(3) ps by blast
    then show ?thesis using p at ok port_text_iff [of p sfx] ps by auto
  qed
  ultimately show ?thesis using False unfolding validate_https_conj hostname_accepted_iff by blast
qed (simp add: validate_https_conj)

section \<open>The legacy redirect URI\<close>

definition legacy_path :: string where
  "legacy_path = ''/conformancesuite/callback''"

text \<open>
  What may follow the authority of the legacy callback: its path, any number of slashes, path parameters
  of the last segment, and an empty query or fragment.
\<close>

definition legacy_rest :: "string \<Rightarrow> bool" where
  "legacy_rest rest =
     (\<exists>k params q f. rest = legacy_path @ replicate k CHR ''/'' @ params @ q @ f \<and>
        (params = [] \<or> hd params = CHR '';'' \<and> set params \<inter> set ''/?#'' = {}) \<and>
        (q = [] \<or> q = ''?'') \<and> (f = [] \<or> f = ''#''))"

lemma rstrip_slash_iff:
  assumes "cb \<noteq> []" and "last cb \<noteq> CHR ''/''"
  shows "rstrip_slash w = cb \<longleftrightarrow> (\<exists>k. w = cb @ replicate k CHR ''/'')"
proof
  let ?d = "dropWhile (\<lambda>c. c = CHR ''/'') (rev w)" and ?t = "takeWhile (\<lambda>c. c = CHR ''/'') (rev w)"
  assume cb: "rstrip_slash w = cb"
  have "?t = replicate (length ?t) CHR ''/''" by (rule replicate_eqI) (auto dest: set_takeWhileD)
  then have "rev w = replicate (length ?t) CHR ''/'' @ ?d" by (metis takeWhile_dropWhile_id)
  then have "w = rev ?d @ replicate (length ?t) CHR ''/''" by (metis rev_append rev_replicate rev_rev_ident)
  then show "\<exists>k. w = cb @ replicate k CHR ''/''" using cb unfolding rstrip_slash_def by blast
next
  assume "\<exists>k. w = cb @ replicate k CHR ''/''"
  then obtain k where w: "w = cb @ replicate k CHR ''/''" by blast
  have "dropWhile (\<lambda>c. c = CHR ''/'') (replicate k CHR ''/'' @ rev cb) = dropWhile (\<lambda>c. c = CHR ''/'') (rev cb)"
    by (induction k) auto
  also have "\<dots> = rev cb" using assms by (cases cb rule: rev_cases) auto
  finally show "rstrip_slash w = cb" by (simp add: rstrip_slash_def w)
qed

lemma fragment_query_empty:
  "split_fragment_query rest = (path, [], []) \<longleftrightarrow>
   (\<exists>q f. rest = path @ q @ f \<and> (q = [] \<or> q = ''?'') \<and> (f = [] \<or> f = ''#'') \<and>
          CHR ''?'' \<notin> set path \<and> CHR ''#'' \<notin> set path)"
proof -
  obtain u fr t where 1: "partition_at CHR ''#'' rest = (u, fr, t)" by (cases "partition_at CHR ''#'' rest")
  obtain w qr z where 2: "partition_at CHR ''?'' u = (w, qr, z)" by (cases "partition_at CHR ''?'' u")
  have eq: "split_fragment_query rest = (path, [], []) \<longleftrightarrow> w = path \<and> z = [] \<and> t = []"
    using 1 2 by (auto simp: split_fragment_query_def)
  have q: "u = w \<or> u = w @ ''?''" "CHR ''?'' \<notin> set w" if "z = []"
    using 2 that by (cases qr, auto simp: partition_at_True partition_at_False)+
  have f: "rest = u \<or> rest = u @ ''#''" "CHR ''#'' \<notin> set u" if "t = []"
    using 1 that by (cases fr, auto simp: partition_at_True partition_at_False)+
  have conv: "split_fragment_query (path @ q @ f) = (path, [], [])"
    if "q = [] \<or> q = ''?''" "f = [] \<or> f = ''#''" "CHR ''?'' \<notin> set path" "CHR ''#'' \<notin> set path" for q f
  proof -
    have "partition_at CHR ''#'' (path @ q @ f) = (path @ q, f \<noteq> [], [])"
      using that partition_at_append [of "CHR ''#''" "path @ q" "[]"] partition_at_absent [of "CHR ''#''" "path @ q"] by auto
    moreover have "partition_at CHR ''?'' (path @ q) = (path, q \<noteq> [], [])"
      using that partition_at_append [of "CHR ''?''" path "[]"] partition_at_absent [of "CHR ''?''" path] by auto
    ultimately show ?thesis by (simp add: split_fragment_query_def)
  qed
  show ?thesis (is "?l \<longleftrightarrow> ?r")
  proof
    assume ?l
    with eq have e: "w = path" "z = []" "t = []" by auto
    have "CHR ''#'' \<notin> set path" using f(2) q(1) e by auto
    moreover obtain q' where "u = path @ q'" "q' = [] \<or> q' = ''?''" using q(1) e by auto
    moreover obtain f' where "rest = u @ f'" "f' = [] \<or> f' = ''#''" using f(1) e by auto
    ultimately show ?r using q(2) e by (intro exI [of _ q'] exI [of _ f']) simp
  next
    assume ?r
    with conv show ?l by blast
  qed
qed

lemma legacy_params:
  "rstrip_slash (fst (if CHR '';'' \<in> set u then splitparams u else (u, []))) = legacy_path \<longleftrightarrow>
   (\<exists>k params. u = legacy_path @ replicate k CHR ''/'' @ params \<and>
      (params = [] \<or> hd params = CHR '';'' \<and> CHR ''/'' \<notin> set params))"
  (is "rstrip_slash (fst ?p) = _ \<longleftrightarrow> ?rhs")
proof
  have strip: "rstrip_slash w = legacy_path \<longleftrightarrow> (\<exists>k. w = legacy_path @ replicate k CHR ''/'')" for w
    by (rule rstrip_slash_iff) (simp_all add: legacy_path_def)
  have semi: "CHR '';'' \<notin> set (legacy_path @ replicate k CHR ''/'')" for k by (auto simp: legacy_path_def)
  {
    assume "rstrip_slash (fst ?p) = legacy_path"
    then obtain k where k: "fst ?p = legacy_path @ replicate k CHR ''/''" using strip by blast
    show ?rhs
    proof (cases "CHR '';'' \<in> set u")
      case False
      then have "u = legacy_path @ replicate k CHR ''/'' @ []" using k by simp
      then show ?thesis by blast
    next
      case True
      obtain a f b where r: "rpartition_at CHR ''/'' u = (a, f, b)" by (cases "rpartition_at CHR ''/'' u")
      obtain x s y where q: "partition_at CHR '';'' b = (x, s, y)" by (cases "partition_at CHR '';'' b")
      have f: f
      proof (rule ccontr)
        assume "\<not> f"
        then have "CHR ''/'' \<notin> set u" using r rpartition_at_found [of "CHR ''/''" u] by simp
        moreover obtain x' s' y' where "partition_at CHR '';'' u = (x', s', y')" by (cases "partition_at CHR '';'' u")
        ultimately have "CHR ''/'' \<notin> set (fst ?p)" using True r \<open>\<not> f\<close>
          by (cases s') (auto simp: splitparams_def partition_at_True partition_at_False partition_at_append)
        then show False unfolding k by (simp add: legacy_path_def)
      qed
      have s: s using True k semi r q f by (auto simp: splitparams_def split: if_splits)
      have "u = a @ CHR ''/'' # b" "CHR ''/'' \<notin> set b" using r f by (auto simp: rpartition_at_True)
      moreover have "b = x @ CHR '';'' # y" using q s by (simp add: partition_at_True)
      moreover have "a @ ''/'' @ x = legacy_path @ replicate k CHR ''/''" using k True r q f s by (simp add: splitparams_def)
      ultimately have "u = legacy_path @ replicate k CHR ''/'' @ (CHR '';'' # y)" "CHR ''/'' \<notin> set (CHR '';'' # y)"
        by (auto simp: append_eq_append_conv2)
      then show ?thesis by (metis list.sel(1))
    qed
  }
  {
    assume ?rhs
    then obtain k params where u: "u = (legacy_path @ replicate k CHR ''/'') @ params"
      "params = [] \<or> hd params = CHR '';'' \<and> CHR ''/'' \<notin> set params" by auto
    let ?w = "legacy_path @ replicate k CHR ''/''"
    have "fst ?p = ?w"
    proof (cases params)
      case Nil
      then show ?thesis using u semi [of k] by simp
    next
      case (Cons c y)
      have "CHR ''/'' \<in> set ?w" by (simp add: legacy_path_def)
      then obtain a x where w: "?w = a @ CHR ''/'' # x" "CHR ''/'' \<notin> set x" by (metis split_list_last)
      have "CHR '';'' \<notin> set x" using semi [of k] unfolding w(1) by simp
      moreover have "rpartition_at CHR ''/'' u = (a, True, x @ CHR '';'' # y)"
        using u w Cons by (auto simp: rpartition_at_True)
      ultimately show ?thesis using u Cons w by (simp add: splitparams_def partition_at_append)
    qed
    then show "rstrip_slash (fst ?p) = legacy_path" using strip by metis
  }
qed

lemma legacy_rest_iff:
  "(\<exists>u. split_fragment_query rest = (u, [], []) \<and>
        rstrip_slash (fst (if CHR '';'' \<in> set u then splitparams u else (u, []))) = legacy_path) \<longleftrightarrow> legacy_rest rest"
proof
  assume "\<exists>u. split_fragment_query rest = (u, [], []) \<and>
        rstrip_slash (fst (if CHR '';'' \<in> set u then splitparams u else (u, []))) = legacy_path"
  then obtain u where u: "split_fragment_query rest = (u, [], [])"
    "rstrip_slash (fst (if CHR '';'' \<in> set u then splitparams u else (u, []))) = legacy_path" by blast
  obtain q f where qf: "rest = u @ q @ f" "q = [] \<or> q = ''?''" "f = [] \<or> f = ''#''"
    "CHR ''?'' \<notin> set u" "CHR ''#'' \<notin> set u" using u(1) unfolding fragment_query_empty by blast
  obtain k params where kp: "u = legacy_path @ replicate k CHR ''/'' @ params"
    "params = [] \<or> hd params = CHR '';'' \<and> CHR ''/'' \<notin> set params" using u(2) unfolding legacy_params by blast
  show "legacy_rest rest"
    unfolding legacy_rest_def
    by (intro exI [of _ k] exI [of _ params] exI [of _ q] exI [of _ f]) (use qf kp in auto)
next
  assume "legacy_rest rest"
  then obtain k params q f where r: "rest = legacy_path @ replicate k CHR ''/'' @ params @ q @ f"
    "params = [] \<or> hd params = CHR '';'' \<and> set params \<inter> set ''/?#'' = {}"
    "q = [] \<or> q = ''?''" "f = [] \<or> f = ''#''" unfolding legacy_rest_def by blast
  let ?u = "legacy_path @ replicate k CHR ''/'' @ params"
  have "CHR ''?'' \<notin> set ?u" "CHR ''#'' \<notin> set ?u" using r(2) by (auto simp: legacy_path_def)
  then have "split_fragment_query rest = (?u, [], [])"
    unfolding fragment_query_empty using r by (intro exI [of _ q] exI [of _ f]) simp
  moreover have "rstrip_slash (fst (if CHR '';'' \<in> set ?u then splitparams ?u else (?u, []))) = legacy_path"
    unfolding legacy_params using r(2) by (intro exI [of _ k] exI [of _ params]) auto
  ultimately show "\<exists>u. split_fragment_query rest = (u, [], []) \<and>
        rstrip_slash (fst (if CHR '';'' \<in> set u then splitparams u else (u, []))) = legacy_path" by blast
qed

lemma lower_digit: "code_of (lower_char c) \<le> 57 \<Longrightarrow> lower_char c = c"
  using code_of_less [of c] by (auto simp: lower_char_def Let_def code_of_char_of split: if_splits)

lemma lower_legacy_host: "py_lower h = LEGACY_FCS_REDIRECT_HOST \<Longrightarrow> h = LEGACY_FCS_REDIRECT_HOST"
proof -
  assume h: "py_lower h = LEGACY_FCS_REDIRECT_HOST"
  have "\<forall>d \<in> set (py_lower h). code_of d \<le> 57" unfolding h by (simp add: LEGACY_FCS_REDIRECT_HOST_def code_of_def)
  then have "py_lower h = h" by (auto simp: py_lower_def lower_digit intro: map_idI)
  then show ?thesis using h by simp
qed

lemma legacy_hostname:
  assumes "url_hostname p = Some LEGACY_FCS_REDIRECT_HOST"
  shows "fst (hostinfo p) = LEGACY_FCS_REDIRECT_HOST"
proof -
  obtain a f z where part: "partition_at CHR ''%'' (fst (hostinfo p)) = (a, f, z)"
    by (cases "partition_at CHR ''%'' (fst (hostinfo p))")
  have e: "py_lower a @ (if f then ''%'' else []) @ z = LEGACY_FCS_REDIRECT_HOST"
    using assms part by (auto simp: url_hostname_def Let_def split: if_splits)
  have "CHR ''%'' \<notin> set LEGACY_FCS_REDIRECT_HOST" by (simp add: LEGACY_FCS_REDIRECT_HOST_def)
  then have "\<not> f" unfolding e [symmetric] by auto
  moreover have "py_lower a @ z = LEGACY_FCS_REDIRECT_HOST" using e calculation by simp
  ultimately show ?thesis using part lower_legacy_host by (auto simp: partition_at_False)
qed

definition legacy_port :: "string \<Rightarrow> bool" where
  "legacy_port digits = (py_isdecimal digits \<and> length digits \<le> max_str_digits \<and> nat_of_digits digits = 8443)"

definition legacy_shape :: "string \<Rightarrow> bool" where
  "legacy_shape v =
     (\<exists>s digits rest. v = s @ ''://'' @ LEGACY_FCS_REDIRECT_HOST @ '':'' @ digits @ rest \<and>
        py_lower s = ''https'' \<and> legacy_port digits \<and> legacy_rest rest)"

lemma legacy_rest_end: "legacy_rest rest \<Longrightarrow> rest \<noteq> [] \<and> netloc_end (hd rest)"
  by (auto simp: legacy_rest_def legacy_path_def netloc_end_def)

lemma https_parts_legacy:
  "rstrip_slash (pr_path (https_parts n rest)) = legacy_path \<and> pr_query (https_parts n rest) = [] \<and>
   pr_fragment (https_parts n rest) = [] \<longleftrightarrow> legacy_rest rest"
  unfolding legacy_rest_iff [symmetric] by (auto simp: https_parts_def Let_def split: prod.splits)

lemma legacy_authority:
  assumes "CHR ''@'' \<notin> set (pr_netloc p)" and "netloc_ok (pr_netloc p)"
  shows "url_hostname p = Some LEGACY_FCS_REDIRECT_HOST \<and> url_port p = Inr (Some 8443) \<longleftrightarrow>
         (\<exists>digits. pr_netloc p = LEGACY_FCS_REDIRECT_HOST @ '':'' @ digits \<and> legacy_port digits)" (is "?l \<longleftrightarrow> ?r")
proof
  assume l: ?l
  obtain h sfx where h: "port_suffix sfx"
    "plain_authority (pr_netloc p) h sfx \<or> bracketed_authority (pr_netloc p) h sfx"
    by (rule netloc_cases [OF assms])
  then have info: "hostinfo p = (h, port_of_suffix sfx)" using hostinfo_plain hostinfo_bracketed assms(1) by blast
  have host: "h = LEGACY_FCS_REDIRECT_HOST" using legacy_hostname [of p] l info by simp
  have "\<not> check_bracketed_host h"
    using is_ipv6_colon [of h] by (auto simp: host LEGACY_FCS_REDIRECT_HOST_def check_bracketed_host_def starts_with_def)
  then have n: "pr_netloc p = h @ sfx" using h(2) by (auto simp: plain_authority_def bracketed_authority_def)
  obtain digits where "sfx = CHR '':'' # digits" "digits \<noteq> []"
    using l info h(1) by (cases sfx) (auto simp: url_port_def port_of_suffix_def port_suffix_def split: if_splits)
  then show ?r using n host l info
    by (auto simp: url_port_def port_of_suffix_def legacy_port_def int_of_decimal_def split: if_splits)
next
  assume ?r
  then obtain digits where d: "pr_netloc p = LEGACY_FCS_REDIRECT_HOST @ '':'' @ digits" "legacy_port digits" by blast
  have ok: "port_text_ok (CHR '':'' # digits)" using d(2) by (simp add: legacy_port_def port_text_ok_def)
  have "plain_authority (pr_netloc p) LEGACY_FCS_REDIRECT_HOST (CHR '':'' # digits)"
    using d(1) port_text_chars [OF ok] by (auto simp: plain_authority_def LEGACY_FCS_REDIRECT_HOST_def)
  then have "hostinfo p = (LEGACY_FCS_REDIRECT_HOST, port_of_suffix (CHR '':'' # digits))"
    using hostinfo_plain assms(1) ok port_text_suffix by blast
  then show ?l using d(2)
    by (auto simp: url_hostname_def url_port_def port_of_suffix_def legacy_port_def int_of_decimal_def py_isdecimal_def
        LEGACY_FCS_REDIRECT_HOST_def py_lower_def lower_char_def code_of_def Let_def)
qed

lemma legacy_redirect_iff: "is_legacy_fcs_redirect_uri v = Inr True \<longleftrightarrow> \<not> list_ex bad_url_char v \<and> legacy_shape v"
proof (cases "list_ex bad_url_char v")
  case False
  have "is_legacy_fcs_redirect_uri v = Inr True \<longleftrightarrow>
      (\<exists>p. urlparse v = Inr p \<and> pr_scheme p = ''https'' \<and> CHR ''@'' \<notin> set (pr_netloc p) \<and>
        (url_hostname p = Some LEGACY_FCS_REDIRECT_HOST \<and> url_port p = Inr (Some 8443)) \<and>
        (rstrip_slash (pr_path p) = legacy_path \<and> pr_query p = [] \<and> pr_fragment p = []))"
    using False
    by (auto simp: is_legacy_fcs_redirect_uri_def userinfo_none legacy_path_def split: sum.splits)
  also have "\<dots> \<longleftrightarrow> legacy_shape v" (is "(\<exists>p. ?P p) \<longleftrightarrow> _")
  proof
    assume "\<exists>p. ?P p"
    then obtain p where p: "?P p" by blast
    then have "pr_netloc p \<noteq> []" by (auto simp: url_hostname_def hostinfo_def rpartition_at_def Let_def)
    then obtain s rest where u: "netloc_ok (pr_netloc p)" "v = s @ ''://'' @ pr_netloc p @ rest" "py_lower s = ''https''"
      "p = https_parts (pr_netloc p) rest"
      using urlparse_https [OF False, of "pr_netloc p" p] p by blast
    have "legacy_rest rest" using p u(4) https_parts_legacy [of "pr_netloc p" rest] by simp
    moreover obtain digits where "pr_netloc p = LEGACY_FCS_REDIRECT_HOST @ '':'' @ digits" "legacy_port digits"
      using legacy_authority [of p] p u(1) by blast
    ultimately show "legacy_shape v" using u(2,3) by (auto simp: legacy_shape_def)
  next
    assume "legacy_shape v"
    then obtain s digits rest where d: "v = s @ ''://'' @ (LEGACY_FCS_REDIRECT_HOST @ '':'' @ digits) @ rest"
      "py_lower s = ''https''" "legacy_port digits" "legacy_rest rest" by (auto simp: legacy_shape_def)
    let ?n = "LEGACY_FCS_REDIRECT_HOST @ '':'' @ digits"
    have ok: "port_text_ok (CHR '':'' # digits)" using d(3) by (simp add: legacy_port_def port_text_ok_def)
    have dig: "is_digit_char c" if "c \<in> set digits" for c
      using d(3) that by (auto simp: legacy_port_def py_isdecimal_def list_all_iff)
    have at: "CHR ''@'' \<notin> set ?n" using port_text_chars [OF ok] by (auto simp: LEGACY_FCS_REDIRECT_HOST_def)
    have "plain_authority ?n LEGACY_FCS_REDIRECT_HOST (CHR '':'' # digits)"
      using port_text_chars [OF ok] by (auto simp: plain_authority_def LEGACY_FCS_REDIRECT_HOST_def)
    then have nok: "netloc_ok ?n" by (rule netloc_ok_plain)
    have "\<not> netloc_end c" if "c \<in> set digits" for c
      using dig [OF that] delimiters(2) [of c] by (auto simp: netloc_end_def)
    then have "list_all (\<lambda>c. \<not> netloc_end c) ?n"
      by (auto simp: list_all_iff LEGACY_FCS_REDIRECT_HOST_def netloc_end_def)
    then have "urlparse v = Inr (https_parts ?n rest) \<and> pr_scheme (https_parts ?n rest) = ''https'' \<and>
        pr_netloc (https_parts ?n rest) = ?n"
      using urlparse_https [OF False, of ?n "https_parts ?n rest"] nok d legacy_rest_end [OF d(4)]
      by (simp add: LEGACY_FCS_REDIRECT_HOST_def) blast
    moreover have "rstrip_slash (pr_path (https_parts ?n rest)) = legacy_path \<and> pr_query (https_parts ?n rest) = [] \<and>
        pr_fragment (https_parts ?n rest) = []" using https_parts_legacy d(4) by blast
    ultimately show "\<exists>p. ?P p" using legacy_authority [of "https_parts ?n rest"] at nok d(3)
      by (intro exI [of _ "https_parts ?n rest"]) auto
  qed
  finally show ?thesis using False by simp
qed (simp add: is_legacy_fcs_redirect_uri_def)

section \<open>Deviations\<close>

text \<open>
  Three inputs on which the checks are laxer than their documentation: an unbalanced bracket raises a plain
  \<open>ValueError\<close>, a bracketed \<open>IPvFuture\<close> literal passes as a DNS name, and the legacy callback is accepted with
  path parameters.
\<close>

lemmas url_eval = validate_https_url_def validate_oauth_redirect_uri_def is_legacy_fcs_redirect_uri_def
  validate_hostname_def validate_dns_hostname_def hostname_label_ok_def invalid_url_def bad_url_char_def
  urlparse_def urlsplit_def clean_url_def c0_or_space_def split_scheme_def scheme_char_def netloc_end_def netloc_ok_def
  check_bracketed_netloc_def check_bracketed_host_def ipv_future_def split_fragment_query_def uses_params_def
  splitparams_def userinfo_def hostinfo_def url_hostname_def url_port_def rpartition_at_def starts_with_def ends_with_def
  removesuffix_dot_def rstrip_slash_def LEGACY_FCS_REDIRECT_HOST_def
  is_space_def is_alnum_def is_ascii_def is_ascii_alpha_def is_digit_char_def is_hex_char_def py_lower_def lower_char_def
  code_of_def ip_address_ok_def is_ipv4_def is_ipv6_def valid_octet_def v6_int_ok_def py_isdecimal_def nat_of_digits_def
  digit_value_def int_of_decimal_def max_str_digits_def Let_def

lemma unbalanced_bracket_escapes: "validate_https_url ''https://['' label = Inl UrlValueError"
  by (simp add: url_eval)

lemma bracketed_ipvfuture_accepted: "validate_https_url ''https://[v1.example.com]/'' label = Inr ()"
  by (simp add: url_eval)

lemma legacy_callback_with_parameters:
  "validate_oauth_redirect_uri ''https://0.0.0.0:8443/conformancesuite/callback;next=evil'' label = Inr ()"
  by (simp add: url_eval)

section \<open>Properties\<close>

text \<open>C11: The HTTPS check accepts exactly the URLs of this grammar: no white space or control character, the scheme
  https in any case, an authority without credentials made of an RFC 1123 host name that is no IPv4 literal and an
  optional port between 1 and 65535, then nothing or a path, query or fragment. The host may stand in brackets
  only when it has the form of an IPvFuture literal.\<close>

theorem https_url_accepted:
  "validate_https_url v label = Inr () \<longleftrightarrow>
   \<not> list_ex bad_url_char v \<and>
   (\<exists>host sfx. port_text_ok sfx \<and> rfc1123_name (py_lower host) \<and> \<not> is_ipv4 (py_lower host) \<and>
      (https_shape v (host @ sfx) \<or> ipv_future host \<and> https_shape v (''['' @ host @ '']'' @ sfx)))"
  by (rule https_url_grammar)

text \<open>C38: A redirect URI is accepted exactly when it passes the HTTPS check, or when it has no blank or control character and the
  legacy shape: the scheme https, the host 0.0.0.0 without credentials, the port 8443 (zeros may precede it, up to 4300 digits), the path
  /conformancesuite/callback, then any number of slashes, optionally a semicolon and path parameters without a slash, and
  an empty query and an empty fragment, whose marks may be present. So the exception is wider than the single callback URI
  the code documents: https://0.0.0.0:8443/conformancesuite/callback;next=evil passes.\<close>

theorem redirect_uri_accepted:
  "validate_oauth_redirect_uri v label = Inr () \<longleftrightarrow>
   validate_https_url v label = Inr () \<or> \<not> list_ex bad_url_char v \<and> legacy_shape v"
proof (cases "validate_https_url v label")
  case (Inl e)
  show ?thesis
  proof (cases e)
    case (HttpsUrlValidationError m)
    with Inl show ?thesis unfolding legacy_redirect_iff [symmetric]
      by (cases "is_legacy_fcs_redirect_uri v") (auto simp: validate_oauth_redirect_uri_def)
  next
    case UrlValueError
    then have "is_legacy_fcs_redirect_uri v \<noteq> Inr True"
      using Inl by (auto simp: validate_https_url_def is_legacy_fcs_redirect_uri_def validate_hostname_def
          validate_dns_hostname_def invalid_url_def Let_def split: sum.splits if_splits option.splits)
    then show ?thesis using Inl UrlValueError legacy_redirect_iff by (auto simp: validate_oauth_redirect_uri_def)
  qed
qed (auto simp: validate_oauth_redirect_uri_def)

end
