(* ===== verification/Schema_Validation.thy ===== *)
theory Schema_Validation
  imports Json "HOL-Library.Multiset"
begin

text \<open>
  Response schemas (\<open>conformance/schema_validation.py\<close>): the resolution of local references in a bundled OpenAPI
  document, the translation of OpenAPI keywords, and the choice and rendering of one validation error. The bundled
  documents on disk are the argument \<open>read_document\<close> (\<open>None\<close> for a missing file) and \<open>jsonschema\<close> is the
  argument \<open>iter_errors\<close>. The recursion over references leaves the syntax tree of the schema; it ends because a
  reference is never entered twice on one path and the document holds finitely many strings.
\<close>

datatype schema_error =
    SchemaValidationConfigurationError string
  | SchemaValueError

section \<open>JSON pointers\<close>

fun replace_tilde :: "char \<Rightarrow> char \<Rightarrow> string \<Rightarrow> string" where
  "replace_tilde d c (x # y # s) =
     (if x = CHR ''~'' \<and> y = d then c # replace_tilde d c s else x # replace_tilde d c (y # s))"
| "replace_tilde d c s = s"

definition unescape_segment :: "string \<Rightarrow> string" where
  "unescape_segment raw_segment = replace_tilde CHR ''0'' CHR ''~'' (replace_tilde CHR ''1'' CHR ''/'' raw_segment)"

text \<open>\<open>str.isdigit\<close> also holds of the superscript digits of Latin-1, which \<open>int\<close> then rejects.\<close>

definition py_isdigit :: "string \<Rightarrow> bool" where
  "py_isdigit s = (s \<noteq> [] \<and> list_all (\<lambda>c. is_digit_char c \<or> code_of c \<in> {178, 179, 185}) s)"

definition config_error :: "string \<Rightarrow> schema_error + 'a" where
  "config_error message = Inl (SchemaValidationConfigurationError message)"

definition pointer_index :: "string \<Rightarrow> schema_error + nat" where
  "pointer_index segment =
     (if py_isdecimal segment
      then (case int_of_decimal segment of None \<Rightarrow> Inl SchemaValueError | Some i \<Rightarrow> Inr i)
      else Inl SchemaValueError)"

fun walk_pointer :: "string \<Rightarrow> json \<Rightarrow> string list \<Rightarrow> schema_error + json" where
  "walk_pointer pointer current [] = Inr current"
| "walk_pointer pointer current (raw_segment # rest) =
     (let segment = unescape_segment raw_segment in
      case current of
        JObj obj \<Rightarrow>
          (case map_of obj segment of
             None \<Rightarrow> config_error (''Schema reference '' @ repr_str pointer @ '' was not found'')
           | Some v \<Rightarrow> walk_pointer pointer v rest)
      | JArr items \<Rightarrow>
          (if \<not> py_isdigit segment
           then config_error (''Schema reference '' @ repr_str pointer @ '' segment '' @ repr_str segment
                  @ '' is not a list index'')
           else rbind (pointer_index segment) (\<lambda>index.
             if length items \<le> index
             then config_error (''Schema reference '' @ repr_str pointer @ '' was not found'')
             else walk_pointer pointer (items ! index) rest))
      | _ \<Rightarrow> config_error (''Schema reference '' @ repr_str pointer @ '' could not be resolved''))"

definition resolve_json_pointer :: "json \<Rightarrow> string \<Rightarrow> schema_error + json" where
  "resolve_json_pointer document pointer =
     (if \<not> starts_with ''#/'' pointer
      then config_error (''Schema reference '' @ repr_str pointer @ '' must be a local '' @ quoted ''#/'' @ '' pointer'')
      else walk_pointer pointer document (split_on CHR ''/'' (drop 2 pointer)))"

section \<open>OpenAPI keywords\<close>

definition popped :: "string \<Rightarrow> json_object \<Rightarrow> json_object" where
  "popped key schema = AList.delete key schema"

definition normalize_openapi_schema_keywords :: "json_object \<Rightarrow> json_object" where
  "normalize_openapi_schema_keywords schema =
     (let namespaced_enum_value = jget schema ''x-namespaced-enum'';
          schema = popped ''x-namespaced-enum'' schema;
          schema = (if ''enum'' \<notin> set (keys schema) \<and> is_array namespaced_enum_value
                       \<and> list_all is_string (arr_of namespaced_enum_value)
                    then AList.update ''enum'' namespaced_enum_value schema else schema);
          nullable_value = jget schema ''nullable'';
          schema = popped ''nullable'' schema
      in if nullable_value \<noteq> JBool True then schema
         else case jget schema ''type'' of
           JStr schema_type \<Rightarrow> AList.update ''type'' (JArr [JStr schema_type, JStr ''null'']) schema
         | JArr schema_type \<Rightarrow>
             (if JStr ''null'' \<notin> set schema_type \<and> list_all is_string schema_type
              then AList.update ''type'' (JArr (schema_type @ [JStr ''null''])) schema else schema)
         | _ \<Rightarrow> schema)"

section \<open>Resolution of references\<close>

fun strings_of :: "json \<Rightarrow> string set" where
  "strings_of (JStr s) = {s}"
| "strings_of (JArr xs) = (\<Union>x \<in> set xs. strings_of x)"
| "strings_of (JObj kvs) = (\<Union>(k, v) \<in> set kvs. strings_of v)"
| "strings_of _ = {}"

lemma finite_strings [simp]: "finite (strings_of j)"
  by (induction j) auto

lemma strings_member: "(k, v) \<in> set kvs \<Longrightarrow> strings_of v \<subseteq> strings_of (JObj kvs)"
  by auto

lemma walk_pointer_strings: "walk_pointer p v segs = Inr w \<Longrightarrow> strings_of w \<subseteq> strings_of v"
proof (induction segs arbitrary: v)
  case (Cons raw segs)
  show ?case
  proof (cases v)
    case (JObj obj)
    then obtain u where u: "map_of obj (unescape_segment raw) = Some u" "walk_pointer p u segs = Inr w"
      using Cons.prems by (auto simp: config_error_def Let_def split: option.splits)
    then have "strings_of u \<subseteq> strings_of v" using JObj map_of_SomeD strings_member by metis
    then show ?thesis using Cons.IH [OF u(2)] by blast
  next
    case (JArr items)
    then obtain i where i: "i < length items" "walk_pointer p (items ! i) segs = Inr w"
      using Cons.prems by (auto simp: config_error_def Let_def rbind_eq_Inr not_le split: if_splits)
    then have "strings_of (items ! i) \<subseteq> strings_of v" using JArr nth_mem by fastforce
    then show ?thesis using Cons.IH [OF i(2)] by blast
  qed (use Cons.prems in \<open>simp_all add: config_error_def Let_def\<close>)
qed simp

lemma resolve_pointer_strings: "resolve_json_pointer d r = Inr w \<Longrightarrow> strings_of w \<subseteq> strings_of d"
  unfolding resolve_json_pointer_def config_error_def by (auto split: if_splits dest: walk_pointer_strings)

definition pending :: "json_object \<Rightarrow> string list \<Rightarrow> json \<Rightarrow> string set" where
  "pending document_root seen v = (strings_of (JObj document_root) \<union> strings_of v) - set seen"

lemma pending_ref:
  assumes "map_of kvs ''$ref'' = Some (JStr r)" and "r \<notin> set seen" and "resolve_json_pointer (JObj document_root) r = Inr w"
  shows "card (pending document_root (seen @ [r]) w) < card (pending document_root seen (JObj kvs))"
proof (rule psubset_card_mono)
  show "finite (pending document_root seen (JObj kvs))" unfolding pending_def by (intro finite_Diff finite_UnI finite_strings)
  have "r \<in> strings_of (JObj kvs)"
    using strings_member [OF map_of_SomeD [OF assms(1)]] by (simp only: strings_of.simps insert_subset)
  then show "pending document_root (seen @ [r]) w \<subset> pending document_root seen (JObj kvs)"
    using resolve_pointer_strings [OF assms(3)] assms(2) unfolding pending_def by (simp del: strings_of.simps) blast
qed

lemma pending_mono: "strings_of v \<subseteq> strings_of u \<Longrightarrow> card (pending document_root seen v) \<le> card (pending document_root seen u)"
  by (rule card_mono) (auto simp: pending_def simp del: strings_of.simps)

definition schema_order :: "((json_object \<times> string list \<times> json) \<times> (json_object \<times> string list \<times> json)) set" where
  "schema_order = measures [\<lambda>(document_root, seen, v). card (pending document_root seen v), \<lambda>(document_root, seen, v). size v]"

lemma schema_order_sub:
  "strings_of v \<subseteq> strings_of u \<Longrightarrow> size v < size u \<Longrightarrow> ((document_root, seen, v), (document_root, seen, u)) \<in> schema_order"
  using pending_mono [of v u document_root seen] by (auto simp: schema_order_def)

lemma schema_order_member:
  "(k, v) \<in> set kvs \<Longrightarrow> ((document_root, seen, v), (document_root, seen, JObj kvs)) \<in> schema_order"
  by (rule schema_order_sub [OF strings_member]) (auto dest: size_member)

lemma schema_order_item: "x \<in> set xs \<Longrightarrow> ((document_root, seen, x), (document_root, seen, JArr xs)) \<in> schema_order"
  by (rule schema_order_sub) (auto simp: less_Suc_eq_le size_list_estimation')

lemma schema_order_ref:
  assumes "map_of kvs ''$ref'' = Some (JStr r)" and "r \<notin> set seen" and "resolve_json_pointer (JObj document_root) r = Inr w"
  shows "((document_root, seen @ [r], w), (document_root, seen, JObj kvs)) \<in> schema_order"
  using pending_ref [OF assms] by (simp add: schema_order_def)

definition merge_members :: "json_object \<Rightarrow> json_object \<Rightarrow> json_object" where
  "merge_members merged members = fold (\<lambda>(k, v). AList.update k v) members merged"

function prepare_openapi_schema :: "json_object \<Rightarrow> string list \<Rightarrow> json \<Rightarrow> schema_error + json" where
  "prepare_openapi_schema document_root seen (JObj kvs) =
     (case map_of kvs ''$ref'' of
        Some (JStr raw_ref) \<Rightarrow>
          (if raw_ref = [] then config_error ''Schema reference must be a non-empty string''
           else if raw_ref \<in> set seen
           then config_error (''Circular schema reference is not supported: '' @ join '' -> '' (seen @ [raw_ref]))
           else rbind (resolve_json_pointer (JObj document_root) raw_ref) (\<lambda>resolved_value.
                rbind (prepare_openapi_schema document_root (seen @ [raw_ref]) resolved_value) (\<lambda>resolved_schema.
                let sibling_items = filter (\<lambda>(k, v). k \<noteq> ''$ref'') kvs
                in if sibling_items = [] then Inr resolved_schema
                   else case resolved_schema of
                     JObj merged_schema \<Rightarrow>
                       rbind (rtraverse (\<lambda>(k, member). rbind (prepare_openapi_schema document_root seen member) (\<lambda>v. Inr (k, v)))
                                sibling_items) (\<lambda>members.
                       Inr (JObj (normalize_openapi_schema_keywords (merge_members merged_schema members))))
                   | _ \<Rightarrow> config_error ''Schema reference with sibling keywords must resolve to an object'')))
      | Some _ \<Rightarrow> config_error ''Schema reference must be a non-empty string''
      | None \<Rightarrow>
          rbind (rtraverse (\<lambda>(k, member). rbind (prepare_openapi_schema document_root seen member) (\<lambda>v. Inr (k, v))) kvs)
            (\<lambda>members. Inr (JObj (normalize_openapi_schema_keywords members))))"
| "prepare_openapi_schema document_root seen (JArr xs) =
     rbind (rtraverse (\<lambda>x. prepare_openapi_schema document_root seen x) xs) (\<lambda>ys. Inr (JArr ys))"
| "prepare_openapi_schema document_root seen JNull = Inr JNull"
| "prepare_openapi_schema document_root seen (JBool b) = Inr (JBool b)"
| "prepare_openapi_schema document_root seen (JInt i) = Inr (JInt i)"
| "prepare_openapi_schema document_root seen (JFloat f) = Inr (JFloat f)"
| "prepare_openapi_schema document_root seen (JStr s) = Inr (JStr s)"
  by pat_completeness auto
termination
  by (relation schema_order)
     (auto simp: schema_order_ref schema_order_member schema_order_item, simp add: schema_order_def)

section \<open>Prepared schemas\<close>

definition BUNDLED_OPENAPI_DOCUMENTS :: "string list" where
  "BUNDLED_OPENAPI_DOCUMENTS =
     [''ob-read-write-v3.1.11-account-info-openapi'', ''ob-read-write-v3.1.11-payment-initiation-openapi'',
      ''ob-read-write-v3.1.11-confirmation-funds-openapi'', ''ob-read-write-v3.1.11-vrp-openapi'',
      ''ob-read-write-v4.0-account-info-openapi'', ''ob-read-write-v4.0-payment-initiation-openapi'',
      ''ob-read-write-v4.0-confirmation-funds-openapi'', ''ob-read-write-v4.0-vrp-openapi'',
      ''ob-read-write-v4.0.1-account-info-openapi'', ''ob-read-write-v4.0.1-payment-initiation-openapi'',
      ''ob-read-write-v4.0.1-confirmation-funds-openapi'', ''ob-read-write-v4.0.1-vrp-openapi'']"

definition load_bundled_document :: "(string \<Rightarrow> json option) \<Rightarrow> string \<Rightarrow> schema_error + json_object" where
  "load_bundled_document read_document document =
     (if document \<notin> set BUNDLED_OPENAPI_DOCUMENTS
      then config_error (''Schema document '' @ repr_str document @ '' is not available'')
      else case read_document document of
        None \<Rightarrow> config_error (''Bundled schema document '' @ repr_str document @ '' is missing from disk'')
      | Some (JObj loaded) \<Rightarrow> Inr loaded
      | Some _ \<Rightarrow> config_error (''Bundled schema document '' @ repr_str document @ '' must be a JSON object''))"

fun clone_json_value :: "json \<Rightarrow> json" where
  "clone_json_value (JObj kvs) = JObj (map (\<lambda>(k, v). (k, clone_json_value v)) kvs)"
| "clone_json_value (JArr xs) = JArr (map clone_json_value xs)"
| "clone_json_value v = v"

definition clone_mapping :: "json_object \<Rightarrow> json_object" where
  "clone_mapping m = map (\<lambda>(k, v). (k, clone_json_value v)) m"

definition require_object_schema :: "json \<Rightarrow> schema_error + json_object" where
  "require_object_schema v =
     (case v of JObj schema \<Rightarrow> Inr schema | _ \<Rightarrow> config_error ''Resolved response schema must be a JSON object'')"

definition unsupported_source :: "string \<Rightarrow> schema_error + 'a" where
  "unsupported_source source = config_error (''Schema source '' @ repr_str source @ '' is not supported'')"

definition prepared_schema_ref ::
  "(string \<Rightarrow> json option) \<Rightarrow> string \<Rightarrow> string \<Rightarrow> string \<Rightarrow> schema_error + json_object" where
  "prepared_schema_ref read_document source document schema_ref =
     (if source \<noteq> ''bundled_openapi'' then unsupported_source source
      else rbind (load_bundled_document read_document document) (\<lambda>document_root.
           rbind (resolve_json_pointer (JObj document_root) schema_ref) (\<lambda>resolved_schema.
           rbind (prepare_openapi_schema document_root [] resolved_schema) require_object_schema)))"

definition prepared_schema ::
  "(string \<Rightarrow> json option) \<Rightarrow> string \<Rightarrow> string \<Rightarrow> string option \<Rightarrow> json_object option \<Rightarrow> schema_error + json_object" where
  "prepared_schema read_document source document schema_ref inline_schema =
     (if source \<noteq> ''bundled_openapi'' then unsupported_source source
      else case schema_ref of
        Some ref \<Rightarrow> prepared_schema_ref read_document source document ref
      | None \<Rightarrow>
          (case inline_schema of
             None \<Rightarrow> config_error ''Response schema assertion is missing schema configuration''
           | Some schema \<Rightarrow>
               rbind (load_bundled_document read_document document) (\<lambda>document_root.
               rbind (prepare_openapi_schema document_root [] (JObj (clone_mapping schema))) require_object_schema)))"

section \<open>Choosing and rendering one error\<close>

datatype path_segment = Index int | Key string

fun str_segment :: "path_segment \<Rightarrow> string" where
  "str_segment (Index i) = str_int i"
| "str_segment (Key s) = s"

record ValidationError =
  ve_absolute_path :: "path_segment list"
  ve_absolute_schema_path :: "path_segment list"
  ve_message :: string
  ve_validator :: string

fun add_path_segment :: "path_segment \<Rightarrow> string list \<Rightarrow> string list" where
  "add_path_segment (Index i) parts =
     (if parts = [] then [''['' @ str_int i @ '']'']
      else butlast parts @ [last parts @ ''['' @ str_int i @ '']''])"
| "add_path_segment (Key text_segment) parts =
     (if parts = [] then [text_segment] else parts @ [''.'' @ text_segment])"

definition format_error_path :: "path_segment list \<Rightarrow> string" where
  "format_error_path path = (if path = [] then ''$'' else concat (fold add_path_segment path []))"

definition validation_error_sort_key :: "ValidationError \<Rightarrow> string \<times> string list \<times> string" where
  "validation_error_sort_key err =
     (format_error_path (ve_absolute_path err), map str_segment (ve_absolute_schema_path err), ve_message err)"

text \<open>\<open>'([^']+)' is a required property\<close>, matched against the whole message.\<close>

definition missing_required_property_name :: "string \<Rightarrow> string option" where
  "missing_required_property_name message =
     (case message of
        [] \<Rightarrow> None
      | c # rest \<Rightarrow>
          let name = takeWhile (\<lambda>c. c \<noteq> CHR 39) rest
          in if c = CHR 39 \<and> name \<noteq> [] \<and> dropWhile (\<lambda>c. c \<noteq> CHR 39) rest = CHR 39 # '' is a required property''
             then Some name else None)"

definition format_validation_error :: "ValidationError \<Rightarrow> string" where
  "format_validation_error err =
     (let path = format_error_path (ve_absolute_path err);
          error_message = ve_message err;
          plain = (if path = ''$'' then error_message else ''at '' @ path @ '': '' @ error_message)
      in if ve_validator err = ''required''
         then (case missing_required_property_name error_message of
                 Some missing_property \<Rightarrow>
                   ''at '' @ (if path = ''$'' then missing_property else path @ ''.'' @ missing_property)
                   @ '': '' @ error_message
               | None \<Rightarrow> plain)
         else plain)"

definition validate_json_instance_against_response_schema ::
  "(string \<Rightarrow> json option) \<Rightarrow> (json_object \<Rightarrow> json \<Rightarrow> ValidationError list) \<Rightarrow>
   string \<Rightarrow> string \<Rightarrow> string option \<Rightarrow> json_object option \<Rightarrow> json \<Rightarrow> schema_error + string option" where
  "validate_json_instance_against_response_schema read_document iter_errors source document schema_ref inline_schema inst =
     (case prepared_schema read_document source document schema_ref inline_schema of
        Inl (SchemaValidationConfigurationError message) \<Rightarrow> Inr (Some message)
      | Inl SchemaValueError \<Rightarrow> Inl SchemaValueError
      | Inr schema \<Rightarrow>
          (case sort_key validation_error_sort_key (iter_errors schema inst) of
             [] \<Rightarrow> Inr None
           | err # _ \<Rightarrow> Inr (Some (format_validation_error err))))"

section \<open>Prepared schemas are plain JSON Schema\<close>

fun plain_schema :: "json \<Rightarrow> bool" where
  "plain_schema (JObj kvs) =
     (''$ref'' \<notin> set (keys kvs) \<and> ''nullable'' \<notin> set (keys kvs) \<and> ''x-namespaced-enum'' \<notin> set (keys kvs)
      \<and> (\<forall>(k, v) \<in> set kvs. plain_schema v))"
| "plain_schema (JArr xs) = (\<forall>x \<in> set xs. plain_schema x)"
| "plain_schema _ = True"

definition plain_members :: "json_object \<Rightarrow> bool" where
  "plain_members kvs = (''$ref'' \<notin> set (keys kvs) \<and> (\<forall>v \<in> snd ` set kvs. plain_schema v))"

lemma delete_key_set: "fst ` set (AList.delete k d) = fst ` set d - {k}"
  by (auto simp: AList.delete_eq)

lemma update_key_set: "fst ` set (AList.update k v d) = insert k (fst ` set d)"
  using dom_update [of k v d] by (simp add: dom_map_of_conv_image_fst)

lemma plain_members_update:
  "plain_members kvs \<Longrightarrow> k \<noteq> ''$ref'' \<Longrightarrow> plain_schema v \<Longrightarrow> plain_members (AList.update k v kvs)"
  using set_update_subset [of k v kvs] by (auto simp: plain_members_def update_key_set)

lemma plain_members_delete: "plain_members kvs \<Longrightarrow> plain_members (AList.delete k kvs)"
  by (auto simp: plain_members_def AList.delete_eq)

lemma plain_members_jget: "plain_members kvs \<Longrightarrow> plain_schema (jget kvs k)"
  by (auto simp: plain_members_def jget_def split: option.splits dest!: map_of_SomeD)

lemma plain_members_schema:
  "plain_schema (JObj kvs) \<longleftrightarrow> plain_members kvs \<and> ''nullable'' \<notin> set (keys kvs) \<and> ''x-namespaced-enum'' \<notin> set (keys kvs)"
  by (auto simp: plain_members_def)

lemma normalize_plain:
  assumes "plain_members kvs"
  shows "plain_schema (JObj (normalize_openapi_schema_keywords kvs))"
proof -
  define v where "v = jget kvs ''x-namespaced-enum''"
  define a where "a = AList.delete ''x-namespaced-enum'' kvs"
  define b where "b = (if ''enum'' \<notin> set (keys a) \<and> is_array v \<and> list_all is_string (arr_of v)
            then AList.update ''enum'' v a else a)"
  define c where "c = AList.delete ''nullable'' b"
  have eq: "normalize_openapi_schema_keywords kvs =
     (if jget b ''nullable'' \<noteq> JBool True then c
      else case jget c ''type'' of
        JStr t \<Rightarrow> AList.update ''type'' (JArr [JStr t, JStr ''null'']) c
      | JArr ts \<Rightarrow> (if JStr ''null'' \<notin> set ts \<and> list_all is_string ts
                    then AList.update ''type'' (JArr (ts @ [JStr ''null''])) c else c)
      | _ \<Rightarrow> c)"
    by (simp only: normalize_openapi_schema_keywords_def popped_def Let_def v_def a_def b_def c_def)
  have b: "plain_members b" "''x-namespaced-enum'' \<notin> fst ` set b"
    using plain_members_jget [OF assms] plain_members_delete [OF assms]
    by (simp_all add: b_def a_def v_def plain_members_update update_key_set delete_key_set)
  have c: "plain_members c" "''x-namespaced-enum'' \<notin> fst ` set c" "''nullable'' \<notin> fst ` set c"
    using plain_members_delete [OF b(1)] b(2) by (simp_all add: c_def delete_key_set)
  have upd: "plain_schema (JObj (AList.update ''type'' t c))" if "plain_schema t" for t
    using c that by (simp add: plain_members_schema plain_members_update update_key_set del: plain_schema.simps)
  have plain: "plain_schema (JObj c)" using c by (simp add: plain_members_schema del: plain_schema.simps)
  show ?thesis
  proof (cases "jget c ''type''")
    case (JArr ts)
    then have "plain_schema (JArr (ts @ [JStr ''null'']))" using plain_members_jget [OF c(1), of "''type''"] by auto
    from upd [OF this] show ?thesis using plain JArr by (simp add: eq del: plain_schema.simps)
  next
    case (JStr t)
    then show ?thesis using plain upd [of "JArr [JStr t, JStr ''null'']"] by (simp add: eq del: plain_schema.simps(1))
  qed (use plain in \<open>simp_all add: eq del: plain_schema.simps\<close>)
qed

lemma merge_members_plain:
  "plain_members merged \<Longrightarrow> plain_members members \<Longrightarrow> plain_members (merge_members merged members)"
proof (induction members arbitrary: merged)
  case (Cons kv members)
  have "plain_members members" using Cons.prems(2) by (auto simp: plain_members_def)
  moreover have "plain_members (AList.update (fst kv) (snd kv) merged)"
    using Cons.prems by (intro plain_members_update) (auto simp: plain_members_def)
  ultimately show ?case using Cons.IH by (simp add: merge_members_def case_prod_beta)
qed (simp add: merge_members_def)

lemma prepared_members_plain:
  assumes "rtraverse (\<lambda>(k, member). rbind (f member) (\<lambda>v. Inr (k, v))) kvs = Inr members"
    and "\<And>k v w. (k, v) \<in> set kvs \<Longrightarrow> f v = Inr w \<Longrightarrow> plain_schema w"
    and "''$ref'' \<notin> set (keys kvs)"
  shows "plain_members members"
proof -
  have src: "\<exists>v. (k, v) \<in> set kvs \<and> f v = Inr w" if "(k, w) \<in> set members" for k w
    using rtraverse_Inr_member [OF assms(1) that] by (auto simp: rbind_eq_Inr)
  have "''$ref'' \<notin> fst ` set members" using src assms(3) by force
  moreover have "\<forall>w \<in> snd ` set members. plain_schema w" using src assms(2) by force
  ultimately show ?thesis by (simp add: plain_members_def)
qed

lemma prepare_ref:
  assumes "prepare_openapi_schema document_root seen (JObj kvs) = Inr w" and "map_of kvs ''$ref'' \<noteq> None"
  obtains r v u where "map_of kvs ''$ref'' = Some (JStr r)" "r \<noteq> []" "r \<notin> set seen"
    "resolve_json_pointer (JObj document_root) r = Inr v" "prepare_openapi_schema document_root (seen @ [r]) v = Inr u"
    "w = u \<and> filter (\<lambda>(k, v). k \<noteq> ''$ref'') kvs = []
     \<or> (\<exists>merged members. u = JObj merged \<and> filter (\<lambda>(k, v). k \<noteq> ''$ref'') kvs \<noteq> [] \<and>
          rtraverse (\<lambda>(k, member). rbind (prepare_openapi_schema document_root seen member) (\<lambda>v. Inr (k, v)))
            (filter (\<lambda>(k, v). k \<noteq> ''$ref'') kvs) = Inr members \<and>
          w = JObj (normalize_openapi_schema_keywords (merge_members merged members)))"
proof -
  obtain raw where raw: "map_of kvs ''$ref'' = Some raw" using assms(2) by blast
  then obtain r where r: "raw = JStr r" "r \<noteq> []" "r \<notin> set seen"
    using assms(1) by (cases raw) (auto simp: config_error_def split: if_splits)
  then obtain v where v: "resolve_json_pointer (JObj document_root) r = Inr v" using assms(1) raw
    by (auto simp: rbind_eq_Inr)
  then obtain u where u: "prepare_openapi_schema document_root (seen @ [r]) v = Inr u" using assms(1) raw r
    by (auto simp: rbind_eq_Inr)
  show ?thesis
    using assms(1) raw r v u
    by (intro that [of r v u]) (auto simp: rbind_eq_Inr config_error_def Let_def split: if_splits json.splits)
qed

lemma prepare_plain: "prepare_openapi_schema document_root seen v = Inr w \<Longrightarrow> plain_schema w"
proof (induction document_root seen v arbitrary: w rule: prepare_openapi_schema.induct)
  case (1 document_root seen kvs)
  show ?case
  proof (cases "map_of kvs ''$ref''")
    case None
    then obtain members where m: "rtraverse (\<lambda>(k, member). rbind (prepare_openapi_schema document_root seen member) (\<lambda>v. Inr (k, v))) kvs = Inr members"
      "w = JObj (normalize_openapi_schema_keywords members)" using "1.prems" by (auto simp: rbind_eq_Inr)
    have "plain_members members"
      by (rule prepared_members_plain [OF m(1)]) (use "1.IH"(1) None in \<open>auto simp: map_of_eq_None_iff\<close>)
    then show ?thesis using m(2) normalize_plain by simp
  next
    case (Some raw)
    then have "map_of kvs ''$ref'' \<noteq> None" by simp
    with "1.prems" show ?thesis
    proof (rule prepare_ref)
      fix r v u
      let ?sib = "filter (\<lambda>(k, v). k \<noteq> ''$ref'') kvs"
      assume r: "map_of kvs ''$ref'' = Some (JStr r)" "r \<noteq> []" "r \<notin> set seen"
        "resolve_json_pointer (JObj document_root) r = Inr v" "prepare_openapi_schema document_root (seen @ [r]) v = Inr u"
        and w: "w = u \<and> ?sib = []
     \<or> (\<exists>merged members. u = JObj merged \<and> ?sib \<noteq> [] \<and>
          rtraverse (\<lambda>(k, member). rbind (prepare_openapi_schema document_root seen member) (\<lambda>v. Inr (k, v))) ?sib = Inr members \<and>
          w = JObj (normalize_openapi_schema_keywords (merge_members merged members)))"
      have u: "plain_schema u" using "1.IH"(2) [OF r(1) refl r(2,3,4) r(5)] .
      from w show ?thesis
      proof (elim disjE exE conjE)
        fix merged members
        assume m: "u = JObj merged" "?sib \<noteq> []" "w = JObj (normalize_openapi_schema_keywords (merge_members merged members))"
          "rtraverse (\<lambda>(k, member). rbind (prepare_openapi_schema document_root seen member) (\<lambda>v. Inr (k, v))) ?sib = Inr members"
        have "plain_members members"
          by (rule prepared_members_plain [OF m(4)])
             (use "1.IH"(3) [OF r(1) refl r(2,3,4,5) refl m(2,1)] in auto)
        then show ?thesis using u m(1,3) normalize_plain merge_members_plain by (simp add: plain_members_schema del: plain_schema.simps)
      qed (use u in simp)
    qed
  qed
next
  case (2 document_root seen xs)
  then obtain ys where "rtraverse (prepare_openapi_schema document_root seen) xs = Inr ys" "w = JArr ys"
    by (auto simp: rbind_eq_Inr)
  then show ?case using "2.IH" by (auto dest!: rtraverse_Inr_member)
qed auto

lemma clone_json_value_id: "clone_json_value v = v"
proof (induction v)
  case (JObj kvs)
  then show ?case by (auto intro!: map_idI)
qed (auto intro: map_idI)

lemma clone_mapping_id: "clone_mapping m = m"
  by (auto simp: clone_mapping_def clone_json_value_id intro!: map_idI)

lemma require_object_Inr: "require_object_schema v = Inr schema \<longleftrightarrow> v = JObj schema"
  by (auto simp: require_object_schema_def config_error_def split: json.splits)

lemma prepared_schema_source:
  "prepared_schema read_document source document schema_ref inline_schema = Inr schema \<Longrightarrow>
   \<exists>document_root v. load_bundled_document read_document document = Inr document_root
     \<and> prepare_openapi_schema document_root [] v = Inr (JObj schema)"
  by (auto simp: prepared_schema_def prepared_schema_ref_def unsupported_source_def config_error_def rbind_eq_Inr
      require_object_Inr simp del: prepare_openapi_schema.simps split: if_splits option.splits)

section \<open>The reported error\<close>

text \<open>What \<open>jsonschema\<close> documents of an error: its schema path ends in the keyword that failed.\<close>

definition keyword_terminated :: "ValidationError \<Rightarrow> bool" where
  "keyword_terminated err =
     (ve_absolute_schema_path err \<noteq> [] \<and> last (ve_absolute_schema_path err) = Key (ve_validator err))"

lemma sort_key_determines_message:
  assumes "keyword_terminated e" "keyword_terminated e'" "validation_error_sort_key e = validation_error_sort_key e'"
  shows "format_validation_error e = format_validation_error e'"
proof -
  have "last (map str_segment (ve_absolute_schema_path e)) = ve_validator e"
    "last (map str_segment (ve_absolute_schema_path e')) = ve_validator e'"
    using assms(1,2) by (auto simp: keyword_terminated_def last_map)
  then have "ve_validator e = ve_validator e'" using assms(3) by (simp add: validation_error_sort_key_def)
  then show ?thesis using assms(3) by (simp add: format_validation_error_def validation_error_sort_key_def)
qed

lemma sort_key_hd_min: "sort_key f xs = y # ys \<Longrightarrow> y \<in> set xs \<and> (\<forall>x \<in> set xs. f y \<le> f x)"
proof -
  assume eq: "sort_key f xs = y # ys"
  have "sorted (map f (y # ys))" using sorted_sort_key [of f xs] eq by simp
  moreover have "set xs = set (y # ys)" using set_sort [of f xs] eq by simp
  ultimately show ?thesis by auto
qed

lemma sort_key_hd_perm:
  assumes "mset xs = mset xs'" "sort_key f xs = y # ys" "sort_key f xs' = y' # ys'"
  shows "f y = f y'"
  using sort_key_hd_min [OF assms(2)] sort_key_hd_min [OF assms(3)] mset_eq_setD [OF assms(1)] by (metis order_antisym)

lemma reported_error_perm:
  assumes "mset (iter schema inst) = mset (iter' schema inst)" and "\<forall>e \<in> set (iter schema inst). keyword_terminated e"
    and "prepared_schema read_document source document schema_ref inline_schema = Inr schema"
  shows "validate_json_instance_against_response_schema read_document iter source document schema_ref inline_schema inst
       = validate_json_instance_against_response_schema read_document iter' source document schema_ref inline_schema inst"
proof (cases "iter schema inst")
  case Nil
  then have "iter' schema inst = []" using assms(1) by simp
  then show ?thesis using Nil assms(3) by (simp add: validate_json_instance_against_response_schema_def)
next
  case (Cons e0 es)
  let ?k = validation_error_sort_key
  have ne: "iter schema inst \<noteq> []" "iter' schema inst \<noteq> []" using Cons assms(1) by auto
  obtain e es where e: "sort_key ?k (iter schema inst) = e # es"
    by (metis ne(1) neq_Nil_conv set_empty set_sort)
  obtain e' es' where e': "sort_key ?k (iter' schema inst) = e' # es'"
    by (metis ne(2) neq_Nil_conv set_empty set_sort)
  have "keyword_terminated e" "keyword_terminated e'"
    using sort_key_hd_min [OF e] sort_key_hd_min [OF e'] assms(2) mset_eq_setD [OF assms(1)] by auto
  then have "format_validation_error e = format_validation_error e'"
    using sort_key_determines_message sort_key_hd_perm [OF assms(1) e e'] by blast
  then show ?thesis using e e' assms(3) by (simp add: validate_json_instance_against_response_schema_def)
qed

section \<open>Properties\<close>

text \<open>Every schema handed to the JSON Schema validator is plain JSON Schema: however the references of the
  bundled document are nested, and whatever sibling keywords are merged in, no object of the prepared schema at any
  depth keeps a $ref, a nullable or an x-namespaced-enum member. In particular the preparation never hands on
  an unresolved reference, and it always ends, with a schema or with an error.\<close>

lemma prepared_schema_is_plain:
  assumes "prepared_schema read_document source document schema_ref inline_schema = Inr schema"
  shows "plain_schema (JObj schema)"
  using prepared_schema_source [OF assms] prepare_plain by blast

definition sample_document :: "string \<Rightarrow> json option" where
  "sample_document _ = Some (JObj [(''components'', JObj [
     (''A'', JObj [(''type'', JStr ''object''), (''properties'', JObj [(''Id'', JObj [(''$ref'', JStr ''#/components/B'')])])]),
     (''B'', JObj [(''type'', JStr ''string''), (''nullable'', JBool True), (''x-namespaced-enum'', JArr [JStr ''x''])])])])"

lemma sample_prepared:
  "prepared_schema sample_document ''bundled_openapi'' ''ob-read-write-v4.0-vrp-openapi'' (Some ''#/components/A'') None
   = Inr [(''type'', JStr ''object''),
          (''properties'', JObj [(''Id'', JObj [(''type'', JArr [JStr ''string'', JStr ''null'']), (''enum'', JArr [JStr ''x''])])])]"
  by code_simp

theorem prepared_schema_is_plain_witness:
  "plain_schema (JObj [(''type'', JStr ''object''),
     (''properties'', JObj [(''Id'', JObj [(''type'', JArr [JStr ''string'', JStr ''null'']), (''enum'', JArr [JStr ''x''])])])])"
  by (rule prepared_schema_is_plain [OF sample_prepared])

text \<open>The diagnostic of a failed schema assertion is deterministic: it does not depend on the order in which the
  JSON Schema validator emits its errors. Two validators that find the same errors, each ending its schema path in the
  keyword that failed, give the same outcome and the same message for every instance.\<close>

lemma schema_diagnostics_deterministic:
  assumes "\<And>schema inst. mset (iter schema inst) = mset (iter' schema inst)"
    and "\<And>schema inst e. e \<in> set (iter schema inst) \<Longrightarrow> keyword_terminated e"
  shows "validate_json_instance_against_response_schema read_document iter source document schema_ref inline_schema inst
       = validate_json_instance_against_response_schema read_document iter' source document schema_ref inline_schema inst"
proof (cases "prepared_schema read_document source document schema_ref inline_schema")
  case (Inl a)
  then show ?thesis by (cases a) (simp_all add: validate_json_instance_against_response_schema_def)
next
  case (Inr schema)
  show ?thesis by (rule reported_error_perm [OF assms(1) _ Inr]) (use assms(2) in blast)
qed

definition sample_errors :: "ValidationError list" where
  "sample_errors =
     [\<lparr>ve_absolute_path = [Key ''b''], ve_absolute_schema_path = [Key ''type''], ve_message = ''wrong'', ve_validator = ''type''\<rparr>,
      \<lparr>ve_absolute_path = [], ve_absolute_schema_path = [Key ''required''],
       ve_message = [CHR 39] @ ''a'' @ [CHR 39] @ '' is a required property'', ve_validator = ''required''\<rparr>]"

theorem schema_diagnostics_deterministic_witness:
  "validate_json_instance_against_response_schema sample_document (\<lambda>s i. sample_errors) ''bundled_openapi''
     ''ob-read-write-v4.0-vrp-openapi'' (Some ''#/components/A'') None (JObj [])
   = validate_json_instance_against_response_schema sample_document (\<lambda>s i. rev sample_errors) ''bundled_openapi''
     ''ob-read-write-v4.0-vrp-openapi'' (Some ''#/components/A'') None (JObj [])"
  by (rule schema_diagnostics_deterministic) (auto simp: sample_errors_def keyword_terminated_def)

end
