(* ===== verification/Manifest_Parser.thy ===== *)
theory Manifest_Parser
  imports Manifest_Templates Url_Validation Schema_Validation
begin

text \<open>
  The manifest parser (\<open>conformance/manifest.py\<close>): every check of \<open>parse_manifest\<close> in the order the source makes
  it, with the message of the error. Reading the file is outside; \<open>copy.deepcopy\<close> is the identity on values.
\<close>

section \<open>Readers\<close>

definition reject_unknown_keys :: "json_object \<Rightarrow> string list \<Rightarrow> string \<Rightarrow> manifest_error + unit" where
  "reject_unknown_keys raw_config allowed_keys location =
     (let unknown_keys = sort (remdups (filter (\<lambda>k. k \<notin> set allowed_keys) (keys raw_config)))
      in if unknown_keys \<noteq> []
         then merr (''Unknown '' @ location @ '' field(s): '' @ join '', '' unknown_keys) else Inr ())"

definition reject_unknown_keys_with_singular_message :: "json_object \<Rightarrow> string list \<Rightarrow> string \<Rightarrow> manifest_error + unit" where
  "reject_unknown_keys_with_singular_message raw_config allowed_keys location =
     (let unknown_keys = sort (remdups (filter (\<lambda>k. k \<notin> set allowed_keys) (keys raw_config)))
      in if unknown_keys = [] then Inr ()
         else if length unknown_keys = 1 then merr (''Unknown '' @ location @ '' field: '' @ hd unknown_keys)
         else merr (''Unknown '' @ location @ '' field(s): '' @ join '', '' unknown_keys))"

definition required_string :: "json_object \<Rightarrow> string \<Rightarrow> string \<Rightarrow> manifest_error + string" where
  "required_string raw_config key location =
     (case jget raw_config key of
        JStr s \<Rightarrow> if py_strip s = [] then merr (location @ ''.'' @ key @ '' must be a non-empty string'') else Inr (py_strip s)
      | _ \<Rightarrow> merr (location @ ''.'' @ key @ '' must be a non-empty string''))"

definition required_object :: "json_object \<Rightarrow> string \<Rightarrow> string \<Rightarrow> manifest_error + json_object" where
  "required_object raw_config key location =
     (case jget raw_config key of
        JObj kvs \<Rightarrow> Inr kvs
      | _ \<Rightarrow> merr (location @ ''.'' @ key @ '' must be a JSON object''))"

definition at_index :: "string \<Rightarrow> nat \<Rightarrow> string" where
  "at_index location index = location @ ''['' @ str_nat index @ '']''"

definition required_object_array :: "json_object \<Rightarrow> string \<Rightarrow> string \<Rightarrow> manifest_error + json_object list" where
  "required_object_array raw_config key location =
     (let bad = merr (location @ ''.'' @ key @ '' must be a non-empty array'')
      in case jget raw_config key of
           JArr items \<Rightarrow>
             if items = [] then bad
             else rtraverse (\<lambda>(index, item). case item of
                 JObj kvs \<Rightarrow> Inr kvs
               | _ \<Rightarrow> merr (at_index (location @ ''.'' @ key) index @ '' must be a JSON object'')) (enumerate 0 items)
         | _ \<Rightarrow> bad)"

definition required_string_array :: "json_object \<Rightarrow> string \<Rightarrow> string \<Rightarrow> manifest_error + string list" where
  "required_string_array raw_config key location =
     (let bad = merr (location @ ''.'' @ key @ '' must be a non-empty array of strings'')
      in case jget raw_config key of
           JArr items \<Rightarrow>
             if items = [] then bad
             else rtraverse (\<lambda>(index, item).
               if is_string item \<and> py_strip (str_of item) \<noteq> [] then Inr (py_strip (str_of item))
               else merr (at_index (location @ ''.'' @ key) index @ '' must be a non-empty string'')) (enumerate 0 items)
         | _ \<Rightarrow> bad)"

definition manifest_url_check :: "url_error + unit \<Rightarrow> manifest_error + unit" where
  "manifest_url_check r =
     (case r of
        Inr u \<Rightarrow> Inr ()
      | Inl (HttpsUrlValidationError message) \<Rightarrow> merr message
      | Inl UrlValueError \<Rightarrow> Inl ManifestValueError)"

definition required_https_url :: "json_object \<Rightarrow> string \<Rightarrow> string \<Rightarrow> manifest_error + string" where
  "required_https_url raw_config key location =
     rbind (required_string raw_config key location) (\<lambda>v.
     rbind (manifest_url_check (validate_https_url v (location @ ''.'' @ key))) (\<lambda>_. Inr v))"

definition validate_step_id :: "string \<Rightarrow> string \<Rightarrow> manifest_error + unit" where
  "validate_step_id sid location =
     (if \<not> dollar_match id_match sid
      then merr (location @ ''.id '' @ quoted sid @ '' contains invalid characters (must match [A-Za-z0-9][A-Za-z0-9_-]*)'')
      else Inr ())"

definition validate_group_id :: "string \<Rightarrow> string \<Rightarrow> manifest_error + unit" where
  "validate_group_id grp location =
     (if \<not> dollar_match id_match grp
      then merr (location @ ''.group '' @ quoted grp @ '' contains invalid characters (must match [A-Za-z0-9][A-Za-z0-9_-]*)'')
      else Inr ())"

section \<open>Optional step fields\<close>

definition optional_non_empty :: "json_object \<Rightarrow> string \<Rightarrow> string \<Rightarrow> manifest_error + string option" where
  "optional_non_empty raw_step key location =
     (case map_of raw_step key of
        None \<Rightarrow> Inr None
      | Some v \<Rightarrow>
          if is_string v \<and> py_strip (str_of v) \<noteq> [] then Inr (Some (py_strip (str_of v)))
          else merr (location @ ''.'' @ key @ '' must be a non-empty string when present''))"

definition parse_optional_warning :: "json_object \<Rightarrow> string \<Rightarrow> manifest_error + string option" where
  "parse_optional_warning raw_step location = optional_non_empty raw_step ''warning'' location"

definition optional_flag :: "json_object \<Rightarrow> string \<Rightarrow> string \<Rightarrow> manifest_error + bool" where
  "optional_flag raw_step key location =
     (case map_of raw_step key of
        None \<Rightarrow> Inr False
      | Some (JBool b) \<Rightarrow> Inr b
      | Some _ \<Rightarrow> merr (location @ ''.'' @ key @ '' must be a JSON boolean when present''))"

definition parse_optional_mandatory :: "json_object \<Rightarrow> string \<Rightarrow> manifest_error + bool" where
  "parse_optional_mandatory raw_step location = optional_flag raw_step ''mandatory'' location"

definition parse_optional_optional :: "json_object \<Rightarrow> string \<Rightarrow> manifest_error + bool" where
  "parse_optional_optional raw_step location = optional_flag raw_step ''optional'' location"

definition parse_optional_group :: "json_object \<Rightarrow> string \<Rightarrow> manifest_error + string" where
  "parse_optional_group raw_step location =
     (if map_of raw_step ''group'' = None then Inr ''default''
      else rbind (required_string raw_step ''group'' location) (\<lambda>grp.
           rbind (validate_group_id grp location) (\<lambda>_. Inr grp)))"

definition parse_optional_phase :: "json_object \<Rightarrow> string \<Rightarrow> manifest_error + StepPhase" where
  "parse_optional_phase raw_step location =
     (if map_of raw_step ''phase'' = None then Inr ExecutionPhase
      else rbind (required_string raw_step ''phase'' location) (\<lambda>phase.
        if phase = ''setup'' then Inr SetupPhase
        else if phase = ''execution'' then Inr ExecutionPhase
        else merr (location @ ''.phase must be one of: setup, execution (got: '' @ repr_str phase @ '')'')))"

definition validate_constant_manifest_string :: "string \<Rightarrow> string \<Rightarrow> string list \<Rightarrow> manifest_error + unit" where
  "validate_constant_manifest_string v location seen_ids =
     rbind (validate_manifest_placeholders location seen_ids v) (\<lambda>_.
       if has_placeholder v then merr (location @ '' must not contain placeholders'') else Inr ())"

definition parse_optional_token_id :: "json_object \<Rightarrow> string \<Rightarrow> string \<Rightarrow> string list \<Rightarrow> manifest_error + string option" where
  "parse_optional_token_id raw_step key location seen_ids =
     rbind (optional_non_empty raw_step key location) (\<lambda>token.
       case token of
         None \<Rightarrow> Inr None
       | Some token_id \<Rightarrow>
           rbind (validate_constant_manifest_string token_id (location @ ''.'' @ key) seen_ids) (\<lambda>_.
             if \<not> id_match token_id
             then merr (location @ ''.'' @ key @ '' must match pattern '' @ repr_str ''[A-Za-z0-9][A-Za-z0-9_-]*''
                    @ '' (letters/digits, optional internal '' @ quoted ''_'' @ '' or '' @ quoted ''-'' @ '')'')
             else Inr (Some token_id)))"

section \<open>Requests\<close>

definition request_method_of :: "string \<Rightarrow> RequestMethod option" where
  "request_method_of m =
     map_of [(''GET'', GET), (''POST'', POST), (''PUT'', PUT), (''PATCH'', PATCH), (''DELETE'', DELETE)] m"

definition required_v1_method :: "json_object \<Rightarrow> string \<Rightarrow> manifest_error + RequestMethod" where
  "required_v1_method raw_config location =
     rbind (required_string raw_config ''method'' location) (\<lambda>m.
       case request_method_of m of
         None \<Rightarrow> merr (location @ ''.method must be one of: GET, POST, PUT, PATCH, DELETE'')
       | Some r \<Rightarrow> Inr r)"

definition header_name_char :: "char \<Rightarrow> bool" where
  "header_name_char c = (id_start c \<or> c \<in> set (''!#$%&'' @ [CHR 39] @ ''*+-.^_`|~''))"

definition header_name_match :: "string \<Rightarrow> bool" where
  "header_name_match s = (s \<noteq> [] \<and> list_all header_name_char s)"

definition header_value_char :: "char \<Rightarrow> bool" where
  "header_value_char c = (code_of c = 9 \<or> 32 \<le> code_of c \<and> code_of c \<le> 126)"

definition upper_hex :: "nat \<Rightarrow> char" where
  "upper_hex n = (if n < 10 then digit_char n else char_of (55 + n))"

definition validate_header_value :: "string \<Rightarrow> string \<Rightarrow> manifest_error + unit" where
  "validate_header_value v location =
     (if py_strip v = [] then merr (location @ '' must not be empty'')
      else case find (\<lambda>c. \<not> header_value_char c) v of
        None \<Rightarrow> Inr ()
      | Some bad_char \<Rightarrow>
          merr (location @ '' contains non-transportable character U+00''
            @ [upper_hex (code_of bad_char div 16), upper_hex (code_of bad_char mod 16)]
            @ '' (only HTAB, SP, and VCHAR 0x21-0x7E are permitted)''))"

definition parse_v1_header :: "string \<Rightarrow> string list \<Rightarrow> string \<times> json \<Rightarrow> manifest_error + string \<times> string" where
  "parse_v1_header location seen_ids entry =
     (let name = fst entry; header_location = location @ ''.headers.'' @ name
      in if \<not> dollar_match header_name_match name
         then merr (header_location @ '' is not a valid HTTP header name (RFC 7230 token)'')
         else case snd entry of
           JStr v \<Rightarrow>
             rbind (validate_header_value v header_location) (\<lambda>_.
             rbind (validate_manifest_placeholders header_location seen_ids v) (\<lambda>_. Inr (name, v)))
         | _ \<Rightarrow> merr (header_location @ '' must be a string value''))"

definition parse_v1_headers :: "json_object \<Rightarrow> string \<Rightarrow> string list \<Rightarrow> manifest_error + (string, string) dict option" where
  "parse_v1_headers raw_request location seen_ids =
     (case map_of raw_request ''headers'' of
        None \<Rightarrow> Inr None
      | Some (JObj raw_headers) \<Rightarrow> rbind (rtraverse (parse_v1_header location seen_ids) raw_headers) (\<lambda>hs. Inr (Some hs))
      | Some _ \<Rightarrow> merr (location @ ''.headers must be a JSON object''))"

definition parse_form_field :: "string \<Rightarrow> string list \<Rightarrow> string \<times> json \<Rightarrow> manifest_error + string \<times> string" where
  "parse_form_field location seen_ids entry =
     (let field_name = fst entry; field_location = location @ ''.fields.'' @ field_name
      in if field_name = [] then merr (location @ ''.fields contains an empty field name'')
         else case snd entry of
           JStr v \<Rightarrow> rbind (validate_manifest_placeholders field_location seen_ids v) (\<lambda>_. Inr (field_name, v))
         | _ \<Rightarrow> merr (field_location @ '' must be a string value''))"

definition parse_tagged_body :: "json_object \<Rightarrow> string \<Rightarrow> string list \<Rightarrow> manifest_error + ManifestBody" where
  "parse_tagged_body body location seen_ids =
     (let encoding = jget body ''encoding''
      in if encoding = JStr ''json''
         then rbind (reject_unknown_keys body [''encoding'', ''value''] location) (\<lambda>_.
           case map_of body ''value'' of
             None \<Rightarrow> merr (location @ '': tagged JSON body must include a '' @ quoted ''value'' @ '' key'')
           | Some JNull \<Rightarrow> merr (location @ ''.value must not be null (omit the body key to send no body)'')
           | Some v \<Rightarrow>
               rbind (validate_placeholders_in_structure (location @ ''.value'') seen_ids v) (\<lambda>_. Inr (JsonBody v)))
         else if encoding = JStr ''form''
         then rbind (reject_unknown_keys body [''encoding'', ''fields''] location) (\<lambda>_.
           case map_of body ''fields'' of
             None \<Rightarrow> merr (location @ '': form body must include a '' @ quoted ''fields'' @ '' object'')
           | Some (JObj raw_fields) \<Rightarrow>
               if raw_fields = [] then merr (location @ ''.fields must not be empty'')
               else rbind (rtraverse (parse_form_field location seen_ids) raw_fields) (\<lambda>fields. Inr (FormBody fields))
           | Some _ \<Rightarrow> merr (location @ ''.fields must be a JSON object''))
         else merr (location @ ''.encoding must be one of: json, form (got: '' @ py_repr encoding @ '')''))"

definition parse_v1_body ::
  "json_object \<Rightarrow> RequestMethod \<Rightarrow> string \<Rightarrow> string list \<Rightarrow> manifest_error + ManifestBody option" where
  "parse_v1_body raw_request m location seen_ids =
     (case map_of raw_request ''body'' of
        None \<Rightarrow> Inr None
      | Some body \<Rightarrow>
          if m = GET then merr (location @ '': GET requests must not declare a body'')
          else if body = JNull then merr (location @ ''.body must not be null (omit the key to send no body)'')
          else if is_object body \<and> ''encoding'' \<in> set (keys (obj_of body))
          then rbind (parse_tagged_body (obj_of body) (location @ ''.body'') seen_ids) (\<lambda>b. Inr (Some b))
          else rbind (validate_placeholders_in_structure (location @ ''.body'') seen_ids body) (\<lambda>_. Inr (Some (JsonBody body))))"

definition parse_detached_jws_profile :: "json_object \<Rightarrow> string \<Rightarrow> manifest_error + DetachedJwsProfile option" where
  "parse_detached_jws_profile raw_policy location =
     (if map_of raw_policy ''profile'' = None then Inr None
      else rbind (required_string raw_policy ''profile'' location) (\<lambda>profile.
        if profile = ''legacy-b64-false'' then Inr (Some LegacyB64False)
        else if profile = ''ob-v3.1.4+'' then Inr (Some ObV314Plus)
        else merr (location @ ''.profile must be one of: legacy-b64-false, ob-v3.1.4+'')))"

fun parse_omitted_headers :: "string \<Rightarrow> nat \<Rightarrow> json list \<Rightarrow> string list \<Rightarrow> manifest_error + string list" where
  "parse_omitted_headers headers_location index [] parsed = Inr parsed"
| "parse_omitted_headers headers_location index (raw_header # rest) parsed =
     (case raw_header of
        JStr s \<Rightarrow>
          (let header = py_strip s
           in if header \<notin> {''iat'', ''iss'', ''tan''}
              then merr (at_index headers_location index @ '' must be one of '' @ quoted ''iat'' @ '', '' @ quoted ''iss''
                     @ '', or '' @ quoted ''tan'')
              else if header \<in> set parsed
              then merr (headers_location @ '' must not contain duplicate header '' @ quoted header)
              else parse_omitted_headers headers_location (Suc index) rest (parsed @ [header]))
      | _ \<Rightarrow> merr (at_index headers_location index @ '' must be a string''))"

definition parse_detached_jws_omitted_headers :: "json_object \<Rightarrow> string \<Rightarrow> manifest_error + string list" where
  "parse_detached_jws_omitted_headers raw_policy location =
     (case map_of raw_policy ''omitProtectedHeaders'' of
        None \<Rightarrow> Inr []
      | Some (JArr raw_headers) \<Rightarrow> parse_omitted_headers (location @ ''.omitProtectedHeaders'') 0 raw_headers []
      | Some _ \<Rightarrow> merr (location @ ''.omitProtectedHeaders must be an array of strings when present''))"

definition parse_optional_detached_jws ::
  "json_object \<Rightarrow> RequestMethod \<Rightarrow> string \<Rightarrow> string list \<Rightarrow> manifest_error + DetachedJwsPolicy option" where
  "parse_optional_detached_jws raw_request m location seen_ids =
     (case map_of raw_request ''detachedJws'' of
        None \<Rightarrow> Inr None
      | Some raw \<Rightarrow>
          if m \<notin> {POST, PUT, PATCH}
          then merr (location @ ''.detachedJws is only valid on POST, PUT, or PATCH requests'')
          else let policy_location = location @ ''.detachedJws'' in case raw of
            JObj raw_policy \<Rightarrow>
              rbind (reject_unknown_keys raw_policy [''source'', ''omitProtectedHeaders'', ''profile''] policy_location) (\<lambda>_.
              rbind (required_string raw_policy ''source'' policy_location) (\<lambda>source.
              rbind (validate_manifest_placeholders (policy_location @ ''.source'') seen_ids source) (\<lambda>_.
              if source \<noteq> ''fapi-signing'' then merr (policy_location @ ''.source must be '' @ quoted ''fapi-signing'')
              else rbind (parse_detached_jws_omitted_headers raw_policy policy_location) (\<lambda>omit.
                   rbind (parse_detached_jws_profile raw_policy policy_location) (\<lambda>profile.
                   Inr (Some \<lparr>dj_omit_protected_headers = omit, dj_profile = profile\<rparr>))))))
          | _ \<Rightarrow> merr (policy_location @ '' must be a JSON object when present''))"

definition parse_v1_request :: "json_object \<Rightarrow> string \<Rightarrow> string list \<Rightarrow> manifest_error + ManifestRequest" where
  "parse_v1_request raw_request location seen_ids =
     rbind (reject_unknown_keys raw_request [''method'', ''url'', ''headers'', ''body'', ''detachedJws''] location) (\<lambda>_.
     rbind (required_v1_method raw_request location) (\<lambda>m.
     rbind (required_string raw_request ''url'' location) (\<lambda>url.
     rbind (validate_manifest_placeholders (location @ ''.url'') seen_ids url) (\<lambda>_.
     rbind (if has_placeholder url then Inr () else manifest_url_check (validate_https_url url (location @ ''.url''))) (\<lambda>_.
     rbind (parse_v1_headers raw_request location seen_ids) (\<lambda>headers.
     rbind (parse_v1_body raw_request m location seen_ids) (\<lambda>body.
     rbind (parse_optional_detached_jws raw_request m location seen_ids) (\<lambda>detached_jws.
     Inr \<lparr>rq_method = m, rq_url = url, rq_headers = headers, rq_body = body, rq_detached_jws = detached_jws\<rparr>))))))))"

section \<open>Assertions\<close>

definition http_status_ok :: "json \<Rightarrow> bool" where
  "http_status_ok v = (case v of JInt n \<Rightarrow> 100 \<le> n \<and> n \<le> 599 | _ \<Rightarrow> False)"

fun int_of_json :: "json \<Rightarrow> int" where
  "int_of_json (JInt n) = n"
| "int_of_json _ = 0"

definition required_status_code :: "json_object \<Rightarrow> string \<Rightarrow> manifest_error + int" where
  "required_status_code raw_assertion location =
     (let v = jget raw_assertion ''expected''
      in if http_status_ok v then Inr (int_of_json v) else merr (location @ ''.expected must be an HTTP status code''))"

fun parse_status_codes :: "string \<Rightarrow> nat \<Rightarrow> json list \<Rightarrow> int list \<Rightarrow> manifest_error + int list" where
  "parse_status_codes location index [] parsed = Inr parsed"
| "parse_status_codes location index (v # vs) parsed =
     (if \<not> http_status_ok v then merr (at_index (location @ ''.expectedOneOf'') index @ '' must be an HTTP status code'')
      else parse_status_codes location (Suc index) vs
             (if int_of_json v \<in> set parsed then parsed else parsed @ [int_of_json v]))"

definition required_status_codes :: "json_object \<Rightarrow> string \<Rightarrow> manifest_error + int list" where
  "required_status_codes raw_assertion location =
     (let bad = merr (location @ ''.expectedOneOf must be a non-empty array of HTTP status codes'')
      in case jget raw_assertion ''expectedOneOf'' of
           JArr vs \<Rightarrow> if vs = [] then bad else parse_status_codes location 0 vs []
         | _ \<Rightarrow> bad)"

fun is_json_compatible_value :: "json \<Rightarrow> bool" where
  "is_json_compatible_value (JFloat f) = (case f of Finite _ _ \<Rightarrow> True | _ \<Rightarrow> False)"
| "is_json_compatible_value (JArr xs) = list_all is_json_compatible_value xs"
| "is_json_compatible_value (JObj kvs) = list_all (\<lambda>(k, v). is_json_compatible_value v) kvs"
| "is_json_compatible_value _ = True"

definition required_json_compatible_value :: "json_object \<Rightarrow> string \<Rightarrow> string \<Rightarrow> string \<Rightarrow> manifest_error + json" where
  "required_json_compatible_value raw_assertion key location missing_message =
     (case map_of raw_assertion key of
        None \<Rightarrow> merr missing_message
      | Some v \<Rightarrow>
          if is_json_compatible_value v then Inr v
          else merr (location @ ''.'' @ key @ '' must be valid JSON-compatible data''))"

definition required_json_compatible_values :: "json_object \<Rightarrow> string \<Rightarrow> manifest_error + json list" where
  "required_json_compatible_values raw_assertion location =
     (let bad = merr (location @ ''.values must be a non-empty array'')
      in case jget raw_assertion ''values'' of
           JArr vs \<Rightarrow>
             if vs = [] then bad
             else rtraverse (\<lambda>(index, v). if is_json_compatible_value v then Inr v
               else merr (at_index (location @ ''.values'') index @ '' must be valid JSON-compatible data'')) (enumerate 0 vs)
         | _ \<Rightarrow> bad)"

definition required_min_items :: "json_object \<Rightarrow> string \<Rightarrow> manifest_error + int" where
  "required_min_items raw_assertion location =
     (case jget raw_assertion ''minItems'' of
        JInt n \<Rightarrow> if n < 1 then merr (location @ ''.minItems must be an integer greater than or equal to 1'') else Inr n
      | _ \<Rightarrow> merr (location @ ''.minItems must be an integer greater than or equal to 1''))"

definition json_field_rules :: "(string \<times> JsonFieldRule) list" where
  "json_field_rules =
     [(''required'', RuleRequired), (''https_url'', RuleHttpsUrl), (''array'', RuleArray), (''absent'', RuleAbsent),
      (''string'', RuleString), (''number'', RuleNumber), (''boolean'', RuleBoolean), (''object'', RuleObject),
      (''non_empty_array'', RuleNonEmptyArray), (''min_items'', RuleMinItems), (''equals'', RuleEquals),
      (''one_of'', RuleOneOf), (''all_items_have_field'', RuleAllItemsHaveField),
      (''all_items_absent_fields'', RuleAllItemsAbsentFields)]"

definition required_json_field_rule :: "json_object \<Rightarrow> string \<Rightarrow> manifest_error + JsonFieldRule" where
  "required_json_field_rule raw_assertion location =
     rbind (required_string raw_assertion ''rule'' location) (\<lambda>rule.
       case map_of json_field_rules rule of
         Some r \<Rightarrow> Inr r
       | None \<Rightarrow> merr (location @ ''.rule must be one of: required, https_url, array, absent, string, number, boolean, object, ''
             @ ''non_empty_array, min_items, equals, one_of, all_items_have_field, all_items_absent_fields''))"

definition json_field_keys :: "JsonFieldRule \<Rightarrow> string list" where
  "json_field_keys rule =
     [''type'', ''path'', ''rule''] @
     (case rule of
        RuleEquals \<Rightarrow> [''value''] | RuleOneOf \<Rightarrow> [''values''] | RuleMinItems \<Rightarrow> [''minItems'']
      | RuleAllItemsHaveField \<Rightarrow> [''field''] | RuleAllItemsAbsentFields \<Rightarrow> [''fields''] | _ \<Rightarrow> [])"

definition parse_json_field_assertion :: "json_object \<Rightarrow> string \<Rightarrow> manifest_error + JsonFieldAssertion" where
  "parse_json_field_assertion raw_assertion location =
     rbind (required_json_field_rule raw_assertion location) (\<lambda>rule.
     rbind (reject_unknown_keys raw_assertion (json_field_keys rule) location) (\<lambda>_.
     rbind (required_string raw_assertion ''path'' location) (\<lambda>path.
       let assertion = \<lparr>jf_path = path, jf_rule = rule, jf_value = JNull, jf_values = None, jf_min_items = None,
                        jf_field = None, jf_fields = []\<rparr>
       in case rule of
            RuleEquals \<Rightarrow>
              rbind (required_json_compatible_value raw_assertion ''value'' location
                       (location @ ''.value must be present for json_field rule equals'')) (\<lambda>v.
              Inr (assertion\<lparr>jf_value := v\<rparr>))
          | RuleOneOf \<Rightarrow>
              rbind (required_json_compatible_values raw_assertion location) (\<lambda>vs. Inr (assertion\<lparr>jf_values := Some vs\<rparr>))
          | RuleMinItems \<Rightarrow>
              rbind (required_min_items raw_assertion location) (\<lambda>n. Inr (assertion\<lparr>jf_min_items := Some n\<rparr>))
          | RuleAllItemsHaveField \<Rightarrow>
              rbind (required_string raw_assertion ''field'' location) (\<lambda>f. Inr (assertion\<lparr>jf_field := Some f\<rparr>))
          | RuleAllItemsAbsentFields \<Rightarrow>
              rbind (required_string_array raw_assertion ''fields'' location) (\<lambda>fs. Inr (assertion\<lparr>jf_fields := fs\<rparr>))
          | _ \<Rightarrow> Inr assertion)))"

definition header_rules :: "(string \<times> HeaderRule) list" where
  "header_rules =
     [(''present'', HeaderPresent), (''absent'', HeaderAbsent), (''equals'', HeaderEquals), (''contains'', HeaderContains)]"

definition required_header_rule :: "json_object \<Rightarrow> string \<Rightarrow> manifest_error + string \<times> HeaderRule" where
  "required_header_rule raw_assertion location =
     rbind (required_string raw_assertion ''rule'' location) (\<lambda>rule.
       case map_of header_rules rule of
         Some r \<Rightarrow> Inr (rule, r)
       | None \<Rightarrow> merr (location @ ''.rule must be one of: present, absent, equals, contains''))"

definition required_header_rule_value :: "json_object \<Rightarrow> string \<Rightarrow> string \<Rightarrow> manifest_error + string" where
  "required_header_rule_value raw_assertion rule location =
     (let v = jget raw_assertion ''value''
      in if is_string v \<and> py_strip (str_of v) \<noteq> [] then Inr (py_strip (str_of v))
         else merr (location @ ''.value must be a non-empty string for header rule '' @ rule))"

definition parse_header_assertion :: "json_object \<Rightarrow> string \<Rightarrow> manifest_error + HeaderAssertion" where
  "parse_header_assertion raw_assertion location =
     rbind (required_header_rule raw_assertion location) (\<lambda>(rule_name, rule).
     rbind (if rule = HeaderEquals \<or> rule = HeaderContains
            then rbind (reject_unknown_keys raw_assertion [''type'', ''name'', ''rule'', ''value''] location) (\<lambda>_.
                 rbind (required_header_rule_value raw_assertion rule_name location) (\<lambda>v. Inr (Some v)))
            else rbind (reject_unknown_keys_with_singular_message raw_assertion [''type'', ''name'', ''rule''] location)
                   (\<lambda>_. Inr None)) (\<lambda>v.
     rbind (required_string raw_assertion ''name'' location) (\<lambda>name.
       if \<not> header_name_match name then merr (location @ ''.name is not a valid HTTP header name'')
       else Inr \<lparr>ha_name = name, ha_rule = rule, ha_value = v\<rparr>)))"

definition ALLOWED_RESPONSE_SCHEMA_DOCUMENTS :: "string list" where
  "ALLOWED_RESPONSE_SCHEMA_DOCUMENTS =
     [''ob-read-write-v3.1.11-account-info-openapi'', ''ob-read-write-v3.1.11-payment-initiation-openapi'',
      ''ob-read-write-v3.1.11-confirmation-funds-openapi'', ''ob-read-write-v3.1.11-vrp-openapi'',
      ''ob-read-write-v4.0-account-info-openapi'', ''ob-read-write-v4.0-payment-initiation-openapi'',
      ''ob-read-write-v4.0.1-account-info-openapi'', ''ob-read-write-v4.0.1-payment-initiation-openapi'']"

definition constant_string :: "json_object \<Rightarrow> string \<Rightarrow> string \<Rightarrow> manifest_error + string" where
  "constant_string raw key location =
     rbind (required_string raw key location) (\<lambda>v.
       if has_placeholder v then merr (location @ ''.'' @ key @ '' must not contain placeholders'') else Inr v)"

definition required_response_schema_source :: "json_object \<Rightarrow> string \<Rightarrow> manifest_error + string" where
  "required_response_schema_source raw_assertion location =
     rbind (constant_string raw_assertion ''source'' location) (\<lambda>source.
       if source = ''bundled_openapi'' then Inr source else merr (location @ ''.source must be one of: bundled_openapi''))"

definition required_response_schema_document :: "json_object \<Rightarrow> string \<Rightarrow> manifest_error + string" where
  "required_response_schema_document raw_assertion location =
     rbind (constant_string raw_assertion ''document'' location) (\<lambda>document.
       if document \<in> set ALLOWED_RESPONSE_SCHEMA_DOCUMENTS then Inr document
       else merr (location @ ''.document must be one of: '' @ join '', '' (sort ALLOWED_RESPONSE_SCHEMA_DOCUMENTS)))"

definition optional_response_schema_body_path :: "json_object \<Rightarrow> string \<Rightarrow> manifest_error + string option" where
  "optional_response_schema_body_path raw_assertion location =
     (if map_of raw_assertion ''bodyPath'' = None then Inr None
      else rbind (constant_string raw_assertion ''bodyPath'' location) (\<lambda>p. Inr (Some p)))"

definition parse_response_schema_assertion :: "json_object \<Rightarrow> string \<Rightarrow> manifest_error + ResponseSchemaAssertion" where
  "parse_response_schema_assertion raw_assertion location =
     rbind (reject_unknown_keys raw_assertion
              [''type'', ''source'', ''document'', ''schemaRef'', ''schema'', ''bodyPath''] location) (\<lambda>_.
     rbind (required_response_schema_source raw_assertion location) (\<lambda>source.
     rbind (required_response_schema_document raw_assertion location) (\<lambda>document.
     rbind (optional_response_schema_body_path raw_assertion location) (\<lambda>body_path.
       let has_schema_ref = (map_of raw_assertion ''schemaRef'' \<noteq> None);
           has_inline_schema = (map_of raw_assertion ''schema'' \<noteq> None);
           base = \<lparr>rs_source = source, rs_document = document, rs_schema_ref = None, rs_schema = None,
                   rs_body_path = body_path\<rparr>
       in if has_schema_ref = has_inline_schema
          then merr (location @ '' must provide exactly one of schemaRef or schema'')
          else if has_schema_ref
          then rbind (constant_string raw_assertion ''schemaRef'' location) (\<lambda>r. Inr (base\<lparr>rs_schema_ref := Some r\<rparr>))
          else (case jget raw_assertion ''schema'' of
                  JObj schema \<Rightarrow>
                    if schema = [] then merr (location @ ''.schema must be a non-empty JSON object'')
                    else Inr (base\<lparr>rs_schema := Some schema\<rparr>)
                | _ \<Rightarrow> merr (location @ ''.schema must be a non-empty JSON object''))))))"

definition parse_legacy_expectations :: "json_object \<Rightarrow> string \<Rightarrow> string \<Rightarrow> manifest_error + json_object list" where
  "parse_legacy_expectations raw_assertion key location =
     (case map_of raw_assertion key of
        None \<Rightarrow> Inr []
      | Some (JArr raw_expectations) \<Rightarrow>
          rtraverse (\<lambda>(index, expectation). case expectation of
              JObj kvs \<Rightarrow> Inr kvs
            | _ \<Rightarrow> merr (at_index (location @ ''.'' @ key) index @ '' must be a JSON object'')) (enumerate 0 raw_expectations)
      | Some _ \<Rightarrow> merr (location @ ''.'' @ key @ '' must be an array''))"

fun parse_schema_refs :: "string \<Rightarrow> json_object \<Rightarrow> (int, string) dict \<Rightarrow> manifest_error + (int, string) dict" where
  "parse_schema_refs location [] schema_refs = Inr schema_refs"
| "parse_schema_refs location ((raw_status, raw_ref) # rest) schema_refs =
     (if \<not> py_isdigit raw_status \<or> \<not> is_string raw_ref \<or> \<not> starts_with ''#/'' (str_of raw_ref)
      then merr (location @ ''.schemaRefs must map HTTP status strings to local JSON pointers'')
      else case (if py_isdecimal raw_status then int_of_decimal raw_status else None) of
        None \<Rightarrow> Inl ManifestValueError
      | Some n \<Rightarrow> parse_schema_refs location rest (AList.update (int n) (str_of raw_ref) schema_refs))"

definition parse_legacy_fcs_assertion :: "json_object \<Rightarrow> string \<Rightarrow> manifest_error + LegacyFcsAssertion" where
  "parse_legacy_fcs_assertion raw_assertion location =
     rbind (reject_unknown_keys raw_assertion
              [''type'', ''rowKey'', ''allOf'', ''oneOf'', ''lastIfAll'', ''schemaDocument'', ''schemaRefs''] location) (\<lambda>_.
     rbind (required_string raw_assertion ''rowKey'' location) (\<lambda>row_key.
     rbind (case jget raw_assertion ''schemaDocument'' of
              JNull \<Rightarrow> Inr None
            | JStr d \<Rightarrow>
                if d \<in> set ALLOWED_RESPONSE_SCHEMA_DOCUMENTS then Inr (Some d)
                else merr (location @ ''.schemaDocument must name an allowlisted bundled document'')
            | _ \<Rightarrow> merr (location @ ''.schemaDocument must name an allowlisted bundled document'')) (\<lambda>schema_document.
     rbind (case map_of raw_assertion ''schemaRefs'' of
              None \<Rightarrow> Inr []
            | Some (JObj refs) \<Rightarrow> parse_schema_refs location refs []
            | Some _ \<Rightarrow> merr (location @ ''.schemaRefs must be a JSON object'')) (\<lambda>schema_refs.
     rbind (parse_legacy_expectations raw_assertion ''allOf'' location) (\<lambda>all_of.
     rbind (parse_legacy_expectations raw_assertion ''oneOf'' location) (\<lambda>one_of.
     rbind (parse_legacy_expectations raw_assertion ''lastIfAll'' location) (\<lambda>last_if_all.
     Inr \<lparr>lf_row_key = row_key, lf_all_of = all_of, lf_one_of = one_of, lf_last_if_all = last_if_all,
          lf_schema_document = schema_document, lf_schema_refs = schema_refs\<rparr>)))))))"

definition parse_http_status_assertion :: "json_object \<Rightarrow> string \<Rightarrow> manifest_error + HttpStatusAssertion" where
  "parse_http_status_assertion raw_assertion location =
     rbind (reject_unknown_keys raw_assertion [''type'', ''expected'', ''expectedOneOf''] location) (\<lambda>_.
       let has_expected = (map_of raw_assertion ''expected'' \<noteq> None);
           has_expected_one_of = (map_of raw_assertion ''expectedOneOf'' \<noteq> None)
       in if has_expected = has_expected_one_of
          then merr (location @ '' must provide exactly one of expected or expectedOneOf'')
          else if has_expected_one_of
          then rbind (required_status_codes raw_assertion location) (\<lambda>cs. Inr \<lparr>hs_expected = None, hs_expected_one_of = cs\<rparr>)
          else rbind (required_status_code raw_assertion location) (\<lambda>c. Inr \<lparr>hs_expected = Some c, hs_expected_one_of = []\<rparr>))"

definition parse_assertion :: "json_object \<Rightarrow> string \<Rightarrow> manifest_error + ManifestAssertion" where
  "parse_assertion raw_assertion location =
     rbind (required_string raw_assertion ''type'' location) (\<lambda>assertion_type.
       if assertion_type = ''http_status''
       then rbind (parse_http_status_assertion raw_assertion location) (\<lambda>a. Inr (AHttpStatus a))
       else if assertion_type = ''json_field''
       then rbind (parse_json_field_assertion raw_assertion location) (\<lambda>a. Inr (AJsonField a))
       else if assertion_type = ''header''
       then rbind (parse_header_assertion raw_assertion location) (\<lambda>a. Inr (AHeader a))
       else if assertion_type = ''response_schema''
       then rbind (parse_response_schema_assertion raw_assertion location) (\<lambda>a. Inr (AResponseSchema a))
       else if assertion_type = ''legacy_fcs''
       then rbind (parse_legacy_fcs_assertion raw_assertion location) (\<lambda>a. Inr (ALegacyFcs a))
       else merr (location @ ''.type must be one of: http_status, json_field, header, response_schema, legacy_fcs''))"

definition parse_assertions :: "json_object list \<Rightarrow> string \<Rightarrow> manifest_error + ManifestAssertion list" where
  "parse_assertions raws location =
     rtraverse (\<lambda>(index, raw). parse_assertion raw (at_index (location @ ''.assertions'') index)) (enumerate 0 raws)"

section \<open>v0 tests\<close>

definition required_get_method :: "json_object \<Rightarrow> string \<Rightarrow> manifest_error + RequestMethod" where
  "required_get_method raw_config location =
     rbind (required_string raw_config ''method'' location) (\<lambda>m.
       if m \<noteq> ''GET'' then merr (location @ ''.method must be GET'') else Inr GET)"

definition parse_request :: "json_object \<Rightarrow> string \<Rightarrow> manifest_error + ManifestRequest" where
  "parse_request raw_request location =
     rbind (reject_unknown_keys raw_request [''method'', ''url''] location) (\<lambda>_.
     rbind (required_get_method raw_request location) (\<lambda>m.
     rbind (required_https_url raw_request ''url'' location) (\<lambda>url.
     Inr \<lparr>rq_method = m, rq_url = url, rq_headers = None, rq_body = None, rq_detached_jws = None\<rparr>)))"

definition parse_follow_up_request :: "json_object \<Rightarrow> string \<Rightarrow> manifest_error + RequestMethod" where
  "parse_follow_up_request raw_request location =
     rbind (reject_unknown_keys raw_request [''method''] location) (\<lambda>_. required_get_method raw_request location)"

definition parse_follow_up :: "json \<Rightarrow> string \<Rightarrow> manifest_error + ManifestFollowUp" where
  "parse_follow_up raw location =
     (case raw of
        JObj raw_follow_up \<Rightarrow>
          rbind (reject_unknown_keys raw_follow_up [''type'', ''urlSource'', ''request'', ''assertions''] location) (\<lambda>_.
          rbind (required_string raw_follow_up ''type'' location) (\<lambda>follow_up_type.
          if follow_up_type \<noteq> ''jwks'' then merr (location @ ''.type must be jwks'')
          else rbind (required_string raw_follow_up ''urlSource'' location) (\<lambda>url_source.
          if url_source \<noteq> ''response.body.jwks_uri''
          then merr (location @ ''.urlSource must be response.body.jwks_uri'')
          else rbind (required_object_array raw_follow_up ''assertions'' location) (\<lambda>assertions.
          rbind (required_object raw_follow_up ''request'' location) (\<lambda>raw_request.
          rbind (parse_follow_up_request raw_request (location @ ''.request'')) (\<lambda>_.
          rbind (parse_assertions assertions location) (\<lambda>as. Inr \<lparr>fu_assertions = as\<rparr>)))))))
      | _ \<Rightarrow> merr (location @ '' must be a JSON object''))"

definition parse_test :: "nat \<Rightarrow> json_object \<Rightarrow> manifest_error + ManifestTest" where
  "parse_test index raw_test =
     (let location = at_index ''tests'' index in
      rbind (reject_unknown_keys raw_test [''id'', ''name'', ''request'', ''assertions'', ''followUp''] location) (\<lambda>_.
      rbind (required_object_array raw_test ''assertions'' location) (\<lambda>assertions.
      rbind (required_string raw_test ''id'' location) (\<lambda>test_id.
      rbind (validate_step_id test_id location) (\<lambda>_.
      rbind (required_string raw_test ''name'' location) (\<lambda>name.
      rbind (required_object raw_test ''request'' location) (\<lambda>raw_request.
      rbind (parse_request raw_request (location @ ''.request'')) (\<lambda>request.
      rbind (parse_assertions assertions location) (\<lambda>as.
      rbind (case map_of raw_test ''followUp'' of
               None \<Rightarrow> Inr None
             | Some raw \<Rightarrow> rbind (parse_follow_up raw (location @ ''.followUp'')) (\<lambda>f. Inr (Some f))) (\<lambda>follow_up.
      Inr \<lparr>mt_id = test_id, mt_name = name, mt_request = request, mt_assertions = as, mt_follow_up = follow_up\<rparr>))))))))))"

section \<open>HTTP steps\<close>

text \<open>\<open>\s*Bearer\s+(\$\{tokens\.ID\.access_token\})\s*\<close>, matched against the whole value.\<close>

definition bearer_token_id :: "string \<Rightarrow> string option" where
  "bearer_token_id v =
     (let s = py_strip v; rest = drop 6 s; tok = dropWhile is_space rest
      in if starts_with ''Bearer'' s \<and> rest \<noteq> [] \<and> is_space (hd rest)
            \<and> starts_with opener tok \<and> ends_with ''}'' tok \<and> CHR ''}'' \<notin> set (butlast (drop 2 tok))
         then token_token (butlast (drop 2 tok)) else None)"

definition required_token_id_from_authorization_header :: "ManifestRequest \<Rightarrow> string option" where
  "required_token_id_from_authorization_header request =
     (case rq_headers request of
        None \<Rightarrow> None
      | Some headers \<Rightarrow>
          (case find (\<lambda>(header_name, _). py_lower header_name = ''authorization'') headers of
             None \<Rightarrow> None
           | Some (_, authorization_value) \<Rightarrow> bearer_token_id authorization_value))"

definition parse_optional_token_endpoint_auth_policy ::
  "json_object \<Rightarrow> ManifestRequest \<Rightarrow> string \<Rightarrow> string list \<Rightarrow> manifest_error + bool" where
  "parse_optional_token_endpoint_auth_policy raw_step request location seen_ids =
     (let policy_location = location @ ''.tokenEndpointAuthPolicy'' in
      case map_of raw_step ''tokenEndpointAuthPolicy'' of
        None \<Rightarrow> Inr False
      | Some (JObj raw_policy) \<Rightarrow>
          rbind (reject_unknown_keys raw_policy [''source''] policy_location) (\<lambda>_.
          rbind (required_string raw_policy ''source'' policy_location) (\<lambda>source.
          rbind (validate_constant_manifest_string source (policy_location @ ''.source'') seen_ids) (\<lambda>_.
          if source \<noteq> ''fapi-signing'' then merr (policy_location @ ''.source must be '' @ quoted ''fapi-signing'')
          else if rq_method request \<noteq> POST \<or> (case rq_body request of Some (FormBody _) \<Rightarrow> False | _ \<Rightarrow> True)
          then merr (policy_location @ '' is only valid on POST requests with a form body'')
          else Inr True)))
      | Some _ \<Rightarrow> merr (policy_location @ '' must be a JSON object when present''))"

definition resolve_required_token :: "string option \<Rightarrow> string option \<Rightarrow> string \<Rightarrow> manifest_error + string option" where
  "resolve_required_token required inferred location =
     (case required of
        None \<Rightarrow> Inr inferred
      | Some required_token_id \<Rightarrow>
          (case inferred of
             None \<Rightarrow> merr (location @ ''.requiredTokenId requires Authorization header value ''
                       @ quoted (''Bearer '' @ ph (''tokens.'' @ required_token_id @ ''.access_token'')))
           | Some i \<Rightarrow>
               if i \<noteq> required_token_id
               then merr (location @ ''.requiredTokenId must match Authorization token placeholder id '' @ quoted i)
               else Inr required))"

definition V1_HTTP_STEP_KEYS :: "string list" where
  "V1_HTTP_STEP_KEYS =
     [''kind'', ''id'', ''name'', ''request'', ''assertions'', ''warning'', ''mandatory'', ''optional'', ''group'', ''phase'',
      ''tokenEndpointAuthPolicy'', ''requiredTokenId'', ''producesTokenId'']"

definition exclusive_flags :: "bool \<Rightarrow> bool \<Rightarrow> string \<Rightarrow> manifest_error + unit" where
  "exclusive_flags mandatory optional location =
     (if mandatory \<and> optional
      then merr (location @ '': '' @ quoted ''mandatory'' @ '' and '' @ quoted ''optional'' @ '' must not both be true'')
      else Inr ())"

definition parse_step_id :: "json_object \<Rightarrow> string \<Rightarrow> string list \<Rightarrow> manifest_error + string" where
  "parse_step_id raw_step location seen_ids =
     rbind (required_string raw_step ''id'' location) (\<lambda>sid.
     rbind (validate_step_id sid location) (\<lambda>_.
       if sid \<in> set seen_ids then merr (location @ ''.id '' @ quoted sid @ '' is a duplicate'') else Inr sid))"

definition parse_v1_http_step :: "json_object \<Rightarrow> nat \<Rightarrow> string list \<Rightarrow> manifest_error + ManifestStep" where
  "parse_v1_http_step raw_step index seen_ids =
     (let location = at_index ''steps'' index in
      rbind (reject_unknown_keys raw_step V1_HTTP_STEP_KEYS location) (\<lambda>_.
      rbind (parse_step_id raw_step location seen_ids) (\<lambda>sid.
      rbind (required_string raw_step ''name'' location) (\<lambda>sname.
      rbind (required_object raw_step ''request'' location) (\<lambda>raw_request.
      rbind (parse_v1_request raw_request (location @ ''.request'') seen_ids) (\<lambda>request.
      rbind (required_object_array raw_step ''assertions'' location) (\<lambda>assertions.
      rbind (parse_optional_warning raw_step location) (\<lambda>warning.
      rbind (parse_optional_mandatory raw_step location) (\<lambda>mandatory.
      rbind (parse_optional_optional raw_step location) (\<lambda>optional.
      rbind (parse_optional_group raw_step location) (\<lambda>grp.
      rbind (parse_optional_phase raw_step location) (\<lambda>phase.
      rbind (parse_optional_token_endpoint_auth_policy raw_step request location seen_ids) (\<lambda>policy.
      rbind (parse_optional_token_id raw_step ''requiredTokenId'' location seen_ids) (\<lambda>required.
      rbind (parse_optional_token_id raw_step ''producesTokenId'' location seen_ids) (\<lambda>produces.
      rbind (resolve_required_token required (required_token_id_from_authorization_header request) location) (\<lambda>required_token_id.
      rbind (exclusive_flags mandatory optional location) (\<lambda>_.
      rbind (parse_assertions assertions location) (\<lambda>as.
      Inr \<lparr>ms_id = sid, ms_name = sname, ms_request = request, ms_assertions = as, ms_warning = warning,
           ms_mandatory = mandatory, ms_optional = optional, ms_group = grp, ms_phase = phase,
           ms_token_endpoint_auth_policy = policy, ms_required_token_id = required_token_id,
           ms_produces_token_id = produces, ms_response_signature_policy = False\<rparr>))))))))))))))))))"

section \<open>PSU authorisation steps\<close>

definition PSU_AUTH_ALLOWED_KEYS :: "string list" where
  "PSU_AUTH_ALLOWED_KEYS =
     [''kind'', ''id'', ''name'', ''mode'', ''authorizationEndpoint'', ''clientId'', ''redirectUri'', ''responseType'', ''scope'',
      ''state'', ''nonce'', ''requestObject'', ''mandatory'', ''optional'', ''group'', ''phase'']"

definition PSU_AUTH_MIN_STATE_LENGTH :: nat where
  "PSU_AUTH_MIN_STATE_LENGTH = 32"

definition parse_psu_mode :: "json_object \<Rightarrow> string \<Rightarrow> manifest_error + PsuAuthorizationMode" where
  "parse_psu_mode raw_step location =
     rbind (required_string raw_step ''mode'' location) (\<lambda>mode.
       if mode = ''manual'' then Inr Manual
       else if mode = ''headless'' then Inr Headless
       else merr (location @ ''.mode must be one of: manual, headless (got: '' @ repr_str mode @ '')''))"

definition parse_psu_optional_string :: "json_object \<Rightarrow> string \<Rightarrow> string \<Rightarrow> string \<Rightarrow> manifest_error + string" where
  "parse_psu_optional_string raw_step key dflt location =
     rbind (optional_non_empty raw_step key location) (\<lambda>v. Inr (case v of None \<Rightarrow> dflt | Some s \<Rightarrow> s))"

definition parse_psu_optional_token :: "json_object \<Rightarrow> string \<Rightarrow> string \<Rightarrow> string list \<Rightarrow> manifest_error + string option" where
  "parse_psu_optional_token raw_step key location seen_ids =
     rbind (optional_non_empty raw_step key location) (\<lambda>v.
       case v of
         None \<Rightarrow> Inr None
       | Some token_value \<Rightarrow>
           rbind (validate_manifest_placeholders (location @ ''.'' @ key) seen_ids token_value) (\<lambda>_.
             if \<not> has_placeholder token_value \<and> length token_value < PSU_AUTH_MIN_STATE_LENGTH
             then merr (location @ ''.'' @ key @ '' must be at least '' @ str_nat PSU_AUTH_MIN_STATE_LENGTH
                    @ '' characters (matches AuthSessionStore minimum caller-supplied entropy)'')
             else Inr (Some token_value)))"

definition parse_directive_string :: "json_object \<Rightarrow> string \<Rightarrow> string \<Rightarrow> string list \<Rightarrow> manifest_error + string option" where
  "parse_directive_string raw key location seen_ids =
     (case jget raw key of
        JNull \<Rightarrow> Inr None
      | JStr s \<Rightarrow>
          if py_strip s = [] then merr (location @ ''.'' @ key @ '' must be a non-empty string when present'')
          else rbind (validate_manifest_placeholders (location @ ''.'' @ key) seen_ids (py_strip s)) (\<lambda>_. Inr (Some (py_strip s)))
      | _ \<Rightarrow> merr (location @ ''.'' @ key @ '' must be a non-empty string when present''))"

definition parse_generated_request_object ::
  "json_object \<Rightarrow> string \<Rightarrow> string list \<Rightarrow> manifest_error + GeneratedRequestObject" where
  "parse_generated_request_object raw_request_object location seen_ids =
     rbind (reject_unknown_keys raw_request_object [''source'', ''audience'', ''openbankingIntentId''] location) (\<lambda>_.
     rbind (required_string raw_request_object ''source'' location) (\<lambda>source.
     rbind (validate_constant_manifest_string source (location @ ''.source'') seen_ids) (\<lambda>_.
     if source \<noteq> ''fapi-signing'' then merr (location @ ''.source must be '' @ quoted ''fapi-signing'')
     else rbind (parse_directive_string raw_request_object ''audience'' location seen_ids) (\<lambda>audience.
          rbind (parse_directive_string raw_request_object ''openbankingIntentId'' location seen_ids) (\<lambda>intent_id.
          Inr \<lparr>go_audience = audience, go_openbanking_intent_id = intent_id\<rparr>)))))"

definition parse_psu_optional_request_object ::
  "json_object \<Rightarrow> string \<Rightarrow> string list \<Rightarrow> manifest_error + RequestObjectValue option" where
  "parse_psu_optional_request_object raw_step location seen_ids =
     (let request_location = location @ ''.requestObject'' in
      case map_of raw_step ''requestObject'' of
        None \<Rightarrow> Inr None
      | Some (JStr s) \<Rightarrow>
          if py_strip s = [] then merr (request_location @ '' must be a non-empty string when present'')
          else rbind (validate_manifest_placeholders request_location seen_ids (py_strip s)) (\<lambda>_.
               Inr (Some (OpaqueRequestObject (py_strip s))))
      | Some (JObj kvs) \<Rightarrow>
          rbind (parse_generated_request_object kvs request_location seen_ids) (\<lambda>g. Inr (Some (GeneratedObject g)))
      | Some _ \<Rightarrow>
          merr (request_location @ '' must be either a non-empty string or a JSON object directive when present''))"

definition check_redirect_uri :: "string \<Rightarrow> string \<Rightarrow> string list \<Rightarrow> manifest_error + unit" where
  "check_redirect_uri redirect_uri location seen_ids =
     (if has_placeholder redirect_uri
      then rbind (validate_manifest_placeholders (location @ ''.redirectUri'') seen_ids redirect_uri) (\<lambda>_.
        if redirect_uri \<noteq> ''${config.oauth.redirectUri}''
        then merr (location @ ''.redirectUri may only use the config placeholder ''
               @ ''${config.oauth.redirectUri} or a literal HTTPS URL'')
        else Inr ())
      else manifest_url_check (validate_oauth_redirect_uri redirect_uri (location @ ''.redirectUri'')))"

definition no_placeholders :: "string \<Rightarrow> string \<Rightarrow> manifest_error + unit" where
  "no_placeholders v location =
     (if has_placeholder v then merr (location @ '' must not contain placeholders'') else Inr ())"

definition parse_v1_psu_authorization_step :: "json_object \<Rightarrow> nat \<Rightarrow> string list \<Rightarrow> manifest_error + PsuAuthorizationStep" where
  "parse_v1_psu_authorization_step raw_step index seen_ids =
     (let location = at_index ''steps'' index in
      rbind (reject_unknown_keys raw_step PSU_AUTH_ALLOWED_KEYS location) (\<lambda>_.
      rbind (parse_step_id raw_step location seen_ids) (\<lambda>sid.
      rbind (required_string raw_step ''name'' location) (\<lambda>sname.
      rbind (parse_psu_mode raw_step location) (\<lambda>mode.
      rbind (required_string raw_step ''authorizationEndpoint'' location) (\<lambda>endpoint.
      rbind (validate_manifest_placeholders (location @ ''.authorizationEndpoint'') seen_ids endpoint) (\<lambda>_.
      rbind (if has_placeholder endpoint then Inr ()
             else manifest_url_check (validate_https_url endpoint (location @ ''.authorizationEndpoint''))) (\<lambda>_.
      rbind (required_string raw_step ''clientId'' location) (\<lambda>client_id.
      rbind (validate_manifest_placeholders (location @ ''.clientId'') seen_ids client_id) (\<lambda>_.
      rbind (required_string raw_step ''redirectUri'' location) (\<lambda>redirect_uri.
      rbind (check_redirect_uri redirect_uri location seen_ids) (\<lambda>_.
      rbind (parse_psu_optional_string raw_step ''responseType'' ''code id_token'' location) (\<lambda>response_type.
      rbind (no_placeholders response_type (location @ ''.responseType'')) (\<lambda>_.
      rbind (parse_psu_optional_string raw_step ''scope'' ''openid'' location) (\<lambda>scope.
      rbind (no_placeholders scope (location @ ''.scope'')) (\<lambda>_.
      rbind (parse_psu_optional_token raw_step ''state'' location seen_ids) (\<lambda>state.
      rbind (parse_psu_optional_token raw_step ''nonce'' location seen_ids) (\<lambda>nonce.
      rbind (parse_psu_optional_request_object raw_step location seen_ids) (\<lambda>request_object.
      rbind (parse_optional_mandatory raw_step location) (\<lambda>mandatory.
      rbind (parse_optional_optional raw_step location) (\<lambda>optional.
      rbind (parse_optional_group raw_step location) (\<lambda>grp.
      rbind (parse_optional_phase raw_step location) (\<lambda>phase.
      rbind (exclusive_flags mandatory optional location) (\<lambda>_.
      Inr \<lparr>pa_id = sid, pa_name = sname, pa_mode = mode, pa_authorization_endpoint = endpoint, pa_client_id = client_id,
           pa_redirect_uri = redirect_uri, pa_response_type = response_type, pa_scope = scope, pa_state = state,
           pa_nonce = nonce, pa_request_object = request_object, pa_mandatory = mandatory, pa_optional = optional,
           pa_group = grp, pa_phase = phase\<rparr>))))))))))))))))))))))))"

section \<open>Manifests\<close>

definition parse_v1_step :: "json_object \<Rightarrow> nat \<Rightarrow> string list \<Rightarrow> manifest_error + V1Step" where
  "parse_v1_step raw_step index seen_ids =
     (let location = at_index ''steps'' index in
      case (case map_of raw_step ''kind'' of None \<Rightarrow> JStr ''http'' | Some v \<Rightarrow> v) of
        JStr kind_raw \<Rightarrow>
          if kind_raw = ''http'' then rbind (parse_v1_http_step raw_step index seen_ids) (\<lambda>s. Inr (HttpStep s))
          else if kind_raw = ''psu-authorization''
          then rbind (parse_v1_psu_authorization_step raw_step index seen_ids) (\<lambda>s. Inr (PsuStep s))
          else merr (location @ ''.kind must be one of: http, psu-authorization (got: '' @ repr_str kind_raw @ '')'')
      | _ \<Rightarrow> merr (location @ ''.kind must be a string when present''))"

fun parse_v1_steps :: "nat \<Rightarrow> json_object list \<Rightarrow> string list \<Rightarrow> manifest_error + V1Step list" where
  "parse_v1_steps index [] seen_ids = Inr []"
| "parse_v1_steps index (raw_step # rest) seen_ids =
     rbind (parse_v1_step raw_step index seen_ids) (\<lambda>step.
     rbind (parse_v1_steps (Suc index) rest (seen_ids @ [step_id step])) (\<lambda>steps. Inr (step # steps)))"

definition parse_certification_coverage :: "json_object \<Rightarrow> string \<Rightarrow> manifest_error + CertificationCoverage" where
  "parse_certification_coverage raw_manifest location =
     (case map_of raw_manifest ''certificationCoverage'' of
        None \<Rightarrow> Inr Partial
      | Some v \<Rightarrow>
          if v = JStr ''partial'' then Inr Partial
          else if v = JStr ''complete'' then Inr Complete
          else merr (location @ ''.certificationCoverage must be one of: partial, complete (got: '' @ py_repr v @ '')''))"

definition parse_v0_manifest :: "json_object \<Rightarrow> manifest_error + Manifest" where
  "parse_v0_manifest raw_manifest =
     rbind (reject_unknown_keys raw_manifest [''schemaVersion'', ''name'', ''tests''] ''manifest'') (\<lambda>_.
     rbind (required_string raw_manifest ''name'' ''manifest'') (\<lambda>name.
     rbind (required_object_array raw_manifest ''tests'' ''manifest'') (\<lambda>raw_tests.
     rbind (rtraverse (\<lambda>(index, raw_test). parse_test index raw_test) (enumerate 0 raw_tests)) (\<lambda>tests.
     Inr \<lparr>mf_schema_version = V0, mf_name = name, mf_tests = tests, mf_steps = [], mf_certification_coverage = Partial\<rparr>))))"

definition parse_v1_manifest :: "json_object \<Rightarrow> manifest_error + Manifest" where
  "parse_v1_manifest raw_manifest =
     rbind (reject_unknown_keys raw_manifest [''schemaVersion'', ''name'', ''certificationCoverage'', ''steps''] ''manifest'') (\<lambda>_.
     rbind (required_string raw_manifest ''name'' ''manifest'') (\<lambda>name.
     rbind (parse_certification_coverage raw_manifest ''manifest'') (\<lambda>coverage.
     rbind (required_object_array raw_manifest ''steps'' ''manifest'') (\<lambda>raw_steps.
     rbind (parse_v1_steps 0 raw_steps []) (\<lambda>steps.
     Inr \<lparr>mf_schema_version = V1, mf_name = name, mf_tests = [], mf_steps = steps, mf_certification_coverage = coverage\<rparr>)))))"

definition parse_manifest :: "json_object \<Rightarrow> manifest_error + Manifest" where
  "parse_manifest raw_manifest =
     rbind (required_string raw_manifest ''schemaVersion'' ''manifest'') (\<lambda>schema_version.
       if schema_version = ''v0'' then parse_v0_manifest raw_manifest
       else if schema_version = ''v1'' then parse_v1_manifest raw_manifest
       else merr ''schemaVersion must be v0 or v1'')"

definition load_manifest_from_object :: "json \<Rightarrow> manifest_error + Manifest" where
  "load_manifest_from_object raw =
     (case raw of JObj raw_manifest \<Rightarrow> parse_manifest raw_manifest | _ \<Rightarrow> merr ''Manifest root must be a JSON object'')"

section \<open>What the parser guarantees\<close>

text \<open>Every template of a step is accepted against the identifiers of the steps before it.\<close>

definition accepted_body :: "string list \<Rightarrow> ManifestBody option \<Rightarrow> bool" where
  "accepted_body seen_ids body =
     (case body of
        None \<Rightarrow> True
      | Some (JsonBody v) \<Rightarrow> accepted_structure seen_ids v
      | Some (FormBody fs) \<Rightarrow> (\<forall>(k, v) \<in> set fs. accepted_template seen_ids v))"

definition accepted_option :: "string list \<Rightarrow> string option \<Rightarrow> bool" where
  "accepted_option seen_ids v = (case v of None \<Rightarrow> True | Some t \<Rightarrow> accepted_template seen_ids t)"

definition accepted_request :: "string list \<Rightarrow> ManifestRequest \<Rightarrow> bool" where
  "accepted_request seen_ids request =
     (accepted_template seen_ids (rq_url request)
      \<and> (\<forall>hs. rq_headers request = Some hs \<longrightarrow> (\<forall>(n, v) \<in> set hs. accepted_template seen_ids v))
      \<and> accepted_body seen_ids (rq_body request))"

definition accepted_request_object :: "string list \<Rightarrow> RequestObjectValue option \<Rightarrow> bool" where
  "accepted_request_object seen_ids v =
     (case v of
        None \<Rightarrow> True
      | Some (OpaqueRequestObject t) \<Rightarrow> accepted_template seen_ids t
      | Some (GeneratedObject g) \<Rightarrow>
          accepted_option seen_ids (go_audience g) \<and> accepted_option seen_ids (go_openbanking_intent_id g))"

fun accepted_step :: "string list \<Rightarrow> V1Step \<Rightarrow> bool" where
  "accepted_step seen_ids (HttpStep s) = accepted_request seen_ids (ms_request s)"
| "accepted_step seen_ids (PsuStep s) =
     (accepted_template seen_ids (pa_authorization_endpoint s) \<and> accepted_template seen_ids (pa_client_id s)
      \<and> accepted_option seen_ids (pa_state s) \<and> accepted_option seen_ids (pa_nonce s)
      \<and> accepted_request_object seen_ids (pa_request_object s))"

lemma parsed_headers:
  assumes "parse_v1_headers raw loc seen = Inr (Some hs)" and "(n, v) \<in> set hs"
  shows "accepted_template seen v"
proof -
  obtain raw_headers where "rtraverse (parse_v1_header loc seen) raw_headers = Inr hs"
    using assms(1) by (auto simp: parse_v1_headers_def rbind_eq_Inr split: option.splits json.splits)
  then obtain e where "parse_v1_header loc seen e = Inr (n, v)" using rtraverse_Inr_member [OF _ assms(2)] by blast
  then show ?thesis
    by (auto simp: parse_v1_header_def Let_def rbind_eq_Inr validate_manifest_placeholders_Inr split: if_splits json.splits)
qed

lemma parsed_form:
  assumes "rtraverse (parse_form_field loc seen) raw = Inr fs" and "(n, v) \<in> set fs"
  shows "accepted_template seen v"
proof -
  obtain e where "parse_form_field loc seen e = Inr (n, v)" using rtraverse_Inr_member [OF assms] by blast
  then show ?thesis
    by (auto simp: parse_form_field_def Let_def rbind_eq_Inr validate_manifest_placeholders_Inr split: if_splits json.splits)
qed

lemma parsed_tagged_body:
  assumes "parse_tagged_body raw loc seen = Inr b"
  shows "accepted_body seen (Some b)"
proof (cases b)
  case (JsonBody j)
  then have "\<exists>u. validate_placeholders_in_structure (loc @ ''.value'') seen j = Inr u"
    using assms by (auto simp: parse_tagged_body_def Let_def rbind_eq_Inr split: if_splits option.splits json.splits)
  then show ?thesis using JsonBody validate_structure_Inr by (auto simp: accepted_body_def)
next
  case (FormBody fs)
  then have "\<exists>raw. rtraverse (parse_form_field loc seen) raw = Inr fs"
    using assms by (auto simp: parse_tagged_body_def Let_def rbind_eq_Inr split: if_splits option.splits json.splits)
  then show ?thesis using FormBody parsed_form by (auto simp: accepted_body_def)
qed

lemma parsed_body:
  assumes "parse_v1_body raw m loc seen = Inr b"
  shows "accepted_body seen b"
proof (cases "map_of raw ''body''")
  case None
  then show ?thesis using assms by (simp add: parse_v1_body_def accepted_body_def)
next
  case (Some body)
  show ?thesis
  proof (cases "is_object body \<and> ''encoding'' \<in> set (keys (obj_of body))")
    case True
    then obtain t where "parse_tagged_body (obj_of body) (loc @ ''.body'') seen = Inr t" "b = Some t"
      using assms Some by (auto simp: parse_v1_body_def rbind_eq_Inr split: if_splits)
    then show ?thesis using parsed_tagged_body by blast
  next
    case False
    then have "\<exists>u. validate_placeholders_in_structure (loc @ ''.body'') seen body = Inr u" "b = Some (JsonBody body)"
      using assms Some by (auto simp: parse_v1_body_def rbind_eq_Inr simp del: set_map split: if_splits)
    then show ?thesis using validate_structure_Inr by (auto simp: accepted_body_def)
  qed
qed

lemma parsed_request:
  assumes "parse_v1_request raw loc seen = Inr r"
  shows "accepted_request seen r"
proof -
  obtain m url headers body jws where
    url: "validate_manifest_placeholders (loc @ ''.url'') seen url = Inr ()"
    and h: "parse_v1_headers raw loc seen = Inr headers" and b: "parse_v1_body raw m loc seen = Inr body"
    and r: "r = \<lparr>rq_method = m, rq_url = url, rq_headers = headers, rq_body = body, rq_detached_jws = jws\<rparr>"
    using assms unfolding parse_v1_request_def rbind_eq_Inr by (elim exE conjE) (auto simp: rbind_eq_Inr)
  show ?thesis unfolding accepted_request_def r
    using url h parsed_headers [of raw loc seen] parsed_body [OF b] by (auto simp: validate_manifest_placeholders_Inr)
qed

lemma parsed_psu_token:
  "parse_psu_optional_token raw key loc seen = Inr v \<Longrightarrow> accepted_option seen v"
  by (auto simp: parse_psu_optional_token_def accepted_option_def rbind_eq_Inr validate_manifest_placeholders_Inr
      split: option.splits if_splits)

lemma parsed_directive: "parse_directive_string raw key loc seen = Inr v \<Longrightarrow> accepted_option seen v"
  by (auto simp: parse_directive_string_def accepted_option_def rbind_eq_Inr validate_manifest_placeholders_Inr
      split: json.splits if_splits)

lemma parsed_request_object:
  assumes "parse_psu_optional_request_object raw loc seen = Inr v"
  shows "accepted_request_object seen v"
proof (cases v)
  case (Some r)
  show ?thesis
  proof (cases r)
    case (OpaqueRequestObject t)
    then have "\<exists>u. validate_manifest_placeholders (loc @ ''.requestObject'') seen t = Inr u"
      using assms Some by (auto simp: parse_psu_optional_request_object_def rbind_eq_Inr Let_def
          split: option.splits json.splits if_splits)
    then show ?thesis using Some OpaqueRequestObject
      by (auto simp: accepted_request_object_def validate_manifest_placeholders_Inr)
  next
    case (GeneratedObject g)
    then have "\<exists>kvs. parse_generated_request_object kvs (loc @ ''.requestObject'') seen = Inr g"
      using assms Some by (auto simp: parse_psu_optional_request_object_def rbind_eq_Inr Let_def
          split: option.splits json.splits if_splits)
    then show ?thesis using Some GeneratedObject parsed_directive
      by (auto simp: accepted_request_object_def parse_generated_request_object_def rbind_eq_Inr split: if_splits)
  qed
qed (simp add: accepted_request_object_def)

lemma stripped_no_newline: "s = py_strip t \<Longrightarrow> s \<noteq> [] \<Longrightarrow> last s \<noteq> CHR ''\<newline>''"
  using stripped_py_strip [of t] by (auto simp: stripped_def is_space_def code_of_def)

lemma required_string_Inr: "required_string raw key loc = Inr s \<Longrightarrow> \<exists>t. s = py_strip t \<and> s \<noteq> []"
  by (auto simp: required_string_def split: json.splits if_splits)

lemma parsed_step_id:
  assumes "parse_step_id raw loc seen = Inr sid"
  shows "id_match sid \<and> sid \<notin> set seen"
proof -
  have *: "required_string raw ''id'' loc = Inr sid" "dollar_match id_match sid" "sid \<notin> set seen"
    using assms by (auto simp: parse_step_id_def validate_step_id_def rbind_eq_Inr split: if_splits)
  then show ?thesis using required_string_Inr [OF *(1)] stripped_no_newline by (auto simp: dollar_match_def)
qed

lemma exclusive_flags_Inr: "exclusive_flags m opt loc = Inr u \<longleftrightarrow> \<not> (m \<and> opt)"
  by (simp add: exclusive_flags_def)

lemma parsed_http_step:
  assumes "parse_v1_http_step raw index seen = Inr s"
  shows "parse_step_id raw (at_index ''steps'' index) seen = Inr (ms_id s) \<and> accepted_request seen (ms_request s)
       \<and> \<not> (ms_mandatory s \<and> ms_optional s)"
  using assms unfolding parse_v1_http_step_def Let_def rbind_eq_Inr exclusive_flags_Inr
  by (elim exE conjE) (auto dest: parsed_request)

lemma parsed_psu_step:
  assumes "parse_v1_psu_authorization_step raw index seen = Inr s"
  shows "parse_step_id raw (at_index ''steps'' index) seen = Inr (pa_id s) \<and> accepted_step seen (PsuStep s)
       \<and> \<not> (pa_mandatory s \<and> pa_optional s)"
  using assms
  unfolding parse_v1_psu_authorization_step_def Let_def rbind_eq_Inr exclusive_flags_Inr validate_manifest_placeholders_Inr
  by (elim exE conjE) (auto dest: parsed_psu_token parsed_request_object)

definition good_step :: "string list \<Rightarrow> V1Step \<Rightarrow> bool" where
  "good_step seen_ids s =
     (id_match (step_id s) \<and> step_id s \<notin> set seen_ids \<and> \<not> (step_mandatory s \<and> step_optional s) \<and> accepted_step seen_ids s)"

lemma parsed_step:
  assumes "parse_v1_step raw index seen = Inr s"
  shows "good_step seen s"
proof (cases s)
  case (HttpStep h)
  then have "parse_v1_http_step raw index seen = Inr h"
    using assms by (auto simp: parse_v1_step_def Let_def rbind_eq_Inr split: json.splits if_splits)
  then show ?thesis using parsed_http_step parsed_step_id HttpStep by (fastforce simp: good_step_def)
next
  case (PsuStep q)
  then have "parse_v1_psu_authorization_step raw index seen = Inr q"
    using assms by (auto simp: parse_v1_step_def Let_def rbind_eq_Inr split: json.splits if_splits)
  then show ?thesis using parsed_psu_step parsed_step_id PsuStep by (fastforce simp: good_step_def)
qed

lemma parsed_steps:
  "parse_v1_steps index raws seen = Inr ss \<Longrightarrow> i < length ss \<Longrightarrow> good_step (seen @ map step_id (take i ss)) (ss ! i)"
proof (induction index raws seen arbitrary: ss i rule: parse_v1_steps.induct)
  case (2 index raw rest seen)
  then obtain s ss' where s: "parse_v1_step raw index seen = Inr s"
    "parse_v1_steps (Suc index) rest (seen @ [step_id s]) = Inr ss'" "ss = s # ss'"
    by (auto simp: rbind_eq_Inr)
  show ?case
  proof (cases i)
    case 0
    then show ?thesis using parsed_step [OF s(1)] s(3) by simp
  next
    case (Suc j)
    then show ?thesis using "2.IH" [OF s(1,2), of j] "2.prems"(2) s(3) by simp
  qed
qed simp

lemma good_steps_distinct:
  "(\<And>i. i < length ss \<Longrightarrow> good_step (map step_id (take i ss)) (ss ! i)) \<Longrightarrow> distinct (map step_id ss)"
  unfolding distinct_conv_nth
proof (intro allI impI)
  fix i j
  assume good: "\<And>i. i < length ss \<Longrightarrow> good_step (map step_id (take i ss)) (ss ! i)"
    and ij: "i < length (map step_id ss)" "j < length (map step_id ss)" "i \<noteq> j"
  have earlier: "step_id (ss ! a) \<noteq> step_id (ss ! b)" if "a < b" "b < length ss" for a b
  proof -
    have "ss ! a \<in> set (take b ss)" using that by (auto simp: in_set_conv_nth intro!: exI [of _ a])
    then have "step_id (ss ! a) \<in> set (map step_id (take b ss))" by simp
    then show ?thesis using good [OF that(2)] unfolding good_step_def by metis
  qed
  show "map step_id ss ! i \<noteq> map step_id ss ! j"
    using earlier [of i j] earlier [of j i] ij by (cases i j rule: linorder_cases) auto
qed

lemma parsed_manifest_good:
  assumes "parse_manifest raw = Inr m" and "i < length (mf_steps m)"
  shows "good_step (map step_id (take i (mf_steps m))) (mf_steps m ! i)"
proof -
  have "\<exists>raws. parse_v1_steps 0 raws [] = Inr (mf_steps m)"
    using assms by (auto simp: parse_manifest_def parse_v0_manifest_def parse_v1_manifest_def rbind_eq_Inr split: if_splits)
  then show ?thesis using parsed_steps assms(2) by fastforce
qed

lemma parsed_manifest_wf:
  assumes "parse_manifest raw = Inr m"
  shows "wf_manifest m"
  unfolding wf_manifest_def
proof
  show "distinct (map step_id (mf_steps m))" by (rule good_steps_distinct [OF parsed_manifest_good [OF assms]])
  show "\<forall>s \<in> set (mf_steps m). \<not> (step_mandatory s \<and> step_optional s)"
    using parsed_manifest_good [OF assms] by (auto simp: in_set_conv_nth good_step_def)
qed

section \<open>Properties\<close>

text \<open>C9: Every manifest the parser accepts is well formed, which is what the test plan, the schedule and the validator
  assume of it: step identifiers are distinct and of the documented alphabet, and no step is both mandatory and optional.
  Moreover each template of a step, in its URL, headers, body or authorisation fields, holds only placeholders of the
  documented grammar, and those that refer to a step refer to one that comes before it.\<close>

theorem parsed_manifest_is_well_formed:
  assumes "parse_manifest raw = Inr m"
  shows "wf_manifest m
       \<and> (\<forall>i < length (mf_steps m). id_match (step_id (mf_steps m ! i))
            \<and> accepted_step (map step_id (take i (mf_steps m))) (mf_steps m ! i))"
  using parsed_manifest_wf [OF assms] parsed_manifest_good [OF assms] by (auto simp: good_step_def)

text \<open>C10: A template the parser accepts is one the resolver understands: once the steps it may refer to have run and
  the value each of its placeholders asks for exists in the execution context, resolution succeeds. No accepted template
  fails at run time because of its syntax, an unknown path or an undefined step.\<close>

theorem accepted_templates_resolve:
  assumes "validate_manifest_placeholders location seen_ids t = Inr u"
    and "set seen_ids \<subseteq> set (keys (ec_steps ctx))"
    and "\<forall>p \<in> set (find_tokens t). value_available ctx p"
  shows "\<exists>r. resolve_placeholders t ctx = Inr r"
  using assms accepted_resolves [of seen_ids t ctx] by (auto simp: validate_manifest_placeholders_Inr)

definition sample_template :: string where
  "sample_template = ''https://bank.example/${steps.s1.response.body.Data.Id.0}/x''"

lemma sample_template_facts:
  "validate_manifest_placeholders ''steps[1].request.url'' [''s1''] sample_template = Inr ()"
  "find_tokens sample_template = [''steps.s1.response.body.Data.Id.0'']"
  by code_simp+

lemma sample_available: "value_available sample_context ''steps.s1.response.body.Data.Id.0''"
  by (rule value_available.body_value) (code_simp+)

theorem accepted_templates_resolve_witness:
  "\<exists>r. resolve_placeholders sample_template sample_context = Inr r"
proof (rule accepted_templates_resolve [OF sample_template_facts(1)])
  show "set [''s1''] \<subseteq> set (keys (ec_steps sample_context))"
    by (simp add: sample_context_def record_token_def record_step_def)
  show "\<forall>p \<in> set (find_tokens sample_template). value_available sample_context p"
    by (simp add: sample_template_facts(2) sample_available)
qed

definition sample_raw_manifest :: json_object where
  "sample_raw_manifest =
     [(''schemaVersion'', JStr ''v1''), (''name'', JStr ''n''),
      (''steps'', JArr [JObj [(''id'', JStr ''s1''), (''name'', JStr ''first''),
         (''request'', JObj [(''method'', JStr ''GET''), (''url'', JStr ''${config.discoveryUrl}'')]),
         (''assertions'', JArr [JObj [(''type'', JStr ''http_status''), (''expected'', JInt 200)]])]])]"

theorem parsed_manifest_is_well_formed_witness:
  "\<exists>m. parse_manifest sample_raw_manifest = Inr m \<and> wf_manifest m"
proof -
  have "case parse_manifest sample_raw_manifest of Inr m \<Rightarrow> True | Inl e \<Rightarrow> False" by code_simp
  then obtain m where "parse_manifest sample_raw_manifest = Inr m" by (auto split: sum.splits)
  then show ?thesis using parsed_manifest_is_well_formed by blast
qed

end
