(* ===== verification/Assertions.thy ===== *)
theory Assertions
  imports Manifest_Model Url_Validation Schema_Validation Headers
begin

text \<open>
  The evaluation of manifest assertions against a response (\<open>conformance/assertions.py\<close>). A result is a pass flag
  and a message. The response headers are the items of the mapping the caller passes, \<open>None\<close> when it passes none.
  \<open>UncaughtValueError\<close> is the \<open>ValueError\<close> that \<open>int\<close> raises for a path segment of more than 4300 digits and
  \<open>urlparse\<close> for an unbalanced bracket; no function of the module catches it. The bundled documents and
  \<open>jsonschema\<close> are arguments, as in \<open>Schema_Validation\<close>.
\<close>

datatype assertion_exception = UncaughtValueError

record AssertionResult =
  ar_passed :: bool
  ar_message :: string

definition pass :: "string \<Rightarrow> AssertionResult" where
  "pass message = \<lparr>ar_passed = True, ar_message = message\<rparr>"

definition fail :: "string \<Rightarrow> AssertionResult" where
  "fail message = \<lparr>ar_passed = False, ar_message = message\<rparr>"

definition verdict :: "bool \<Rightarrow> string \<Rightarrow> string \<Rightarrow> AssertionResult" where
  "verdict b if_passed if_failed = (if b then pass if_passed else fail if_failed)"

lemma verdict_passed [simp]: "ar_passed (verdict b m n) = b" "ar_passed (pass m)" "\<not> ar_passed (fail m)"
  by (simp_all add: verdict_def pass_def fail_def)

section \<open>JSON paths and values\<close>

fun walk_json_path :: "json \<Rightarrow> string list \<Rightarrow> assertion_exception + json option" where
  "walk_json_path current_value [] = Inr (Some current_value)"
| "walk_json_path current_value (path_part # parts) =
     (case current_value of
        JObj obj \<Rightarrow> (case map_of obj path_part of None \<Rightarrow> Inr None | Some v \<Rightarrow> walk_json_path v parts)
      | JArr items \<Rightarrow>
          (if py_isdecimal path_part
           then (case int_of_decimal path_part of
                   None \<Rightarrow> Inl UncaughtValueError
                 | Some index \<Rightarrow> if length items \<le> index then Inr None else walk_json_path (items ! index) parts)
           else Inr None)
      | _ \<Rightarrow> Inr None)"

definition resolve_json_path :: "json_object \<Rightarrow> string \<Rightarrow> assertion_exception + json option" where
  "resolve_json_path body path = walk_json_path (JObj body) (split_on CHR ''.'' path)"

fun is_bool :: "json \<Rightarrow> bool" where
  "is_bool (JBool _) = True"
| "is_bool _ = False"

function json_values_equal :: "json \<Rightarrow> json \<Rightarrow> bool" where
  "json_values_equal left right =
     (if is_bool left \<or> is_bool right then is_bool left \<and> is_bool right \<and> left = right
      else if left = JFloat NaN then right = JFloat NaN
      else if right = JFloat NaN then False
      else case (left, right) of
        (JArr xs, JArr ys) \<Rightarrow> length xs = length ys \<and> list_all (\<lambda>(x, y). json_values_equal x y) (zip xs ys)
      | (JObj kvs, JObj lws) \<Rightarrow>
          set (keys kvs) = set (keys lws)
          \<and> list_all (\<lambda>(k, v). case map_of lws k of None \<Rightarrow> False | Some w \<Rightarrow> json_values_equal v w) kvs
      | _ \<Rightarrow> py_eq left right)"
  by pat_completeness auto
termination
  by (relation "measure (\<lambda>(left, right). size left)") (auto simp: termination_simp)

declare json_values_equal.simps [simp del]

definition format_json_value :: "json \<Rightarrow> string" where
  "format_json_value v = (case v of JStr s \<Rightarrow> s | _ \<Rightarrow> json_dumps '','' '': '' v)"

definition format_json_value_list :: "json list \<Rightarrow> string" where
  "format_json_value_list vs = join '', '' (map format_json_value vs)"

definition format_field_names :: "string list \<Rightarrow> string" where
  "format_field_names field_names = join '', '' field_names"

section \<open>Status and header assertions\<close>

definition str_status :: "int option \<Rightarrow> string" where
  "str_status code = (case code of None \<Rightarrow> ''None'' | Some n \<Rightarrow> str_int n)"

definition evaluate_http_status :: "HttpStatusAssertion \<Rightarrow> int \<Rightarrow> AssertionResult" where
  "evaluate_http_status a status_code =
     (let was = ''HTTP status was '' @ str_int status_code;
          got = '', got '' @ str_int status_code
      in if hs_expected_one_of a \<noteq> []
         then verdict (status_code \<in> set (hs_expected_one_of a)) was
                (''Expected HTTP status '' @ join '' or '' (map str_int (hs_expected_one_of a)) @ got)
         else verdict (Some status_code = hs_expected a) was
                (''Expected HTTP status '' @ str_status (hs_expected a) @ got))"

fun first_header :: "(string \<times> string) list \<Rightarrow> string \<Rightarrow> string option" where
  "first_header [] lower_name = None"
| "first_header ((header_name, header_value) # rest) lower_name =
     (if py_lower header_name = lower_name then Some header_value else first_header rest lower_name)"

definition resolve_header_value :: "(string \<times> string) list option \<Rightarrow> string \<Rightarrow> string option" where
  "resolve_header_value headers name =
     (case headers of None \<Rightarrow> None | Some items \<Rightarrow> first_header items (py_lower name))"

definition evaluate_header :: "HeaderAssertion \<Rightarrow> (string \<times> string) list option \<Rightarrow> AssertionResult" where
  "evaluate_header a headers =
     (let subj = ''Header '' @ ha_name a;
          header_value = resolve_header_value headers (ha_name a)
      in case ha_rule a of
           HeaderPresent \<Rightarrow> verdict (header_value \<noteq> None) (subj @ '' is present'') (subj @ '' is missing'')
         | HeaderAbsent \<Rightarrow> verdict (header_value = None) (subj @ '' is absent'') (subj @ '' must be absent'')
         | rule \<Rightarrow>
             (case header_value of
                None \<Rightarrow> fail (subj @ '' is missing'')
              | Some v \<Rightarrow>
                  if rule = HeaderEquals
                  then verdict (Some v = ha_value a) (subj @ '' equals the expected value'') (subj @ '' must equal the expected value'')
                  else verdict (case ha_value a of None \<Rightarrow> False | Some e \<Rightarrow> str_contains e v)
                         (subj @ '' contains the expected value'') (subj @ '' must contain the expected value'')))"

section \<open>JSON field assertions\<close>

definition json_field :: "string \<Rightarrow> string" where
  "json_field path = ''JSON field '' @ path"

definition evaluate_https_url :: "string \<Rightarrow> json \<Rightarrow> assertion_exception + AssertionResult" where
  "evaluate_https_url path v =
     (case v of
        JStr s \<Rightarrow>
          (if py_strip s = [] then Inr (fail (json_field path @ '' must be a non-empty HTTPS URL string''))
           else case validate_https_url (py_strip s) (json_field path) of
             Inl (HttpsUrlValidationError message) \<Rightarrow> Inr (fail message)
           | Inl UrlValueError \<Rightarrow> Inl UncaughtValueError
           | Inr _ \<Rightarrow> Inr (pass (json_field path @ '' is an HTTPS URL'')))
      | _ \<Rightarrow> Inr (fail (json_field path @ '' must be a non-empty HTTPS URL string'')))"

definition evaluate_array :: "string \<Rightarrow> json \<Rightarrow> AssertionResult" where
  "evaluate_array path v = verdict (is_array v) (json_field path @ '' is an array'') (json_field path @ '' must be an array'')"

definition evaluate_json_string :: "string \<Rightarrow> json \<Rightarrow> AssertionResult" where
  "evaluate_json_string path v =
     verdict (is_string v) (json_field path @ '' is a string'') (json_field path @ '' must be a string'')"

fun is_number :: "json \<Rightarrow> bool" where
  "is_number (JInt _) = True"
| "is_number (JFloat _) = True"
| "is_number _ = False"

definition evaluate_json_number :: "string \<Rightarrow> json \<Rightarrow> AssertionResult" where
  "evaluate_json_number path v =
     verdict (is_number v) (json_field path @ '' is a number'') (json_field path @ '' must be a number'')"

definition evaluate_json_boolean :: "string \<Rightarrow> json \<Rightarrow> AssertionResult" where
  "evaluate_json_boolean path v =
     verdict (is_bool v) (json_field path @ '' is a boolean'') (json_field path @ '' must be a boolean'')"

definition evaluate_json_object :: "string \<Rightarrow> json \<Rightarrow> AssertionResult" where
  "evaluate_json_object path v =
     verdict (is_object v) (json_field path @ '' is an object'') (json_field path @ '' must be an object'')"

definition evaluate_non_empty_array :: "string \<Rightarrow> json \<Rightarrow> AssertionResult" where
  "evaluate_non_empty_array path v =
     verdict (is_array v \<and> arr_of v \<noteq> []) (json_field path @ '' is a non-empty array'')
       (json_field path @ '' must be a non-empty array'')"

definition evaluate_min_items :: "string \<Rightarrow> json \<Rightarrow> int option \<Rightarrow> AssertionResult" where
  "evaluate_min_items path v minimum =
     (if \<not> is_array v then fail (json_field path @ '' must be an array'')
      else case minimum of
        None \<Rightarrow> fail (json_field path @ '' has an invalid minimum item count'')
      | Some m \<Rightarrow>
          verdict (m \<le> int (length (arr_of v)))
            (json_field path @ '' contains at least '' @ str_int m @ '' items'')
            (json_field path @ '' must contain at least '' @ str_int m @ '' items''))"

definition evaluate_json_equals :: "string \<Rightarrow> json \<Rightarrow> json \<Rightarrow> AssertionResult" where
  "evaluate_json_equals path v expected =
     verdict (json_values_equal v expected)
       (json_field path @ '' equals '' @ format_json_value expected)
       (json_field path @ '' must equal '' @ format_json_value expected)"

definition evaluate_json_one_of :: "string \<Rightarrow> json \<Rightarrow> json list option \<Rightarrow> AssertionResult" where
  "evaluate_json_one_of path v candidates =
     (case candidates of
        None \<Rightarrow> fail (json_field path @ '' has no allowed values'')
      | Some cs \<Rightarrow>
          verdict (list_ex (json_values_equal v) cs)
            (json_field path @ '' equals one of: '' @ format_json_value_list cs)
            (json_field path @ '' must equal one of: '' @ format_json_value_list cs))"

definition has_field :: "string \<Rightarrow> json \<Rightarrow> bool" where
  "has_field field_name item = (is_object item \<and> field_name \<in> set (keys (obj_of item)))"

definition evaluate_all_items_have_field :: "string \<Rightarrow> json \<Rightarrow> string option \<Rightarrow> AssertionResult" where
  "evaluate_all_items_have_field path v field_name =
     (if \<not> is_array v then fail (json_field path @ '' must be an array'')
      else case field_name of
        None \<Rightarrow> fail (json_field path @ '' has an invalid required item field'')
      | Some f \<Rightarrow>
          if f = [] then fail (json_field path @ '' has an invalid required item field'')
          else verdict (list_all (has_field f) (arr_of v))
                 (''Every item in '' @ json_field path @ '' contains field '' @ f)
                 (''Every item in '' @ json_field path @ '' must contain field '' @ f))"

definition evaluate_object_absent_fields :: "string \<Rightarrow> json_object \<Rightarrow> string list \<Rightarrow> AssertionResult" where
  "evaluate_object_absent_fields path obj field_names =
     (case find (\<lambda>f. f \<in> set (keys obj)) field_names of
        Some f \<Rightarrow> fail (json_field path @ ''.'' @ f @ '' must be absent'')
      | None \<Rightarrow> pass (json_field path @ '' omits fields: '' @ format_field_names field_names))"

fun items_absent_fields :: "string \<Rightarrow> nat \<Rightarrow> json list \<Rightarrow> string list \<Rightarrow> AssertionResult" where
  "items_absent_fields path index [] field_names =
     pass (''Every item in '' @ json_field path @ '' omits fields: '' @ format_field_names field_names)"
| "items_absent_fields path index (item # items) field_names =
     (let item_path = path @ ''['' @ str_nat index @ '']'' in
      case item of
        JObj obj \<Rightarrow>
          (let result = evaluate_object_absent_fields item_path obj field_names
           in if \<not> ar_passed result then result else items_absent_fields path (Suc index) items field_names)
      | _ \<Rightarrow> fail (json_field item_path @ '' must be an object''))"

definition evaluate_all_items_absent_fields :: "string \<Rightarrow> json \<Rightarrow> string list \<Rightarrow> AssertionResult" where
  "evaluate_all_items_absent_fields path v field_names =
     (if field_names = [] then fail (json_field path @ '' has no forbidden item fields'')
      else case v of
        JObj obj \<Rightarrow> evaluate_object_absent_fields path obj field_names
      | JArr items \<Rightarrow> items_absent_fields path 0 items field_names
      | _ \<Rightarrow> fail (json_field path @ '' must be an object or array''))"

definition evaluate_json_field :: "JsonFieldAssertion \<Rightarrow> json_object \<Rightarrow> assertion_exception + AssertionResult" where
  "evaluate_json_field a body =
     rbind (resolve_json_path body (jf_path a)) (\<lambda>resolved.
       let path = jf_path a in
       if jf_rule a = RuleAbsent
       then Inr (verdict (resolved = None) (json_field path @ '' is absent'') (json_field path @ '' must be absent''))
       else case resolved of
         None \<Rightarrow> Inr (fail (json_field path @ '' is missing''))
       | Some v \<Rightarrow>
           (case jf_rule a of
              RuleRequired \<Rightarrow> Inr (pass (json_field path @ '' is present''))
            | RuleHttpsUrl \<Rightarrow> evaluate_https_url path v
            | RuleArray \<Rightarrow> Inr (evaluate_array path v)
            | RuleString \<Rightarrow> Inr (evaluate_json_string path v)
            | RuleNumber \<Rightarrow> Inr (evaluate_json_number path v)
            | RuleBoolean \<Rightarrow> Inr (evaluate_json_boolean path v)
            | RuleObject \<Rightarrow> Inr (evaluate_json_object path v)
            | RuleNonEmptyArray \<Rightarrow> Inr (evaluate_non_empty_array path v)
            | RuleMinItems \<Rightarrow> Inr (evaluate_min_items path v (jf_min_items a))
            | RuleEquals \<Rightarrow> Inr (evaluate_json_equals path v (jf_value a))
            | RuleOneOf \<Rightarrow> Inr (evaluate_json_one_of path v (jf_values a))
            | RuleAllItemsAbsentFields \<Rightarrow> Inr (evaluate_all_items_absent_fields path v (jf_fields a))
            | _ \<Rightarrow> Inr (evaluate_all_items_have_field path v (jf_field a))))"

section \<open>Response schema assertions\<close>

text \<open>The third-party and on-disk parts of schema validation, and the call with its exceptions.\<close>

type_synonym schema_backend = "(string \<Rightarrow> json option) \<times> (json_object \<Rightarrow> json \<Rightarrow> ValidationError list)"

definition validate_instance ::
  "schema_backend \<Rightarrow> string \<Rightarrow> string \<Rightarrow> string option \<Rightarrow> json_object option \<Rightarrow> json \<Rightarrow> assertion_exception + string option" where
  "validate_instance backend source document schema_ref inline_schema inst =
     (case validate_json_instance_against_response_schema (fst backend) (snd backend) source document schema_ref inline_schema inst of
        Inl _ \<Rightarrow> Inl UncaughtValueError
      | Inr message \<Rightarrow> Inr message)"

definition describe_response_schema :: "ResponseSchemaAssertion \<Rightarrow> string" where
  "describe_response_schema a =
     (case rs_schema_ref a of
        Some schema_ref \<Rightarrow> schema_ref @ '' from '' @ rs_document a
      | None \<Rightarrow> ''inline schema from '' @ rs_document a)"

definition evaluate_selected_value ::
  "schema_backend \<Rightarrow> ResponseSchemaAssertion \<Rightarrow> string \<Rightarrow> json \<Rightarrow> assertion_exception + AssertionResult" where
  "evaluate_selected_value backend a location inst =
     rbind (validate_instance backend (rs_source a) (rs_document a) (rs_schema_ref a) (rs_schema a) inst)
       (\<lambda>validation_message. case validation_message of
          None \<Rightarrow> Inr (pass (location @ '' matches schema '' @ describe_response_schema a))
        | Some m \<Rightarrow> Inr (fail (location @ '' failed schema validation: '' @ m)))"

definition evaluate_response_schema ::
  "schema_backend \<Rightarrow> ResponseSchemaAssertion \<Rightarrow> json_object \<Rightarrow> assertion_exception + AssertionResult" where
  "evaluate_response_schema backend a body =
     (case rs_body_path a of
        None \<Rightarrow> evaluate_selected_value backend a ''Response body'' (JObj body)
      | Some body_path \<Rightarrow>
          rbind (resolve_json_path body body_path) (\<lambda>selected.
            case selected of
              None \<Rightarrow> Inr (fail (''Response body path '' @ body_path @ '' is missing''))
            | Some v \<Rightarrow> evaluate_selected_value backend a (''Response body path '' @ body_path) v))"

section \<open>Legacy assertions\<close>

text \<open>The state of the segment loop: finished segments, characters of the current one, bracket depth, inside quotes.\<close>

fun split_legacy :: "string list \<Rightarrow> string \<Rightarrow> int \<Rightarrow> bool \<Rightarrow> string \<Rightarrow> string list" where
  "split_legacy segments current bracket_depth in_quotes [] = segments @ [current]"
| "split_legacy segments current bracket_depth in_quotes (character # rest) =
     (let in_quotes' = (if character = CHR 34 then \<not> in_quotes else in_quotes);
          bracket_depth' =
            (if character = CHR 34 then bracket_depth
             else if \<not> in_quotes \<and> character = CHR ''['' then bracket_depth + 1
             else if \<not> in_quotes \<and> character = CHR '']'' then bracket_depth - 1
             else bracket_depth)
      in if character = CHR ''.'' \<and> bracket_depth' = 0 \<and> \<not> in_quotes'
         then split_legacy (segments @ [current]) [] bracket_depth' in_quotes' rest
         else split_legacy segments (current @ [character]) bracket_depth' in_quotes' rest)"

definition legacy_json_path_segments :: "string \<Rightarrow> string list" where
  "legacy_json_path_segments path = split_legacy [] [] 0 False path"

text \<open>\<open>#\(([^)]+)\)\<close> and \<open>#\[([^=]+)="([^"]*)"\]\<close>, each matched against the whole segment.\<close>

definition presence_match :: "string \<Rightarrow> string option" where
  "presence_match segment =
     (let name = takeWhile (\<lambda>c. c \<noteq> CHR '')'') (drop 2 segment)
      in if starts_with ''#('' segment \<and> name \<noteq> [] \<and> dropWhile (\<lambda>c. c \<noteq> CHR '')'') (drop 2 segment) = '')''
         then Some name else None)"

definition filter_match :: "string \<Rightarrow> (string \<times> string) option" where
  "filter_match segment =
     (let field_name = takeWhile (\<lambda>c. c \<noteq> CHR ''='') (drop 2 segment);
          after = dropWhile (\<lambda>c. c \<noteq> CHR ''='') (drop 2 segment);
          expected = takeWhile (\<lambda>c. c \<noteq> CHR 34) (drop 2 after)
      in if starts_with ''#['' segment \<and> field_name \<noteq> [] \<and> starts_with [CHR ''='', CHR 34] after
            \<and> dropWhile (\<lambda>c. c \<noteq> CHR 34) (drop 2 after) = [CHR 34, CHR '']'']
         then Some (field_name, expected) else None)"

definition legacy_step :: "json \<Rightarrow> string \<Rightarrow> json option" where
  "legacy_step current segment =
     (case presence_match segment of
        Some field_name \<Rightarrow>
          (if \<not> is_array current then None
           else let vs = [jget (obj_of item) field_name. item \<leftarrow> arr_of current, has_field field_name item]
                in if vs = [] then None else Some (JArr vs))
      | None \<Rightarrow>
          (case filter_match segment of
             Some (field_name, expected) \<Rightarrow>
               (if \<not> is_array current then None
                else find (\<lambda>item. is_object item \<and> jget (obj_of item) field_name = JStr expected) (arr_of current))
           | None \<Rightarrow> if is_object current then map_of (obj_of current) segment else None))"

fun walk_legacy :: "json \<Rightarrow> string list \<Rightarrow> json option" where
  "walk_legacy current [] = Some current"
| "walk_legacy current (segment # segments) =
     (case legacy_step current segment of None \<Rightarrow> None | Some v \<Rightarrow> walk_legacy v segments)"

definition resolve_legacy_json_path :: "json_object \<Rightarrow> string \<Rightarrow> json option" where
  "resolve_legacy_json_path body path = walk_legacy (JObj body) (legacy_json_path_segments path)"

definition legacy_scalar_text :: "json \<Rightarrow> string" where
  "legacy_scalar_text v =
     (case v of
        JBool b \<Rightarrow> if b then ''true'' else ''false''
      | JNull \<Rightarrow> ''null''
      | _ \<Rightarrow> py_str v)"

definition legacy_value_matches :: "json_object \<Rightarrow> json \<Rightarrow> bool" where
  "legacy_value_matches m v =
     (case map_of m ''Value'' of
        None \<Rightarrow> True
      | Some (JStr expected) \<Rightarrow> legacy_scalar_text v = expected
      | Some expected \<Rightarrow> py_eq v expected)"

definition evaluate_legacy_match :: "json_object \<Rightarrow> (string, string) dict \<Rightarrow> json_object \<Rightarrow> bool \<times> string" where
  "evaluate_legacy_match m headers body =
     (case jget m ''header-present'' of
        JStr name \<Rightarrow>
          (if py_lower name \<notin> set (keys headers) then (False, ''response header '' @ name @ '' is missing'')
           else (True, ''response header '' @ name @ '' is present''))
      | _ \<Rightarrow> (case jget m ''header'' of
        JStr name \<Rightarrow>
          (case map_of headers (py_lower name) of
             None \<Rightarrow> (False, ''response header '' @ name @ '' is missing'')
           | Some actual \<Rightarrow>
               (case jget m ''value'' of
                  JStr expected \<Rightarrow>
                    if actual \<noteq> expected then (False, ''response header '' @ name @ '' did not match'')
                    else (True, ''response header '' @ name @ '' matched'')
                | _ \<Rightarrow> (True, ''response header '' @ name @ '' matched'')))
      | _ \<Rightarrow> (case jget m ''JSON'' of
        JStr json_path \<Rightarrow>
          (case resolve_legacy_json_path body json_path of
             None \<Rightarrow> (False, json_field json_path @ '' is missing'')
           | Some v \<Rightarrow>
               if \<not> legacy_value_matches m v then (False, json_field json_path @ '' did not match'')
               else (True, json_field json_path @ '' matched''))
      | _ \<Rightarrow> (case jget m ''JSON-NOT-PRESENT'' of
        JStr absent_path \<Rightarrow>
          (if resolve_legacy_json_path body absent_path \<noteq> None
           then (False, json_field absent_path @ '' must be absent'')
           else (True, json_field absent_path @ '' is absent''))
      | _ \<Rightarrow> (False, ''legacy match has no supported selector'')))))"

fun legacy_matches :: "json list \<Rightarrow> (string, string) dict \<Rightarrow> json_object \<Rightarrow> bool \<times> string" where
  "legacy_matches [] headers body = (True, ''expectation passed'')"
| "legacy_matches (raw_match # rest) headers body =
     (case raw_match of
        JObj m \<Rightarrow>
          (let (passed, message) = evaluate_legacy_match m headers body
           in if \<not> passed then (False, message) else legacy_matches rest headers body)
      | _ \<Rightarrow> (False, ''legacy expectation match must be an object''))"

text \<open>A boolean status is an \<open>int\<close>: \<open>True\<close> is 1.\<close>

definition legacy_status_mismatch :: "json \<Rightarrow> int \<Rightarrow> bool" where
  "legacy_status_mismatch expected status_code =
     (case expected of JInt n \<Rightarrow> status_code \<noteq> n | JBool b \<Rightarrow> status_code \<noteq> of_bool b | _ \<Rightarrow> False)"

definition evaluate_legacy_expectation ::
  "json_object \<Rightarrow> int \<Rightarrow> (string, string) dict \<Rightarrow> json_object \<Rightarrow> bool \<times> string" where
  "evaluate_legacy_expectation expectation status_code headers body =
     (let expected_status = jget expectation ''status-code'' in
      if legacy_status_mismatch expected_status status_code
      then (False, ''expected HTTP '' @ py_str expected_status @ '', got '' @ str_int status_code)
      else case map_of expectation ''matches'' of
        None \<Rightarrow> legacy_matches [] headers body
      | Some (JArr matches) \<Rightarrow> legacy_matches matches headers body
      | Some _ \<Rightarrow> (False, ''legacy expectation matches must be an array''))"

definition lower_headers :: "(string \<times> string) list option \<Rightarrow> (string, string) dict" where
  "lower_headers headers =
     fold (\<lambda>(name, v) d. AList.update (py_lower name) v d) (case headers of None \<Rightarrow> [] | Some items \<Rightarrow> items) []"

fun first_failure :: "(json_object \<Rightarrow> bool \<times> string) \<Rightarrow> json_object list \<Rightarrow> string option" where
  "first_failure expects [] = None"
| "first_failure expects (e # es) =
     (let (passed, message) = expects e in if \<not> passed then Some message else first_failure expects es)"

definition legacy_schema_check ::
  "schema_backend \<Rightarrow> LegacyFcsAssertion \<Rightarrow> int \<Rightarrow> json_object \<Rightarrow> assertion_exception + string option" where
  "legacy_schema_check backend a status_code body =
     (case lf_schema_document a of
        None \<Rightarrow> Inr None
      | Some document \<Rightarrow>
          (case map_of (lf_schema_refs a) status_code of
             None \<Rightarrow>
               Inr (if status_code \<noteq> 204
                    then Some (''no response schema is defined for HTTP '' @ str_int status_code) else None)
           | Some schema_ref \<Rightarrow>
               rbind (validate_instance backend ''bundled_openapi'' document (Some schema_ref) None (JObj body))
                 (\<lambda>validation_message. Inr (map_option (\<lambda>m. ''response schema validation failed: '' @ m) validation_message))))"

definition evaluate_legacy_fcs_assertion ::
  "schema_backend \<Rightarrow> LegacyFcsAssertion \<Rightarrow> int \<Rightarrow> (string \<times> string) list option \<Rightarrow> json_object \<Rightarrow>
   assertion_exception + AssertionResult" where
  "evaluate_legacy_fcs_assertion backend a status_code headers body =
     (let expects = (\<lambda>e. evaluate_legacy_expectation e status_code (lower_headers headers) body);
          failed = (\<lambda>message. fail (lf_row_key a @ '': '' @ message))
      in case first_failure expects (lf_all_of a) of
           Some message \<Rightarrow> Inr (failed message)
         | None \<Rightarrow>
             if lf_one_of a \<noteq> [] \<and> \<not> list_ex (\<lambda>e. fst (expects e)) (lf_one_of a)
             then Inr (failed ''no one-of expectation matched'')
             else if length (lf_last_if_all a) > 1 \<and> list_all (\<lambda>e. fst (expects e)) (butlast (lf_last_if_all a))
                  \<and> \<not> fst (expects (last (lf_last_if_all a)))
             then Inr (failed (snd (expects (last (lf_last_if_all a)))))
             else rbind (legacy_schema_check backend a status_code body) (\<lambda>problem.
               case problem of
                 Some message \<Rightarrow> Inr (failed message)
               | None \<Rightarrow> Inr (pass (lf_row_key a @ '': legacy FCS expectations passed''))))"

section \<open>All assertions\<close>

definition evaluate_assertion ::
  "schema_backend \<Rightarrow> ManifestAssertion \<Rightarrow> int \<Rightarrow> (string \<times> string) list option \<Rightarrow> json_object \<Rightarrow>
   assertion_exception + AssertionResult" where
  "evaluate_assertion backend assertion status_code headers body =
     (case assertion of
        AHttpStatus a \<Rightarrow> Inr (evaluate_http_status a status_code)
      | AResponseSchema a \<Rightarrow> evaluate_response_schema backend a body
      | AHeader a \<Rightarrow> Inr (evaluate_header a headers)
      | ALegacyFcs a \<Rightarrow> evaluate_legacy_fcs_assertion backend a status_code headers body
      | AJsonField a \<Rightarrow> evaluate_json_field a body)"

section \<open>Type-aware equality\<close>

text \<open>
  The abstract value of a JSON text: a number is its exact value, whether written as an integer or as a float, an
  object is a finite map, and every kind of value is a constructor of its own.
\<close>

datatype abstract_json =
    ANull
  | ABool bool
  | ANumber rat
  | ANaN
  | AInfinity bool
  | AString string
  | AArray "abstract_json list"
  | AObject "string \<Rightarrow> abstract_json option"

fun abstract_float :: "pyfloat \<Rightarrow> abstract_json" where
  "abstract_float (Finite r _) = ANumber r"
| "abstract_float NaN = ANaN"
| "abstract_float PosInf = AInfinity True"
| "abstract_float NegInf = AInfinity False"

fun abstract :: "json \<Rightarrow> abstract_json" where
  "abstract JNull = ANull"
| "abstract (JBool b) = ABool b"
| "abstract (JInt i) = ANumber (of_int i)"
| "abstract (JFloat f) = abstract_float f"
| "abstract (JStr s) = AString s"
| "abstract (JArr xs) = AArray (map abstract xs)"
| "abstract (JObj kvs) = AObject (map_of (map (\<lambda>(k, v). (k, abstract v)) kvs))"

lemma abstract_obj: "map_of (map (\<lambda>(k, v). (k, abstract v)) kvs) k = map_option abstract (map_of kvs k)"
  by (induction kvs) auto

lemma abstract_obj_eq:
  assumes "dict_wf kvs"
  shows "map_of (map (\<lambda>(k, v). (k, abstract v)) kvs) = map_of (map (\<lambda>(k, v). (k, abstract v)) lws) \<longleftrightarrow>
    set (keys kvs) = set (keys lws) \<and> (\<forall>(k, v) \<in> set kvs. \<exists>w. map_of lws k = Some w \<and> abstract v = abstract w)"
  (is "?L \<longleftrightarrow> ?K \<and> ?V")
proof
  assume L: ?L
  have eq: "map_option abstract (map_of kvs k) = map_option abstract (map_of lws k)" for k
    using fun_cong [OF L, of k] by (simp only: abstract_obj)
  have "dom (map_of kvs) = dom (map_of lws)" using eq by (metis (no_types, opaque_lifting) domIff option.map_disc_iff subset_antisym subsetI)
  then have ?K by (simp add: dom_map_of_conv_image_fst)
  moreover have ?V using eq assms by (auto simp: map_option_eq_Some dest!: map_of_is_SomeI) (metis map_option_eq_Some)
  ultimately show "?K \<and> ?V" ..
next
  assume R: "?K \<and> ?V"
  have "map_option abstract (map_of kvs k) = map_option abstract (map_of lws k)" for k
  proof (cases "map_of kvs k")
    case None
    then have "map_of lws k = None" using R by (simp add: map_of_eq_None_iff)
    then show ?thesis using None by simp
  next
    case (Some v)
    then show ?thesis using R map_of_SomeD [OF Some] by fastforce
  qed
  then show ?L by (intro ext) (simp only: abstract_obj)
qed

lemma py_eq_scalars:
  "\<not> is_bool l \<Longrightarrow> \<not> is_bool r \<Longrightarrow> l \<noteq> JFloat NaN \<Longrightarrow> r \<noteq> JFloat NaN \<Longrightarrow>
   \<not> (is_array l \<and> is_array r) \<Longrightarrow> \<not> (is_object l \<and> is_object r) \<Longrightarrow> py_eq l r \<longleftrightarrow> abstract l = abstract r"
proof -
  have num: "num_eq f g \<longleftrightarrow> abstract_float f = abstract_float g" if "f \<noteq> NaN" "g \<noteq> NaN" for f g
    using that by (cases f; cases g) auto
  have distinct: "abstract_float f \<notin> {ANull, ABool b, AString s, AArray xs, AObject m}" for f b s xs m by (cases f) auto
  show "\<not> is_bool l \<Longrightarrow> \<not> is_bool r \<Longrightarrow> l \<noteq> JFloat NaN \<Longrightarrow> r \<noteq> JFloat NaN \<Longrightarrow>
   \<not> (is_array l \<and> is_array r) \<Longrightarrow> \<not> (is_object l \<and> is_object r) \<Longrightarrow> py_eq l r \<longleftrightarrow> abstract l = abstract r"
    using num [of "Finite a b" for a b] num distinct
    by (cases l; cases r) (simp_all, (metis insertCI)+)
qed

lemma abstract_float_kinds:
  "abstract_float f \<noteq> ANull" "abstract_float f \<noteq> ABool b" "abstract_float f \<noteq> AString s"
  "abstract_float f \<noteq> AArray xs" "abstract_float f \<noteq> AObject m" "abstract_float f = ANaN \<longleftrightarrow> f = NaN"
  by (cases f; simp)+

lemma abstract_bool: "abstract l = ABool b \<longleftrightarrow> l = JBool b"
  by (cases l) (auto simp: abstract_float_kinds)

lemma abstract_nan: "abstract l = ANaN \<longleftrightarrow> l = JFloat NaN"
  by (cases l) (auto simp: abstract_float_kinds)

lemma list_all2_abstract:
  assumes "\<And>x y. x \<in> set xs \<Longrightarrow> json_values_equal x y \<longleftrightarrow> abstract x = abstract y"
  shows "length xs = length ys \<and> list_all (\<lambda>(x, y). json_values_equal x y) (zip xs ys) \<longleftrightarrow> map abstract xs = map abstract ys"
  using assms
proof (induction xs ys rule: list_induct2')
  case (4 x xs y ys)
  have "length xs = length ys \<and> list_all (\<lambda>(x, y). json_values_equal x y) (zip xs ys) \<longleftrightarrow> map abstract xs = map abstract ys"
    by (rule "4.IH") (use "4.prems" in auto)
  then show ?case using "4.prems" [of x y] by auto
qed auto

lemma json_values_equal_abstract:
  "wf_json l \<Longrightarrow> json_values_equal l r \<longleftrightarrow> abstract l = abstract r"
proof (induction l arbitrary: r)
  case (JArr xs)
  have IH: "json_values_equal x y \<longleftrightarrow> abstract x = abstract y" if "x \<in> set xs" for x y
    using JArr.IH [OF that] JArr.prems that by simp
  show ?case
  proof (cases "is_array r")
    case True
    then obtain ys where r: "r = JArr ys" by (cases r) auto
    show ?thesis using list_all2_abstract [of xs ys, OF IH] by (simp add: json_values_equal.simps [of "JArr xs"] r)
  next
    case False
    then show ?thesis using py_eq_scalars [of "JArr xs" r] abstract_bool [of r] abstract_nan [of r]
      by (cases r) (auto simp: json_values_equal.simps [of "JArr xs"] abstract_float_kinds)
  qed
next
  case (JObj kvs)
  have IH: "json_values_equal v w \<longleftrightarrow> abstract v = abstract w" if "(k, v) \<in> set kvs" for k v w
    using JObj.IH [OF that] JObj.prems that by auto
  show ?case
  proof (cases "is_object r")
    case True
    then obtain lws where r: "r = JObj lws" by (cases r) auto
    have "list_all (\<lambda>(k, v). case map_of lws k of None \<Rightarrow> False | Some w \<Rightarrow> json_values_equal v w) kvs \<longleftrightarrow>
      (\<forall>(k, v) \<in> set kvs. \<exists>w. map_of lws k = Some w \<and> abstract v = abstract w)"
      unfolding list_all_iff by (intro ball_cong refl) (auto simp: IH split: option.splits)
    then show ?thesis using abstract_obj_eq [of kvs lws] JObj.prems
      by (simp add: json_values_equal.simps [of "JObj kvs"] r)
  next
    case False
    then show ?thesis using py_eq_scalars [of "JObj kvs" r] abstract_bool [of r] abstract_nan [of r]
      by (cases r) (auto simp: json_values_equal.simps [of "JObj kvs"] abstract_float_kinds)
  qed
next
  case (JBool b)
  then show ?case using abstract_bool [of r b] by (cases r) (auto simp: json_values_equal.simps [of "JBool b"])
next
  case (JFloat f)
  then show ?case using py_eq_scalars [of "JFloat f" r] abstract_nan [of r]
    by (cases "f = NaN"; cases r)
       (auto simp: json_values_equal.simps [of "JFloat f"] json_values_equal.simps [of "JFloat NaN"] abstract_float_kinds
         eq_commute [of ANaN])
next
  case JNull
  then show ?case using py_eq_scalars [of JNull r]
    by (cases r) (auto simp: json_values_equal.simps [of JNull] abstract_float_kinds)
next
  case (JInt i)
  then show ?case using py_eq_scalars [of "JInt i" r] abstract_nan [of r]
    by (cases r) (auto simp: json_values_equal.simps [of "JInt i"])
next
  case (JStr s)
  then show ?case using py_eq_scalars [of "JStr s" r]
    by (cases r) (auto simp: json_values_equal.simps [of "JStr s"] abstract_float_kinds)
qed

section \<open>Legacy path segments\<close>

lemma join_glue: "join sep (xs @ [a, b]) = join sep (xs @ [a @ sep @ b])"
proof (induction xs)
  case (Cons x xs)
  then show ?case by (cases xs) auto
qed simp

lemma split_legacy_join: "join ''.'' (split_legacy segs cur d q path) = join ''.'' (segs @ [cur @ path])"
proof (induction path arbitrary: segs cur d q)
  case (Cons c path)
  show ?case using Cons.IH by (simp add: Let_def join_glue)
qed simp

lemma split_legacy_plain:
  "set path \<inter> {CHR 34, CHR ''['', CHR '']''} = {} \<Longrightarrow>
   split_legacy segs cur 0 False path = segs @ (case split_on CHR ''.'' path of w # ws \<Rightarrow> (cur @ w) # ws | [] \<Rightarrow> [])"
proof (induction path arbitrary: segs cur)
  case (Cons c path)
  then show ?case by (auto simp: Let_def split: list.splits)
qed simp

lemma walk_json_path_wf: "walk_json_path v parts = Inr (Some w) \<Longrightarrow> wf_json v \<Longrightarrow> wf_json w"
proof (induction v parts rule: walk_json_path.induct)
  case (2 v part parts)
  show ?case
  proof (cases v)
    case (JObj obj)
    then show ?thesis using 2 by (auto split: option.splits dest: wf_json_member simp del: wf_json.simps)
  next
    case (JArr items)
    then show ?thesis using 2 by (auto split: option.splits if_splits)
  qed (use "2.prems" in auto)
qed simp

section \<open>Properties\<close>

text \<open>C40: The equals and one_of rules of a JSON field assertion compare abstract JSON values: the assertion
  passes exactly if the value at the path and the expected value (one of the candidates) denote the same JSON value,
  where a number is its exact value however it is written, an object is a finite map whatever the order of its members,
  and a boolean is never a number, as it is for Python's own equality.\<close>

theorem equality_rules_compare_json_values:
  assumes "wf_json (JObj body)" and "resolve_json_path body (jf_path a) = Inr (Some v)"
  shows "(jf_rule a = RuleEquals \<longrightarrow>
            (\<exists>r. evaluate_json_field a body = Inr r \<and> (ar_passed r \<longleftrightarrow> abstract v = abstract (jf_value a))))
       \<and> (jf_rule a = RuleOneOf \<and> jf_values a = Some cs \<longrightarrow>
            (\<exists>r. evaluate_json_field a body = Inr r \<and> (ar_passed r \<longleftrightarrow> abstract v \<in> abstract ` set cs)))"
proof -
  have "wf_json v" using assms walk_json_path_wf unfolding resolve_json_path_def by blast
  then have "json_values_equal v w \<longleftrightarrow> abstract v = abstract w" for w by (rule json_values_equal_abstract)
  then show ?thesis using assms(2)
    by (auto simp: evaluate_json_field_def evaluate_json_equals_def evaluate_json_one_of_def list_ex_iff Let_def)
qed

definition sample_field_assertion :: JsonFieldAssertion where
  "sample_field_assertion =
     \<lparr>jf_path = ''Data.0.Amount'', jf_rule = RuleEquals, jf_value = JInt 1, jf_values = None, jf_min_items = None,
      jf_field = None, jf_fields = []\<rparr>"

lemma sample_path:
  "resolve_json_path [(''Data'', JArr [JObj [(''Amount'', JFloat (Finite 1 ''1.0''))]])] (jf_path sample_field_assertion)
   = Inr (Some (JFloat (Finite 1 ''1.0'')))"
  by code_simp

theorem equality_rules_compare_json_values_witness:
  "\<exists>r. evaluate_json_field sample_field_assertion [(''Data'', JArr [JObj [(''Amount'', JFloat (Finite 1 ''1.0''))]])] = Inr r
     \<and> ar_passed r"
proof -
  have "jf_rule sample_field_assertion = RuleEquals" by (simp add: sample_field_assertion_def)
  then show ?thesis using equality_rules_compare_json_values [OF _ sample_path, of "[]"]
    by (auto simp: sample_field_assertion_def)
qed

text \<open>The segments of a legacy path lose nothing: joined with dots they are the path again, whatever brackets and
  quotes it holds, balanced or not; and where it holds none of them they are the parts between the dots.\<close>

lemma legacy_segments_roundtrip:
  "join ''.'' (legacy_json_path_segments path) = path
   \<and> (set path \<inter> {CHR 34, CHR ''['', CHR '']''} = {} \<longrightarrow> legacy_json_path_segments path = split_on CHR ''.'' path)"
proof -
  have "legacy_json_path_segments path = split_on CHR ''.'' path" if plain: "set path \<inter> {CHR 34, CHR ''['', CHR '']''} = {}"
    using split_legacy_plain [OF plain, of "[]" "[]"] split_on_ne [of "CHR ''.''" path]
    by (cases "split_on CHR ''.'' path") (simp_all add: legacy_json_path_segments_def)
  then show ?thesis using split_legacy_join [of "[]" "[]" 0 False path] by (simp add: legacy_json_path_segments_def)
qed

theorem legacy_segments_roundtrip_witness:
  "join ''.'' (legacy_json_path_segments ''Data.Account'') = ''Data.Account''
   \<and> legacy_json_path_segments ''Data.Account'' = [''Data'', ''Account'']"
  using legacy_segments_roundtrip [of "''Data.Account''"] by simp

end
