(* ===== verification/Masking.thy ===== *)
theory Masking
  imports Json
begin

text \<open>
  Sensitive-data masking (\<open>conformance/masking.py\<close>): the recursive masking of JSON values, and
  the masking of header and form-field maps. \<open>public_eq\<close> is the specification: two values are
  publicly equal when they differ only below keys whose name is sensitive.
\<close>

definition MASKED_VALUE :: string where
  "MASKED_VALUE = ''***''"

definition SENSITIVE_JSON_KEYS :: "string list" where
  "SENSITIVE_JSON_KEYS =
    [''access_token'', ''refresh_token'', ''id_token'', ''client_secret'', ''code'',
     ''client_assertion'', ''assertion'', ''authorization'', ''request'', ''request_object'',
     ''software_statement'', ''softwarestatementassertion'', ''signedregistrationjose'',
     ''registration_access_token'', ''registrationaccesstoken'',
     ''clientcredentialsaccesstoken'', ''clientassertions'', ''tokenresponse'',
     ''password'', ''private_key'', ''privatekeys'']"

definition SENSITIVE_HEADER_NAMES :: "string list" where
  "SENSITIVE_HEADER_NAMES =
    [''authorization'', ''proxy-authorization'', ''cookie'', ''set-cookie'', ''x-api-key'',
     ''x-fapi-customer-ip-address'', ''x-fapi-financial-id'', ''x-jws-signature'']"

abbreviation sensitive_key :: "string \<Rightarrow> bool" where
  "sensitive_key k \<equiv> py_lower k \<in> set SENSITIVE_JSON_KEYS"

lemma size_member_strict:
  "(k, v) \<in> set kvs \<Longrightarrow> size v < size_list (size_prod (\<lambda>_. 0) size) kvs"
  by (induction kvs) auto

lemma size_element_strict: "x \<in> set xs \<Longrightarrow> size x < Suc (size_list size xs)"
  by (induction xs) auto

function (sequential) mask_json_value :: "json \<Rightarrow> json"
  and mask_object :: "json_object \<Rightarrow> json_object" where
  "mask_json_value (JObj obj) = JObj (mask_object obj)"
| "mask_json_value (JArr items) = JArr (map mask_json_value items)"
| "mask_json_value v = v"
| "mask_object obj =
     map (\<lambda>(key, v). (key, if py_lower key \<in> set SENSITIVE_JSON_KEYS then JStr MASKED_VALUE
                           else mask_json_value v)) obj"
  by pat_completeness auto
termination
  by (relation "measure (\<lambda>x. case x of Inl v \<Rightarrow> size v
                           | Inr kvs \<Rightarrow> size_list (size_prod (\<lambda>_. 0) size) kvs)")
     (auto simp: size_element_strict size_member_strict)

definition mask_headers :: "(string, string) dict \<Rightarrow> (string, string) dict" where
  "mask_headers hs =
     map (\<lambda>(name, v). (name, if py_lower name \<in> set SENSITIVE_HEADER_NAMES then MASKED_VALUE else v)) hs"

definition mask_form_fields :: "(string, string) dict \<Rightarrow> (string, string) dict" where
  "mask_form_fields fs =
     map (\<lambda>(name, v). (name, if py_lower name \<in> set SENSITIVE_JSON_KEYS then MASKED_VALUE else v)) fs"

section \<open>Specification\<close>

fun all_masked :: "json \<Rightarrow> bool" where
  "all_masked (JArr xs) = (\<forall>x \<in> set xs. all_masked x)"
| "all_masked (JObj kvs) =
     (\<forall>(k, v) \<in> set kvs. if sensitive_key k then v = JStr MASKED_VALUE else all_masked v)"
| "all_masked _ = True"

lemma size_zip_members [termination_simp]:
  "((k, v), q) \<in> set (zip kvs ys) \<Longrightarrow> size v < Suc (size_list (\<lambda>x. Suc (size (snd x))) kvs)"
proof (induction kvs ys rule: list_induct2')
  case (4 x xs y ys)
  then show ?case by auto
qed auto

fun public_eq :: "json \<Rightarrow> json \<Rightarrow> bool" where
  "public_eq (JArr xs) (JArr ys) =
     (length xs = length ys \<and> (\<forall>(x, y) \<in> set (zip xs ys). public_eq x y))"
| "public_eq (JObj kvs) (JObj lws) =
     (length kvs = length lws \<and>
      (\<forall>((k, v), (l, w)) \<in> set (zip kvs lws). k = l \<and> (sensitive_key k \<or> public_eq v w)))"
| "public_eq a b = (a = b)"

section \<open>Lemmas\<close>

lemma mask_keys: "keys (mask_object obj) = keys obj"
  by (induction obj) auto

lemma mask_all_masked: "all_masked (mask_json_value v)"
  by (induction v rule: json_induct) auto

lemma mask_fixed: "all_masked v \<Longrightarrow> mask_json_value v = v"
proof (induction v rule: json_induct)
  case (JArr xs)
  then show ?case by (auto intro!: map_idI)
next
  case (JObj kvs)
  have "map (\<lambda>(k, v). (k, if sensitive_key k then JStr MASKED_VALUE else mask_json_value v)) kvs
        = kvs"
    using JObj by (fastforce intro!: map_idI split: if_splits)
  then show ?case by simp
qed auto

lemma mask_wf: "wf_json v \<Longrightarrow> wf_json (mask_json_value v)"
proof (induction v rule: json_induct)
  case (JObj kvs)
  then show ?case using mask_keys [of kvs] by (auto simp del: mask_object.simps) auto
qed auto

lemma map_eq_zip:
  "map f xs = map g ys \<longleftrightarrow> length xs = length ys \<and> (\<forall>(x, y) \<in> set (zip xs ys). f x = g y)"
proof (induction xs ys rule: list_induct2')
  case (4 x xs y ys)
  then show ?case by auto
qed auto

lemma mask_scalar_iff:
  "mask_json_value b = JNull \<longleftrightarrow> b = JNull"
  "mask_json_value b = JBool x \<longleftrightarrow> b = JBool x"
  "mask_json_value b = JInt i \<longleftrightarrow> b = JInt i"
  "mask_json_value b = JFloat f \<longleftrightarrow> b = JFloat f"
  "mask_json_value b = JStr s \<longleftrightarrow> b = JStr s"
  by (cases b; simp)+

lemmas mask_scalar_iffs = mask_scalar_iff mask_scalar_iff [THEN eq_iff_swap]

lemma mask_eq_iff: "mask_json_value v = mask_json_value w \<longleftrightarrow> public_eq v w"
proof (induction v w rule: public_eq.induct)
  case (1 xs ys)
  then show ?case by (fastforce simp: map_eq_zip)
next
  case (2 kvs lws)
  have "(case (p, q) of ((k, v), (l, w)) \<Rightarrow>
          (k, if sensitive_key k then JStr MASKED_VALUE else mask_json_value v) =
          (l, if sensitive_key l then JStr MASKED_VALUE else mask_json_value w)) \<longleftrightarrow>
        (case (p, q) of ((k, v), (l, w)) \<Rightarrow> k = l \<and> (sensitive_key k \<or> public_eq v w))"
    if "(p, q) \<in> set (zip kvs lws)" for p q
    using 2 [OF that] by (auto split: prod.splits)
  then show ?case by (fastforce simp: map_eq_zip)
qed (auto simp: mask_scalar_iffs)

section \<open>Properties\<close>

text \<open>C12: Masking hides exactly the values under sensitive keys: two JSON values mask to the same value if
  and only if they agree everywhere outside the members whose key is sensitive. So a masked value
  carries no information about a secret, and loses nothing else.\<close>

theorem masking_hides_exactly_secrets: "mask_json_value v = mask_json_value w \<longleftrightarrow> public_eq v w"
  by (rule mask_eq_iff)

text \<open>Masking is idempotent, keeps every key in order, and keeps the decoded document well formed (no object
  repeats a key), so a masked value can be logged, re-read and masked again.\<close>

lemma masking_idempotent_and_shape_preserving:
  "mask_json_value (mask_json_value v) = mask_json_value v \<and>
   keys (mask_object obj) = keys obj \<and> (wf_json v \<longrightarrow> wf_json (mask_json_value v))"
  using mask_fixed [OF mask_all_masked, of v] mask_keys mask_wf by blast

lemma masking_idempotent_and_shape_preserving_witness:
  "mask_json_value (mask_json_value (JObj [(''code'', JStr ''s3cret'')])) = JObj [(''code'', JStr ''***'')] \<and>
   wf_json (mask_json_value (JObj [(''code'', JStr ''s3cret'')]))"
  using masking_idempotent_and_shape_preserving [of "JObj [(''code'', JStr ''s3cret'')]" "[]"]
  by (simp add: py_lower_def lower_char_def code_of_def SENSITIVE_JSON_KEYS_def MASKED_VALUE_def)

end
