(* ===== verification/Url_Query.thy ===== *)
theory Url_Query
  imports Py_Url Masking Placeholder_Context
begin

text \<open>
  Query strings: what the suite uses of \<open>urllib.parse\<close> (\<open>parse_qsl\<close>, \<open>urlencode\<close>, \<open>urlunsplit\<close>), the URL masking of
  \<open>masking.py\<close> and the helpers of \<open>psu_authorization.py\<close>. Percent-decoding goes through UTF-8 with replacement of
  invalid sequences, as in CPython; a decoded code point outside the alphabet of the model (Latin-1) is shown as \<open>?\<close>.
\<close>

section \<open>Percent-encoding\<close>

definition utf8_bytes :: "char \<Rightarrow> nat list" where
  "utf8_bytes c = (let n = code_of c in if n < 128 then [n] else [192 + n div 64, 128 + n mod 64])"

definition continuation :: "nat \<Rightarrow> bool" where
  "continuation b = (128 \<le> b \<and> b \<le> 191)"

text \<open>The second byte of a three- or four-byte sequence has a narrower range after some first bytes.\<close>

definition second_byte_ok :: "nat \<Rightarrow> nat \<Rightarrow> bool" where
  "second_byte_ok b c =
     ((if b = 224 then 160 else if b = 240 then 144 else 128) \<le> c \<and>
      c \<le> (if b = 237 then 159 else if b = 244 then 143 else 191))"

definition replacement :: nat where
  "replacement = 65533"

fun utf8_decode :: "nat list \<Rightarrow> nat list" where
  "utf8_decode [] = []"
| "utf8_decode (b # bs) =
     (if b < 128 then b # utf8_decode bs
      else if 194 \<le> b \<and> b \<le> 223 then
        (case bs of
           c # cs \<Rightarrow> if continuation c then ((b - 192) * 64 + (c - 128)) # utf8_decode cs else replacement # utf8_decode bs
         | [] \<Rightarrow> [replacement])
      else if 224 \<le> b \<and> b \<le> 239 then
        (case bs of
           c # cs \<Rightarrow>
             if second_byte_ok b c then
               (case cs of
                  d # ds \<Rightarrow>
                    if continuation d then ((b - 224) * 4096 + (c - 128) * 64 + (d - 128)) # utf8_decode ds
                    else replacement # utf8_decode cs
                | [] \<Rightarrow> [replacement])
             else replacement # utf8_decode bs
         | [] \<Rightarrow> [replacement])
      else if 240 \<le> b \<and> b \<le> 244 then
        (case bs of
           c # cs \<Rightarrow>
             if second_byte_ok b c then
               (case cs of
                  d # ds \<Rightarrow>
                    if continuation d then
                      (case ds of
                         e # es \<Rightarrow>
                           if continuation e
                           then ((b - 240) * 262144 + (c - 128) * 4096 + (d - 128) * 64 + (e - 128)) # utf8_decode es
                           else replacement # utf8_decode ds
                       | [] \<Rightarrow> [replacement])
                    else replacement # utf8_decode cs
                | [] \<Rightarrow> [replacement])
             else replacement # utf8_decode bs
         | [] \<Rightarrow> [replacement])
      else replacement # utf8_decode bs)"

definition to_char :: "nat \<Rightarrow> char" where
  "to_char n = (if n < 256 then char_of n else CHR ''?'')"

definition hex_value :: "char \<Rightarrow> nat" where
  "hex_value c =
     (let n = code_of c in if n \<le> 57 then n - 48 else if n \<le> 70 then n - 55 else n - 87)"

fun unquote_to_bytes :: "string \<Rightarrow> nat list" where
  "unquote_to_bytes (c # h # l # cs) =
     (if c = CHR ''%'' \<and> is_hex_char h \<and> is_hex_char l
      then (16 * hex_value h + hex_value l) # unquote_to_bytes cs
      else code_of c # unquote_to_bytes (h # l # cs))"
| "unquote_to_bytes (c # cs) = code_of c # unquote_to_bytes cs"
| "unquote_to_bytes [] = []"

definition decode_ascii_run :: "string \<Rightarrow> string" where
  "decode_ascii_run s = map to_char (utf8_decode (unquote_to_bytes s))"

function unquote_runs :: "string \<Rightarrow> string" where
  "unquote_runs s =
     (if s = [] then []
      else let rest = dropWhile is_ascii s
           in decode_ascii_run (takeWhile is_ascii s) @ takeWhile (\<lambda>c. \<not> is_ascii c) rest
              @ unquote_runs (dropWhile (\<lambda>c. \<not> is_ascii c) rest))"
  by pat_completeness auto
termination
proof (relation "measure length")
  fix s :: string and rest
  assume s: "s \<noteq> []" and rest: "rest = dropWhile is_ascii s"
  have "length (dropWhile (\<lambda>c. \<not> is_ascii c) rest) \<le> length rest" "length rest \<le> length s"
    using rest by (simp_all add: length_dropWhile_le)
  moreover have "length (dropWhile (\<lambda>c. \<not> is_ascii c) rest) < length s"
  proof (cases "is_ascii (hd s)")
    case True
    then have "length rest < length s"
      using s rest by (cases s) (auto intro: le_less_trans [OF length_dropWhile_le])
    then show ?thesis using length_dropWhile_le [of "\<lambda>c. \<not> is_ascii c" rest] by linarith
  next
    case False
    then show ?thesis using s rest by (cases s) (auto intro: le_less_trans [OF length_dropWhile_le])
  qed
  ultimately show "(dropWhile (\<lambda>c. \<not> is_ascii c) rest, s) \<in> measure length" by simp
qed simp

declare unquote_runs.simps [simp del]

definition unquote :: "string \<Rightarrow> string" where
  "unquote s = (if CHR ''%'' \<notin> set s then s else unquote_runs s)"

definition unquote_plus :: "string \<Rightarrow> string" where
  "unquote_plus s = unquote (map (\<lambda>c. if c = CHR ''+'' then CHR '' '' else c) s)"

text \<open>With \<open>keep_blank_values=True\<close>.\<close>

definition parse_qsl :: "string \<Rightarrow> (string \<times> string) list" where
  "parse_qsl qs =
     map (\<lambda>name_value. case partition_at CHR ''='' name_value of (name, _, v) \<Rightarrow> (unquote_plus name, unquote_plus v))
       (filter (\<lambda>nv. nv \<noteq> []) (split_on CHR ''&'' qs))"

definition always_safe :: "char \<Rightarrow> bool" where
  "always_safe c = (is_ascii_alpha c \<or> is_digit_char c \<or> c \<in> set ''_.-~'')"

definition hex_upper :: "nat \<Rightarrow> char" where
  "hex_upper n = (if n < 10 then char_of (48 + n) else char_of (55 + n))"

definition percent_byte :: "nat \<Rightarrow> string" where
  "percent_byte b = [CHR ''%'', hex_upper (b div 16), hex_upper (b mod 16)]"

definition quote_plus_char :: "string \<Rightarrow> char \<Rightarrow> string" where
  "quote_plus_char safe c =
     (if c = CHR '' '' then ''+''
      else if always_safe c \<or> is_ascii c \<and> c \<in> set safe then [c]
      else concat (map percent_byte (utf8_bytes c)))"

definition quote_plus :: "string \<Rightarrow> string \<Rightarrow> string" where
  "quote_plus safe s = concat (map (quote_plus_char safe) s)"

definition urlencode :: "string \<Rightarrow> (string \<times> string) list \<Rightarrow> string" where
  "urlencode safe items = join ''&'' (map (\<lambda>(name, v). quote_plus safe name @ ''='' @ quote_plus safe v) items)"

definition uses_netloc :: "string list" where
  "uses_netloc =
     ['''', ''ftp'', ''http'', ''gopher'', ''nntp'', ''telnet'', ''imap'', ''wais'', ''file'', ''mms'', ''https'', ''shttp'', ''snews'',
      ''prospero'', ''rtsp'', ''rtsps'', ''rtspu'', ''rsync'', ''svn'', ''svn+ssh'', ''sftp'', ''nfs'', ''git'', ''git+ssh'', ''ws'',
      ''wss'', ''itms-services'']"

definition urlunsplit :: "string \<Rightarrow> string \<Rightarrow> string \<Rightarrow> string \<Rightarrow> string \<Rightarrow> string" where
  "urlunsplit scheme netloc url query fragment =
     (let with_netloc =
            (if netloc \<noteq> [] then ''//'' @ netloc @ (if url \<noteq> [] \<and> hd url \<noteq> CHR ''/'' then ''/'' @ url else url)
             else if starts_with ''//'' url then ''//'' @ url
             else if scheme \<noteq> [] \<and> scheme \<in> set uses_netloc \<and> (url = [] \<or> hd url = CHR ''/'') then ''//'' @ url
             else url)
      in (if scheme \<noteq> [] then scheme @ '':'' else []) @ with_netloc
         @ (if query \<noteq> [] then ''?'' @ query else []) @ (if fragment \<noteq> [] then ''#'' @ fragment else []))"

section \<open>Masking the query of a URL\<close>

definition mask_query_item :: "string list \<Rightarrow> string \<times> string \<Rightarrow> string \<times> string" where
  "mask_query_item sensitive_names item =
     (if py_lower (fst item) \<in> set sensitive_names then (fst item, MASKED_VALUE) else item)"

definition mask_url_query :: "string \<Rightarrow> string list \<Rightarrow> value_error + string" where
  "mask_url_query url sensitive_params =
     rbind (urlsplit url) (\<lambda>(scheme, netloc, path, query, fragment).
       if query = [] then Inr url
       else let sensitive_names = map py_lower sensitive_params; query_items = parse_qsl query
            in if \<not> list_ex (\<lambda>item. py_lower (fst item) \<in> set sensitive_names) query_items then Inr url
               else Inr (urlunsplit scheme netloc path
                           (urlencode ''*'' (map (mask_query_item sensitive_names) query_items)) fragment))"

section \<open>The authorisation request and its redirect\<close>

definition reserved_query_keys :: "string list" where
  "reserved_query_keys =
     [''client_id'', ''redirect_uri'', ''response_type'', ''scope'', ''state'', ''nonce'', ''request'']"

definition oauth_items ::
  "string \<Rightarrow> string \<Rightarrow> string \<Rightarrow> string \<Rightarrow> string \<Rightarrow> string \<Rightarrow> string option \<Rightarrow> (string \<times> string) list" where
  "oauth_items client_id redirect_uri response_type scope state nonce request_object =
     [(''client_id'', client_id), (''redirect_uri'', redirect_uri), (''response_type'', response_type), (''scope'', scope),
      (''state'', state)]
     @ (case request_object of Some jwt \<Rightarrow> [(''request'', jwt)] | None \<Rightarrow> [(''nonce'', nonce)])"

definition build_authorization_url ::
  "string \<Rightarrow> string \<Rightarrow> string \<Rightarrow> string \<Rightarrow> string \<Rightarrow> string \<Rightarrow> string \<Rightarrow> string option \<Rightarrow> value_error + string" where
  "build_authorization_url endpoint client_id redirect_uri response_type scope state nonce request_object =
     rbind (urlsplit endpoint) (\<lambda>(scheme, netloc, path, query, fragment).
       let kept = filter (\<lambda>(name, _). py_lower name \<notin> set reserved_query_keys) (parse_qsl query)
       in Inr (urlunsplit scheme netloc path
                 (urlencode '''' (kept @ oauth_items client_id redirect_uri response_type scope state nonce request_object))
                 fragment))"

definition synthesize_psu_response :: "string \<Rightarrow> string \<Rightarrow> ResponseRecord" where
  "synthesize_psu_response code state = response_record 200 [(''code'', JStr code), (''state'', JStr state)] None"

definition effective_port :: "string \<Rightarrow> nat option \<Rightarrow> nat option" where
  "effective_port scheme parsed_port =
     (case parsed_port of
        Some p \<Rightarrow> Some p
      | None \<Rightarrow> if scheme = ''https'' then Some 443 else if scheme = ''http'' then Some 80 else None)"

text \<open>
  The conjunction is evaluated left to right: the ports are read (and may raise) only when scheme and host agree. The
  properties of a split URL are those of the model's \<open>ParseResult\<close> with no path parameters.
\<close>

definition split_result :: "string \<times> string \<times> string \<times> string \<times> string \<Rightarrow> ParseResult" where
  "split_result parts =
     (case parts of (scheme, netloc, path, query, fragment) \<Rightarrow>
        \<lparr>pr_scheme = scheme, pr_netloc = netloc, pr_path = path, pr_params = [], pr_query = query, pr_fragment = fragment\<rparr>)"

definition redirect_matches_registered_uri :: "string \<Rightarrow> string \<Rightarrow> value_error + bool" where
  "redirect_matches_registered_uri location redirect_uri =
     rbind (urlsplit location) (\<lambda>lparts.
     rbind (urlsplit redirect_uri) (\<lambda>rparts.
       let l = split_result lparts; r = split_result rparts
       in if pr_scheme l \<noteq> pr_scheme r \<or> url_hostname l \<noteq> url_hostname r then Inr False
          else rbind (url_port l) (\<lambda>lport. rbind (url_port r) (\<lambda>rport.
            Inr (effective_port (pr_scheme l) lport = effective_port (pr_scheme r) rport \<and> pr_path l = pr_path r)))))"

text \<open>\<open>dict\<close> of the pairs: the last value of a name, at the position of its first occurrence.\<close>

definition extract_redirect_parameters :: "string \<Rightarrow> value_error + (string, string) dict" where
  "extract_redirect_parameters location =
     rbind (urlsplit location) (\<lambda>parts.
       Inr (foldl (\<lambda>d (name, v). AList.update name v d) [] (parse_qsl (pr_query (split_result parts)))))"

section \<open>Encoding and decoding\<close>

lemma to_char_code [simp]: "to_char (code_of c) = c"
  by (simp add: to_char_def code_of_less) (simp add: code_of_def)

lemma hex_upper_facts:
  assumes "n < 16"
  shows "is_hex_char (hex_upper n)" "hex_value (hex_upper n) = n" "is_ascii (hex_upper n)" "hex_upper n \<notin> set ''+&=''"
proof -
  have code: "code_of (hex_upper n) = (if n < 10 then 48 + n else 55 + n)"
    using assms by (simp add: hex_upper_def code_of_char_of)
  show "is_hex_char (hex_upper n)" "hex_value (hex_upper n) = n" "is_ascii (hex_upper n)"
    using assms by (auto simp: is_hex_char_def hex_value_def is_ascii_def is_digit_char_def code Let_def)
  have "hex_upper n \<noteq> c" if "code_of c < 48 \<or> code_of c = 61" for c
    using code that assms by (cases "n < 10") auto
  then show "hex_upper n \<notin> set ''+&=''" by (simp add: code_of_def)
qed

lemma unquote_plain: "c \<noteq> CHR ''%'' \<Longrightarrow> unquote_to_bytes (c # cs) = code_of c # unquote_to_bytes cs"
  by (cases "c # cs" rule: unquote_to_bytes.cases) auto

lemma unquote_percent: "b < 256 \<Longrightarrow> unquote_to_bytes (percent_byte b @ cs) = b # unquote_to_bytes cs"
  by (simp add: percent_byte_def hex_upper_facts)

lemma utf8_bytes_lt: "b \<in> set (utf8_bytes c) \<Longrightarrow> b < 256"
  using code_of_less [of c] by (auto simp: utf8_bytes_def Let_def split: if_splits)

lemma unquote_percents:
  "(\<forall>b \<in> set bs. b < 256) \<Longrightarrow> unquote_to_bytes (concat (map percent_byte bs) @ cs) = bs @ unquote_to_bytes cs"
  by (induction bs) (auto simp: unquote_percent)

text \<open>The characters an encoder may leave alone without confusing the decoder.\<close>

definition plain_safe :: "string \<Rightarrow> bool" where
  "plain_safe safe = (set safe \<inter> set ''%+&='' = {})"

definition plus_to_space :: "char \<Rightarrow> char" where
  "plus_to_space c = (if c = CHR ''+'' then CHR '' '' else c)"

lemma always_safe_plain: "always_safe c \<Longrightarrow> c \<notin> set ''%+&='' \<and> is_ascii c"
  by (auto simp: always_safe_def is_ascii_alpha_def is_digit_char_def is_ascii_def code_of_def Let_def)

lemma quote_char_bytes:
  assumes "plain_safe safe"
  shows "unquote_to_bytes (map plus_to_space (quote_plus_char safe c) @ cs) = utf8_bytes c @ unquote_to_bytes cs"
proof -
  have hex: "map plus_to_space (percent_byte b) = percent_byte b" if "b < 256" for b
    using that hex_upper_facts(4) [of "b div 16"] hex_upper_facts(4) [of "b mod 16"]
    by (auto simp: percent_byte_def plus_to_space_def)
  then have hexes: "map plus_to_space (concat (map percent_byte bs)) = concat (map percent_byte bs)" if "\<forall>b \<in> set bs. b < 256" for bs
    using that by (induction bs) auto
  consider "c = CHR '' ''" | "c \<noteq> CHR '' ''" "always_safe c \<or> is_ascii c \<and> c \<in> set safe"
    | "c \<noteq> CHR '' ''" "\<not> (always_safe c \<or> is_ascii c \<and> c \<in> set safe)" by blast
  then show ?thesis
  proof cases
    case 1
    then show ?thesis by (simp add: quote_plus_char_def plus_to_space_def unquote_plain utf8_bytes_def code_of_def)
  next
    case 2
    then have "c \<noteq> CHR ''%''" "c \<noteq> CHR ''+''" "is_ascii c"
      using assms always_safe_plain [of c] by (auto simp: plain_safe_def)
    with 2 show ?thesis by (simp add: quote_plus_char_def plus_to_space_def unquote_plain utf8_bytes_def is_ascii_def)
  next
    case 3
    then show ?thesis
      using unquote_percents [of "utf8_bytes c"] hexes [of "utf8_bytes c"] utf8_bytes_lt [of _ c]
      by (auto simp: quote_plus_char_def)
  qed
qed

lemma quote_bytes:
  assumes "plain_safe safe"
  shows "unquote_to_bytes (map plus_to_space (quote_plus safe s)) = concat (map utf8_bytes s)"
proof (induction s)
  case (Cons c s)
  then show ?case using quote_char_bytes [OF assms, of c "map plus_to_space (quote_plus safe s)"] by (simp add: quote_plus_def)
qed (simp add: quote_plus_def)

lemma utf8_decode_bytes: "utf8_decode (concat (map utf8_bytes s)) = map code_of s"
proof (induction s)
  case (Cons c s)
  show ?case
  proof (cases "code_of c < 128")
    case False
    define n where "n = code_of c"
    have n: "128 \<le> n" "n < 256" using False code_of_less [of c] by (simp_all add: n_def)
    then have "2 \<le> n div 64" "n div 64 < 4" using div_le_mono [of 128 n 64] by (simp_all add: less_mult_imp_div_less)
    then have "n div 64 = 2 \<or> n div 64 = 3" by linarith
    moreover have "(192 + n div 64 - 192) * 64 + (128 + n mod 64 - 128) = n" by simp
    moreover have "continuation (128 + n mod 64)" by (simp add: continuation_def less_Suc_eq_le [symmetric])
    ultimately show ?thesis using Cons False by (auto simp: utf8_bytes_def Let_def n_def [symmetric])
  qed (use Cons in \<open>simp add: utf8_bytes_def\<close>)
qed simp

lemma unquote_ascii:
  assumes "list_all is_ascii t"
  shows "unquote t = decode_ascii_run t"
proof (cases "CHR ''%'' \<in> set t")
  case True
  then have "t \<noteq> []" by auto
  moreover have runs: "takeWhile is_ascii t = t" "dropWhile is_ascii t = []"
    using assms by (simp_all add: takeWhile_eq_all_conv dropWhile_eq_Nil_conv list_all_iff)
  moreover have "unquote_runs [] = []" by (simp add: unquote_runs.simps)
  ultimately show ?thesis using True
    by (simp only: unquote_def unquote_runs.simps [of t] Let_def runs if_False dropWhile.simps takeWhile.simps append_Nil2 not_True_eq_False)
next
  case False
  have "unquote_to_bytes t = map code_of t" using False
    by (induction t rule: unquote_to_bytes.induct) auto
  also have "\<dots> = concat (map utf8_bytes t)"
    using assms by (induction t) (auto simp: utf8_bytes_def is_ascii_def)
  finally show ?thesis using False by (simp add: unquote_def decode_ascii_run_def utf8_decode_bytes comp_def)
qed

lemma quote_char_chars:
  assumes "plain_safe safe"
  shows "list_all is_ascii (quote_plus_char safe c) \<and> set (quote_plus_char safe c) \<inter> set ''&='' = {}"
proof -
  have "list_all is_ascii (percent_byte b) \<and> set (percent_byte b) \<inter> set ''&='' = {}" if "b < 256" for b
    using that hex_upper_facts(3,4) [of "b div 16"] hex_upper_facts(3,4) [of "b mod 16"]
    by (auto simp: percent_byte_def is_ascii_def code_of_def)
  then have "list_all is_ascii (concat (map percent_byte (utf8_bytes c))) \<and> set (concat (map percent_byte (utf8_bytes c))) \<inter> set ''&='' = {}"
    using utf8_bytes_lt [of _ c] by (fastforce simp: list_all_iff)
  then show ?thesis
    using assms always_safe_plain [of c] by (auto simp: quote_plus_char_def plain_safe_def is_ascii_def code_of_def)
qed

lemma quote_chars:
  assumes "plain_safe safe"
  shows "list_all is_ascii (quote_plus safe s)" "CHR ''&'' \<notin> set (quote_plus safe s)" "CHR ''='' \<notin> set (quote_plus safe s)"
  using quote_char_chars [OF assms] by (fastforce simp: quote_plus_def list_all_iff)+

lemma unquote_quote:
  assumes "plain_safe safe"
  shows "unquote_plus (quote_plus safe s) = s"
proof -
  have "list_all is_ascii (map plus_to_space (quote_plus safe s))"
    using quote_chars(1) [OF assms, of s] by (auto simp: list_all_iff plus_to_space_def is_ascii_def code_of_def)
  moreover have "(\<lambda>c. if c = CHR ''+'' then CHR '' '' else c) = plus_to_space" by (simp add: plus_to_space_def fun_eq_iff)
  ultimately show ?thesis
    unfolding unquote_plus_def using quote_bytes [OF assms]
    by (simp add: unquote_ascii decode_ascii_run_def utf8_decode_bytes comp_def)
qed

lemma parse_urlencode:
  assumes "plain_safe safe"
  shows "parse_qsl (urlencode safe items) = items"
proof (cases "items = []")
  case True
  then show ?thesis by (simp add: parse_qsl_def urlencode_def)
next
  case False
  let ?enc = "\<lambda>(name, v). quote_plus safe name @ ''='' @ quote_plus safe v"
  have "split_on CHR ''&'' (urlencode safe items) = map ?enc items"
    unfolding urlencode_def using False quote_chars(2) [OF assms] by (intro split_on_join) auto
  moreover have "filter (\<lambda>nv. nv \<noteq> []) (map ?enc items) = map ?enc items" by (auto simp: filter_id_conv)
  moreover have "(case partition_at CHR ''='' (?enc item) of (name, _, v) \<Rightarrow> (unquote_plus name, unquote_plus v)) = item" for item
    using partition_at_append [of "CHR ''=''" "quote_plus safe (fst item)" "quote_plus safe (snd item)"] quote_chars(3) [OF assms]
    by (cases item) (simp add: unquote_quote [OF assms])
  ultimately show ?thesis by (simp add: parse_qsl_def comp_def)
qed

lemma plain_safe_used: "plain_safe []" "plain_safe ''*''"
  by (simp_all add: plain_safe_def)

lemma reserved_lower: "k \<in> set reserved_query_keys \<Longrightarrow> py_lower k = k"
  by (auto simp: reserved_query_keys_def py_lower_def lower_char_def code_of_def)

lemma oauth_item_names:
  "map fst (oauth_items ci ru rt sc st nc ro) =
     [''client_id'', ''redirect_uri'', ''response_type'', ''scope'', ''state''] @ [if ro = None then ''nonce'' else ''request'']"
  by (cases ro) (simp_all add: oauth_items_def)

lemma oauth_names_reserved: "(n, v) \<in> set (oauth_items ci ru rt sc st nc ro) \<Longrightarrow> n \<in> set reserved_query_keys"
  by (auto simp: reserved_query_keys_def oauth_items_def split: option.splits)

lemma distinct_oauth_names: "distinct (map fst (oauth_items ci ru rt sc st nc ro))"
  unfolding oauth_item_names by simp

lemma mask_url_query_hides:
  assumes "mask_url_query url names = Inr url'" and "urlsplit url = Inr (scheme, netloc, path, query, fragment)"
  shows "if \<exists>(n, v) \<in> set (parse_qsl query). py_lower n \<in> set (map py_lower names)
         then \<exists>query'. url' = urlunsplit scheme netloc path query' fragment \<and>
                parse_qsl query' = map (\<lambda>(n, v). (n, if py_lower n \<in> set (map py_lower names) then MASKED_VALUE else v)) (parse_qsl query)
         else url' = url"
proof -
  let ?names = "map py_lower names"
  have item: "mask_query_item ?names = (\<lambda>(n, v). (n, if py_lower n \<in> set ?names then MASKED_VALUE else v))"
    by (auto simp: mask_query_item_def fun_eq_iff)
  have ex: "list_ex (\<lambda>item. py_lower (fst item) \<in> set ?names) xs \<longleftrightarrow> (\<exists>(n, v) \<in> set xs. py_lower n \<in> set ?names)"
    for xs :: "(string \<times> string) list" by (auto simp: list_ex_iff case_prod_beta)
  have "parse_qsl [] = []" by (simp add: parse_qsl_def)
  with assms ex [of "parse_qsl query"] parse_urlencode [OF plain_safe_used(2)] show ?thesis
    unfolding item [symmetric] mask_url_query_def rbind_simps prod.case Let_def
    by (auto simp del: set_map split: if_splits)
qed

text \<open>Masking raises exactly when the URL cannot be split.\<close>

lemma mask_url_query_total: "(\<exists>u. mask_url_query url names = Inr u) \<longleftrightarrow> (\<exists>parts. urlsplit url = Inr parts)"
  by (cases "urlsplit url") (auto simp: mask_url_query_def Let_def rbind_simps)

section \<open>Properties\<close>

text \<open>C22: Masking the query of a URL hides exactly the sensitive parameters: when no parameter has a sensitive name, in any casing,
  the URL is unchanged; otherwise the result has the same scheme, host, path and fragment, and a query whose decoded
  parameters are those of the original, in order, with the value of every sensitive one replaced by the mask.\<close>

theorem url_masking_hides_sensitive_parameters:
  assumes "mask_url_query url names = Inr url'" and "urlsplit url = Inr (scheme, netloc, path, query, fragment)"
  shows "if \<exists>(n, v) \<in> set (parse_qsl query). py_lower n \<in> set (map py_lower names)
         then \<exists>query'. url' = urlunsplit scheme netloc path query' fragment \<and>
                parse_qsl query' = map (\<lambda>(n, v). (n, if py_lower n \<in> set (map py_lower names) then MASKED_VALUE else v)) (parse_qsl query)
         else url' = url"
  by (rule mask_url_query_hides [OF assms])

theorem url_masking_hides_sensitive_parameters_witness:
  "\<exists>q. Inr (urlunsplit ''https'' ''b.example'' ''/a'' q []) = mask_url_query ''https://b.example/a?State=1&CODE=x'' [''code''] \<and>
          parse_qsl q = map (\<lambda>(n, v). (n, if py_lower n \<in> set (map py_lower [''code'']) then MASKED_VALUE else v))
            (parse_qsl ''State=1&CODE=x'')"
proof -
  have split: "urlsplit ''https://b.example/a?State=1&CODE=x'' = Inr (''https'', ''b.example'', ''/a'', ''State=1&CODE=x'', [])"
    by code_simp
  have ex: "\<exists>(n, v) \<in> set (parse_qsl ''State=1&CODE=x''). py_lower n \<in> set (map py_lower [''code''])"
    by code_simp
  obtain u where u: "mask_url_query ''https://b.example/a?State=1&CODE=x'' [''code''] = Inr u"
    using split by (cases "mask_url_query ''https://b.example/a?State=1&CODE=x'' [''code'']")
      (auto simp: mask_url_query_def Let_def split: if_splits)
  from url_masking_hides_sensitive_parameters [OF u split, unfolded if_P [OF ex]] show ?thesis unfolding u by (elim exE conjE) blast
qed

text \<open>C21: The authorisation URL carries each parameter the suite controls exactly once, whatever the configured endpoint holds:
  its decoded query is the endpoint's own parameters with unreserved names, in order, followed by the client id, redirect
  URI, response type, scope and state, and the signed request object or else the nonce; no other parameter has a reserved
  name in any casing.\<close>

theorem authorization_url_parameters:
  assumes "build_authorization_url endpoint ci ru rt sc st nc ro = Inr url"
    and "urlsplit endpoint = Inr (scheme, netloc, path, query, fragment)"
  shows "\<exists>query' kept. url = urlunsplit scheme netloc path query' fragment \<and>
     parse_qsl query' = kept @ oauth_items ci ru rt sc st nc ro \<and>
     kept = filter (\<lambda>(n, v). py_lower n \<notin> set reserved_query_keys) (parse_qsl query) \<and>
     (\<forall>k \<in> set reserved_query_keys. filter (\<lambda>(n, v). py_lower n = k) (parse_qsl query') =
        filter (\<lambda>(n, v). n = k) (oauth_items ci ru rt sc st nc ro)) \<and>
     distinct (map fst (oauth_items ci ru rt sc st nc ro))"
proof -
  let ?items = "oauth_items ci ru rt sc st nc ro" and ?kept = "filter (\<lambda>(n, v). py_lower n \<notin> set reserved_query_keys) (parse_qsl query)"
  have url: "url = urlunsplit scheme netloc path (urlencode [] (?kept @ ?items)) fragment"
    using assms by (simp add: build_authorization_url_def Let_def)
  have lower: "py_lower n = n" if "(n, v) \<in> set ?items" for n v
    using oauth_names_reserved [OF that] reserved_lower by blast
  have "filter (\<lambda>(n, v). py_lower n = k) (?kept @ ?items) = filter (\<lambda>(n, v). n = k) ?items" if "k \<in> set reserved_query_keys" for k
  proof -
    have "filter (\<lambda>(n, v). py_lower n = k) ?kept = []" using that by (auto simp: filter_empty_conv)
    moreover have "filter (\<lambda>(n, v). py_lower n = k) ?items = filter (\<lambda>(n, v). n = k) ?items"
      by (rule filter_cong) (auto simp: lower)
    ultimately show ?thesis by simp
  qed
  then show ?thesis
    using url parse_urlencode [OF plain_safe_used(1), of "?kept @ ?items"] distinct_oauth_names [of ci ru rt sc st nc ro]
    by (intro exI [of _ "urlencode [] (?kept @ ?items)"] exI [of _ ?kept]) simp
qed

theorem authorization_url_parameters_witness:
  "\<exists>u q kept. build_authorization_url ''https://b.example/auth?acr=1&STATE=evil'' ''c'' ''https://t.example/cb'' ''code'' ''openid'' ''s'' ''n''
       None = Inr u \<and> parse_qsl q = kept @ oauth_items ''c'' ''https://t.example/cb'' ''code'' ''openid'' ''s'' ''n'' None"
proof -
  have split: "urlsplit ''https://b.example/auth?acr=1&STATE=evil'' = Inr (''https'', ''b.example'', ''/auth'', ''acr=1&STATE=evil'', [])"
    by code_simp
  obtain u where u: "build_authorization_url ''https://b.example/auth?acr=1&STATE=evil'' ''c'' ''https://t.example/cb'' ''code'' ''openid''
      ''s'' ''n'' None = Inr u" using split by (auto simp: build_authorization_url_def Let_def)
  from authorization_url_parameters [OF u split] u show ?thesis by blast
qed

end
