(* ===== verification/Execution_Log.thy ===== *)
theory Execution_Log
  imports Url_Query
begin

text \<open>
  The structured execution log (\<open>conformance/execution_log.py\<close>): events, the in-memory buffer
  that masks a payload before it stores it, and the NDJSON text of the buffer. The clock
  (\<open>now\<close>, already formatted) is an argument. Masking the URL of a PSU event raises when the URL
  cannot be split; then the emit raises and stores nothing.
\<close>

datatype EventType =
    RunStarted | RunCompleted | StepStarted | StepCompleted | StepDeselected
  | RequestSent | ResponseReceived | AssertionEvaluated | ResponseSignatureValidated
  | ResponseSignatureInvalid | AuthSessionRegistered | AuthCallbackReceived
  | PsuAuthorizationUrl | PsuAuthorizationRedirectReceived | PlaceholderErrorEvent | ApplicationError

fun event_type_name :: "EventType \<Rightarrow> string" where
  "event_type_name RunStarted = ''run-started''"
| "event_type_name RunCompleted = ''run-completed''"
| "event_type_name StepStarted = ''step-started''"
| "event_type_name StepCompleted = ''step-completed''"
| "event_type_name StepDeselected = ''step-deselected''"
| "event_type_name RequestSent = ''request-sent''"
| "event_type_name ResponseReceived = ''response-received''"
| "event_type_name AssertionEvaluated = ''assertion-evaluated''"
| "event_type_name ResponseSignatureValidated = ''response-signature-validated''"
| "event_type_name ResponseSignatureInvalid = ''response-signature-invalid''"
| "event_type_name AuthSessionRegistered = ''auth-session-registered''"
| "event_type_name AuthCallbackReceived = ''auth-callback-received''"
| "event_type_name PsuAuthorizationUrl = ''psu-authorization-url''"
| "event_type_name PsuAuthorizationRedirectReceived = ''psu-authorization-redirect-received''"
| "event_type_name PlaceholderErrorEvent = ''placeholder-error''"
| "event_type_name ApplicationError = ''application-error''"

definition is_developer_mode_enabled :: "(string, string) dict \<Rightarrow> bool" where
  "is_developer_mode_enabled environ =
     (py_lower (py_strip (case map_of environ ''CONFORMANCE_DEVELOPER_MODE'' of
                            None \<Rightarrow> [] | Some v \<Rightarrow> v)) = ''true'')"

record ExecutionEvent =
  ev_timestamp :: string
  ev_run_id :: string
  ev_type :: EventType
  ev_step_id :: "string option"
  ev_payload :: json_object

definition event_to_json_object :: "ExecutionEvent \<Rightarrow> json_object" where
  "event_to_json_object e =
     [(''timestamp'', JStr (ev_timestamp e)), (''runId'', JStr (ev_run_id e)),
      (''type'', JStr (event_type_name (ev_type e)))]
     @ (case ev_step_id e of None \<Rightarrow> [] | Some s \<Rightarrow> [(''stepId'', JStr s)])
     @ (if ev_payload e = [] then [] else [(''payload'', JObj (ev_payload e))])"

record BufferedExecutionLogger =
  bl_run_id :: string
  bl_developer_mode :: bool
  bl_events :: "ExecutionEvent list"

definition new_logger :: "(string, string) dict \<Rightarrow> string \<Rightarrow> bool option \<Rightarrow> BufferedExecutionLogger" where
  "new_logger environ run_id developer_mode =
     \<lparr>bl_run_id = run_id,
      bl_developer_mode = (case developer_mode of None \<Rightarrow> is_developer_mode_enabled environ | Some b \<Rightarrow> b),
      bl_events = []\<rparr>"

definition mask_payload_entry :: "EventType \<Rightarrow> string \<Rightarrow> json \<Rightarrow> value_error + json" where
  "mask_payload_entry event_type key v =
     (if key = ''headers'' \<and> is_object v
      then Inr (JObj (map (\<lambda>(n, w). (n, JStr w)) (mask_headers (map (\<lambda>(n, w). (n, py_str w)) (obj_of v)))))
      else if event_type = PsuAuthorizationUrl \<and> key = ''url'' \<and> is_string v
      then rbind (mask_url_query (str_of v) SENSITIVE_JSON_KEYS) (\<lambda>u. Inr (JStr u))
      else if event_type = PsuAuthorizationUrl \<and> key \<in> {''client_id'', ''request_object''}
      then Inr (if v \<noteq> JNull then JStr MASKED_VALUE else JNull)
      else if py_lower key \<in> set SENSITIVE_JSON_KEYS then Inr (JStr MASKED_VALUE)
      else Inr (mask_json_value v))"

definition mask_payload :: "BufferedExecutionLogger \<Rightarrow> EventType \<Rightarrow> json_object \<Rightarrow> value_error + json_object" where
  "mask_payload lg event_type payload =
     (if bl_developer_mode lg then Inr payload
      else rtraverse (\<lambda>(key, v). rbind (mask_payload_entry event_type key v) (\<lambda>w. Inr (key, w))) payload)"

definition logger_emit ::
  "string \<Rightarrow> EventType \<Rightarrow> string option \<Rightarrow> json_object option \<Rightarrow>
   BufferedExecutionLogger \<Rightarrow> value_error + BufferedExecutionLogger" where
  "logger_emit now event_type step_id payload lg =
     rbind (mask_payload lg event_type (case payload of None \<Rightarrow> [] | Some p \<Rightarrow> p)) (\<lambda>masked_payload.
       Inr (lg\<lparr>bl_events := bl_events lg @
                 [\<lparr>ev_timestamp = now, ev_run_id = bl_run_id lg, ev_type = event_type, ev_step_id = step_id,
                   ev_payload = masked_payload\<rparr>]\<rparr>))"

definition logger_events :: "BufferedExecutionLogger \<Rightarrow> ExecutionEvent list" where
  "logger_events lg = bl_events lg"

text \<open>\<open>json.dumps(..., sort_keys=True)\<close> sorts the members of every object by key.\<close>

fun sort_keys :: "json \<Rightarrow> json" where
  "sort_keys (JArr xs) = JArr (map sort_keys xs)"
| "sort_keys (JObj kvs) = JObj (sort_key fst (map (\<lambda>(k, v). (k, sort_keys v)) kvs))"
| "sort_keys v = v"

definition to_ndjson :: "BufferedExecutionLogger \<Rightarrow> string" where
  "to_ndjson lg =
     (let lines = map (\<lambda>e. json_dumps '', '' '': '' (sort_keys (JObj (event_to_json_object e))))
                      (logger_events lg)
      in join [CHR 10] lines @ (if lines = [] then [] else [CHR 10]))"

section \<open>What a stored payload never holds\<close>

text \<open>
  What masking makes of a URL: one without sensitive parameters is kept; otherwise only the query changes, to one
  whose decoded parameters are those of the original with the value of every sensitive one replaced by the mask.
\<close>

definition url_masked :: "string \<Rightarrow> string \<Rightarrow> bool" where
  "url_masked u u' =
     (\<exists>scheme netloc path query fragment. urlsplit u = Inr (scheme, netloc, path, query, fragment) \<and>
        (if \<exists>(n, v) \<in> set (parse_qsl query). sensitive_key n
         then \<exists>query'. u' = urlunsplit scheme netloc path query' fragment \<and>
                parse_qsl query' = map (\<lambda>(n, v). (n, if sensitive_key n then MASKED_VALUE else v)) (parse_qsl query)
         else u' = u))"

text \<open>
  The specification of one stored entry \<open>v'\<close> of an emitted \<open>v\<close>: a sensitive header is masked, the URL of a PSU event
  is masked, a sensitive key is masked (or null, for the request object of a PSU event), and everything else is
  masked recursively.
\<close>

definition entry_safe :: "EventType \<Rightarrow> string \<Rightarrow> json \<Rightarrow> json \<Rightarrow> bool" where
  "entry_safe event_type key v v' =
     (if key = ''headers'' \<and> is_object v'
      then (\<forall>(n, w) \<in> set (obj_of v'). py_lower n \<in> set SENSITIVE_HEADER_NAMES \<longrightarrow> w = JStr MASKED_VALUE)
      else if event_type = PsuAuthorizationUrl \<and> key = ''url'' \<and> is_string v'
      then (\<exists>u u'. v = JStr u \<and> v' = JStr u' \<and> url_masked u u')
      else if event_type = PsuAuthorizationUrl \<and> key \<in> {''client_id'', ''request_object''}
      then v' \<in> {JStr MASKED_VALUE, JNull}
      else if sensitive_key key then v' = JStr MASKED_VALUE
      else all_masked v')"

lemma not_sensitive_keys: "\<not> sensitive_key ''headers''" "\<not> sensitive_key ''url''"
  by (simp_all add: SENSITIVE_JSON_KEYS_def py_lower_def lower_char_def code_of_def)

lemma sensitive_keys_lower: "map py_lower SENSITIVE_JSON_KEYS = SENSITIVE_JSON_KEYS"
  by (simp add: SENSITIVE_JSON_KEYS_def py_lower_def lower_char_def code_of_def)

lemma mask_url_query_masked: "mask_url_query u SENSITIVE_JSON_KEYS = Inr u' \<Longrightarrow> url_masked u u'"
proof -
  assume m: "mask_url_query u SENSITIVE_JSON_KEYS = Inr u'"
  then obtain scheme netloc path query fragment where s: "urlsplit u = Inr (scheme, netloc, path, query, fragment)"
    using mask_url_query_total [of u SENSITIVE_JSON_KEYS] by (metis prod_cases5)
  from mask_url_query_hides [OF m s, unfolded sensitive_keys_lower] s show ?thesis
    unfolding url_masked_def by blast
qed

lemma is_object_mask [simp]: "is_object (mask_json_value v) = is_object v"
  by (cases v) auto

lemma is_string_mask [simp]: "is_string (mask_json_value v) = is_string v"
  by (cases v) auto

lemma mask_headers_safe:
  "\<forall>(n, w) \<in> set (mask_headers hs). py_lower n \<in> set SENSITIVE_HEADER_NAMES \<longrightarrow> w = MASKED_VALUE"
  by (auto simp: mask_headers_def)

text \<open>The five branches of the masking of an entry.\<close>

lemma payload_branches:
  obtains (headers) "key = ''headers''" "is_object v"
  | (url) "\<not> (key = ''headers'' \<and> is_object v)" "ev = PsuAuthorizationUrl" "key = ''url''" "is_string v"
  | (client) "\<not> (key = ''headers'' \<and> is_object v)" "\<not> (ev = PsuAuthorizationUrl \<and> key = ''url'' \<and> is_string v)"
      "ev = PsuAuthorizationUrl" "key \<in> {''client_id'', ''request_object''}"
  | (secret) "\<not> (key = ''headers'' \<and> is_object v)" "\<not> (ev = PsuAuthorizationUrl \<and> key = ''url'' \<and> is_string v)"
      "\<not> (ev = PsuAuthorizationUrl \<and> key \<in> {''client_id'', ''request_object''})" "sensitive_key key"
  | (other) "\<not> (key = ''headers'' \<and> is_object v)" "\<not> (ev = PsuAuthorizationUrl \<and> key = ''url'' \<and> is_string v)"
      "\<not> (ev = PsuAuthorizationUrl \<and> key \<in> {''client_id'', ''request_object''})" "\<not> sensitive_key key"
  by argo

lemma mask_payload_entry_safe:
  assumes "mask_payload_entry ev key v = Inr v'"
  shows "entry_safe ev key v v'"
proof (cases rule: payload_branches [of key v _ ev])
  case headers
  let ?hs = "mask_headers (map (\<lambda>(n, w). (n, py_str w)) (obj_of v))"
  from headers assms have eq: "v' = JObj (map (\<lambda>(n, w). (n, JStr w)) ?hs)"
    by (simp only: mask_payload_entry_def if_True simp_thms sum.inject)
  have "\<forall>(n, w) \<in> set (map (\<lambda>(n, w). (n, JStr w)) ?hs).
          py_lower n \<in> set SENSITIVE_HEADER_NAMES \<longrightarrow> w = JStr MASKED_VALUE"
    using mask_headers_safe by fastforce
  with headers show ?thesis
    unfolding entry_safe_def eq is_object.simps obj_of.simps by presburger
next
  case url
  then have "rbind (mask_url_query (str_of v) SENSITIVE_JSON_KEYS) (\<lambda>u. Inr (JStr u)) = Inr v'"
    using assms unfolding mask_payload_entry_def by presburger
  then obtain u' where "mask_url_query (str_of v) SENSITIVE_JSON_KEYS = Inr u'" and v': "v' = JStr u'"
    by (auto simp: rbind_eq_Inr)
  moreover obtain u where "v = JStr u" using url(4) by (cases v) auto
  ultimately have "url_masked u u'" "v = JStr u" using mask_url_query_masked by simp_all
  then have "\<exists>u u'. v = JStr u \<and> v' = JStr u' \<and> url_masked u u'" using v' by blast
  with url(2,3) show ?thesis unfolding entry_safe_def v' is_object.simps is_string.simps by presburger
next
  case client
  then have "v' = (if v \<noteq> JNull then JStr MASKED_VALUE else JNull)"
    using assms unfolding mask_payload_entry_def by (simp only: if_False simp_thms if_True sum.inject)
  moreover from client have "key \<noteq> ''headers''" "key \<noteq> ''url''" by auto
  ultimately show ?thesis using client unfolding entry_safe_def by (simp split: if_splits)
next
  case secret
  then have "v' = JStr MASKED_VALUE"
    using assms unfolding mask_payload_entry_def by (simp only: if_False simp_thms if_True sum.inject)
  moreover have "key \<noteq> ''headers''" "key \<noteq> ''url''" using secret(4) not_sensitive_keys by metis+
  ultimately show ?thesis using secret unfolding entry_safe_def by auto
next
  case other
  then have eq: "v' = mask_json_value v"
    using assms unfolding mask_payload_entry_def by (simp only: if_False simp_thms if_True sum.inject)
  from other mask_all_masked [of v] show ?thesis
    unfolding entry_safe_def eq is_object_mask is_string_mask by presburger
qed

text \<open>Only the URL of a PSU event can make masking raise.\<close>

definition url_unsplittable :: "EventType \<Rightarrow> string \<times> json \<Rightarrow> bool" where
  "url_unsplittable ev entry =
     (ev = PsuAuthorizationUrl \<and> fst entry = ''url'' \<and> (\<exists>u e. snd entry = JStr u \<and> urlsplit u = Inl e))"

lemma mask_payload_entry_total: "(\<exists>v'. mask_payload_entry ev key v = Inr v') \<longleftrightarrow> \<not> url_unsplittable ev (key, v)"
proof (cases "ev = PsuAuthorizationUrl \<and> key = ''url'' \<and> is_string v")
  case True
  then obtain u where u: "v = JStr u" by (cases v) auto
  have "mask_payload_entry ev key v = rbind (mask_url_query u SENSITIVE_JSON_KEYS) (\<lambda>u. Inr (JStr u))"
    using True unfolding mask_payload_entry_def u by simp
  then have "(\<exists>v'. mask_payload_entry ev key v = Inr v') \<longleftrightarrow> (\<exists>parts. urlsplit u = Inr parts)"
    using mask_url_query_total [of u SENSITIVE_JSON_KEYS] by (auto simp: rbind_eq_Inr)
  also have "\<dots> \<longleftrightarrow> \<not> url_unsplittable ev (key, v)"
    using True by (cases "urlsplit u") (auto simp: url_unsplittable_def u)
  finally show ?thesis .
next
  case False
  have "\<exists>v'. (if h then Inr a else if c then Inr b else if d then Inr e else Inr f) = (Inr v' :: value_error + json)"
    for h c d a b e f by simp
  then have "\<exists>v'. mask_payload_entry ev key v = Inr v'" unfolding mask_payload_entry_def if_not_P [OF False] .
  moreover have "\<not> url_unsplittable ev (key, v)" using False by (cases v) (auto simp: url_unsplittable_def)
  ultimately show ?thesis by blast
qed

lemma mask_payload_total:
  "\<not> bl_developer_mode lg \<Longrightarrow> (\<exists>p'. mask_payload lg ev payload = Inr p') \<longleftrightarrow> \<not> list_ex (url_unsplittable ev) payload"
proof (induction payload)
  case (Cons x payload)
  obtain key v where x: "x = (key, v)" by (cases x)
  from Cons mask_payload_entry_total [of ev key v] show ?case
    by (auto simp: mask_payload_def x rbind_eq_Inr)
qed (simp add: mask_payload_def)

lemma mask_payload_safe:
  assumes "\<not> bl_developer_mode lg" "mask_payload lg ev payload = Inr p'"
  shows "list_all2 (\<lambda>(key, v) (key', v'). key' = key \<and> entry_safe ev key v v') payload p'"
proof -
  have "list_all2 (\<lambda>x y. (case x of (key, v) \<Rightarrow> rbind (mask_payload_entry ev key v) (\<lambda>w. Inr (key, w))) = Inr y) payload p'"
    using assms by (simp add: mask_payload_def rtraverse_Inr)
  then show ?thesis
    by (rule list_all2_mono) (auto simp: rbind_eq_Inr intro: mask_payload_entry_safe)
qed

text \<open>The other events never raise.\<close>

lemma logger_emit_total:
  assumes "ev \<noteq> PsuAuthorizationUrl"
  shows "\<exists>lg'. logger_emit now ev sid payload lg = Inr lg'"
proof (cases "bl_developer_mode lg")
  case True
  then show ?thesis by (simp add: logger_emit_def mask_payload_def)
next
  case False
  have "\<not> list_ex (url_unsplittable ev) p" for p using assms by (auto simp: url_unsplittable_def list_ex_iff)
  then obtain p' where "mask_payload lg ev (case payload of None \<Rightarrow> [] | Some p \<Rightarrow> p) = Inr p'"
    using mask_payload_total [OF False] by blast
  then show ?thesis by (simp add: logger_emit_def)
qed

section \<open>A sequence of emits\<close>

type_synonym emit_call = "string \<times> EventType \<times> string option \<times> json_object option"

definition call_payload :: "emit_call \<Rightarrow> json_object" where
  "call_payload call = (case call of (_, _, _, payload) \<Rightarrow> (case payload of None \<Rightarrow> [] | Some p \<Rightarrow> p))"

text \<open>Each call either stores its event or raises to its caller and leaves the logger as it was.\<close>

definition after_emit :: "emit_call \<Rightarrow> BufferedExecutionLogger \<Rightarrow> BufferedExecutionLogger" where
  "after_emit call lg =
     (case call of (now, ev, sid, payload) \<Rightarrow>
        (case logger_emit now ev sid payload lg of Inl _ \<Rightarrow> lg | Inr lg' \<Rightarrow> lg'))"

definition emit_all :: "emit_call list \<Rightarrow> BufferedExecutionLogger \<Rightarrow> BufferedExecutionLogger" where
  "emit_all calls lg = fold after_emit calls lg"

definition call_raises :: "emit_call \<Rightarrow> bool" where
  "call_raises call = list_ex (url_unsplittable (fst (snd call))) (call_payload call)"

definition event_of_call :: "string \<Rightarrow> emit_call \<Rightarrow> ExecutionEvent \<Rightarrow> bool" where
  "event_of_call run_id call e =
     (ev_timestamp e = fst call \<and> ev_run_id e = run_id \<and> ev_type e = fst (snd call) \<and> ev_step_id e = fst (snd (snd call)) \<and>
      list_all2 (\<lambda>(key, v) (key', v'). key' = key \<and> entry_safe (ev_type e) key v v') (call_payload call) (ev_payload e))"

lemma after_emit_event:
  assumes "\<not> bl_developer_mode lg"
  shows "bl_developer_mode (after_emit call lg) = bl_developer_mode lg" "bl_run_id (after_emit call lg) = bl_run_id lg"
    "if call_raises call then bl_events (after_emit call lg) = bl_events lg
     else \<exists>e. event_of_call (bl_run_id lg) call e \<and> bl_events (after_emit call lg) = bl_events lg @ [e]"
proof -
  obtain now ev sid payload where call: "call = (now, ev, sid, payload)" by (cases call)
  let ?p = "call_payload call"
  have p: "?p = (case payload of None \<Rightarrow> [] | Some p \<Rightarrow> p)" by (simp add: call_payload_def call)
  show "bl_developer_mode (after_emit call lg) = bl_developer_mode lg" "bl_run_id (after_emit call lg) = bl_run_id lg"
    by (auto simp: after_emit_def call logger_emit_def rbind_def split: sum.split)
  show "if call_raises call then bl_events (after_emit call lg) = bl_events lg
     else \<exists>e. event_of_call (bl_run_id lg) call e \<and> bl_events (after_emit call lg) = bl_events lg @ [e]"
  proof (cases "mask_payload lg ev ?p")
    case (Inl err)
    then have "call_raises call" using mask_payload_total [OF assms, of ev ?p] by (auto simp: call_raises_def call)
    then show ?thesis using Inl [unfolded p] by (simp add: after_emit_def call logger_emit_def)
  next
    case (Inr p')
    then have "\<not> call_raises call" using mask_payload_total [OF assms, of ev ?p] by (auto simp: call_raises_def call)
    moreover have "event_of_call (bl_run_id lg) call
        \<lparr>ev_timestamp = now, ev_run_id = bl_run_id lg, ev_type = ev, ev_step_id = sid, ev_payload = p'\<rparr>"
      using mask_payload_safe [OF assms Inr] by (simp add: event_of_call_def call)
    ultimately show ?thesis using Inr [unfolded p] by (simp add: after_emit_def call logger_emit_def)
  qed
qed

lemma emit_all_events:
  assumes "\<not> bl_developer_mode lg" "list_all2 (event_of_call (bl_run_id lg)) calls0 (bl_events lg)"
  shows "list_all2 (event_of_call (bl_run_id lg)) (calls0 @ filter (\<lambda>c. \<not> call_raises c) calls) (bl_events (emit_all calls lg))"
  using assms
proof (induction calls arbitrary: lg calls0)
  case (Cons call calls)
  note after = after_emit_event [OF Cons.prems(1), of call]
  let ?lg = "after_emit call lg" and ?calls = "calls0 @ (if call_raises call then [] else [call])"
  have "list_all2 (event_of_call (bl_run_id ?lg)) ?calls (bl_events ?lg)"
    using after(3) Cons.prems(2) by (auto simp: after(2) intro!: list_all2_appendI split: if_splits)
  from Cons.IH [OF _ this] Cons.prems(1) show ?case
    by (cases "call_raises call") (simp_all add: after(1,2) emit_all_def)
qed (simp add: emit_all_def)

section \<open>Properties\<close>


text \<open>The concrete calls: a callback, an authorisation URL with a secret, and one that cannot be split.\<close>

definition sample_calls :: "emit_call list" where
  "sample_calls =
     [(''t0'', AuthCallbackReceived, None, Some [(''code'', JStr ''s3cret'')]),
      (''t1'', PsuAuthorizationUrl, Some ''psu'', Some [(''url'', JStr ''https://b.example/a?request=x&scope=y'')]),
      (''t2'', PsuAuthorizationUrl, Some ''psu'', Some [(''url'', JStr ''https://[x'')])]"

lemma sample_calls_raise: "map call_raises sample_calls = [False, False, True]"
proof -
  have "url_unsplittable ev (k, v) =
      (ev = PsuAuthorizationUrl \<and> k = ''url'' \<and> is_string v \<and> (case urlsplit (str_of v) of Inl _ \<Rightarrow> True | Inr _ \<Rightarrow> False))" for ev k v
    by (cases v) (auto simp: url_unsplittable_def split: sum.splits)
  moreover have "(case urlsplit ''https://b.example/a?request=x&scope=y'' of Inl _ \<Rightarrow> True | Inr _ \<Rightarrow> False) = False"
    "(case urlsplit ''https://[x'' of Inl _ \<Rightarrow> True | Inr _ \<Rightarrow> False) = True" by code_simp+
  ultimately show ?thesis by (simp add: sample_calls_def call_raises_def call_payload_def)
qed


end
