(* ===== verification/Approved_Releases.thy ===== *)
theory Approved_Releases
  imports Json
begin

text \<open>
  The approved-release policy (\<open>conformance/approved_releases.py\<close>) and the tool version of a
  report (\<open>conformance/version.py\<close>). Reading and decoding the files is an argument: the decoded
  policy, the environment and the decoded \<open>pyproject.toml\<close> (\<open>None\<close> when it cannot be read).
\<close>

datatype ApprovedReleasePolicyError = ApprovedReleasePolicyError string

record ApprovedReleasePolicy =
  ap_schema_version :: string
  ap_approved_tool_versions :: "string list"

definition APPROVED_RELEASE_POLICY_SCHEMA_VERSION :: string where
  "APPROVED_RELEASE_POLICY_SCHEMA_VERSION = ''v1''"

definition is_tool_version_approved :: "ApprovedReleasePolicy \<Rightarrow> string \<Rightarrow> bool" where
  "is_tool_version_approved policy tool_version = (tool_version \<in> set (ap_approved_tool_versions policy))"

definition policy_as_object :: "json \<Rightarrow> string \<Rightarrow> ApprovedReleasePolicyError + json_object" where
  "policy_as_object = read_object ApprovedReleasePolicyError"

definition policy_required_array ::
  "json_object \<Rightarrow> string \<Rightarrow> string \<Rightarrow> ApprovedReleasePolicyError + json list" where
  "policy_required_array = read_array ApprovedReleasePolicyError"

definition policy_required_non_empty_string ::
  "json_object \<Rightarrow> string \<Rightarrow> string \<Rightarrow> ApprovedReleasePolicyError + string" where
  "policy_required_non_empty_string = read_non_empty_string ApprovedReleasePolicyError"

definition policy_version_item :: "string \<Rightarrow> nat \<times> json \<Rightarrow> ApprovedReleasePolicyError + string" where
  "policy_version_item array_location = (\<lambda>(index, v).
     let item_location = array_location @ ''['' @ str_nat index @ '']''
     in case v of
          JStr s \<Rightarrow> (if py_strip s = [] then Inl (ApprovedReleasePolicyError (item_location @ '' must not be empty''))
                     else Inr (py_strip s))
        | _ \<Rightarrow> Inl (ApprovedReleasePolicyError (item_location @ '' must be a string'')))"

definition policy_required_string_array ::
  "json_object \<Rightarrow> string \<Rightarrow> string \<Rightarrow> ApprovedReleasePolicyError + string list" where
  "policy_required_string_array parent key location =
     rbind (policy_required_array parent key location)
       (\<lambda>values. rtraverse (policy_version_item (location @ ''.'' @ key)) (enumerate 0 values))"

definition parse_approved_release_policy :: "json \<Rightarrow> ApprovedReleasePolicyError + ApprovedReleasePolicy" where
  "parse_approved_release_policy raw_policy =
     (let location = ''approved-release policy''
      in rbind (policy_as_object raw_policy location) (\<lambda>policy.
         rbind (policy_required_non_empty_string policy ''schemaVersion'' location) (\<lambda>schema_version.
         if schema_version \<noteq> APPROVED_RELEASE_POLICY_SCHEMA_VERSION then
           Inl (ApprovedReleasePolicyError (''approved-release policy.schemaVersion must be ''
                  @ repr_str APPROVED_RELEASE_POLICY_SCHEMA_VERSION @ '' (got ''
                  @ repr_str schema_version @ '')''))
         else
           rbind (policy_required_string_array policy ''approvedToolVersions'' location) (\<lambda>versions.
             Inr \<lparr>ap_schema_version = schema_version, ap_approved_tool_versions = versions\<rparr>))))"

section \<open>The tool version\<close>

definition UNKNOWN_TOOL_VERSION :: string where
  "UNKNOWN_TOOL_VERSION = ''0+unknown''"

definition REPORT_METADATA_VERSION :: string where
  "REPORT_METADATA_VERSION = ''1.0''"

definition read_pyproject_version :: "json option \<Rightarrow> string option" where
  "read_pyproject_version parsed_pyproject =
     (case parsed_pyproject of
        Some (JObj document) \<Rightarrow>
          (case jget document ''project'' of
             JObj table \<Rightarrow>
               (case jget table ''version'' of
                  JStr raw \<Rightarrow> (if py_strip raw = [] then None else Some (py_strip raw))
                | _ \<Rightarrow> None)
           | _ \<Rightarrow> None)
      | _ \<Rightarrow> None)"

definition resolve_conformance_tool_version :: "(string, string) dict \<Rightarrow> json option \<Rightarrow> string" where
  "resolve_conformance_tool_version environ parsed_pyproject =
     (let fallback = (case read_pyproject_version parsed_pyproject of
                        None \<Rightarrow> UNKNOWN_TOOL_VERSION | Some v \<Rightarrow> v)
      in case map_of environ ''CONFORMANCE_TOOL_VERSION'' of
           None \<Rightarrow> fallback
         | Some configured \<Rightarrow> (if py_strip configured = [] then fallback else py_strip configured))"

section \<open>Lemmas\<close>

lemma policy_version_item_Inr:
  "policy_version_item loc (i, v) = Inr s \<longleftrightarrow> (\<exists>raw. v = JStr raw \<and> py_strip raw = s \<and> s \<noteq> [])"
  by (auto simp: policy_version_item_def Let_def split: json.splits)

text \<open>Every version a parsed policy approves is stripped and non-empty.\<close>

lemma parsed_policy_wf:
  assumes "parse_approved_release_policy raw = Inr policy"
  shows "ap_schema_version policy = APPROVED_RELEASE_POLICY_SCHEMA_VERSION"
    and "\<forall>v \<in> set (ap_approved_tool_versions policy). v \<noteq> [] \<and> stripped v"
proof -
  obtain obj vs loc where p: "ap_schema_version policy = APPROVED_RELEASE_POLICY_SCHEMA_VERSION"
    and vs: "rtraverse (policy_version_item loc) (enumerate 0 vs) = Inr (ap_approved_tool_versions policy)"
    using assms
    by (fastforce simp: parse_approved_release_policy_def policy_required_string_array_def Let_def result_simps
        split: if_splits)
  show "ap_schema_version policy = APPROVED_RELEASE_POLICY_SCHEMA_VERSION" by (rule p)
  show "\<forall>v \<in> set (ap_approved_tool_versions policy). v \<noteq> [] \<and> stripped v"
  proof
    fix v assume "v \<in> set (ap_approved_tool_versions policy)"
    then obtain x where "policy_version_item loc x = Inr v"
      using rtraverse_Inr_member [OF vs] by blast
    then obtain raw where "py_strip raw = v" "v \<noteq> []" by (cases x) (auto simp: policy_version_item_Inr)
    then show "v \<noteq> [] \<and> stripped v" using stripped_py_strip by blast
  qed
qed

text \<open>The version stamped into a report is never empty and carries no surrounding white space.\<close>

lemma tool_version_wf:
  "resolve_conformance_tool_version environ pyproject \<noteq> [] \<and>
   stripped (resolve_conformance_tool_version environ pyproject)"
proof -
  have "stripped UNKNOWN_TOOL_VERSION" "UNKNOWN_TOOL_VERSION \<noteq> []"
    by (simp_all add: UNKNOWN_TOOL_VERSION_def stripped_def is_space_def code_of_def)
  moreover have "stripped v \<and> v \<noteq> []" if "read_pyproject_version pyproject = Some v" for v
    using that by (auto simp: read_pyproject_version_def stripped_py_strip
        split: option.splits json.splits if_splits)
  ultimately show ?thesis
    by (auto simp: resolve_conformance_tool_version_def Let_def stripped_py_strip split: option.splits)
qed

end
