(* ===== verification/Catalogue_Model.thy ===== *)
theory Catalogue_Model
  imports Json
begin

text \<open>
  The catalogue data model (\<open>conformance/catalogue.py\<close>): the frozen dataclasses of catalogues,
  plan specs and compiled plans, field by field. Literal types are enumerations with the function
  that gives the string the source serialises. A field of type \<open>JsonValue | None\<close> is a JSON value, since
  \<open>None\<close> is also the decoded null.
\<close>

section \<open>Literal types\<close>

datatype SecurityProfile = ProfileAll | Fapi1Advanced | Fapi2

fun profile_name :: "SecurityProfile \<Rightarrow> string" where
  "profile_name ProfileAll = ''all''"
| "profile_name Fapi1Advanced = ''fapi1-advanced''"
| "profile_name Fapi2 = ''fapi2''"

datatype HttpMethod = MethodGet | MethodPost | MethodPut | MethodPatch | MethodDelete

fun method_name :: "HttpMethod \<Rightarrow> string" where
  "method_name MethodGet = ''GET''"
| "method_name MethodPost = ''POST''"
| "method_name MethodPut = ''PUT''"
| "method_name MethodPatch = ''PATCH''"
| "method_name MethodDelete = ''DELETE''"

datatype RuntimeInputType = TString | TNumber | TBoolean | TJson | TUrl | TFileReference

fun input_type_name :: "RuntimeInputType \<Rightarrow> string" where
  "input_type_name TString = ''string''"
| "input_type_name TNumber = ''number''"
| "input_type_name TBoolean = ''boolean''"
| "input_type_name TJson = ''json''"
| "input_type_name TUrl = ''url''"
| "input_type_name TFileReference = ''file_reference''"

datatype RuntimeInputSource = SrcPlan | SrcFixture | SrcGenerated | SrcCaptured | SrcToken

datatype GeneratedHeaderValue = HeaderUuid4

datatype GeneratedRuntimeValue =
    Uuid4 | Uuid4Hex | InvalidResourceId | LegacyInvalidConsentId | InvalidAccessToken
  | NextDayDateOffset | NextDayDateUtc | NextDayDateTimeOffset | NextDayDateTimeOffsetMilliseconds
  | NextDayDateTimeUtc | NextDayDateTimeUtcMilliseconds

datatype CatalogueDetachedJwsProfile = CatLegacyB64False | CatObV314Plus

datatype TestCaseRole = RoleSetup | RoleSecurity | RoleResource | RoleConsent | RoleToken

fun role_name :: "TestCaseRole \<Rightarrow> string" where
  "role_name RoleSetup = ''setup''"
| "role_name RoleSecurity = ''security''"
| "role_name RoleResource = ''resource''"
| "role_name RoleConsent = ''consent''"
| "role_name RoleToken = ''token''"

datatype AssertionKind = KHttpStatus | KJsonField | KHeader | KResponseSchema | KLegacyFcs

datatype CatalogueExecutionStepKind = XAssertion | XHttp | XState

fun exec_kind_name :: "CatalogueExecutionStepKind \<Rightarrow> string" where
  "exec_kind_name XAssertion = ''assertion''"
| "exec_kind_name XHttp = ''http''"
| "exec_kind_name XState = ''state''"

datatype CatalogueGateAbsenceBehavior = GateExclude | GateSkip

section \<open>Catalogues\<close>

record CatalogueKey =
  ck_standard :: string
  ck_version :: string
  ck_api :: string

record EndpointRef =
  er_method :: HttpMethod
  er_path :: string

record ImplementedEndpoint =
  ie_method :: HttpMethod
  ie_path :: string
  ie_resource_group :: string
  ie_operation_id :: "string option"
  ie_capability_ids :: "string list"

record SecurityProfileApplicability =
  sp_profiles :: "SecurityProfile list"

definition applies_to :: "SecurityProfileApplicability \<Rightarrow> SecurityProfile \<Rightarrow> bool" where
  "applies_to a profile = (ProfileAll \<in> set (sp_profiles a) \<or> profile \<in> set (sp_profiles a))"

record TestCaseApplicability =
  ta_security_profiles :: SecurityProfileApplicability
  ta_endpoint_refs :: "EndpointRef list"
  ta_required_capability_ids :: "string list"
  ta_specification_versions :: "string list"

record EndpointCapability =
  ec_capability_id :: string
  ec_label :: string
  ec_description :: string
  ec_required :: bool
  ec_endpoint_refs :: "EndpointRef list"

record RuntimeInputRequirement =
  ri_input_id :: string
  ri_input_type :: RuntimeInputType
  ri_label :: string
  ri_required :: bool
  ri_sensitive :: bool
  ri_description :: "string option"
  ri_source :: RuntimeInputSource

record CatalogueConfigurationRequirement =
  cr_config_path :: string
  cr_input_type :: RuntimeInputType
  cr_label :: string
  cr_required :: bool
  cr_sensitive :: bool
  cr_endpoint_refs :: "EndpointRef list"

record CatalogueRuntimeCapability =
  rc_capability_id :: string
  rc_label :: string
  rc_description :: string
  rc_supported_values :: "string list"
  rc_unsupported_values :: "string list"
  rc_generated_dependency :: bool

record CatalogueProvenance =
  pv_repository :: string
  pv_release :: string
  pv_commit :: string
  pv_source_paths :: "string list"
  pv_references :: "(string, string) dict"

record CatalogueTraceGroup =
  tg_group_id :: string
  tg_name :: string
  tg_intent :: string
  tg_source_symbol :: string
  tg_normative_reference_ids :: "string list"
  tg_required_endpoint_refs :: "EndpointRef list"
  tg_absence_behavior :: CatalogueGateAbsenceBehavior

record CatalogueExecutionStep =
  xs_step_id :: string
  xs_definition_id :: string
  xs_name :: string
  xs_kind :: CatalogueExecutionStepKind
  xs_behavior :: string
  xs_legacy_operation :: string
  xs_state_inputs :: "string list"
  xs_state_outputs :: "string list"
  xs_expected_status :: "int option"
  xs_sensitive :: bool
  xs_variant :: "string option"
  xs_deviation_id :: "string option"

record CatalogueRequestHeader =
  ch_name :: string
  ch_input_id :: "string option"
  ch_generated_value :: "GeneratedHeaderValue option"

record CataloguePsuAuthorization =
  cp_authorization_step_id :: string
  cp_authorization_step_name :: string
  cp_token_step_id :: string
  cp_token_id :: string
  cp_flow_label :: string

record CatalogueRequestStep =
  rs_step_id :: string
  rs_name :: string
  rs_method :: HttpMethod
  rs_path :: string
  rs_query_parameters :: "(string, string) dict"
  rs_runtime_input_refs :: "string list"
  rs_headers :: "CatalogueRequestHeader list"
  rs_body_template :: json
  rs_generated_values :: "(string, GeneratedRuntimeValue) dict"
  rs_required_token_id :: "string option"
  rs_produced_token_id :: "string option"
  rs_authorization_profile :: "string option"
  rs_detached_jws_omit_claims :: "string list"
  rs_detached_jws_profile :: "CatalogueDetachedJwsProfile option"
  rs_psu_authorization :: "CataloguePsuAuthorization option"
  rs_required_psu_authorization_step_id :: "string option"

record CatalogueAssertion =
  ca_assertion_id :: string
  ca_kind :: AssertionKind
  ca_description :: string
  ca_rule :: json_object
  ca_locked :: bool

record CatalogueTestCase =
  tc_test_case_id :: string
  tc_name :: string
  tc_role :: TestCaseRole
  tc_compliance_scope :: "string list"
  tc_applicability :: TestCaseApplicability
  tc_mandatory :: bool
  tc_dependencies :: "string list"
  tc_runtime_input_requirements :: "RuntimeInputRequirement list"
  tc_request_steps :: "CatalogueRequestStep list"
  tc_assertions :: "CatalogueAssertion list"
  tc_response_signature_required :: bool
  tc_trace_group :: "CatalogueTraceGroup option"
  tc_execution_steps :: "CatalogueExecutionStep list"
  tc_state_inputs :: "string list"
  tc_state_outputs :: "string list"
  tc_expected_http_statuses :: "int list"
  tc_gate_absence_behavior :: CatalogueGateAbsenceBehavior

record TestCatalogue =
  ct_key :: CatalogueKey
  ct_catalogue_version :: string
  ct_test_cases :: "CatalogueTestCase list"
  ct_capabilities :: "EndpointCapability list"
  ct_configuration_requirements :: "CatalogueConfigurationRequirement list"
  ct_runtime_capabilities :: "CatalogueRuntimeCapability list"
  ct_provenance :: "CatalogueProvenance option"

section \<open>Plan specs\<close>

record AssertionOverride =
  ao_test_case_id :: string
  ao_assertion_id :: string
  ao_reason :: string

record TestPlanSpec =
  ps_catalogue_key :: CatalogueKey
  ps_security_profile :: SecurityProfile
  ps_implemented_endpoints :: "ImplementedEndpoint list"
  ps_runtime_inputs :: json_object
  ps_specification_version :: "string option"
  ps_deselected_test_case_ids :: "string list"
  ps_assertion_overrides :: "AssertionOverride list"

section \<open>Compiled plans\<close>

record RuntimeInputTrace =
  rt_input_id :: string
  rt_input_type :: RuntimeInputType
  rt_required :: bool
  rt_sensitive :: bool
  rt_provided :: bool
  rt_value :: json

record EndpointCapabilitySelection =
  es_method :: HttpMethod
  es_path :: string
  es_capability_id :: string
  es_label :: string
  es_required :: bool

record ApplicabilityDecision =
  ad_test_case_id :: string
  ad_selected :: bool
  ad_reason :: string
  ad_dependency_of :: "string list"

record CompilerTraceability =
  ty_catalogue_key :: CatalogueKey
  ty_catalogue_version :: string
  ty_security_profile :: SecurityProfile
  ty_selected_endpoints :: "ImplementedEndpoint list"
  ty_selected_capabilities :: "EndpointCapabilitySelection list"
  ty_applicability_decisions :: "ApplicabilityDecision list"
  ty_generated_test_case_ids :: "string list"
  ty_runtime_input_snapshot :: "RuntimeInputTrace list"
  ty_non_certifying_reasons :: "string list"
  ty_provenance :: "CatalogueProvenance option"

record CompiledTestPlan =
  cp_catalogue_key :: CatalogueKey
  cp_catalogue_version :: string
  cp_security_profile :: SecurityProfile
  cp_test_cases :: "CatalogueTestCase list"
  cp_traceability :: CompilerTraceability
  cp_certifying :: bool
  cp_skipped_test_cases :: "CatalogueTestCase list"

end
