(* ===== verification/Test_Plan.thy ===== *)
theory Test_Plan
  imports Manifest_Model "HOL-Library.Multiset"
begin

text \<open>
  The test plan (\<open>conformance/test_plan.py\<close>): one entry per v1 step, pre-selected from the
  manifest's mandatory and optional flags and narrowed by deselection.
\<close>

record TestPlanEntry =
  te_step_id :: string
  te_mandatory :: bool
  te_optional :: bool
  te_selected :: bool

record TestPlan =
  tp_entries :: "TestPlanEntry list"

datatype plan_error = PlanValueError string

record plan_summary =
  ps_total :: nat
  ps_selected :: nat
  ps_deselected :: nat
  ps_mandatory_selected :: nat
  ps_mandatory_deselected :: nat

definition default_plan_from_manifest :: "Manifest \<Rightarrow> TestPlan" where
  "default_plan_from_manifest m =
     (if mf_schema_version m \<noteq> V1 then \<lparr>tp_entries = []\<rparr>
      else \<lparr>tp_entries =
        map (\<lambda>step. \<lparr>te_step_id = step_id step, te_mandatory = step_mandatory step,
                     te_optional = step_optional step,
                     te_selected = (step_mandatory step \<or> \<not> step_optional step)\<rparr>) (mf_steps m)\<rparr>)"

definition with_deselection :: "TestPlan \<Rightarrow> string list \<Rightarrow> plan_error + TestPlan" where
  "with_deselection plan step_ids =
     (let known_ids = map te_step_id (tp_entries plan);
          unknown = filter (\<lambda>i. i \<notin> set known_ids) (remdups step_ids)
      in if unknown \<noteq> [] then
           Inl (PlanValueError (''Unknown step id(s) in deselection: '' @ join '', '' (sort unknown)))
         else
           Inr \<lparr>tp_entries =
             map (\<lambda>e. e\<lparr>te_selected := (if te_step_id e \<in> set step_ids then False
                                         else te_selected e)\<rparr>) (tp_entries plan)\<rparr>)"

definition selected_step_ids :: "TestPlan \<Rightarrow> string list" where
  "selected_step_ids plan = map te_step_id (filter te_selected (tp_entries plan))"

definition deselected_step_ids :: "TestPlan \<Rightarrow> string list" where
  "deselected_step_ids plan = map te_step_id (filter (\<lambda>e. \<not> te_selected e) (tp_entries plan))"

definition deselected_mandatory_step_ids :: "TestPlan \<Rightarrow> string list" where
  "deselected_mandatory_step_ids plan =
     map te_step_id (filter (\<lambda>e. te_mandatory e \<and> \<not> te_selected e) (tp_entries plan))"

definition is_eligible_by_selection :: "TestPlan \<Rightarrow> bool" where
  "is_eligible_by_selection plan =
     (let mandatory_entries = filter te_mandatory (tp_entries plan)
      in if mandatory_entries = [] then False else list_all te_selected mandatory_entries)"

definition summary :: "TestPlan \<Rightarrow> plan_summary" where
  "summary plan =
     (let total = length (tp_entries plan);
          selected = length (filter te_selected (tp_entries plan));
          mandatory_selected = length (filter (\<lambda>e. te_mandatory e \<and> te_selected e) (tp_entries plan));
          mandatory_deselected = length (filter (\<lambda>e. te_mandatory e \<and> \<not> te_selected e) (tp_entries plan))
      in \<lparr>ps_total = total, ps_selected = selected, ps_deselected = total - selected,
          ps_mandatory_selected = mandatory_selected,
          ps_mandatory_deselected = mandatory_deselected\<rparr>)"

section \<open>Lemmas\<close>

lemma with_deselection_error:
  "(\<exists>e. with_deselection plan ids = Inl e) \<longleftrightarrow> \<not> set ids \<subseteq> set (map te_step_id (tp_entries plan))"
  by (auto simp: with_deselection_def Let_def filter_empty_conv)

lemma with_deselection_ok:
  "set ids \<subseteq> set (map te_step_id (tp_entries plan)) \<Longrightarrow>
   with_deselection plan ids =
     Inr \<lparr>tp_entries = map (\<lambda>e. e\<lparr>te_selected := (te_step_id e \<notin> set ids \<and> te_selected e)\<rparr>)
                          (tp_entries plan)\<rparr>"
  by (auto simp: with_deselection_def Let_def filter_empty_conv)

lemma with_deselection_Inr:
  assumes "with_deselection plan ids = Inr plan'"
  shows "set ids \<subseteq> set (map te_step_id (tp_entries plan))"
    and "tp_entries plan' =
           map (\<lambda>e. e\<lparr>te_selected := (te_step_id e \<notin> set ids \<and> te_selected e)\<rparr>) (tp_entries plan)"
proof -
  show sub: "set ids \<subseteq> set (map te_step_id (tp_entries plan))"
    using assms with_deselection_error [of plan ids] by force
  from with_deselection_ok [OF sub] assms
  show "tp_entries plan' =
          map (\<lambda>e. e\<lparr>te_selected := (te_step_id e \<notin> set ids \<and> te_selected e)\<rparr>) (tp_entries plan)"
    by auto
qed

lemma map_te_step_id_update [simp]:
  "map te_step_id (map (\<lambda>e. e\<lparr>te_selected := f e\<rparr>) es) = map te_step_id es"
  by simp

lemma with_deselection_selected:
  assumes "with_deselection plan ids = Inr plan'"
  shows "selected_step_ids plan' = filter (\<lambda>i. i \<notin> set ids) (selected_step_ids plan)"
proof -
  have "map te_step_id (filter te_selected
          (map (\<lambda>e. e\<lparr>te_selected := (te_step_id e \<notin> set ids \<and> te_selected e)\<rparr>) es)) =
        filter (\<lambda>i. i \<notin> set ids) (map te_step_id (filter te_selected es))" for es
    by (induction es) auto
  with with_deselection_Inr(2) [OF assms] show ?thesis
    by (simp add: selected_step_ids_def)
qed

lemma with_deselection_frame:
  "with_deselection plan ids = Inr plan' \<Longrightarrow>
   map te_step_id (tp_entries plan') = map te_step_id (tp_entries plan) \<and>
   map te_mandatory (tp_entries plan') = map te_mandatory (tp_entries plan) \<and>
   map te_optional (tp_entries plan') = map te_optional (tp_entries plan)"
  by (auto simp: with_deselection_def Let_def split: if_splits)

lemma with_deselection_compose:
  assumes 1: "with_deselection plan ids = Inr plan'" and 2: "with_deselection plan' ids' = Inr plan''"
  shows "with_deselection plan (ids @ ids') = Inr plan''"
proof -
  have sub: "set (ids @ ids') \<subseteq> set (map te_step_id (tp_entries plan))"
    using with_deselection_Inr(1) [OF 1] with_deselection_Inr(1) [OF 2]
      with_deselection_frame [OF 1] by auto
  have "tp_entries plan'' =
        map (\<lambda>e. e\<lparr>te_selected := (te_step_id e \<notin> set (ids @ ids') \<and> te_selected e)\<rparr>)
            (tp_entries plan)"
    unfolding with_deselection_Inr(2) [OF 2] with_deselection_Inr(2) [OF 1]
    by (simp add: conj_left_commute)
  with with_deselection_ok [OF sub] show ?thesis by simp
qed

lemma default_plan_ids:
  "mf_schema_version m = V1 \<Longrightarrow>
   map te_step_id (tp_entries (default_plan_from_manifest m)) = map step_id (mf_steps m)"
  by (simp add: default_plan_from_manifest_def)

lemma default_plan_selected:
  "mf_schema_version m = V1 \<Longrightarrow>
   selected_step_ids (default_plan_from_manifest m) =
     map step_id (filter (\<lambda>s. step_mandatory s \<or> \<not> step_optional s) (mf_steps m))"
  by (simp add: selected_step_ids_def default_plan_from_manifest_def filter_map comp_def)

lemma default_plan_selects_mandatory:
  "deselected_mandatory_step_ids (default_plan_from_manifest m) = []"
  by (auto simp: deselected_mandatory_step_ids_def default_plan_from_manifest_def filter_empty_conv)

lemma eligible_by_selection_iff:
  "is_eligible_by_selection plan \<longleftrightarrow>
     (\<exists>e \<in> set (tp_entries plan). te_mandatory e) \<and> deselected_mandatory_step_ids plan = []"
  by (auto simp: is_eligible_by_selection_def deselected_mandatory_step_ids_def Let_def
      filter_empty_conv list_all_iff)

lemma length_filter_split: "length (filter P xs) + length (filter (\<lambda>x. \<not> P x) xs) = length xs"
  by (rule sum_length_filter_compl)

lemma summary_counts:
  "ps_selected (summary plan) + ps_deselected (summary plan) = ps_total (summary plan)"
  "ps_selected (summary plan) = length (selected_step_ids plan)"
  "ps_deselected (summary plan) = length (deselected_step_ids plan)"
  "ps_mandatory_deselected (summary plan) = length (deselected_mandatory_step_ids plan)"
  using length_filter_split [of te_selected "tp_entries plan"]
  by (simp_all add: summary_def Let_def selected_step_ids_def deselected_step_ids_def
      deselected_mandatory_step_ids_def)

section \<open>Properties\<close>

text \<open>Deselection is refused exactly when an id is unknown; when it is accepted it removes exactly the given ids from
  the selected steps, in order, never selects anything, and leaves ids and flags of the plan alone; and deselecting in
  two calls is deselecting the concatenation in one.\<close>

lemma deselection_behaviour:
  "((\<exists>e. with_deselection plan ids = Inl e) \<longleftrightarrow> \<not> set ids \<subseteq> set (map te_step_id (tp_entries plan))) \<and>
   (\<forall>plan'. with_deselection plan ids = Inr plan' \<longrightarrow>
      selected_step_ids plan' = filter (\<lambda>i. i \<notin> set ids) (selected_step_ids plan) \<and>
      map te_step_id (tp_entries plan') = map te_step_id (tp_entries plan) \<and>
      map te_mandatory (tp_entries plan') = map te_mandatory (tp_entries plan) \<and>
      (\<forall>ids' plan''. with_deselection plan' ids' = Inr plan'' \<longrightarrow>
         with_deselection plan (ids @ ids') = Inr plan''))"
  using with_deselection_error with_deselection_selected with_deselection_frame with_deselection_compose by blast

theorem deselection_behaviour_witness:
  "\<exists>plan'. with_deselection \<lparr>tp_entries = [\<lparr>te_step_id = ''a'', te_mandatory = True, te_optional = False, te_selected = True\<rparr>,
       \<lparr>te_step_id = ''b'', te_mandatory = False, te_optional = False, te_selected = True\<rparr>]\<rparr> [''b''] = Inr plan' \<and>
     selected_step_ids plan' = [''a'']"
proof -
  let ?p = "\<lparr>tp_entries = [\<lparr>te_step_id = ''a'', te_mandatory = True, te_optional = False, te_selected = True\<rparr>,
       \<lparr>te_step_id = ''b'', te_mandatory = False, te_optional = False, te_selected = True\<rparr>]\<rparr>"
  obtain plan' where p: "with_deselection ?p [''b''] = Inr plan'"
    by (simp add: with_deselection_def Let_def)
  with deselection_behaviour [of ?p "[''b'']"] show ?thesis by (auto simp: selected_step_ids_def)
qed

text \<open>A plan is eligible by selection exactly when it has a mandatory entry and no mandatory entry is deselected; the
  default plan of a manifest never deselects a mandatory step; and the report's summary counts are the lengths of the
  corresponding id lists and add up.\<close>

lemma selection_eligibility:
  "(is_eligible_by_selection plan \<longleftrightarrow>
      (\<exists>e \<in> set (tp_entries plan). te_mandatory e) \<and> deselected_mandatory_step_ids plan = []) \<and>
   deselected_mandatory_step_ids (default_plan_from_manifest m) = [] \<and>
   ps_selected (summary plan) = length (selected_step_ids plan) \<and>
   ps_deselected (summary plan) = length (deselected_step_ids plan) \<and>
   ps_selected (summary plan) + ps_deselected (summary plan) = ps_total (summary plan) \<and>
   ps_mandatory_deselected (summary plan) = length (deselected_mandatory_step_ids plan)"
  using eligible_by_selection_iff default_plan_selects_mandatory summary_counts by blast

theorem selection_eligibility_witness:
  "is_eligible_by_selection
     \<lparr>tp_entries = [\<lparr>te_step_id = ''a'', te_mandatory = True, te_optional = False, te_selected = True\<rparr>]\<rparr>"
  using selection_eligibility
    [of "\<lparr>tp_entries = [\<lparr>te_step_id = ''a'', te_mandatory = True, te_optional = False, te_selected = True\<rparr>]\<rparr>"]
  by (simp add: deselected_mandatory_step_ids_def)

end
