(* ===== verification/Results.thy ===== *)
theory Results
  imports Approved_Releases Catalogue_Model Test_Plan
begin

text \<open>
  The structured result of a run (\<open>conformance/results.py\<close>): step results, the aggregate result,
  the self-assessed certification eligibility and the JSON report. The clock (\<open>finished_at\<close>) and
  the resolved tool version (\<open>tool_version\<close>) are arguments. A nested object the source mutates in
  place is replaced in the enclosing object, which nothing else refers to.
\<close>

datatype CheckStatus = CPassed | CFailed | CWarn | CSkipped

fun check_status_name :: "CheckStatus \<Rightarrow> string" where
  "check_status_name CPassed = ''passed''"
| "check_status_name CFailed = ''failed''"
| "check_status_name CWarn = ''warn''"
| "check_status_name CSkipped = ''skipped''"

record StepResult =
  sr_name :: string
  sr_status :: CheckStatus
  sr_message :: string
  sr_url :: "string option"
  sr_status_code :: "int option"
  sr_details :: json_object
  sr_mandatory :: bool

record SmokeCheckResult =
  sc_status :: CheckStatus
  sc_started_at :: datetime
  sc_finished_at :: datetime
  sc_steps :: "StepResult list"
  sc_plan_summary :: "plan_summary option"
  sc_deselected_mandatory_step_ids :: "string list"
  sc_approved_release_policy :: "ApprovedReleasePolicy option"
  sc_certification_coverage :: CertificationCoverage
  sc_compiled_plan :: "CompiledTestPlan option"
  sc_non_certifying_reasons :: "string list"

definition opt_member :: "string \<Rightarrow> json option \<Rightarrow> json_object" where
  "opt_member key v = (case v of None \<Rightarrow> [] | Some j \<Rightarrow> [(key, j)])"

definition count_status :: "CheckStatus \<Rightarrow> StepResult list \<Rightarrow> nat" where
  "count_status st steps = length (filter (\<lambda>s. sr_status s = st) steps)"

section \<open>Reports\<close>

definition step_to_json_object :: "StepResult \<Rightarrow> json_object" where
  "step_to_json_object s =
     [(''name'', JStr (sr_name s)), (''status'', JStr (check_status_name (sr_status s))),
      (''message'', JStr (sr_message s))]
     @ opt_member ''url'' (map_option JStr (sr_url s))
     @ opt_member ''statusCode'' (map_option JInt (sr_status_code s))
     @ (if sr_details s \<noteq> [] then [(''details'', JObj (sr_details s))] else [])"

definition build_approved_release_eligibility ::
  "ApprovedReleasePolicy option \<Rightarrow> string \<Rightarrow> json_object" where
  "build_approved_release_eligibility policy tool_version =
     (case policy of
        None \<Rightarrow> [(''checked'', JBool False), (''approved'', JBool False), (''toolVersion'', JStr tool_version)]
      | Some p \<Rightarrow> [(''checked'', JBool True), (''approved'', JBool (is_tool_version_approved p tool_version)),
                  (''toolVersion'', JStr tool_version),
                  (''policySchemaVersion'', JStr (ap_schema_version p))])"

definition eligibility_reasons ::
  "StepResult list \<Rightarrow> string list \<Rightarrow> ApprovedReleasePolicy option \<Rightarrow> string \<Rightarrow> CertificationCoverage \<Rightarrow>
   string list \<Rightarrow> string list" where
  "eligibility_reasons steps deselected policy tool_version coverage non_certifying =
     (let mandatory_steps = filter sr_mandatory steps;
          mandatory_failed = count_status CFailed mandatory_steps;
          mandatory_skipped = count_status CSkipped mandatory_steps;
          mandatory_deselected = length deselected;
          mandatory_total = length mandatory_steps + mandatory_deselected
      in (if mandatory_deselected \<noteq> 0 then [''Mandatory steps were deselected from the plan''] else [])
       @ (if mandatory_failed \<noteq> 0 then [str_nat mandatory_failed @ '' mandatory step(s) failed''] else [])
       @ (if mandatory_skipped \<noteq> 0
          then [str_nat mandatory_skipped @ '' mandatory step(s) skipped due to earlier failures''] else [])
       @ (if mandatory_total = 0 then [''No mandatory steps declared''] else [])
       @ (if coverage \<noteq> Complete then [''Manifest is not marked as complete certification coverage''] else [])
       @ non_certifying
       @ (case policy of
            Some p \<Rightarrow> (if is_tool_version_approved p tool_version then []
                       else [''Tool version is not in the approved-release policy: '' @ tool_version])
          | None \<Rightarrow> [''Approved-release policy was not supplied'']))"

definition build_eligibility ::
  "StepResult list \<Rightarrow> string list \<Rightarrow> ApprovedReleasePolicy option \<Rightarrow> string \<Rightarrow> CertificationCoverage \<Rightarrow>
   string list \<Rightarrow> json_object" where
  "build_eligibility steps deselected policy tool_version coverage non_certifying =
     (let mandatory_steps = filter sr_mandatory steps;
          reasons = eligibility_reasons steps deselected policy tool_version coverage non_certifying
      in [(''eligible'', JBool (reasons = [])),
          (''mandatoryTotal'', JInt (int (length mandatory_steps + length deselected))),
          (''mandatoryPassed'', JInt (int (count_status CPassed mandatory_steps))),
          (''mandatoryFailed'', JInt (int (count_status CFailed mandatory_steps))),
          (''mandatoryWarn'', JInt (int (count_status CWarn mandatory_steps))),
          (''mandatorySkipped'', JInt (int (count_status CSkipped mandatory_steps))),
          (''mandatoryDeselected'', JInt (int (length deselected))),
          (''mandatoryDeselectedStepIds'', JArr (map JStr deselected)),
          (''certificationCoverage'', JObj [(''value'', JStr (coverage_name coverage))]),
          (''approvedRelease'', JObj (build_approved_release_eligibility policy tool_version))]
         @ (if reasons = [] then []
            else [(''reason'', JStr (hd reasons)), (''reasons'', JArr (map JStr reasons))]))"

subsection \<open>Catalogue trace\<close>

definition aggregate_trace_status :: "CheckStatus list \<Rightarrow> CheckStatus" where
  "aggregate_trace_status statuses =
     (if CFailed \<in> set statuses then CFailed
      else if CWarn \<in> set statuses then CWarn
      else if CPassed \<in> set statuses then CPassed
      else CSkipped)"

definition result_by_step_id :: "StepResult list \<Rightarrow> string \<Rightarrow> StepResult option" where
  "result_by_step_id steps i = map_of (rev (map (\<lambda>s. (sr_name s, s)) steps)) i"

definition trace_step_status :: "StepResult list \<Rightarrow> bool \<Rightarrow> CatalogueExecutionStep \<Rightarrow> CheckStatus" where
  "trace_step_status steps case_is_unselected x =
     (if case_is_unselected then CSkipped
      else case result_by_step_id steps (xs_step_id x) of None \<Rightarrow> CSkipped | Some r \<Rightarrow> sr_status r)"

definition render_trace_step :: "StepResult list \<Rightarrow> bool \<Rightarrow> CatalogueExecutionStep \<Rightarrow> json" where
  "render_trace_step steps case_is_unselected x =
     (let step_result = result_by_step_id steps (xs_step_id x)
      in JObj ([(''stepId'', JStr (xs_step_id x)), (''definitionId'', JStr (xs_definition_id x)),
                (''name'', JStr (xs_name x)), (''kind'', JStr (exec_kind_name (xs_kind x))),
                (''status'', JStr (check_status_name (trace_step_status steps case_is_unselected x)))]
               @ opt_member ''expectedStatus'' (map_option JInt (xs_expected_status x))
               @ opt_member ''actualStatusCode''
                   (map_option JInt (Option.bind step_result sr_status_code))
               @ opt_member ''message'' (map_option (\<lambda>r. JStr (sr_message r)) step_result)
               @ opt_member ''variant'' (map_option JStr (xs_variant x))
               @ opt_member ''deviationId'' (map_option JStr (xs_deviation_id x))
               @ (if case_is_unselected then [(''skipReason'', JStr ''endpoint-not-selected'')] else [])))"

definition trace_case_status :: "StepResult list \<Rightarrow> string list \<Rightarrow> CatalogueTestCase \<Rightarrow> CheckStatus" where
  "trace_case_status steps skipped_ids tc =
     aggregate_trace_status
       (map (trace_step_status steps (tc_test_case_id tc \<in> set skipped_ids)) (tc_execution_steps tc))"

definition render_trace_case :: "StepResult list \<Rightarrow> string list \<Rightarrow> CatalogueTestCase \<Rightarrow> json" where
  "render_trace_case steps skipped_ids tc =
     (let case_is_unselected = (tc_test_case_id tc \<in> set skipped_ids)
      in JObj ([(''testCaseId'', JStr (tc_test_case_id tc)), (''name'', JStr (tc_name tc)),
                (''role'', JStr (role_name (tc_role tc))), (''mandatory'', JBool (tc_mandatory tc)),
                (''status'', JStr (check_status_name (trace_case_status steps skipped_ids tc))),
                (''complianceScope'', JArr (map JStr (tc_compliance_scope tc))),
                (''expectedHttpStatuses'', JArr (map JInt (tc_expected_http_statuses tc)))]
               @ (if case_is_unselected then [(''skipReason'', JStr ''endpoint-not-selected'')] else [])
               @ [(''steps'', JArr (map (render_trace_step steps case_is_unselected) (tc_execution_steps tc)))]))"

definition trace_cases :: "CompiledTestPlan \<Rightarrow> CatalogueTestCase list" where
  "trace_cases plan = sort_key tc_test_case_id (cp_test_cases plan @ cp_skipped_test_cases plan)"

text \<open>
  The three dictionaries of the source (\<open>grouped_cases\<close>, \<open>group_metadata\<close>, \<open>group_order\<close>) are one:
  a group's metadata and its cases, under the group id, in the order of first occurrence.
\<close>

type_synonym trace_groups = "(string, json_object \<times> CatalogueTestCase list) dict"

definition trace_group_metadata :: "CatalogueTraceGroup \<Rightarrow> json_object" where
  "trace_group_metadata g =
     [(''traceGroupId'', JStr (tg_group_id g)), (''name'', JStr (tg_name g)),
      (''intent'', JStr (tg_intent g)), (''sourceSymbol'', JStr (tg_source_symbol g)),
      (''normativeReferenceIds'', JArr (map JStr (tg_normative_reference_ids g)))]"

definition add_trace_case :: "CatalogueTestCase \<Rightarrow> trace_groups \<Rightarrow> trace_groups" where
  "add_trace_case tc groups =
     (case tc_trace_group tc of
        None \<Rightarrow> groups
      | Some g \<Rightarrow>
          (case map_of groups (tg_group_id g) of
             None \<Rightarrow> AList.update (tg_group_id g) (trace_group_metadata g, [tc]) groups
           | Some (metadata, cases) \<Rightarrow> AList.update (tg_group_id g) (metadata, cases @ [tc]) groups))"

definition render_trace_group :: "StepResult list \<Rightarrow> string list \<Rightarrow> json_object \<times> CatalogueTestCase list \<Rightarrow> json" where
  "render_trace_group steps skipped_ids = (\<lambda>(metadata, cases).
     let group_status = aggregate_trace_status (map (trace_case_status steps skipped_ids) cases)
     in JObj (metadata @ [(''status'', JStr (check_status_name group_status))]
              @ (if group_status = CSkipped then [(''skipReason'', JStr ''endpoint-not-selected'')] else [])
              @ [(''testCases'', JArr (map (render_trace_case steps skipped_ids) cases))]))"

definition compiled_trace_groups_to_json_object :: "CompiledTestPlan \<Rightarrow> StepResult list \<Rightarrow> json list" where
  "compiled_trace_groups_to_json_object plan steps =
     (let skipped_ids = map tc_test_case_id (cp_skipped_test_cases plan);
          groups = fold add_trace_case (trace_cases plan) []
      in map (\<lambda>(_, g). render_trace_group steps skipped_ids g) groups)"

definition endpoint_to_json :: "ImplementedEndpoint \<Rightarrow> json" where
  "endpoint_to_json e =
     JObj ([(''method'', JStr (method_name (ie_method e))), (''path'', JStr (ie_path e)),
            (''resourceGroup'', JStr (ie_resource_group e))]
           @ (if ie_capability_ids e \<noteq> [] then [(''capabilities'', JArr (map JStr (ie_capability_ids e)))] else [])
           @ opt_member ''operationId'' (map_option JStr (ie_operation_id e)))"

definition capability_to_json :: "EndpointCapabilitySelection \<Rightarrow> json" where
  "capability_to_json c =
     JObj [(''method'', JStr (method_name (es_method c))), (''path'', JStr (es_path c)),
           (''capabilityId'', JStr (es_capability_id c)), (''label'', JStr (es_label c)),
           (''required'', JBool (es_required c))]"

definition decision_to_json :: "ApplicabilityDecision \<Rightarrow> json" where
  "decision_to_json d =
     JObj [(''testCaseId'', JStr (ad_test_case_id d)), (''selected'', JBool (ad_selected d)),
           (''reason'', JStr (ad_reason d)), (''dependencyOf'', JArr (map JStr (ad_dependency_of d)))]"

definition input_trace_to_json :: "RuntimeInputTrace \<Rightarrow> json" where
  "input_trace_to_json t =
     JObj ([(''inputId'', JStr (rt_input_id t)), (''inputType'', JStr (input_type_name (rt_input_type t))),
            (''required'', JBool (rt_required t)), (''sensitive'', JBool (rt_sensitive t)),
            (''provided'', JBool (rt_provided t))]
           @ (if rt_value t \<noteq> JNull then [(''value'', rt_value t)] else []))"

definition provenance_to_json :: "CatalogueProvenance \<Rightarrow> json" where
  "provenance_to_json p =
     JObj [(''repository'', JStr (pv_repository p)), (''release'', JStr (pv_release p)),
           (''commit'', JStr (pv_commit p)), (''sourcePaths'', JArr (map JStr (pv_source_paths p))),
           (''references'', JObj (map (\<lambda>(k, v). (k, JStr v)) (pv_references p)))]"

definition compiled_plan_to_json_object :: "CompiledTestPlan \<Rightarrow> StepResult list \<Rightarrow> json_object" where
  "compiled_plan_to_json_object plan steps =
     (let t = cp_traceability plan;
          trace_groups = compiled_trace_groups_to_json_object plan steps
      in [(''standard'', JStr (ck_standard (ty_catalogue_key t))),
          (''version'', JStr (ck_version (ty_catalogue_key t))),
          (''api'', JStr (ck_api (ty_catalogue_key t))),
          (''catalogueVersion'', JStr (ty_catalogue_version t)),
          (''securityProfile'', JStr (profile_name (ty_security_profile t))),
          (''certifying'', JBool (cp_certifying plan)),
          (''generatedTestCaseIds'', JArr (map JStr (ty_generated_test_case_ids t))),
          (''skippedTestCaseIds'', JArr (map (\<lambda>c. JStr (tc_test_case_id c)) (cp_skipped_test_cases plan))),
          (''selectedEndpoints'', JArr (map endpoint_to_json (ty_selected_endpoints t))),
          (''selectedCapabilities'', JArr (map capability_to_json (ty_selected_capabilities t))),
          (''applicabilityDecisions'', JArr (map decision_to_json (ty_applicability_decisions t))),
          (''runtimeInputSnapshot'', JArr (map input_trace_to_json (ty_runtime_input_snapshot t))),
          (''nonCertifyingReasons'', JArr (map JStr (ty_non_certifying_reasons t)))]
         @ opt_member ''provenance'' (map_option provenance_to_json (ty_provenance t))
         @ (if trace_groups \<noteq> [] then [(''traceGroups'', JArr trace_groups)] else []))"

subsection \<open>The report\<close>

definition plan_summary_to_json :: "plan_summary \<Rightarrow> json" where
  "plan_summary_to_json p =
     JObj [(''totalSteps'', JInt (int (ps_total p))), (''selectedSteps'', JInt (int (ps_selected p))),
           (''deselectedSteps'', JInt (int (ps_deselected p))),
           (''mandatorySelected'', JInt (int (ps_mandatory_selected p))),
           (''mandatoryDeselected'', JInt (int (ps_mandatory_deselected p)))]"

definition result_to_json_object :: "string \<Rightarrow> SmokeCheckResult \<Rightarrow> json_object" where
  "result_to_json_object tool_version r =
     [(''metadata'', JObj [(''reportVersion'', JStr REPORT_METADATA_VERSION)]),
      (''tool'', JObj [(''version'', JStr tool_version)]),
      (''status'', JStr (check_status_name (sc_status r))),
      (''startedAt'', JStr (isoformat (sc_started_at r))),
      (''finishedAt'', JStr (isoformat (sc_finished_at r))),
      (''summary'', JObj [(''total'', JInt (int (length (sc_steps r)))),
                          (''passed'', JInt (int (count_status CPassed (sc_steps r)))),
                          (''failed'', JInt (int (count_status CFailed (sc_steps r)))),
                          (''warn'', JInt (int (count_status CWarn (sc_steps r)))),
                          (''skipped'', JInt (int (count_status CSkipped (sc_steps r))))]),
      (''certificationEligibility'',
         JObj (build_eligibility (sc_steps r) (sc_deselected_mandatory_step_ids r)
                 (sc_approved_release_policy r) tool_version (sc_certification_coverage r)
                 (sc_non_certifying_reasons r))),
      (''steps'', JArr (map (\<lambda>s. JObj (step_to_json_object s)) (sc_steps r)))]
     @ opt_member ''plan'' (map_option plan_summary_to_json (sc_plan_summary r))
     @ opt_member ''catalogue''
         (map_option (\<lambda>p. JObj (compiled_plan_to_json_object p (sc_steps r))) (sc_compiled_plan r))"

definition build_smoke_check_result ::
  "StepResult list \<Rightarrow> datetime \<Rightarrow> datetime \<Rightarrow> TestPlan option \<Rightarrow> ApprovedReleasePolicy option \<Rightarrow>
   CertificationCoverage \<Rightarrow> CompiledTestPlan option \<Rightarrow> string list \<Rightarrow> SmokeCheckResult" where
  "build_smoke_check_result steps started_at finished_at plan policy coverage compiled_plan non_certifying =
     \<lparr>sc_status = (if list_all (\<lambda>s. sr_status s \<in> {CPassed, CWarn}) steps then CPassed else CFailed),
      sc_started_at = started_at, sc_finished_at = finished_at, sc_steps = steps,
      sc_plan_summary = map_option summary plan,
      sc_deselected_mandatory_step_ids =
        (case plan of None \<Rightarrow> [] | Some p \<Rightarrow> deselected_mandatory_step_ids p),
      sc_approved_release_policy = policy, sc_certification_coverage = coverage,
      sc_compiled_plan = compiled_plan, sc_non_certifying_reasons = non_certifying\<rparr>"

subsection \<open>Development-mode evidence\<close>

definition DEVELOPMENT_REASON :: string where
  "DEVELOPMENT_REASON = ''Development-mode run is not certification evidence''"

definition append_warning :: "json \<Rightarrow> json list \<Rightarrow> json list" where
  "append_warning raw_issue reasons =
     (case raw_issue of
        JObj issue \<Rightarrow>
          if jget issue ''severity'' \<noteq> JStr ''warning'' then reasons
          else (case jget issue ''message'' of
                  JStr message \<Rightarrow> (if JStr message \<in> set reasons then reasons else reasons @ [JStr message])
                | _ \<Rightarrow> reasons)
      | _ \<Rightarrow> reasons)"

definition mark_development_result_evidence :: "json_object \<Rightarrow> json_object \<Rightarrow> json_object" where
  "mark_development_result_evidence validation_result result_object =
     (if jget validation_result ''executionMode'' \<noteq> JStr ''development'' then result_object
      else
        let result1 = (case jget result_object ''metadata'' of
              JObj metadata \<Rightarrow>
                AList.update ''metadata''
                  (JObj (AList.update ''executionMode'' (JStr ''development'') metadata)) result_object
            | _ \<Rightarrow> AList.update ''metadata'' (JObj [(''executionMode'', JStr ''development'')]) result_object)
        in case jget result1 ''certificationEligibility'' of
             JObj eligibility \<Rightarrow>
               let reasons0 = arr_of (jget eligibility ''reasons'');
                   reasons1 = (if JStr DEVELOPMENT_REASON \<in> set reasons0 then reasons0
                               else JStr DEVELOPMENT_REASON # reasons0);
                   reasons2 = fold append_warning (arr_of (jget validation_result ''issues'')) reasons1
               in AList.update ''certificationEligibility''
                    (JObj (AList.update ''reasons'' (JArr reasons2)
                      (AList.update ''reason'' (JStr DEVELOPMENT_REASON)
                        (AList.update ''eligible'' (JBool False) eligibility)))) result1
           | _ \<Rightarrow> result1)"

section \<open>Lemmas\<close>

text \<open>The aggregate is the maximum of the children in the order skipped, passed, warn, failed.\<close>

fun severity :: "CheckStatus \<Rightarrow> nat" where
  "severity CSkipped = 0"
| "severity CPassed = 1"
| "severity CWarn = 2"
| "severity CFailed = 3"

lemma severity_inj: "severity a = severity b \<longleftrightarrow> a = b"
  by (cases a; cases b) auto

lemma severity_ranks:
  "(severity st = 0) = (st = CSkipped)" "(severity st = 1) = (st = CPassed)"
  "(severity st = 2) = (st = CWarn)" "(severity st = 3) = (st = CFailed)" "severity st \<le> 3"
  by (cases st; simp)+

lemma aggregate_upper: "st \<in> set sts \<Longrightarrow> severity st \<le> severity (aggregate_trace_status sts)"
  by (cases st) (auto simp: aggregate_trace_status_def)

lemma aggregate_attained: "aggregate_trace_status sts = CSkipped \<or> aggregate_trace_status sts \<in> set sts"
  by (auto simp: aggregate_trace_status_def)

lemma aggregate_eqI:
  assumes "\<And>st. st \<in> set sts \<Longrightarrow> severity st \<le> severity b" and "b = CSkipped \<or> b \<in> set sts"
  shows "aggregate_trace_status sts = b"
  using assms aggregate_upper [of b sts] aggregate_attained [of sts]
  by (metis le_antisym le_zero_eq severity.simps(1) severity_inj)

lemma aggregate_concat:
  "aggregate_trace_status (map aggregate_trace_status xss) = aggregate_trace_status (concat xss)"
proof (rule aggregate_eqI)
  show "severity st \<le> severity (aggregate_trace_status (concat xss))"
    if "st \<in> set (map aggregate_trace_status xss)" for st
  proof -
    from that obtain xs where xs: "xs \<in> set xss" "st = aggregate_trace_status xs" by auto
    then have "st = CSkipped \<or> st \<in> set (concat xss)" using aggregate_attained [of xs] by auto
    then show ?thesis using aggregate_upper by fastforce
  qed
  let ?a = "aggregate_trace_status (concat xss)"
  show "?a = CSkipped \<or> ?a \<in> set (map aggregate_trace_status xss)"
  proof (cases "?a = CSkipped")
    case False
    then obtain xs where xs: "xs \<in> set xss" "?a \<in> set xs" using aggregate_attained [of "concat xss"] by auto
    have "severity st \<le> severity ?a" if "st \<in> set xs" for st
      using aggregate_upper [of st "concat xss"] xs that by auto
    then have "aggregate_trace_status xs = ?a" using xs(2) by (intro aggregate_eqI) auto
    with xs(1) show ?thesis by (metis image_eqI set_map)
  qed simp
qed

lemma aggregate_failed_iff: "aggregate_trace_status sts = CFailed \<longleftrightarrow> CFailed \<in> set sts"
  by (auto simp: aggregate_trace_status_def)

lemma build_status_iff:
  "sc_status (build_smoke_check_result steps t0 t1 plan policy cov cp nc) = CPassed \<longleftrightarrow>
     (\<forall>s \<in> set steps. sr_status s = CPassed \<or> sr_status s = CWarn)"
  by (auto simp: build_smoke_check_result_def list_all_iff)

lemma count_status_zero: "count_status st steps = 0 \<longleftrightarrow> (\<forall>s \<in> set steps. sr_status s \<noteq> st)"
  by (auto simp: count_status_def filter_empty_conv)

lemma count_status_pos: "0 < count_status st steps \<longleftrightarrow> (\<exists>s \<in> set steps. sr_status s = st)"
  using count_status_zero [of st steps] by auto

lemma eligible_iff:
  "eligibility_reasons steps deselected policy v cov nc = [] \<longleftrightarrow>
     deselected = [] \<and> nc = [] \<and> cov = Complete \<and>
     (\<exists>s \<in> set steps. sr_mandatory s) \<and>
     (\<forall>s \<in> set steps. sr_mandatory s \<longrightarrow> sr_status s = CPassed \<or> sr_status s = CWarn) \<and>
     (\<exists>p. policy = Some p \<and> is_tool_version_approved p v)"
proof -
  have "sr_status s \<noteq> CFailed \<and> sr_status s \<noteq> CSkipped \<longleftrightarrow> sr_status s = CPassed \<or> sr_status s = CWarn" for s
    by (cases "sr_status s") auto
  then show ?thesis
    by (auto simp: eligibility_reasons_def Let_def count_status_zero count_status_pos filter_empty_conv
        split: option.splits)
qed

lemma jget_eligible:
  "jget (build_eligibility steps d p v cov nc) ''eligible'' =
     JBool (eligibility_reasons steps d p v cov nc = [])"
  by (simp add: build_eligibility_def Let_def)

text \<open>The groups a trace collects: every case of the plan with a group, in its group, once.\<close>

lemma add_trace_case_cases:
  "mset (concat (map (\<lambda>(_, _, cs). cs) (add_trace_case tc groups))) =
     mset (concat (map (\<lambda>(_, _, cs). cs) groups)) + (if tc_trace_group tc = None then {#} else {#tc#})"
proof (cases "tc_trace_group tc")
  case (Some g)
  have upd: "mset (concat (map (\<lambda>(_, _, cs). cs) (AList.update k (m, cs @ [tc]) gs))) =
             mset (concat (map (\<lambda>(_, _, cs). cs) gs)) + {#tc#}"
    if "map_of gs k = Some (m, cs)" for k m cs and gs :: trace_groups
    using that by (induction gs) (auto split: if_splits)
  have new: "mset (concat (map (\<lambda>(_, _, cs). cs) (AList.update k (m, [tc]) gs))) =
             mset (concat (map (\<lambda>(_, _, cs). cs) gs)) + {#tc#}"
    if "map_of gs k = None" for k m and gs :: trace_groups
    using that by (induction gs) (auto split: if_splits)
  show ?thesis
    using Some by (auto simp: add_trace_case_def upd new split: option.split)
qed (simp add: add_trace_case_def)

lemma trace_groups_cases:
  "mset (concat (map (\<lambda>(_, _, cs). cs) (fold add_trace_case tcs groups))) =
     mset (concat (map (\<lambda>(_, _, cs). cs) groups)) + mset (filter (\<lambda>tc. tc_trace_group tc \<noteq> None) tcs)"
  by (induction tcs arbitrary: groups) (auto simp: add_trace_case_cases)

section \<open>Properties\<close>

text \<open>C30: A report is marked certification-eligible exactly when no mandatory step was deselected, no catalogue reason blocks,
  the manifest declares complete coverage, at least one mandatory step ran, every mandatory step passed or warned, and an
  approved-release policy was supplied that lists the tool version; otherwise the report names a first blocking reason.\<close>

theorem eligibility_characterised:
  "(jget (build_eligibility steps deselected policy v cov nc) ''eligible'' = JBool True \<longleftrightarrow>
      deselected = [] \<and> nc = [] \<and> cov = Complete \<and> (\<exists>s \<in> set steps. sr_mandatory s) \<and>
      (\<forall>s \<in> set steps. sr_mandatory s \<longrightarrow> sr_status s = CPassed \<or> sr_status s = CWarn) \<and>
      (\<exists>p. policy = Some p \<and> is_tool_version_approved p v)) \<and>
   (jget (build_eligibility steps deselected policy v cov nc) ''eligible'' = JBool True \<or>
    (\<exists>reason rest. jget (build_eligibility steps deselected policy v cov nc) ''reason'' = JStr reason \<and>
       jget (build_eligibility steps deselected policy v cov nc) ''reasons'' = JArr (map JStr (reason # rest))))"
proof (cases "eligibility_reasons steps deselected policy v cov nc")
  case Nil
  then show ?thesis using eligible_iff [of steps deselected policy v cov nc] by (simp add: jget_eligible)
next
  case (Cons reason rest)
  let ?b = "build_eligibility steps deselected policy v cov nc"
  have "jget ?b ''reason'' = JStr reason" "jget ?b ''reasons'' = JArr (map JStr (reason # rest))"
    using Cons by (simp_all add: build_eligibility_def Let_def)
  moreover have "jget ?b ''eligible'' = JBool False" using Cons by (simp add: jget_eligible)
  moreover have "\<not> (deselected = [] \<and> nc = [] \<and> cov = Complete \<and> (\<exists>s \<in> set steps. sr_mandatory s) \<and>
      (\<forall>s \<in> set steps. sr_mandatory s \<longrightarrow> sr_status s = CPassed \<or> sr_status s = CWarn) \<and>
      (\<exists>p. policy = Some p \<and> is_tool_version_approved p v))"
    unfolding eligible_iff [symmetric] using Cons by simp
  ultimately show ?thesis by (metis (no_types) json.inject(1))
qed

definition sample_result :: "string \<Rightarrow> CheckStatus \<Rightarrow> bool \<Rightarrow> StepResult" where
  "sample_result i st mandatory =
     \<lparr>sr_name = i, sr_status = st, sr_message = ''done'', sr_url = None, sr_status_code = Some 200,
      sr_details = [], sr_mandatory = mandatory\<rparr>"

theorem eligibility_characterised_witness:
  "jget (build_eligibility [sample_result ''accounts'' CPassed True] []
     (Some \<lparr>ap_schema_version = ''v1'', ap_approved_tool_versions = [''2.0'']\<rparr>) ''2.0'' Complete []) ''eligible'' = JBool True"
  using eligibility_characterised [of "[sample_result ''accounts'' CPassed True]" "[]"
     "Some \<lparr>ap_schema_version = ''v1'', ap_approved_tool_versions = [''2.0'']\<rparr>" "''2.0''" Complete "[]"]
  by (simp add: sample_result_def is_tool_version_approved_def)

text \<open>In the catalogue trace the status of a group is the worst status of all the steps of all its cases, in the order
  skipped, passed, warn, failed: aggregating the cases' aggregates is aggregating the steps, the aggregate is an upper
  bound, and it is attained.\<close>

lemma trace_group_status_is_worst_step:
  "aggregate_trace_status (map (trace_case_status steps skipped) cases) =
     aggregate_trace_status (concat (map (\<lambda>tc. map (trace_step_status steps (tc_test_case_id tc \<in> set skipped))
                                             (tc_execution_steps tc)) cases)) \<and>
   (\<forall>sts. (\<forall>st \<in> set sts. severity st \<le> severity (aggregate_trace_status sts)) \<and>
          (aggregate_trace_status sts = CSkipped \<or> aggregate_trace_status sts \<in> set sts))"
proof -
  have "map (trace_case_status steps skipped) cases =
        map aggregate_trace_status (map (\<lambda>tc. map (trace_step_status steps (tc_test_case_id tc \<in> set skipped))
                                             (tc_execution_steps tc)) cases)"
    by (simp add: trace_case_status_def)
  then show ?thesis using aggregate_upper aggregate_attained aggregate_concat by metis
qed

theorem trace_group_status_is_worst_step_witness:
  "aggregate_trace_status [CPassed, CFailed, CSkipped] = CFailed"
  using trace_group_status_is_worst_step [of "[]" "[]" "[]"]
  by (auto simp: aggregate_trace_status_def)

end
