(* ===== verification/Signing.thy ===== *)
theory Signing
  imports Json Manifest_Model
begin

text \<open>
  Request signing and response-signature validation: \<open>signing_credentials.py\<close>, \<open>signing_service.py\<close> and
  \<open>response_signature.py\<close>. The JOSE library is a record of parameters, one field per call the suite makes (and
  \<open>json_loads_utf8\<close>, the value of \<open>json.loads\<close> on UTF-8 bytes, \<open>None\<close> for its \<open>ValueError\<close>); files are
  read through the parameter \<open>read_bytes\<close>; the clock is the parameter \<open>clock\<close>, whole seconds since the epoch or
  \<open>None\<close> for a naive timestamp. An exception the executor reports is its message, a \<open>string\<close>.
\<close>

section \<open>The JOSE library\<close>

datatype 'key import_outcome = Imported 'key | RaisedValueOrTypeError | RaisedJoseError

datatype verify_outcome = Verified | VerifyJoseError | VerifyValueError string

datatype jwk_parameter = JwkString string | JwkStrings "string list"

record 'key jose =
  jose_import_pem :: "string \<Rightarrow> 'key import_outcome"
  jose_import_jwk :: "(string, jwk_parameter) dict \<Rightarrow> 'key import_outcome"
  jose_import_x5c :: "string \<Rightarrow> 'key import_outcome"
  jose_public :: "'key \<Rightarrow> json_object"
  jose_has_private :: "'key \<Rightarrow> bool"
  jose_jwt_encode :: "json_object \<Rightarrow> json_object \<Rightarrow> 'key \<Rightarrow> string option"
  jose_serialize :: "json_object \<Rightarrow> string \<Rightarrow> 'key \<Rightarrow> string option"
  jose_detach :: "string \<Rightarrow> string option"
  jose_verify :: "string \<Rightarrow> 'key \<Rightarrow> string \<Rightarrow> verify_outcome"
  json_loads_utf8 :: "nat list \<Rightarrow> json option"

section \<open>Signing credentials\<close>

datatype TokenEndpointClientAuthMode = PrivateKeyJwt | TlsClientAuth

record FapiSigningConfig =
  fs_signing_certificate_path :: string
  fs_signing_private_key_path :: string
  fs_key_id :: string
  fs_client_assertion_issuer :: string
  fs_client_assertion_subject :: string
  fs_token_endpoint_auth_method :: TokenEndpointClientAuthMode

record SigningCredentials =
  cr_signing_certificate_pem :: string
  cr_signing_private_key_pem :: string

definition read_pem_bytes :: "(string \<Rightarrow> string option) \<Rightarrow> string \<Rightarrow> string \<Rightarrow> string + string" where
  "read_pem_bytes read_bytes path label =
     (case read_bytes path of
        None \<Rightarrow> Inl (''Unable to read '' @ label @ '' from disk'')
      | Some content \<Rightarrow> Inr content)"

definition load_certificate_public_key :: "'key jose \<Rightarrow> string \<Rightarrow> string + 'key" where
  "load_certificate_public_key jose certificate_pem =
     (let bad = Inl ''fapiSigning.signingCertificatePath must contain a valid PEM certificate''
      in if \<not> str_contains ''CERTIFICATE'' certificate_pem then bad
         else case jose_import_pem jose certificate_pem of Imported k \<Rightarrow> Inr k | _ \<Rightarrow> bad)"

definition load_private_key :: "'key jose \<Rightarrow> string \<Rightarrow> string + 'key" where
  "load_private_key jose private_key_pem =
     (let bad = Inl ''fapiSigning.signingPrivateKeyPath must contain a valid PEM private key''
      in case jose_import_pem jose private_key_pem of
           Imported k \<Rightarrow> if jose_has_private jose k then Inr k else bad
         | _ \<Rightarrow> bad)"

definition load_signing_credentials ::
  "'key jose \<Rightarrow> (string \<Rightarrow> string option) \<Rightarrow> FapiSigningConfig \<Rightarrow> string + SigningCredentials" where
  "load_signing_credentials jose read_bytes config =
     rbind (read_pem_bytes read_bytes (fs_signing_certificate_path config) ''fapiSigning.signingCertificatePath'')
       (\<lambda>certificate_pem.
     rbind (read_pem_bytes read_bytes (fs_signing_private_key_path config) ''fapiSigning.signingPrivateKeyPath'')
       (\<lambda>private_key_pem.
     rbind (load_certificate_public_key jose certificate_pem) (\<lambda>certificate_public_key.
     rbind (load_private_key jose private_key_pem) (\<lambda>signing_private_key.
       if \<not> py_eq (JObj (jose_public jose signing_private_key)) (JObj (jose_public jose certificate_public_key))
       then Inl ''fapiSigning signing certificate and private key must form a matching RSA key pair''
       else Inr \<lparr>cr_signing_certificate_pem = certificate_pem, cr_signing_private_key_pem = private_key_pem\<rparr>))))"

section \<open>The signing service\<close>

record FapiSigningService =
  sv_signing_config :: FapiSigningConfig
  sv_signing_credentials :: SigningCredentials

record RequestObjectSigningInput =
  ro_issuer :: string
  ro_audience :: string
  ro_client_id :: string
  ro_redirect_uri :: string
  ro_response_type :: string
  ro_scope :: string
  ro_state :: string
  ro_nonce :: string
  ro_openbanking_intent_id :: "string option"

record SignedJwt =
  sj_token :: string
  sj_key_id :: string
  sj_issuer :: string
  sj_subject :: "string option"
  sj_audience :: string
  sj_issued_at :: int
  sj_expires_at :: int
  sj_jwt_id :: string

definition OPEN_BANKING_IAT :: string where
  "OPEN_BANKING_IAT = ''http://openbanking.org.uk/iat''"

definition OPEN_BANKING_ISS :: string where
  "OPEN_BANKING_ISS = ''http://openbanking.org.uk/iss''"

definition OPEN_BANKING_TAN :: string where
  "OPEN_BANKING_TAN = ''http://openbanking.org.uk/tan''"

definition OPEN_BANKING_TRUST_ANCHOR :: string where
  "OPEN_BANKING_TRUST_ANCHOR = ''openbanking.org.uk''"

definition DEFAULT_JWT_LIFETIME :: int where
  "DEFAULT_JWT_LIFETIME = 300"

definition naive_clock :: string where
  "naive_clock = ''Signing clock must return a timezone-aware datetime''"

definition build_token_window :: "int option \<Rightarrow> int \<Rightarrow> string + int \<times> int" where
  "build_token_window clock lifetime =
     (if lifetime \<le> 0 then Inl ''JWT lifetime must be greater than zero seconds''
      else case clock of None \<Rightarrow> Inl naive_clock | Some issued_at \<Rightarrow> Inr (issued_at, issued_at + lifetime))"

definition build_jwt_id :: "string \<Rightarrow> string + string" where
  "build_jwt_id candidate =
     (let jwt_id = py_strip candidate
      in if jwt_id = [] then Inl ''JWT ID factory must return a non-empty string'' else Inr jwt_id)"

definition require_non_empty_string :: "string \<Rightarrow> string \<Rightarrow> string + string" where
  "require_non_empty_string v label =
     (let stripped_value = py_strip v
      in if stripped_value = [] then Inl (label @ '' must be a non-empty string'') else Inr stripped_value)"

definition sign_ps256_jwt :: "'key jose \<Rightarrow> string \<Rightarrow> string \<Rightarrow> json_object \<Rightarrow> string + string" where
  "sign_ps256_jwt jose private_key_pem key_id claims =
     (let bad = Inl ''Unable to sign PS256 JWT with configured FAPI signing key''
      in case jose_import_pem jose private_key_pem of
           Imported signing_key \<Rightarrow>
             (case jose_jwt_encode jose [(''alg'', JStr ''PS256''), (''kid'', JStr key_id), (''typ'', JStr ''JWT'')]
                     claims signing_key of
                None \<Rightarrow> bad
              | Some token \<Rightarrow> Inr token)
         | _ \<Rightarrow> bad)"

definition request_object_claims :: "RequestObjectSigningInput \<Rightarrow> int \<Rightarrow> int \<Rightarrow> string \<Rightarrow> json_object" where
  "request_object_claims r issued_at expires_at jwt_id =
     [(''iss'', JStr (ro_issuer r)), (''aud'', JStr (ro_audience r)), (''client_id'', JStr (ro_client_id r)),
      (''redirect_uri'', JStr (ro_redirect_uri r)), (''response_type'', JStr (ro_response_type r)),
      (''scope'', JStr (ro_scope r)), (''state'', JStr (ro_state r)), (''nonce'', JStr (ro_nonce r)),
      (''iat'', JInt issued_at), (''nbf'', JInt issued_at), (''exp'', JInt expires_at), (''jti'', JStr jwt_id)]
     @ (case ro_openbanking_intent_id r of
          None \<Rightarrow> []
        | Some intent_id \<Rightarrow>
            [(''claims'', JObj [(''id_token'', JObj [(''openbanking_intent_id'',
                JObj [(''essential'', JBool True), (''value'', JStr intent_id)])])])])"

text \<open>The fields of a request object, stripped; the first blank one is the error.\<close>

definition strip_request_object :: "RequestObjectSigningInput \<Rightarrow> string + RequestObjectSigningInput" where
  "strip_request_object r =
     rbind (require_non_empty_string (ro_issuer r) ''request_object.issuer'') (\<lambda>issuer.
     rbind (require_non_empty_string (ro_audience r) ''request_object.audience'') (\<lambda>audience.
     rbind (require_non_empty_string (ro_client_id r) ''request_object.client_id'') (\<lambda>client_id.
     rbind (require_non_empty_string (ro_redirect_uri r) ''request_object.redirect_uri'') (\<lambda>redirect_uri.
     rbind (require_non_empty_string (ro_response_type r) ''request_object.response_type'') (\<lambda>response_type.
     rbind (require_non_empty_string (ro_scope r) ''request_object.scope'') (\<lambda>scope.
     rbind (require_non_empty_string (ro_state r) ''request_object.state'') (\<lambda>state.
     rbind (require_non_empty_string (ro_nonce r) ''request_object.nonce'') (\<lambda>nonce.
     rbind (case ro_openbanking_intent_id r of
              None \<Rightarrow> Inr None
            | Some i \<Rightarrow> rbind (require_non_empty_string i ''request_object.openbanking_intent_id'') (\<lambda>s. Inr (Some s)))
       (\<lambda>intent_id.
       Inr \<lparr>ro_issuer = issuer, ro_audience = audience, ro_client_id = client_id, ro_redirect_uri = redirect_uri,
            ro_response_type = response_type, ro_scope = scope, ro_state = state, ro_nonce = nonce,
            ro_openbanking_intent_id = intent_id\<rparr>)))))))))"

definition sign_request_object ::
  "'key jose \<Rightarrow> int option \<Rightarrow> string \<Rightarrow> int \<Rightarrow> FapiSigningService \<Rightarrow> RequestObjectSigningInput \<Rightarrow> string + SignedJwt" where
  "sign_request_object jose clock new_jwt_id lifetime sv request_object =
     rbind (strip_request_object request_object) (\<lambda>r.
     rbind (build_token_window clock lifetime) (\<lambda>(issued_at, expires_at).
     rbind (build_jwt_id new_jwt_id) (\<lambda>jwt_id.
     rbind (sign_ps256_jwt jose (cr_signing_private_key_pem (sv_signing_credentials sv)) (fs_key_id (sv_signing_config sv))
              (request_object_claims r issued_at expires_at jwt_id)) (\<lambda>token.
       Inr \<lparr>sj_token = token, sj_key_id = fs_key_id (sv_signing_config sv), sj_issuer = ro_issuer r, sj_subject = None,
            sj_audience = ro_audience r, sj_issued_at = issued_at, sj_expires_at = expires_at, sj_jwt_id = jwt_id\<rparr>))))"

definition sign_client_assertion ::
  "'key jose \<Rightarrow> int option \<Rightarrow> string \<Rightarrow> int \<Rightarrow> FapiSigningService \<Rightarrow> string \<Rightarrow> string + SignedJwt" where
  "sign_client_assertion jose clock new_jwt_id lifetime sv audience_value =
     (let config = sv_signing_config sv in
     rbind (require_non_empty_string (fs_client_assertion_issuer config) ''fapiSigning.clientAssertionIssuer'') (\<lambda>issuer.
     rbind (require_non_empty_string (fs_client_assertion_subject config) ''fapiSigning.clientAssertionSubject'') (\<lambda>subject.
     rbind (require_non_empty_string audience_value ''client_assertion.audience'') (\<lambda>audience.
     rbind (build_token_window clock lifetime) (\<lambda>(issued_at, expires_at).
     rbind (build_jwt_id new_jwt_id) (\<lambda>jwt_id.
     rbind (sign_ps256_jwt jose (cr_signing_private_key_pem (sv_signing_credentials sv)) (fs_key_id config)
              [(''iss'', JStr issuer), (''sub'', JStr subject), (''aud'', JStr audience), (''iat'', JInt issued_at),
               (''exp'', JInt expires_at), (''jti'', JStr jwt_id)]) (\<lambda>token.
       Inr \<lparr>sj_token = token, sj_key_id = fs_key_id config, sj_issuer = issuer, sj_subject = Some subject,
            sj_audience = audience, sj_issued_at = issued_at, sj_expires_at = expires_at, sj_jwt_id = jwt_id\<rparr>)))))))"

subsection \<open>Detached signatures\<close>

definition issued_at_seconds :: "int option \<Rightarrow> string + int" where
  "issued_at_seconds clock = (case clock of None \<Rightarrow> Inl naive_clock | Some t \<Rightarrow> Inr t)"

definition header_name_by_alias :: "string \<Rightarrow> string option" where
  "header_name_by_alias =
     map_of [(''iat'', OPEN_BANKING_IAT), (''iss'', OPEN_BANKING_ISS), (''tan'', OPEN_BANKING_TAN)]"

fun omitted_headers :: "string list \<Rightarrow> string list \<Rightarrow> string + string list" where
  "omitted_headers acc [] = Inr acc"
| "omitted_headers acc (header_alias # aliases) =
     (case header_name_by_alias header_alias of
        None \<Rightarrow> Inl (''Unsupported Open Banking protected-header omission '' @ quoted header_alias)
      | Some h \<Rightarrow> omitted_headers (if h \<in> set acc then acc else acc @ [h]) aliases)"

definition open_banking_protected_headers_to_omit :: "string list \<Rightarrow> string + string list" where
  "open_banking_protected_headers_to_omit aliases = omitted_headers [] aliases"

definition omit_header :: "json_object \<Rightarrow> string \<Rightarrow> json_object" where
  "omit_header header name =
     (let popped = AList.delete name header
      in case map_of popped ''crit'' of
           Some (JArr crit) \<Rightarrow> AList.update ''crit'' (JArr (remove1 (JStr name) crit)) popped
         | _ \<Rightarrow> popped)"

definition detached_jws_protected_header ::
  "string \<Rightarrow> DetachedJwsProfile \<Rightarrow> string \<Rightarrow> int \<Rightarrow> string list \<Rightarrow> string + json_object" where
  "detached_jws_protected_header key_id profile issuer issued_at omit_protected_headers =
     (if omit_protected_headers \<noteq> [] \<and> profile \<noteq> ObV314Plus
      then Inl ''Protected-header omission is only supported for the OB v3.1.4+ detached-JWS profile''
      else if profile = LegacyB64False
      then Inr [(''alg'', JStr ''PS256''), (''kid'', JStr key_id), (''b64'', JBool False), (''crit'', JArr [JStr ''b64''])]
      else rbind (open_banking_protected_headers_to_omit omit_protected_headers) (\<lambda>omitted.
        Inr (foldl omit_header
          [(''alg'', JStr ''PS256''), (''kid'', JStr key_id), (''typ'', JStr ''JOSE''), (''cty'', JStr ''application/json''),
           (OPEN_BANKING_IAT, JInt issued_at), (OPEN_BANKING_ISS, JStr issuer),
           (OPEN_BANKING_TAN, JStr OPEN_BANKING_TRUST_ANCHOR),
           (''crit'', JArr [JStr OPEN_BANKING_IAT, JStr OPEN_BANKING_ISS, JStr OPEN_BANKING_TAN])] omitted)))"

text \<open>
  The error of \<open>_detached_jws_protected_header\<close> is a \<open>ValueError\<close> raised inside the \<open>try\<close> block, so its own handler
  replaces it.
\<close>

definition sign_ps256_detached_jws ::
  "'key jose \<Rightarrow> string \<Rightarrow> string \<Rightarrow> string \<Rightarrow> DetachedJwsProfile \<Rightarrow> string \<Rightarrow> int \<Rightarrow> string list \<Rightarrow> string + string" where
  "sign_ps256_detached_jws jose private_key_pem key_id payload profile issuer issued_at omit_protected_headers =
     (let bad = Inl ''Unable to sign PS256 detached JWS with configured FAPI signing key''
      in case jose_import_pem jose private_key_pem of
           Imported signing_key \<Rightarrow>
             (case detached_jws_protected_header key_id profile issuer issued_at omit_protected_headers of
                Inl _ \<Rightarrow> bad
              | Inr header \<Rightarrow>
                  (case Option.bind (jose_serialize jose header payload signing_key) (jose_detach jose) of
                     None \<Rightarrow> bad
                   | Some detached \<Rightarrow> Inr detached))
         | _ \<Rightarrow> bad)"

definition sign_detached_json_payload ::
  "'key jose \<Rightarrow> int option \<Rightarrow> FapiSigningService \<Rightarrow> string \<Rightarrow> DetachedJwsProfile \<Rightarrow> string list \<Rightarrow> string + string" where
  "sign_detached_json_payload jose clock sv payload profile omit_protected_headers =
     rbind (if profile = ObV314Plus then issued_at_seconds clock else Inr 0) (\<lambda>issued_at.
       sign_ps256_detached_jws jose (cr_signing_private_key_pem (sv_signing_credentials sv))
         (fs_key_id (sv_signing_config sv)) payload profile
         (if profile = ObV314Plus then fs_client_assertion_issuer (sv_signing_config sv) else [])
         issued_at omit_protected_headers)"

end
