(* ===== verification/Response_Signature.thy ===== *)
theory Response_Signature
  imports Signing
begin

text \<open>
  Validation of a bank's detached response signature (\<open>response_signature.py\<close>). The bytes of a base64url segment are
  computed, with the leniency of \<open>binascii.a2b_base64\<close>; the JSON value of UTF-8 bytes is the parameter \<open>json_loads_utf8\<close>,
  importing the certificate of an \<open>x5c\<close> chain is \<open>jose_import_x5c\<close>. The last section relates it to the signer of \<open>Signing\<close>.
\<close>

datatype response_signature_error =
    ResponseSignatureValidationError string
  | SignatureValueError string
  | UncaughtSignatureError

abbreviation rsv_error :: "string \<Rightarrow> response_signature_error + 'a" where
  "rsv_error message \<equiv> Inl (ResponseSignatureValidationError message)"

record ResponseSignatureValidation =
  rv_key_id :: string
  rv_issuer :: string
  rv_trust_anchor :: string

definition validation_to_json_object :: "ResponseSignatureValidation \<Rightarrow> json_object" where
  "validation_to_json_object v =
     [(''kid'', JStr (rv_key_id v)), (''issuer'', JStr (rv_issuer v)), (''trustAnchor'', JStr (rv_trust_anchor v))]"

section \<open>Base64url\<close>

definition base64_value :: "char \<Rightarrow> nat option" where
  "base64_value c =
     (let n = code_of c
      in if 65 \<le> n \<and> n \<le> 90 then Some (n - 65)
         else if 97 \<le> n \<and> n \<le> 122 then Some (n - 71)
         else if 48 \<le> n \<and> n \<le> 57 then Some (n + 4)
         else if n = 43 then Some 62
         else if n = 47 then Some 63
         else None)"

text \<open>
  \<open>binascii.a2b_base64\<close>, not strict: characters outside the alphabet are skipped, enough padding ends the data, and data
  that ends inside a group of four without it is an error. The arguments are the position in the group, the bits left over
  and the padding characters seen since the last data character.
\<close>

fun a2b_base64 :: "nat \<Rightarrow> nat \<Rightarrow> nat \<Rightarrow> string \<Rightarrow> nat list option" where
  "a2b_base64 quad_pos leftchar pads [] = (if quad_pos = 0 then Some [] else None)"
| "a2b_base64 quad_pos leftchar pads (c # cs) =
     (if c = CHR ''='' then
        (if 2 \<le> quad_pos then
           (if 4 \<le> quad_pos + Suc pads then Some [] else a2b_base64 quad_pos leftchar (Suc pads) cs)
         else a2b_base64 quad_pos leftchar pads cs)
      else case base64_value c of
        None \<Rightarrow> a2b_base64 quad_pos leftchar pads cs
      | Some v \<Rightarrow>
          if quad_pos = 0 then a2b_base64 1 v 0 cs
          else if quad_pos = 1 then map_option ((#) (leftchar * 4 + v div 16)) (a2b_base64 2 (v mod 16) 0 cs)
          else if quad_pos = 2 then map_option ((#) (leftchar * 16 + v div 4)) (a2b_base64 3 (v mod 4) 0 cs)
          else map_option ((#) (leftchar * 64 + v)) (a2b_base64 0 0 0 cs))"

text \<open>The translation of \<open>base64.urlsafe_b64decode\<close>.\<close>

definition from_urlsafe :: "char \<Rightarrow> char" where
  "from_urlsafe c = (if c = CHR ''-'' then CHR ''+'' else if c = CHR ''_'' then CHR ''/'' else c)"

text \<open>The padding brings the length to a multiple of four; a text that is not ASCII cannot be encoded.\<close>

definition base64url_decode :: "string \<Rightarrow> nat list option" where
  "base64url_decode v =
     (let padded = v @ replicate ((4 - length v mod 4) mod 4) CHR ''=''
      in if \<not> list_all is_ascii padded then None
         else a2b_base64 0 0 0 (map from_urlsafe padded))"

definition decode_segment :: "'key jose \<Rightarrow> string \<Rightarrow> json option" where
  "decode_segment jose segment = Option.bind (base64url_decode segment) (json_loads_utf8 jose)"

section \<open>The protected header\<close>

definition decode_protected_header :: "'key jose \<Rightarrow> string \<Rightarrow> response_signature_error + json_object" where
  "decode_protected_header jose signature =
     (let segments = split_on CHR ''.'' signature
      in if length segments \<noteq> 3 then rsv_error ''x-jws-signature must contain three compact JWS segments''
         else if segments ! 1 \<noteq> [] then rsv_error ''x-jws-signature must use detached payload form''
         else case decode_segment jose (segments ! 0) of
           None \<Rightarrow> rsv_error ''x-jws-signature protected header is invalid''
         | Some (JObj protected_header) \<Rightarrow> Inr protected_header
         | Some _ \<Rightarrow> rsv_error ''x-jws-signature protected header must be a JSON object'')"

definition required_header_string :: "json_object \<Rightarrow> string \<Rightarrow> response_signature_error + string" where
  "required_header_string protected_header key =
     (case jget protected_header key of
        JStr v \<Rightarrow> (if py_strip v = [] then rsv_error (''x-jws-signature '' @ key @ '' must be a non-empty string'')
                   else Inr (py_strip v))
      | _ \<Rightarrow> rsv_error (''x-jws-signature '' @ key @ '' must be a non-empty string''))"

definition validate_b64_profile :: "json_object \<Rightarrow> string list \<Rightarrow> response_signature_error + unit" where
  "validate_b64_profile protected_header crit_header =
     (if jget protected_header ''b64'' = JBool False
      then (if ''b64'' \<notin> set crit_header then rsv_error ''x-jws-signature crit must include: b64'' else Inr ())
      else if jget protected_header ''b64'' = JNull
      then (if ''b64'' \<in> set crit_header
            then rsv_error ''x-jws-signature crit must not include b64 unless b64 is false'' else Inr ())
      else rsv_error ''x-jws-signature b64 must be false when supplied'')"

definition REQUIRED_CRITICAL_HEADERS :: "string list" where
  "REQUIRED_CRITICAL_HEADERS = [OPEN_BANKING_IAT, OPEN_BANKING_ISS, OPEN_BANKING_TAN]"

text \<open>Membership of a list or an object in a set of strings raises \<open>TypeError\<close>: they are not hashable.\<close>

definition content_type_check :: "json \<Rightarrow> response_signature_error + unit" where
  "content_type_check content_type =
     (if content_type = JNull then Inr ()
      else if is_array content_type \<or> is_object content_type then Inl UncaughtSignatureError
      else if content_type \<noteq> JStr ''json'' \<and> content_type \<noteq> JStr ''application/json''
      then rsv_error ''x-jws-signature cty must be json or application/json when supplied''
      else Inr ())"

definition validate_protected_header :: "json_object \<Rightarrow> response_signature_error + ResponseSignatureValidation" where
  "validate_protected_header protected_header =
     (if jget protected_header ''alg'' \<noteq> JStr ''PS256'' then rsv_error ''x-jws-signature alg must be PS256''
      else rbind (required_header_string protected_header ''kid'') (\<lambda>key_id.
        let jws_type = jget protected_header ''typ''
        in if jws_type \<noteq> JNull \<and> jws_type \<noteq> JStr ''JOSE''
           then rsv_error ''x-jws-signature typ must be JOSE when supplied''
           else rbind (content_type_check (jget protected_header ''cty'')) (\<lambda>_.
             case jget protected_header ''crit'' of
               JArr crit_header \<Rightarrow>
                 (if \<not> list_all is_string crit_header then rsv_error ''x-jws-signature crit must be a string array''
                  else let critical_headers = map str_of crit_header in
                    rbind (validate_b64_profile protected_header critical_headers) (\<lambda>_.
                      let missing = filter (\<lambda>h. h \<notin> set critical_headers) REQUIRED_CRITICAL_HEADERS in
                      if missing \<noteq> [] then rsv_error (''x-jws-signature crit must include: '' @ join '', '' missing)
                      else case jget protected_header OPEN_BANKING_IAT of
                        JInt _ \<Rightarrow>
                          rbind (required_header_string protected_header OPEN_BANKING_ISS) (\<lambda>issuer.
                          rbind (required_header_string protected_header OPEN_BANKING_TAN) (\<lambda>trust_anchor.
                            Inr \<lparr>rv_key_id = key_id, rv_issuer = issuer, rv_trust_anchor = trust_anchor\<rparr>))
                      | _ \<Rightarrow> rsv_error (''x-jws-signature '' @ OPEN_BANKING_IAT @ '' must be a JSON integer'')))
             | _ \<Rightarrow> rsv_error ''x-jws-signature crit must be a string array'')))"

definition string_key_parameters :: "json_object \<Rightarrow> (string, jwk_parameter) dict" where
  "string_key_parameters raw_key =
     concat (map (\<lambda>(key, v). case v of
         JStr s \<Rightarrow> [(key, JwkString s)]
       | JArr items \<Rightarrow> (if list_all is_string items then [(key, JwkStrings (map str_of items))] else [])
       | _ \<Rightarrow> []) raw_key)"

definition import_verification_key :: "'key jose \<Rightarrow> json_object \<Rightarrow> string \<Rightarrow> response_signature_error + 'key" where
  "import_verification_key jose raw_key key_id =
     (case jose_import_jwk jose (string_key_parameters raw_key) of
        Imported k \<Rightarrow> Inr k
      | RaisedJoseError \<Rightarrow> Inl UncaughtSignatureError
      | RaisedValueOrTypeError \<Rightarrow>
          (case jget raw_key ''x5c'' of
             JArr (JStr certificate # _) \<Rightarrow>
               (case jose_import_x5c jose certificate of
                  Imported k \<Rightarrow> Inr k
                | RaisedJoseError \<Rightarrow> Inl UncaughtSignatureError
                | RaisedValueOrTypeError \<Rightarrow> rsv_error (''JWKS x5c certificate for kid '' @ key_id @ '' is invalid''))
           | _ \<Rightarrow> rsv_error (''JWKS key '' @ key_id @ '' is not an importable RSA public key'')))"

definition kid_matches :: "string \<Rightarrow> json \<Rightarrow> bool" where
  "kid_matches key_id raw_key = (is_object raw_key \<and> jget (obj_of raw_key) ''kid'' = JStr key_id)"

definition select_verification_key :: "'key jose \<Rightarrow> json_object \<Rightarrow> string \<Rightarrow> response_signature_error + 'key" where
  "select_verification_key jose jwks key_id =
     (case jget jwks ''keys'' of
        JArr ks \<Rightarrow>
          (case find (kid_matches key_id) ks of
             Some raw_key \<Rightarrow> import_verification_key jose (obj_of raw_key) key_id
           | None \<Rightarrow> rsv_error (''JWKS does not contain a key for kid '' @ key_id))
      | _ \<Rightarrow> rsv_error ''JWKS response must contain a keys array'')"

definition validate_ob_response_signature ::
  "'key jose \<Rightarrow> string option \<Rightarrow> string \<Rightarrow> json_object \<Rightarrow> response_signature_error + ResponseSignatureValidation" where
  "validate_ob_response_signature jose signature payload jwks =
     (case signature of
        None \<Rightarrow> rsv_error ''x-jws-signature header is missing''
      | Some s \<Rightarrow>
          if py_strip s = [] then rsv_error ''x-jws-signature header is missing''
          else rbind (decode_protected_header jose (py_strip s)) (\<lambda>protected_header.
               rbind (validate_protected_header protected_header) (\<lambda>validation.
               rbind (select_verification_key jose jwks (rv_key_id validation)) (\<lambda>verification_key.
                 case jose_verify jose (py_strip s) verification_key payload of
                   Verified \<Rightarrow> Inr validation
                 | VerifyJoseError \<Rightarrow> rsv_error ''x-jws-signature failed PS256 verification''
                 | VerifyValueError m \<Rightarrow> Inl (SignatureValueError m)))))"

section \<open>Lemmas\<close>

text \<open>What a valid protected header says.\<close>

definition good_protected_header :: "json_object \<Rightarrow> ResponseSignatureValidation \<Rightarrow> bool" where
  "good_protected_header h v =
     (jget h ''alg'' = JStr ''PS256'' \<and>
      (\<exists>kid. jget h ''kid'' = JStr kid \<and> py_strip kid = rv_key_id v \<and> rv_key_id v \<noteq> []) \<and>
      jget h ''typ'' \<in> {JNull, JStr ''JOSE''} \<and>
      jget h ''cty'' \<in> {JNull, JStr ''json'', JStr ''application/json''} \<and>
      (\<exists>crit. jget h ''crit'' = JArr (map JStr crit) \<and> set REQUIRED_CRITICAL_HEADERS \<subseteq> set crit \<and>
              (jget h ''b64'' = JBool False \<and> ''b64'' \<in> set crit \<or> jget h ''b64'' = JNull \<and> ''b64'' \<notin> set crit)) \<and>
      (\<exists>t. jget h OPEN_BANKING_IAT = JInt t) \<and>
      (\<exists>iss. jget h OPEN_BANKING_ISS = JStr iss \<and> py_strip iss = rv_issuer v \<and> rv_issuer v \<noteq> []) \<and>
      (\<exists>tan. jget h OPEN_BANKING_TAN = JStr tan \<and> py_strip tan = rv_trust_anchor v \<and> rv_trust_anchor v \<noteq> []))"

lemma required_header_string_Inr:
  "required_header_string h key = Inr s \<longleftrightarrow> (\<exists>v. jget h key = JStr v \<and> py_strip v = s \<and> s \<noteq> [])"
  by (auto simp: required_header_string_def split: json.splits)

lemma content_type_check_Inr:
  "content_type_check c = Inr u \<longleftrightarrow> c \<in> {JNull, JStr ''json'', JStr ''application/json''}"
  by (cases c) (auto simp: content_type_check_def)

lemma validate_b64_profile_Inr:
  "validate_b64_profile h crit = Inr u \<longleftrightarrow>
     jget h ''b64'' = JBool False \<and> ''b64'' \<in> set crit \<or> jget h ''b64'' = JNull \<and> ''b64'' \<notin> set crit"
  by (auto simp: validate_b64_profile_def)

lemma string_array: "list_all is_string xs \<longleftrightarrow> (\<exists>ss. xs = map JStr ss)"
proof
  assume "list_all is_string xs"
  then have "xs = map JStr (map str_of xs)"
    by (induction xs) (auto elim: is_string.elims)
  then show "\<exists>ss. xs = map JStr ss" by blast
qed (auto simp: list_all_iff)

lemma missing_empty: "filter (\<lambda>h. h \<notin> set crit) hs = [] \<longleftrightarrow> set hs \<subseteq> set crit"
  by (auto simp: filter_empty_conv)

lemma str_of_map [simp]: "map (str_of \<circ> JStr) ss = ss"
  by (induction ss) auto

lemma validate_protected_header_Inr:
  "validate_protected_header h = Inr v \<longleftrightarrow> good_protected_header h v"
proof (cases "\<exists>crit. jget h ''crit'' = JArr (map JStr crit)")
  case True
  then obtain crit where crit: "jget h ''crit'' = JArr (map JStr crit)" by blast
  have "list_all is_string (map JStr crit)" unfolding string_array by blast
  moreover have "map JStr crit = map JStr c \<longleftrightarrow> crit = c" for c by (simp add: inj_map_eq_map inj_def)
  ultimately show ?thesis
    by (cases v; cases "jget h OPEN_BANKING_IAT")
      (auto simp: validate_protected_header_def good_protected_header_def crit Let_def rbind_eq_Inr required_header_string_Inr
         content_type_check_Inr validate_b64_profile_Inr missing_empty)
next
  case False
  then have "\<not> list_all is_string xs" if "jget h ''crit'' = JArr xs" for xs using that string_array by auto
  then have "validate_protected_header h \<noteq> Inr v"
    by (auto simp: validate_protected_header_def Let_def rbind_eq_Inr split: json.splits)
  then show ?thesis using False by (auto simp: good_protected_header_def)
qed

lemma split_detached:
  assumes "CHR ''.'' \<notin> set a" "CHR ''.'' \<notin> set c"
  shows "split_on CHR ''.'' (a @ ''..'' @ c) = [a, [], c]"
proof -
  have "join ''.'' [a, [], c] = a @ ''..'' @ c" by simp
  moreover have "split_on CHR ''.'' (join ''.'' [a, [], c]) = [a, [], c]"
    using assms by (intro split_on_join) auto
  ultimately show ?thesis by simp
qed

lemma detached_split:
  assumes "length (split_on CHR ''.'' s) = 3" "split_on CHR ''.'' s ! 1 = []"
  obtains a c where "s = a @ ''..'' @ c" "CHR ''.'' \<notin> set a" "CHR ''.'' \<notin> set c" "split_on CHR ''.'' s ! 0 = a"
proof -
  obtain a b c where abc: "split_on CHR ''.'' s = [a, b, c]"
    using assms(1) by (auto simp: numeral_eq_Suc length_Suc_conv)
  then have "b = []" using assms(2) by simp
  moreover have "s = join ''.'' (split_on CHR ''.'' s)" by (simp add: join_split_on)
  moreover have "CHR ''.'' \<notin> set a" "CHR ''.'' \<notin> set c" using split_on_parts [of _ "CHR ''.''" s] abc by auto
  ultimately show ?thesis using that [of a c] abc by simp
qed

lemma decode_protected_header_Inr:
  "decode_protected_header jose s = Inr h \<longleftrightarrow>
     (\<exists>a c. s = a @ ''..'' @ c \<and> CHR ''.'' \<notin> set a \<and> CHR ''.'' \<notin> set c \<and> decode_segment jose a = Some (JObj h))"
  (is "?L \<longleftrightarrow> ?R")
proof
  assume ?L
  then have parts: "length (split_on CHR ''.'' s) = 3" "split_on CHR ''.'' s ! 1 = []"
    and d: "decode_segment jose (split_on CHR ''.'' s ! 0) = Some (JObj h)"
    by (auto simp: decode_protected_header_def Let_def split: if_splits option.splits json.splits)
  from detached_split [OF parts] d show ?R by metis
next
  assume ?R
  then obtain a c where "s = a @ ''..'' @ c" "split_on CHR ''.'' s = [a, [], c]" "decode_segment jose a = Some (JObj h)"
    using split_detached by metis
  then show ?L by (simp add: decode_protected_header_def)
qed

lemma select_verification_key_Inr:
  "select_verification_key jose jwks kid = Inr k \<longleftrightarrow>
     (\<exists>ks raw. jget jwks ''keys'' = JArr ks \<and> find (kid_matches kid) ks = Some raw \<and>
               import_verification_key jose (obj_of raw) kid = Inr k)"
  by (auto simp: select_verification_key_def split: json.splits option.splits)

lemma verify_Inr:
  "(case r of Verified \<Rightarrow> Inr x | VerifyJoseError \<Rightarrow> Inl e | VerifyValueError m \<Rightarrow> Inl (f m)) = Inr v \<longleftrightarrow> r = Verified \<and> x = v"
  by (cases r) auto

text \<open>Omitting protected headers takes their names off the critical list.\<close>

definition crit_names :: "json_object \<Rightarrow> string list option" where
  "crit_names h = (case jget h ''crit'' of JArr xs \<Rightarrow> if list_all is_string xs then Some (map str_of xs) else None | _ \<Rightarrow> None)"

lemma crit_names_Some: "crit_names h = Some ss \<longleftrightarrow> jget h ''crit'' = JArr (map JStr ss)"
proof -
  have "xs = map JStr (map str_of xs)" if "list_all is_string xs" for xs
    using that by (induction xs) (auto elim: is_string.elims)
  then show ?thesis by (auto simp: crit_names_def string_array split: json.splits)
qed

lemma remove1_map_JStr: "remove1 (JStr n) (map JStr ss) = map JStr (remove1 n ss)"
  by (induction ss) auto

lemma omit_header_crit:
  assumes "crit_names h = Some ss" "name \<noteq> ''crit''"
  shows "crit_names (omit_header h name) = Some (remove1 name ss)"
proof -
  have "map_of h ''crit'' = Some (JArr (map JStr ss))"
    using assms(1) by (auto simp: crit_names_Some jget_def split: option.splits)
  then have "map_of (AList.delete name h) ''crit'' = Some (JArr (map JStr ss))"
    using assms(2) by (simp add: delete_conv)
  then show ?thesis
    by (simp add: omit_header_def Let_def crit_names_Some jget_def update_conv remove1_map_JStr)
qed

lemma omit_headers_crit:
  assumes "crit_names h = Some ss" "distinct ss" "''crit'' \<notin> set names"
  shows "\<exists>ts. crit_names (foldl omit_header h names) = Some ts \<and> set ts = set ss - set names"
  using assms
proof (induction names arbitrary: h ss)
  case (Cons n names)
  from Cons.IH [of "omit_header h n" "remove1 n ss"] Cons.prems omit_header_crit [of h ss n] show ?case
    by (auto simp: set_remove1_eq)
qed simp

lemma header_alias_names: "header_name_by_alias a = Some h \<Longrightarrow> h \<in> set REQUIRED_CRITICAL_HEADERS"
  by (auto simp: header_name_by_alias_def REQUIRED_CRITICAL_HEADERS_def split: if_splits)

lemma omitted_headers_Inr:
  "omitted_headers acc aliases = Inr hs \<Longrightarrow> set acc \<subseteq> set REQUIRED_CRITICAL_HEADERS \<Longrightarrow>
   set hs \<subseteq> set REQUIRED_CRITICAL_HEADERS \<and> set acc \<subseteq> set hs \<and> (aliases \<noteq> [] \<longrightarrow> hs \<noteq> [])"
proof (induction acc aliases rule: omitted_headers.induct)
  case (2 acc a aliases)
  then obtain h where h: "header_name_by_alias a = Some h" by (auto split: option.splits)
  with 2 header_alias_names [OF h] show ?case by (auto split: if_splits)
qed simp

lemma crit_not_omitted: "''crit'' \<notin> set REQUIRED_CRITICAL_HEADERS"
  by (simp add: REQUIRED_CRITICAL_HEADERS_def OPEN_BANKING_IAT_def OPEN_BANKING_ISS_def OPEN_BANKING_TAN_def)

lemma distinct_required: "distinct REQUIRED_CRITICAL_HEADERS"
  by (simp add: REQUIRED_CRITICAL_HEADERS_def OPEN_BANKING_IAT_def OPEN_BANKING_ISS_def OPEN_BANKING_TAN_def)

text \<open>Only the full header of the newer profile is one the validator accepts.\<close>

lemma signed_header_good:
  assumes h: "detached_jws_protected_header kid profile issuer t omit = Inr h"
  shows "good_protected_header h v \<longleftrightarrow>
     profile = ObV314Plus \<and> omit = [] \<and> py_strip kid \<noteq> [] \<and> py_strip issuer \<noteq> [] \<and>
     v = \<lparr>rv_key_id = py_strip kid, rv_issuer = py_strip issuer, rv_trust_anchor = OPEN_BANKING_TRUST_ANCHOR\<rparr>"
proof (cases "profile = ObV314Plus \<and> omit = []")
  case True
  have "py_strip OPEN_BANKING_TRUST_ANCHOR = OPEN_BANKING_TRUST_ANCHOR" "OPEN_BANKING_TRUST_ANCHOR \<noteq> []" by code_simp+
  moreover have hh: "h = [(''alg'', JStr ''PS256''), (''kid'', JStr kid), (''typ'', JStr ''JOSE''), (''cty'', JStr ''application/json''),
      (OPEN_BANKING_IAT, JInt t), (OPEN_BANKING_ISS, JStr issuer), (OPEN_BANKING_TAN, JStr OPEN_BANKING_TRUST_ANCHOR),
      (''crit'', JArr (map JStr REQUIRED_CRITICAL_HEADERS))]"
    using True h by (simp add: detached_jws_protected_header_def open_banking_protected_headers_to_omit_def REQUIRED_CRITICAL_HEADERS_def)
  have "jget h ''alg'' = JStr ''PS256''" "jget h ''kid'' = JStr kid" "jget h ''typ'' = JStr ''JOSE''"
    "jget h ''cty'' = JStr ''application/json''" by (simp_all add: hh)
  moreover have "jget h OPEN_BANKING_IAT = JInt t" "jget h OPEN_BANKING_ISS = JStr issuer"
    "jget h OPEN_BANKING_TAN = JStr OPEN_BANKING_TRUST_ANCHOR"
    by (simp_all add: hh OPEN_BANKING_IAT_def OPEN_BANKING_ISS_def OPEN_BANKING_TAN_def)
  moreover have "jget h ''crit'' = JArr (map JStr REQUIRED_CRITICAL_HEADERS)" "jget h ''b64'' = JNull"
    by (simp_all add: hh OPEN_BANKING_IAT_def OPEN_BANKING_ISS_def OPEN_BANKING_TAN_def)
  moreover have "''b64'' \<notin> set REQUIRED_CRITICAL_HEADERS" by code_simp
  ultimately show ?thesis using True
    by (cases v) (auto simp: good_protected_header_def inj_map_eq_map inj_def)
next
  case False
  have "\<not> good_protected_header h v"
  proof (cases "profile = ObV314Plus")
    case False
    then have "jget h ''crit'' = JArr [JStr ''b64'']"
      using h by (cases profile) (auto simp: detached_jws_protected_header_def split: if_splits)
    then show ?thesis
      by (auto simp: good_protected_header_def REQUIRED_CRITICAL_HEADERS_def OPEN_BANKING_IAT_def Cons_eq_map_conv)
  next
    case True
    with False have ne: "omit \<noteq> []" by simp
    define base where "base = [(''alg'', JStr ''PS256''), (''kid'', JStr kid), (''typ'', JStr ''JOSE''),
      (''cty'', JStr ''application/json''), (OPEN_BANKING_IAT, JInt t), (OPEN_BANKING_ISS, JStr issuer),
      (OPEN_BANKING_TAN, JStr OPEN_BANKING_TRUST_ANCHOR),
      (''crit'', JArr [JStr OPEN_BANKING_IAT, JStr OPEN_BANKING_ISS, JStr OPEN_BANKING_TAN])]"
    have b: "crit_names base = Some REQUIRED_CRITICAL_HEADERS"
      by (simp add: crit_names_Some base_def REQUIRED_CRITICAL_HEADERS_def OPEN_BANKING_IAT_def OPEN_BANKING_ISS_def
        OPEN_BANKING_TAN_def)
    obtain omitted where o: "omitted_headers [] omit = Inr omitted" and hb: "h = foldl omit_header base omitted"
      using h True by (auto simp: detached_jws_protected_header_def open_banking_protected_headers_to_omit_def rbind_eq_Inr base_def)
    have om: "set omitted \<subseteq> set REQUIRED_CRITICAL_HEADERS" "omitted \<noteq> []" using omitted_headers_Inr [OF o] ne by auto
    then have "''crit'' \<notin> set omitted" using crit_not_omitted by blast
    from omit_headers_crit [OF b distinct_required this] obtain ts
      where ts: "jget h ''crit'' = JArr (map JStr ts)" "set ts = set REQUIRED_CRITICAL_HEADERS - set omitted"
      unfolding hb crit_names_Some by blast
    show ?thesis
    proof
      assume "good_protected_header h v"
      then obtain crit where "map JStr crit = map JStr ts" "set REQUIRED_CRITICAL_HEADERS \<subseteq> set crit"
        by (auto simp: good_protected_header_def ts(1))
      then have "set REQUIRED_CRITICAL_HEADERS \<subseteq> set ts" by (simp add: inj_map_eq_map inj_def)
      with ts(2) om show False by (cases omitted) auto
    qed
  qed
  with False show ?thesis by auto
qed

lemma detached_jws_Inr:
  assumes "sign_ps256_detached_jws jose pem kid payload profile issuer iat omit = Inr s" "jose_import_pem jose pem = Imported k"
  obtains h t where "detached_jws_protected_header kid profile issuer iat omit = Inr h"
    "jose_serialize jose h payload k = Some t" "jose_detach jose t = Some s"
proof (cases "detached_jws_protected_header kid profile issuer iat omit")
  case (Inr h)
  then show ?thesis using assms that
    by (cases "jose_serialize jose h payload k")
      (auto simp: sign_ps256_detached_jws_def Let_def split: option.splits)
qed (use assms in \<open>simp add: sign_ps256_detached_jws_def Let_def\<close>)

lemma signed_stages:
  assumes "sign_detached_json_payload jose clock sv payload profile omit = Inr s"
    and "jose_import_pem jose (cr_signing_private_key_pem (sv_signing_credentials sv)) = Imported k"
  obtains h t issuer iat where "detached_jws_protected_header (fs_key_id (sv_signing_config sv)) profile issuer iat omit = Inr h"
    "jose_serialize jose h payload k = Some t" "jose_detach jose t = Some s"
    "profile = ObV314Plus \<longrightarrow> issuer = fs_client_assertion_issuer (sv_signing_config sv)"
proof -
  from assms(1) obtain iat issuer where
    j: "sign_ps256_detached_jws jose (cr_signing_private_key_pem (sv_signing_credentials sv))
       (fs_key_id (sv_signing_config sv)) payload profile issuer iat omit = Inr s"
    and i: "profile = ObV314Plus \<longrightarrow> issuer = fs_client_assertion_issuer (sv_signing_config sv)"
    unfolding sign_detached_json_payload_def rbind_eq_Inr by metis
  show ?thesis by (rule detached_jws_Inr [OF j assms(2)]) (rule that [OF _ _ _ i])
qed

subsection \<open>Decoding inverts encoding\<close>

text \<open>The unpadded base64url text of a byte list (RFC 4648), which a signer puts in a segment, is decoded to these bytes.\<close>

definition base64url_char :: "nat \<Rightarrow> char" where
  "base64url_char v =
     (if v < 26 then char_of (v + 65) else if v < 52 then char_of (v + 71) else if v < 62 then char_of (v - 4)
      else if v = 62 then CHR ''-'' else CHR ''_'')"

fun base64url_encode :: "nat list \<Rightarrow> string" where
  "base64url_encode [] = []"
| "base64url_encode [x] = [base64url_char (x div 4), base64url_char (x mod 4 * 16)]"
| "base64url_encode [x, y] =
     [base64url_char (x div 4), base64url_char (x mod 4 * 16 + y div 16), base64url_char (y mod 16 * 4)]"
| "base64url_encode (x # y # z # bytes) =
     base64url_char (x div 4) # base64url_char (x mod 4 * 16 + y div 16) # base64url_char (y mod 16 * 4 + z div 64) #
     base64url_char (z mod 64) # base64url_encode bytes"

lemma from_urlsafe_pad: "from_urlsafe CHR ''='' = CHR ''=''"
  by (simp add: from_urlsafe_def)

lemma base64url_char_value:
  assumes "v < 64"
  shows "base64_value (from_urlsafe (base64url_char v)) = Some v" "from_urlsafe (base64url_char v) \<noteq> CHR ''=''"
    "is_ascii (base64url_char v)"
proof -
  have code: "code_of (from_urlsafe (base64url_char v)) =
      (if v < 26 then v + 65 else if v < 52 then v + 71 else if v < 62 then v - 4 else if v = 62 then 43 else 47)"
  proof (cases "v < 62")
    case True
    let ?n = "if v < 26 then v + 65 else if v < 52 then v + 71 else v - 4"
    have n: "base64url_char v = char_of ?n" using True by (simp add: base64url_char_def)
    moreover have bounds: "?n < 256" "?n \<noteq> 45" "?n \<noteq> 95" using True by auto
    ultimately have c: "code_of (base64url_char v) = ?n" by (simp only: code_of_char_of)
    with bounds(2,3) have "base64url_char v \<noteq> CHR ''-''" "base64url_char v \<noteq> CHR ''_''" by (auto simp: code_of_def split: if_splits)
    then show ?thesis using c True by (simp add: from_urlsafe_def)
  qed (simp add: base64url_char_def from_urlsafe_def code_of_def)
  show "base64_value (from_urlsafe (base64url_char v)) = Some v"
    using assms by (auto simp: base64_value_def code Let_def)
  have "code_of CHR ''='' = 61" by (simp add: code_of_def)
  then show "from_urlsafe (base64url_char v) \<noteq> CHR ''=''" using code assms by (auto split: if_splits)
  show "is_ascii (base64url_char v)"
    using assms by (auto simp: is_ascii_def base64url_char_def code_of_char_of) (simp_all add: code_of_def)
qed

lemma base64url_char_no_dot: "v < 64 \<Longrightarrow> base64url_char v \<noteq> CHR ''.''"
  using base64url_char_value(1) [of v] by (auto simp: from_urlsafe_def base64_value_def code_of_def)

lemma sextets:
  fixes x y z :: nat
  assumes "x < 256" "y < 256" "z < 256"
  shows "x div 4 < 64" "x mod 4 * 16 < 64" "x mod 4 * 16 + y div 16 < 64" "y mod 16 * 4 < 64" "y mod 16 * 4 + z div 64 < 64"
  using assms by (simp_all add: less_mult_imp_div_less)

lemma quad_bytes:
  fixes y :: nat
  assumes "y < 256"
  shows "y div 16 div 16 = 0" "y div 16 mod 16 = y div 16" "y div 64 div 4 = 0" "y div 64 mod 4 = y div 64"
  using assms by (simp_all add: less_mult_imp_div_less)

lemma a2b_encoded:
  assumes "list_all (\<lambda>b. b < 256) bytes"
  shows "a2b_base64 0 0 0 (map from_urlsafe (base64url_encode bytes @
     replicate ((4 - length (base64url_encode bytes) mod 4) mod 4) CHR ''='')) = Some bytes"
  using assms
proof (induction bytes rule: base64url_encode.induct)
  case (2 x)
  then show ?case using sextets [of x 0 0]
    by (simp add: base64url_char_value from_urlsafe_pad numeral_2_eq_2)
next
  case (3 x y)
  then show ?case using sextets [of x y 0] quad_bytes [of y]
    by (simp add: base64url_char_value from_urlsafe_pad)
next
  case (4 x y z bytes)
  then have b: "x < 256" "y < 256" "z < 256" by simp_all
  show ?case using 4 sextets [OF b] by (simp add: base64url_char_value quad_bytes [OF b(2)] quad_bytes [OF b(3)])
qed simp

lemma encoded_chars:
  "list_all (\<lambda>b. b < 256) bytes \<Longrightarrow> list_all (\<lambda>c. is_ascii c \<and> c \<noteq> CHR ''.'') (base64url_encode bytes)"
proof (induction bytes rule: base64url_encode.induct)
  case (2 x)
  then show ?case using sextets [of x 0 0] by (simp add: base64url_char_value base64url_char_no_dot)
next
  case (3 x y)
  then show ?case using sextets [of x y 0] by (simp add: base64url_char_value base64url_char_no_dot)
next
  case (4 x y z bytes)
  then show ?case using sextets [of x y z] by (simp add: base64url_char_value base64url_char_no_dot)
qed simp

lemma base64url_decode_encode:
  assumes "list_all (\<lambda>b. b < 256) bytes"
  shows "base64url_decode (base64url_encode bytes) = Some bytes"
proof -
  have "list_all is_ascii (replicate n CHR ''='')" for n by (induction n) (simp_all add: is_ascii_def code_of_def)
  moreover have "list_all is_ascii (base64url_encode bytes)" using encoded_chars [OF assms] by (simp add: list_all_iff)
  ultimately show ?thesis using a2b_encoded [OF assms] by (simp add: base64url_decode_def Let_def)
qed

lemma encoded_segment:
  assumes "list_all (\<lambda>b. b < 256) bytes" "json_loads_utf8 jose bytes = Some h"
  shows "CHR ''.'' \<notin> set (base64url_encode bytes)" "decode_segment jose (base64url_encode bytes) = Some h"
  using encoded_chars [OF assms(1)] base64url_decode_encode [OF assms(1)] assms(2)
  by (auto simp: decode_segment_def list_all_iff)

section \<open>A small library\<close>

text \<open>A JOSE library with one key that signs one header, the input of the concrete instances below.\<close>

definition sample_header :: json_object where
  "sample_header =
     [(''alg'', JStr ''PS256''), (''kid'', JStr ''key-1''), (''typ'', JStr ''JOSE''), (''cty'', JStr ''application/json''),
      (OPEN_BANKING_IAT, JInt 1700000000), (OPEN_BANKING_ISS, JStr ''tpp''), (OPEN_BANKING_TAN, JStr OPEN_BANKING_TRUST_ANCHOR),
      (''crit'', JArr [JStr OPEN_BANKING_IAT, JStr OPEN_BANKING_ISS, JStr OPEN_BANKING_TAN])]"

definition sample_jose :: "unit jose" where
  "sample_jose =
     \<lparr>jose_import_pem = (\<lambda>_. Imported ()), jose_import_jwk = (\<lambda>_. Imported ()), jose_import_x5c = (\<lambda>_. RaisedJoseError),
      jose_public = (\<lambda>_. []), jose_has_private = (\<lambda>_. True), jose_jwt_encode = (\<lambda>_ _ _. Some ''jwt''),
      jose_serialize = (\<lambda>h p k. if h = sample_header then Some ''aGVhZA.cGF5.c2ln'' else None),
      jose_detach = (\<lambda>t. Some ''aGVhZA..c2ln''),
      jose_verify = (\<lambda>s k p. if s = ''aGVhZA..c2ln'' then Verified else VerifyJoseError),
      json_loads_utf8 = (\<lambda>bytes. if bytes = [104, 101, 97, 100] then Some (JObj sample_header) else None)\<rparr>"

lemma sample_segment: "''aGVhZA'' = base64url_encode [104, 101, 97, 100]"
  by code_simp

definition sample_service :: FapiSigningService where
  "sample_service =
     \<lparr>sv_signing_config = \<lparr>fs_signing_certificate_path = ''c.pem'', fs_signing_private_key_path = ''k.pem'',
        fs_key_id = ''key-1'', fs_client_assertion_issuer = ''tpp'', fs_client_assertion_subject = ''tpp'',
        fs_token_endpoint_auth_method = PrivateKeyJwt\<rparr>,
      sv_signing_credentials = \<lparr>cr_signing_certificate_pem = ''CERTIFICATE'', cr_signing_private_key_pem = ''KEY''\<rparr>\<rparr>"

definition sample_jwks :: json_object where
  "sample_jwks = [(''keys'', JArr [JObj [(''kid'', JStr ''key-0'')], JObj [(''kid'', JStr ''key-1''), (''kty'', JStr ''RSA'')]])]"

section \<open>Properties\<close>

text \<open>C24: A response signature is accepted exactly when the stripped header is a detached compact JWS (an encoded header, an
  empty payload segment and a signature) whose protected header decodes to an object with algorithm PS256, a key id, an issue
  time, an issuer, a trust anchor, all three marked critical, and a consistent payload profile; when the first key of the
  JWKS with that key id can be imported; and when the library verifies the signature with that key over the exact response
  bytes. The details reported are those of the header.\<close>

theorem response_signature_accepted:
  "validate_ob_response_signature jose signature payload jwks = Inr v \<longleftrightarrow>
     (\<exists>s a c h ks raw k. signature = Some s \<and> py_strip s = a @ ''..'' @ c \<and> CHR ''.'' \<notin> set a \<and> CHR ''.'' \<notin> set c \<and>
        decode_segment jose a = Some (JObj h) \<and> good_protected_header h v \<and>
        jget jwks ''keys'' = JArr ks \<and> find (kid_matches (rv_key_id v)) ks = Some raw \<and>
        import_verification_key jose (obj_of raw) (rv_key_id v) = Inr k \<and>
        jose_verify jose (py_strip s) k payload = Verified)"
  (is "?L \<longleftrightarrow> ?R")
proof (cases signature)
  case (Some s)
  have "?L \<longleftrightarrow> py_strip s \<noteq> [] \<and> (\<exists>h k. decode_protected_header jose (py_strip s) = Inr h \<and> good_protected_header h v \<and>
      select_verification_key jose jwks (rv_key_id v) = Inr k \<and> jose_verify jose (py_strip s) k payload = Verified)"
    unfolding validate_ob_response_signature_def Some validate_protected_header_Inr [symmetric]
    by (auto simp: rbind_eq_Inr verify_Inr)
  also have "\<dots> \<longleftrightarrow> ?R"
  proof -
    have "py_strip s \<noteq> []" if "py_strip s = a @ ''..'' @ c" for a c using that by simp
    then show ?thesis unfolding Some option.inject select_verification_key_Inr decode_protected_header_Inr by blast
  qed
  finally show ?thesis .
qed (simp add: validate_ob_response_signature_def)

text \<open>C25: The suite's own detached signatures pass its own response validator exactly in the newer profile with no
  protected header omitted: a legacy signature and a signature made to omit a header (for a negative test) are rejected.
  This assumes of the JOSE library that what it serialised and detached carries the base64url text of the UTF-8 JSON of the
  protected header before the empty payload segment and verifies, and that the JWKS holds the signer's public key under its
  key id.\<close>

theorem own_signature_validates:
  assumes signed: "sign_detached_json_payload jose clock sv payload profile omit = Inr s"
    and key: "jose_import_pem jose (cr_signing_private_key_pem (sv_signing_credentials sv)) = Imported k"
    and library: "\<And>h t. jose_serialize jose h payload k = Some t \<Longrightarrow> jose_detach jose t = Some s \<Longrightarrow>
      (\<exists>bytes c. s = base64url_encode bytes @ ''..'' @ c \<and> list_all (\<lambda>b. b < 256) bytes \<and> CHR ''.'' \<notin> set c \<and>
        json_loads_utf8 jose bytes = Some (JObj h)) \<and>
      jose_verify jose s pk payload = Verified"
    and config: "stripped (fs_key_id (sv_signing_config sv))" "fs_key_id (sv_signing_config sv) \<noteq> []"
      "py_strip (fs_client_assertion_issuer (sv_signing_config sv)) \<noteq> []" "stripped s"
    and jwks: "select_verification_key jose jwks (fs_key_id (sv_signing_config sv)) = Inr pk"
  shows "(\<exists>v. validate_ob_response_signature jose (Some s) payload jwks = Inr v) \<longleftrightarrow> profile = ObV314Plus \<and> omit = []"
proof -
  obtain h t issuer iat where h: "detached_jws_protected_header (fs_key_id (sv_signing_config sv)) profile issuer iat omit = Inr h"
    and t: "jose_serialize jose h payload k = Some t" "jose_detach jose t = Some s"
    and i: "profile = ObV314Plus \<longrightarrow> issuer = fs_client_assertion_issuer (sv_signing_config sv)"
    by (rule signed_stages [OF signed key])
  have "\<exists>a c. s = a @ ''..'' @ c \<and> CHR ''.'' \<notin> set a \<and> CHR ''.'' \<notin> set c \<and> decode_segment jose a = Some (JObj h)"
    using encoded_segment conjunct1 [OF library [OF t]] by blast
  then have d: "decode_protected_header jose s = Inr h" unfolding decode_protected_header_Inr .
  have ver: "jose_verify jose s pk payload = Verified" by (rule conjunct2 [OF library [OF t]])
  have ne: "s \<noteq> []" using d by (auto simp: decode_protected_header_def)
  have strip: "py_strip s = s" "py_strip (fs_key_id (sv_signing_config sv)) = fs_key_id (sv_signing_config sv)"
    using config by (simp_all add: py_strip_stripped)
  have "validate_ob_response_signature jose (Some s) payload jwks = Inr v \<longleftrightarrow>
      good_protected_header h v \<and> rv_key_id v = fs_key_id (sv_signing_config sv)" for v
    using ne d ver jwks strip signed_header_good [OF h, of v]
    by (auto simp: validate_ob_response_signature_def rbind_eq_Inr validate_protected_header_Inr verify_Inr)
  then show ?thesis using signed_header_good [OF h] config i strip by auto
qed

theorem own_signature_validates_witness:
  "(\<exists>v. validate_ob_response_signature sample_jose (Some ''aGVhZA..c2ln'') ''{}'' sample_jwks = Inr v) \<longleftrightarrow>
     ObV314Plus = ObV314Plus \<and> ([] :: string list) = []"
proof (rule own_signature_validates [where sv = sample_service and k = "()" and pk = "()" and clock = "Some 1700000000"])
  show "sign_detached_json_payload sample_jose (Some 1700000000) sample_service ''{}'' ObV314Plus [] = Inr ''aGVhZA..c2ln''"
    by code_simp
  show "select_verification_key sample_jose sample_jwks (fs_key_id (sv_signing_config sample_service)) = Inr ()"
    by code_simp
  fix h t
  assume "jose_serialize sample_jose h ''{}'' () = Some t"
  then have h: "h = sample_header" by (simp add: sample_jose_def split: if_splits)
  show "(\<exists>bytes c. ''aGVhZA..c2ln'' = base64url_encode bytes @ ''..'' @ c \<and> list_all (\<lambda>b. b < 256) bytes \<and> CHR ''.'' \<notin> set c \<and>
      json_loads_utf8 sample_jose bytes = Some (JObj h)) \<and> jose_verify sample_jose ''aGVhZA..c2ln'' () ''{}'' = Verified"
  proof (rule conjI, rule exI [of _ "[104, 101, 97, 100]"], rule exI [of _ "''c2ln''"])
    have "''aGVhZA..c2ln'' = ''aGVhZA'' @ ''..'' @ ''c2ln''" by simp
    then show "''aGVhZA..c2ln'' = base64url_encode [104, 101, 97, 100] @ ''..'' @ ''c2ln'' \<and>
        list_all (\<lambda>b. b < 256) [104 :: nat, 101, 97, 100] \<and> CHR ''.'' \<notin> set ''c2ln'' \<and>
        json_loads_utf8 sample_jose [104, 101, 97, 100] = Some (JObj h)"
      unfolding sample_segment [symmetric] by (simp add: h sample_jose_def)
  qed (simp add: sample_jose_def)
qed (code_simp | simp add: sample_jose_def)+

end
