(* ===== verification/Http_Json.thy ===== *)
theory Http_Json
  imports Json Headers
begin

text \<open>
  The JSON HTTP helper (\<open>conformance/http.py\<close>). The HTTP library is a parameter: \<open>http_client\<close> holds the two
  operations of its header map the helper uses, and the \<open>transport\<close> argument is what one call of \<open>client.request\<close>
  does: a response, a \<open>RequestError\<close> (caught) or any other exception (not caught). A byte string is a \<open>string\<close>,
  one character per byte. \<open>response.json()\<close> is the field \<open>hx_json\<close>, \<open>None\<close> when it raises \<open>ValueError\<close>.
\<close>

record http_request =
  hr_method :: string
  hr_url :: string
  hr_headers :: "(string \<times> string) list"
  hr_json :: "json option"
  hr_content :: "string option"
  hr_data :: "(string, string) dict option"

record http_response =
  hx_url :: string
  hx_status_code :: int
  hx_headers :: "(string \<times> string) list"
  hx_content :: string
  hx_json :: "json option"

datatype transport_outcome = HxResponse http_response | HxRequestError string | HxOtherError

record http_client =
  hc_update :: "(string \<times> string) list \<Rightarrow> (string \<times> string) list \<Rightarrow> (string \<times> string) list"
  hc_contains :: "(string \<times> string) list \<Rightarrow> string \<Rightarrow> bool"

datatype http_error =
    JsonHttpClientError string "int option"
  | SendValueError string
  | UncaughtHttpError

record JsonHttpResponse =
  jr_url :: string
  jr_status_code :: int
  jr_body :: json_object
  jr_headers :: FrozenHeaders
  jr_body_bytes :: string

definition json_http_response :: "http_response \<Rightarrow> json_object \<Rightarrow> JsonHttpResponse" where
  "json_http_response response body =
     \<lparr>jr_url = hx_url response, jr_status_code = hx_status_code response, jr_body = body,
      jr_headers = freeze_headers (Some (hx_headers response)), jr_body_bytes = hx_content response\<rparr>"

definition NO_CONTENT_STATUS_CODES :: "int list" where
  "NO_CONTENT_STATUS_CODES = [204, 205, 304]"

text \<open>\<open>str.upper\<close> on the ASCII letters, all that a method name holds.\<close>

definition py_upper :: "string \<Rightarrow> string" where
  "py_upper s = map (\<lambda>c. if 97 \<le> code_of c \<and> code_of c \<le> 122 then char_of (code_of c - 32) else c) s"

text \<open>The four mutually exclusive body encodings of a call.\<close>

record body_arguments =
  ba_json :: "json option"
  ba_json_bytes :: "string option"
  ba_form :: "(string, string) dict option"
  ba_raw :: "string option"

definition supplied_body_encodings :: "body_arguments \<Rightarrow> nat" where
  "supplied_body_encodings b =
     (if ba_json b \<noteq> None then 1 else 0) + (if ba_json_bytes b \<noteq> None then 1 else 0)
     + (if ba_form b \<noteq> None then 1 else 0) + (if ba_raw b \<noteq> None then 1 else 0)"

definition drop_body :: "string \<Rightarrow> body_arguments \<Rightarrow> body_arguments" where
  "drop_body http_method b =
     (if http_method \<in> {''POST'', ''PUT'', ''PATCH'', ''DELETE''} then b
      else \<lparr>ba_json = None, ba_json_bytes = None, ba_form = None, ba_raw = None\<rparr>)"

definition request_headers :: "http_client \<Rightarrow> (string, string) dict option \<Rightarrow> (string \<times> string) list" where
  "request_headers client headers =
     (let base = [(''Accept'', ''application/json'')]
      in case headers of
           Some (h # hs) \<Rightarrow> hc_update client base (h # hs)
         | _ \<Rightarrow> base)"

definition default_content_type ::
  "http_client \<Rightarrow> bool \<Rightarrow> string \<Rightarrow> (string \<times> string) list \<Rightarrow> (string \<times> string) list" where
  "default_content_type client wanted media_type headers =
     (if wanted \<and> \<not> hc_contains client headers ''content-type''
      then hc_update client headers [(''Content-Type'', media_type)] else headers)"

text \<open>The request the helper hands to the client, or the \<open>ValueError\<close> of a contradictory call.\<close>

definition build_request ::
  "http_client \<Rightarrow> string \<Rightarrow> string \<Rightarrow> (string, string) dict option \<Rightarrow> body_arguments \<Rightarrow> http_error + http_request" where
  "build_request client http_method url headers body =
     (if 1 < supplied_body_encodings body
      then Inl (SendValueError
        ''send_json: json_body, json_body_bytes, form_body, and raw_body are mutually exclusive'')
      else let upper_method = py_upper http_method;
               b = drop_body upper_method body;
               with_json = default_content_type client (ba_json_bytes b \<noteq> None) ''application/json''
                             (request_headers client headers);
               hs = default_content_type client (ba_form b \<noteq> None) ''application/x-www-form-urlencoded'' with_json
           in if ba_raw b \<noteq> None \<and> \<not> hc_contains client hs ''content-type''
              then Inl (SendValueError ''send_json: raw_body requires an explicit Content-Type header'')
              else Inr \<lparr>hr_method = upper_method, hr_url = url, hr_headers = hs, hr_json = ba_json b,
                        hr_content = (if ba_json_bytes b \<noteq> None then ba_json_bytes b else ba_raw b),
                        hr_data = ba_form b\<rparr>)"

definition read_response :: "string \<Rightarrow> bool \<Rightarrow> http_response \<Rightarrow> http_error + JsonHttpResponse" where
  "read_response url allow_non_json_response response =
     (if hx_status_code response \<in> set NO_CONTENT_STATUS_CODES then Inr (json_http_response response [])
      else case hx_json response of
        None \<Rightarrow>
          if allow_non_json_response then Inr (json_http_response response [])
          else Inl (JsonHttpClientError (''Response from '' @ url @ '' was not valid JSON'') (Some (hx_status_code response)))
      | Some (JObj body) \<Rightarrow> Inr (json_http_response response body)
      | Some _ \<Rightarrow>
          Inl (JsonHttpClientError (''Response from '' @ url @ '' must be a JSON object'') (Some (hx_status_code response))))"

definition send_json ::
  "http_client \<Rightarrow> (http_request \<Rightarrow> transport_outcome) \<Rightarrow> string \<Rightarrow> string \<Rightarrow> (string, string) dict option \<Rightarrow>
   body_arguments \<Rightarrow> bool \<Rightarrow> http_error + JsonHttpResponse" where
  "send_json client transport http_method url headers body allow_non_json_response =
     rbind (build_request client http_method url headers body) (\<lambda>request.
       case transport request of
         HxRequestError e \<Rightarrow> Inl (JsonHttpClientError (''Request failed for '' @ url @ '': '' @ e) None)
       | HxOtherError \<Rightarrow> Inl UncaughtHttpError
       | HxResponse response \<Rightarrow> read_response url allow_non_json_response response)"

definition no_body :: body_arguments where
  "no_body = \<lparr>ba_json = None, ba_json_bytes = None, ba_form = None, ba_raw = None\<rparr>"

definition get_json :: "http_client \<Rightarrow> (http_request \<Rightarrow> transport_outcome) \<Rightarrow> string \<Rightarrow> http_error + JsonHttpResponse" where
  "get_json client transport url = send_json client transport ''GET'' url None no_body False"

section \<open>What a call sends and returns\<close>

lemma read_response_Inr:
  "read_response url allow r = Inr j \<longleftrightarrow>
     (\<exists>body. j = json_http_response r body \<and>
        (if hx_status_code r \<in> set NO_CONTENT_STATUS_CODES then body = []
         else hx_json r = Some (JObj body) \<or> hx_json r = None \<and> allow \<and> body = []))"
  by (auto simp: read_response_def split: option.splits json.splits)

lemma no_body_request:
  "build_request client http_method url headers no_body =
     Inr \<lparr>hr_method = py_upper http_method, hr_url = url, hr_headers = request_headers client headers, hr_json = None,
          hr_content = None, hr_data = None\<rparr>"
  by (simp add: build_request_def no_body_def supplied_body_encodings_def drop_body_def default_content_type_def Let_def)

text \<open>A body of one encoding is sent unless the method carries none, and never makes the call fail.\<close>

lemma single_body_request:
  assumes "supplied_body_encodings b \<le> 1" "ba_raw b = None"
  shows "\<exists>hs. build_request client m url headers b =
     Inr \<lparr>hr_method = py_upper m, hr_url = url, hr_headers = hs, hr_json = ba_json (drop_body (py_upper m) b),
          hr_content = ba_json_bytes (drop_body (py_upper m) b), hr_data = ba_form (drop_body (py_upper m) b)\<rparr>"
  using assms by (auto simp: build_request_def drop_body_def Let_def)

end
