(* ===== verification/Step_Execution.thy ===== *)
theory Step_Execution
  imports Manifest_Parser Assertions Masking Execution_Log Results Response_Signature Http_Json
begin

text \<open>
  The execution of one HTTP step of a manifest (\<open>conformance/executor.py\<close>, \<open>_execute_v1_step\<close> and what it calls).
  A step returns its result and the new execution context and emits log events; \<open>StepDone\<close> holds all three, in the order
  the events are emitted, \<open>StepCrash\<close> is an exception the step does not catch, with the events emitted before it, and
  \<open>StepHangs\<close> a step that never returns (which only a step that waits for the customer can be).

  What the step reads of its surroundings is the record \<open>step_env\<close>. Everything in it that may change between two steps is
  indexed by the step id: the answers of the HTTP transport (with a number for the calls of one step: the step's own
  request, then discovery and JWKS), the disk, the clock, and what the step finds in the two caches that the
  concurrently running groups share.
\<close>

section \<open>The surroundings of a step\<close>

record 'key step_env =
  se_developer_mode :: bool
  se_client :: http_client
  se_transport :: "string \<Rightarrow> nat \<Rightarrow> http_request \<Rightarrow> transport_outcome"
  se_signing_config :: "FapiSigningConfig option"
  se_mtls_client_configured :: bool
  se_jose :: "'key jose"
  se_read_bytes :: "string \<Rightarrow> string \<Rightarrow> string option"
  se_cached_signer :: "string \<Rightarrow> FapiSigningService option option"
  se_cached_jwks :: "string \<Rightarrow> json_object option"
  se_clock :: "string \<Rightarrow> int option"
  se_jwt_id :: "string \<Rightarrow> string"
  se_schema :: schema_backend
  se_url_error :: "string \<Rightarrow> string"

type_synonym emission = "EventType \<times> string option \<times> json_object"

datatype step_exit =
    StepDone "emission list" StepResult ExecutionContext
  | StepCrash "emission list"
  | StepHangs "emission list"

datatype caught_error = Caught string | Uncaught

fun request_method_name :: "RequestMethod \<Rightarrow> string" where
  "request_method_name GET = ''GET''"
| "request_method_name POST = ''POST''"
| "request_method_name PUT = ''PUT''"
| "request_method_name PATCH = ''PATCH''"
| "request_method_name DELETE = ''DELETE''"

section \<open>Evidence\<close>

definition str_members :: "(string, string) dict \<Rightarrow> json_object" where
  "str_members d = map (\<lambda>(n, v). (n, JStr v)) d"

definition mask_result_headers :: "bool \<Rightarrow> (string, string) dict \<Rightarrow> json" where
  "mask_result_headers developer_mode headers =
     JObj (str_members (if developer_mode then headers else mask_headers headers))"

definition mask_result_json_value :: "bool \<Rightarrow> json \<Rightarrow> json" where
  "mask_result_json_value developer_mode v = (if developer_mode then v else mask_json_value v)"

definition mask_result_form_fields :: "bool \<Rightarrow> (string, string) dict \<Rightarrow> json" where
  "mask_result_form_fields developer_mode fs =
     JObj (str_members (if developer_mode then fs else mask_form_fields fs))"

definition attach_evidence :: "StepResult \<Rightarrow> json_object \<Rightarrow> json_object option \<Rightarrow> StepResult" where
  "attach_evidence step request_evidence response_evidence =
     (let with_request = AList.update ''request'' (JObj request_evidence) (sr_details step)
      in step\<lparr>sr_details := (case response_evidence of
           None \<Rightarrow> with_request
         | Some e \<Rightarrow> AList.update ''response'' (JObj e) with_request)\<rparr>)"

definition step_result :: "string \<Rightarrow> CheckStatus \<Rightarrow> string \<Rightarrow> string \<Rightarrow> StepResult" where
  "step_result name status message url =
     \<lparr>sr_name = name, sr_status = status, sr_message = message, sr_url = Some url, sr_status_code = None, sr_details = [],
      sr_mandatory = False\<rparr>"

text \<open>The text of a placeholder error; the dash of the first one is an em dash in the source.\<close>

fun placeholder_message :: "placeholder_error \<Rightarrow> string" where
  "placeholder_message EmptyPlaceholderError =
     ''Empty placeholder '' @ quoted ''${}'' @ '' is not valid - provide a dot-path expression''"
| "placeholder_message (PlaceholderResolutionError m) = m"
| "placeholder_message (MissingPredecessorResponseError m) = m"

definition skipped_step ::
  "string \<Rightarrow> ExecutionContext \<Rightarrow> string \<Rightarrow> string \<Rightarrow> string \<Rightarrow> json_object \<Rightarrow> step_exit" where
  "skipped_step i context http_method url message request_evidence =
     StepDone
       [(PlaceholderErrorEvent, Some i, [(''reason'', JStr ''missing-predecessor-response''), (''message'', JStr message)])]
       (attach_evidence (step_result i CSkipped (''Skipped: '' @ message) url) request_evidence None)
       (record_step context i \<lparr>rr_method = http_method, rr_url = url\<rparr> None)"

text \<open>A failure before any response: the request record has the URL of the result.\<close>

definition failed_step ::
  "string \<Rightarrow> ExecutionContext \<Rightarrow> string \<Rightarrow> string \<Rightarrow> emission list \<Rightarrow> string \<Rightarrow> json_object \<Rightarrow> step_exit" where
  "failed_step i context http_method url events message request_evidence =
     StepDone events
       (attach_evidence (step_result i CFailed message url) request_evidence None)
       (record_step context i \<lparr>rr_method = http_method, rr_url = url\<rparr> None)"

definition placeholder_exit ::
  "string \<Rightarrow> ExecutionContext \<Rightarrow> string \<Rightarrow> string \<Rightarrow> string \<Rightarrow> json_object \<Rightarrow> placeholder_error \<Rightarrow> step_exit" where
  "placeholder_exit i context http_method url location request_evidence e =
     (case e of
        MissingPredecessorResponseError m \<Rightarrow> skipped_step i context http_method url m request_evidence
      | _ \<Rightarrow> failed_step i context http_method url
               [(PlaceholderErrorEvent, Some i, [(''location'', JStr location), (''message'', JStr (placeholder_message e))])]
               (''Placeholder resolution failed: '' @ placeholder_message e) request_evidence)"

definition or_exit :: "('e \<Rightarrow> step_exit) \<Rightarrow> 'e + 'a \<Rightarrow> step_exit + 'a" where
  "or_exit f r = (case r of Inl e \<Rightarrow> Inl (f e) | Inr x \<Rightarrow> Inr x)"

section \<open>Signing a request\<close>

definition build_fapi_signing_service ::
  "'key jose \<Rightarrow> (string \<Rightarrow> string option) \<Rightarrow> FapiSigningConfig option \<Rightarrow> string + FapiSigningService option" where
  "build_fapi_signing_service jose read_bytes config =
     (case config of
        None \<Rightarrow> Inr None
      | Some c \<Rightarrow> rbind (load_signing_credentials jose read_bytes c) (\<lambda>credentials.
          Inr (Some \<lparr>sv_signing_config = c, sv_signing_credentials = credentials\<rparr>)))"

text \<open>\<open>_LazyFapiSigningService.get\<close>: the state of the cache is \<open>None\<close> until a load succeeded.\<close>

definition lazy_service_get ::
  "(string + FapiSigningService option) \<Rightarrow> FapiSigningService option option \<Rightarrow>
   (string + FapiSigningService option) \<times> FapiSigningService option option" where
  "lazy_service_get load cached =
     (case cached of
        Some service \<Rightarrow> (Inr service, cached)
      | None \<Rightarrow> (case load of Inl e \<Rightarrow> (Inl e, None) | Inr service \<Rightarrow> (Inr service, Some service)))"

definition signing_service :: "'key step_env \<Rightarrow> string \<Rightarrow> string + FapiSigningService option" where
  "signing_service env i =
     fst (lazy_service_get (build_fapi_signing_service (se_jose env) (se_read_bytes env i) (se_signing_config env))
            (se_cached_signer env i))"

definition normalize_url_path_for_match :: "string \<Rightarrow> string" where
  "normalize_url_path_for_match path =
     (let segments = filter (\<lambda>s. s \<noteq> []) (split_on CHR ''/'' path)
      in if segments = [] then ''/'' else ''/'' @ join ''/'' segments)"

definition OB_ACCOUNT_ACCESS_CONSENTS_PATHS :: "string list" where
  "OB_ACCOUNT_ACCESS_CONSENTS_PATHS =
     [''/open-banking/v3.1/aisp/account-access-consents'', ''/open-banking/v4.0/aisp/account-access-consents'']"

definition OB_PIS_PATH_PREFIXES :: "string list" where
  "OB_PIS_PATH_PREFIXES = [''/open-banking/v3.1/pisp/'', ''/open-banking/v4.0/pisp/'']"

definition OB_VRP_RESOURCE_PATH_PREFIXES :: "string list" where
  "OB_VRP_RESOURCE_PATH_PREFIXES = [''/domestic-vrp-consents'', ''/domestic-vrps'']"

definition is_ob_vrp_path :: "string \<Rightarrow> bool" where
  "is_ob_vrp_path normalized_path =
     list_ex (\<lambda>resource_prefix.
       normalized_path = resource_prefix \<or> starts_with (resource_prefix @ ''/'') normalized_path \<or>
       ends_with (''/pisp'' @ resource_prefix) normalized_path \<or>
       str_contains (''/pisp'' @ resource_prefix @ ''/'') normalized_path) OB_VRP_RESOURCE_PATH_PREFIXES"

definition is_ob_pis_path :: "string \<Rightarrow> bool" where
  "is_ob_pis_path normalized_path = list_ex (\<lambda>p. starts_with p normalized_path) OB_PIS_PATH_PREFIXES"

definition url_match_path :: "'key step_env \<Rightarrow> string \<Rightarrow> string + string" where
  "url_match_path env url =
     (case urlsplit url of
        Inl _ \<Rightarrow> Inl (se_url_error env url)
      | Inr (_, _, path, _, _) \<Rightarrow> Inr (normalize_url_path_for_match path))"

definition requires_ob_detached_jws :: "'key step_env \<Rightarrow> RequestMethod \<Rightarrow> string \<Rightarrow> string + bool" where
  "requires_ob_detached_jws env http_method resolved_url =
     (if http_method \<notin> {POST, PUT, PATCH} then Inr False
      else rbind (url_match_path env resolved_url) (\<lambda>normalized_path.
        Inr (normalized_path \<in> set OB_ACCOUNT_ACCESS_CONSENTS_PATHS \<or> is_ob_pis_path normalized_path \<or>
             is_ob_vrp_path normalized_path)))"

definition detached_jws_profile_for_request :: "'key step_env \<Rightarrow> string \<Rightarrow> string + DetachedJwsProfile" where
  "detached_jws_profile_for_request env resolved_url =
     rbind (url_match_path env resolved_url) (\<lambda>normalized_path.
       Inr (if is_ob_pis_path normalized_path \<or> is_ob_vrp_path normalized_path then ObV314Plus else LegacyB64False))"

text \<open>\<open>json.dumps\<close> with \<open>ensure_ascii=False\<close> and compact separators, encoded as UTF-8.\<close>

definition dumps_raw_char :: "char \<Rightarrow> string" where
  "dumps_raw_char c = (if 127 \<le> code_of c then [c] else dumps_char c)"

definition dumps_raw_str :: "string \<Rightarrow> string" where
  "dumps_raw_str s = [CHR 34] @ concat (map dumps_raw_char s) @ [CHR 34]"

fun dumps_raw :: "json \<Rightarrow> string" where
  "dumps_raw (JStr s) = dumps_raw_str s"
| "dumps_raw (JArr xs) = ''['' @ join '','' (map dumps_raw xs) @ '']''"
| "dumps_raw (JObj kvs) = ''{'' @ join '','' (map (\<lambda>(k, v). dumps_raw_str k @ '':'' @ dumps_raw v) kvs) @ ''}''"
| "dumps_raw v = json_dumps '','' '':'' v"

definition utf8_char :: "char \<Rightarrow> string" where
  "utf8_char c =
     (let n = code_of c in if n < 128 then [c] else [char_of (192 + n div 64), char_of (128 + n mod 64)])"

definition serialize_json_request_body :: "json \<Rightarrow> string" where
  "serialize_json_request_body body = concat (map utf8_char (dumps_raw body))"

definition no_signing_config :: string where
  "no_signing_config = ''Detached request signing requires fapiSigning configuration''"

definition maybe_apply_ob_detached_jws ::
  "'key step_env \<Rightarrow> ManifestStep \<Rightarrow> string \<Rightarrow> (string, string) dict option \<Rightarrow> json option \<Rightarrow>
   string + (string, string) dict option \<times> string option" where
  "maybe_apply_ob_detached_jws env step resolved_url resolved_headers resolved_json_body =
     (case rq_detached_jws (ms_request step) of
        None \<Rightarrow> Inr (resolved_headers, None)
      | Some policy \<Rightarrow>
          if se_signing_config env = None then Inl no_signing_config
          else rbind (requires_ob_detached_jws env (rq_method (ms_request step)) resolved_url) (\<lambda>required.
            if \<not> required
            then Inl ''Detached request signing is only supported for AIS consent, PIS, and VRP write requests''
            else case resolved_json_body of
              None \<Rightarrow> Inl ''Detached request signing requires a JSON request body''
            | Some body \<Rightarrow>
                let serialized_json_body = serialize_json_request_body body in
                rbind (signing_service env (ms_id step)) (\<lambda>service.
                case service of
                  None \<Rightarrow> Inl no_signing_config
                | Some sv \<Rightarrow>
                    rbind (case dj_profile policy of Some p \<Rightarrow> Inr p
                           | None \<Rightarrow> detached_jws_profile_for_request env resolved_url) (\<lambda>profile.
                    rbind (sign_detached_json_payload (se_jose env) (se_clock env (ms_id step)) sv serialized_json_body profile
                             (dj_omit_protected_headers policy)) (\<lambda>detached_signature.
                    case validate_header_value detached_signature
                           (''step '' @ quoted (ms_id step) @ '' generated header x-jws-signature'') of
                      Inl (ManifestError m) \<Rightarrow> Inl m
                    | Inr _ \<Rightarrow>
                        Inr (Some (AList.update ''x-jws-signature'' detached_signature
                                     (case resolved_headers of None \<Rightarrow> [] | Some hs \<Rightarrow> hs)),
                             Some serialized_json_body))))))"

definition no_fapi_config :: string where
  "no_fapi_config = ''Token endpoint auth policy requires participant fapiSigning config''"

definition apply_token_endpoint_auth_policy ::
  "'key step_env \<Rightarrow> ManifestStep \<Rightarrow> (string, string) dict option \<Rightarrow> string \<Rightarrow> string + (string, string) dict option" where
  "apply_token_endpoint_auth_policy env step resolved_form_body resolved_url =
     (if \<not> ms_token_endpoint_auth_policy step then Inr resolved_form_body
      else case resolved_form_body of
        None \<Rightarrow> Inl ''Token endpoint auth policy requires a form-encoded request body''
      | Some form_fields \<Rightarrow>
          (case se_signing_config env of
             None \<Rightarrow> Inl no_fapi_config
           | Some config \<Rightarrow>
               (case fs_token_endpoint_auth_method config of
                  PrivateKeyJwt \<Rightarrow>
                    (let conflicting = filter (\<lambda>f. f \<in> set (keys form_fields)) [''client_assertion'', ''client_assertion_type'']
                     in if conflicting \<noteq> []
                        then Inl (''Token endpoint auth policy reserves these form fields for runtime FAPI signing: ''
                                  @ join '', '' conflicting)
                        else rbind (signing_service env (ms_id step)) (\<lambda>service.
                          case service of
                            None \<Rightarrow> Inl no_fapi_config
                          | Some sv \<Rightarrow>
                              rbind (sign_client_assertion (se_jose env) (se_clock env (ms_id step)) (se_jwt_id env (ms_id step))
                                       DEFAULT_JWT_LIFETIME sv resolved_url) (\<lambda>client_assertion.
                                Inr (Some (AList.update ''client_assertion'' (sj_token client_assertion)
                                  (AList.update ''client_assertion_type''
                                     ''urn:ietf:params:oauth:client-assertion-type:jwt-bearer'' form_fields))))))
                | TlsClientAuth \<Rightarrow>
                    if \<not> se_mtls_client_configured env
                    then Inl ''Token endpoint auth policy requires a configured TLS client certificate and private key''
                    else Inr (Some form_fields))))"

section \<open>Preparing a request\<close>

record prepared_request =
  pq_url :: string
  pq_headers :: "(string, string) dict option"
  pq_json :: "json option"
  pq_bytes :: "string option"
  pq_form :: "(string, string) dict option"
  pq_evidence :: json_object

definition resolve_headers ::
  "(string, string) dict option \<Rightarrow> ExecutionContext \<Rightarrow> placeholder_error + (string, string) dict option" where
  "resolve_headers headers context =
     (case headers of
        None \<Rightarrow> Inr None
      | Some hs \<Rightarrow>
          rbind (rtraverse (\<lambda>(name, v). rbind (resolve_placeholders v context) (\<lambda>r. Inr (name, r))) hs) (\<lambda>rs. Inr (Some rs)))"

text \<open>A JSON body that is \<open>null\<close> is \<open>None\<close> in the source, and so not sent.\<close>

definition resolve_body ::
  "ManifestBody option \<Rightarrow> ExecutionContext \<Rightarrow> placeholder_error + json option \<times> (string, string) dict option" where
  "resolve_body body context =
     (case body of
        None \<Rightarrow> Inr (None, None)
      | Some (JsonBody v) \<Rightarrow>
          rbind (resolve_in_structure v context) (\<lambda>r. Inr (if r = JNull then None else Some r, None))
      | Some (FormBody fs) \<Rightarrow> rbind (resolve_headers (Some fs) context) (\<lambda>r. Inr (None, r)))"

definition validate_resolved_headers :: "string \<Rightarrow> (string, string) dict option \<Rightarrow> string + unit" where
  "validate_resolved_headers i headers =
     (case headers of
        None \<Rightarrow> Inr ()
      | Some hs \<Rightarrow>
          (case rtraverse (\<lambda>(name, v). validate_header_value v (''step '' @ quoted i @ '' resolved header '' @ name)) hs of
             Inl (ManifestError e) \<Rightarrow> Inl e
           | Inr _ \<Rightarrow> Inr ()))"

definition evidence_headers :: "bool \<Rightarrow> (string, string) dict option \<Rightarrow> json_object \<Rightarrow> json_object" where
  "evidence_headers developer_mode headers evidence =
     (case headers of
        None \<Rightarrow> evidence
      | Some hs \<Rightarrow> AList.update ''headers'' (mask_result_headers developer_mode hs) evidence)"

definition evidence_body ::
  "bool \<Rightarrow> json option \<Rightarrow> (string, string) dict option \<Rightarrow> json_object \<Rightarrow> json_object" where
  "evidence_body developer_mode json_body form_body evidence =
     (case json_body of
        Some v \<Rightarrow> AList.update ''body'' (mask_result_json_value developer_mode v) evidence
      | None \<Rightarrow>
          (case form_body of
             Some fs \<Rightarrow> AList.update ''form'' (mask_result_form_fields developer_mode fs) evidence
           | None \<Rightarrow> evidence))"

definition validate_request_url :: "string \<Rightarrow> string \<Rightarrow> caught_error + unit" where
  "validate_request_url url label =
     (case validate_https_url url label of
        Inr _ \<Rightarrow> Inr ()
      | Inl (HttpsUrlValidationError m) \<Rightarrow> Inl (Caught m)
      | Inl UrlValueError \<Rightarrow> Inl Uncaught)"

definition prepare_request :: "'key step_env \<Rightarrow> ManifestStep \<Rightarrow> ExecutionContext \<Rightarrow> step_exit + prepared_request" where
  "prepare_request env step context =
     (let i = ms_id step; request = ms_request step; m = request_method_name (rq_method request);
          dev = se_developer_mode env;
          template_evidence = [(''method'', JStr m), (''url'', JStr (rq_url request))];
          ev0 = (\<lambda>url. [(''method'', JStr m), (''url'', JStr url)])
      in if rq_method request \<notin> {GET, POST, PUT, PATCH, DELETE}
         then Inl (failed_step i context m (rq_url request) [] (''Unsupported request method: '' @ m) template_evidence)
         else
     rbind (or_exit (placeholder_exit i context m (rq_url request) ''url'' template_evidence)
              (resolve_placeholders (rq_url request) context)) (\<lambda>url.
     rbind (or_exit (placeholder_exit i context m url ''headers'' (ev0 url))
              (resolve_headers (rq_headers request) context)) (\<lambda>headers.
     let ev1 = evidence_headers dev headers (ev0 url) in
     rbind (or_exit (\<lambda>e. failed_step i context m url [] (''Resolved header validation failed: '' @ e) ev1)
              (validate_resolved_headers i headers)) (\<lambda>_.
     rbind (or_exit (placeholder_exit i context m url ''body'' ev1)
              (resolve_body (rq_body request) context)) (\<lambda>(json_body, form_body).
     let ev2 = evidence_body dev json_body form_body ev1 in
     rbind (or_exit (\<lambda>e. case e of Caught t \<Rightarrow> failed_step i context m url [] t ev2 | Uncaught \<Rightarrow> StepCrash [])
              (validate_request_url url (''Step '' @ quoted i @ '' request URL''))) (\<lambda>_.
     rbind (or_exit (\<lambda>t. failed_step i context m url [] (''Unable to apply request signing: '' @ t) ev2)
              (maybe_apply_ob_detached_jws env step url headers json_body)) (\<lambda>(signed_headers, serialized).
     let ev3 = evidence_headers dev signed_headers ev2 in
     rbind (or_exit (\<lambda>t. failed_step i context m url []
                           (''Unable to apply token endpoint client authentication: '' @ t) ev3)
              (apply_token_endpoint_auth_policy env step form_body url)) (\<lambda>final_form.
       Inr \<lparr>pq_url = url, pq_headers = signed_headers, pq_json = json_body, pq_bytes = serialized, pq_form = final_form,
            pq_evidence = evidence_body dev json_body final_form ev3\<rparr>))))))))"

section \<open>Judging a response\<close>

definition record_runtime_token_if_present :: "ExecutionContext \<Rightarrow> ManifestStep \<Rightarrow> ResponseRecord \<Rightarrow> ExecutionContext" where
  "record_runtime_token_if_present context step response =
     (case ms_produces_token_id step of
        None \<Rightarrow> context
      | Some token_id \<Rightarrow>
          (case jget (rp_body response) ''access_token'' of
             JStr access_token \<Rightarrow> if access_token = [] then context else record_token context token_id access_token
           | _ \<Rightarrow> context))"

fun needs_json_body :: "ManifestAssertion \<Rightarrow> bool" where
  "needs_json_body (AJsonField _) = True"
| "needs_json_body (AResponseSchema _) = True"
| "needs_json_body _ = False"

definition assertions_require_json_body :: "ManifestAssertion list \<Rightarrow> bool" where
  "assertions_require_json_body assertions = list_ex needs_json_body assertions"

definition caught_http :: "http_error + 'a \<Rightarrow> caught_error + 'a" where
  "caught_http r =
     (case r of
        Inr x \<Rightarrow> Inr x
      | Inl (JsonHttpClientError m _) \<Rightarrow> Inl (Caught m)
      | Inl (SendValueError m) \<Rightarrow> Inl (Caught m)
      | Inl UncaughtHttpError \<Rightarrow> Inl Uncaught)"

definition validate_jwks_url :: "'key step_env \<Rightarrow> string \<Rightarrow> caught_error + unit" where
  "validate_jwks_url env url =
     (case validate_https_url url ''discovery jwks_uri'' of
        Inr _ \<Rightarrow> Inr ()
      | Inl (HttpsUrlValidationError m) \<Rightarrow> Inl (Caught m)
      | Inl UrlValueError \<Rightarrow> Inl (Caught (se_url_error env url)))"

definition fetch_response_signature_jwks ::
  "'key step_env \<Rightarrow> string \<Rightarrow> RuntimeConfig option \<Rightarrow> caught_error + json_object" where
  "fetch_response_signature_jwks env i config =
     (case Option.bind config cf_discovery_url of
        None \<Rightarrow> Inl (Caught ''Response signature validation requires runtime config discoveryUrl'')
      | Some discovery_url \<Rightarrow>
          rbind (caught_http (get_json (se_client env) (se_transport env i 1) discovery_url)) (\<lambda>discovery_response.
          let missing = Inl (Caught
                ''OpenID discovery response must contain jwks_uri for response signature validation'') in
          case jget (jr_body discovery_response) ''jwks_uri'' of
            JStr jwks_uri \<Rightarrow>
              (if py_strip jwks_uri = [] then missing
               else rbind (validate_jwks_url env (py_strip jwks_uri)) (\<lambda>_.
                 rbind (caught_http (get_json (se_client env) (se_transport env i 2) (py_strip jwks_uri))) (\<lambda>jwks_response.
                   if is_array (jget (jr_body jwks_response) ''keys'') then Inr (jr_body jwks_response)
                   else Inl (Caught ''JWKS response must contain a keys array''))))
          | _ \<Rightarrow> missing))"

text \<open>\<open>_ResponseSignatureJwksCache.get\<close>.\<close>

definition jwks_cache_get ::
  "(caught_error + json_object) \<Rightarrow> json_object option \<Rightarrow> (caught_error + json_object) \<times> json_object option" where
  "jwks_cache_get fetch cached =
     (case cached of
        Some jwks \<Rightarrow> (Inr jwks, cached)
      | None \<Rightarrow> (case fetch of Inl e \<Rightarrow> (Inl e, None) | Inr jwks \<Rightarrow> (Inr jwks, Some jwks)))"

definition caught_signature :: "response_signature_error + 'a \<Rightarrow> caught_error + 'a" where
  "caught_signature r =
     (case r of
        Inr x \<Rightarrow> Inr x
      | Inl (ResponseSignatureValidationError m) \<Rightarrow> Inl (Caught m)
      | Inl (SignatureValueError m) \<Rightarrow> Inl (Caught m)
      | Inl UncaughtSignatureError \<Rightarrow> Inl Uncaught)"

definition validate_response_signature_if_required ::
  "'key step_env \<Rightarrow> ManifestStep \<Rightarrow> JsonHttpResponse \<Rightarrow> ExecutionContext \<Rightarrow> caught_error + json_object option" where
  "validate_response_signature_if_required env step response context =
     (if \<not> ms_response_signature_policy step then Inr None
      else case headers_getitem (jr_headers response) ''x-jws-signature'' of
        Inl _ \<Rightarrow> Inl (Caught ''x-jws-signature header is missing'')
      | Inr signature \<Rightarrow>
          if py_strip signature = [] then Inl (Caught ''x-jws-signature header is missing'')
          else rbind (fst (jwks_cache_get (fetch_response_signature_jwks env (ms_id step) (ec_config context))
                             (se_cached_jwks env (ms_id step)))) (\<lambda>jwks.
               rbind (caught_signature (validate_ob_response_signature (se_jose env) (Some signature)
                        (jr_body_bytes response) jwks)) (\<lambda>validation.
                 Inr (Some (validation_to_json_object validation)))))"

definition assertion_result_to_json :: "AssertionResult \<Rightarrow> json_object" where
  "assertion_result_to_json r =
     [(''status'', JStr (if ar_passed r then ''passed'' else ''failed'')), (''message'', JStr (ar_message r))]"

definition evaluate_assertions ::
  "'key step_env \<Rightarrow> JsonHttpResponse \<Rightarrow> ManifestAssertion list \<Rightarrow> assertion_exception + AssertionResult list" where
  "evaluate_assertions env response assertions =
     rtraverse (\<lambda>a. evaluate_assertion (se_schema env) a (jr_status_code response)
                        (Some (fh_items (jr_headers response))) (jr_body response)) assertions"

definition build_assertion_step ::
  "'key step_env \<Rightarrow> string \<Rightarrow> string \<Rightarrow> string \<Rightarrow> JsonHttpResponse \<Rightarrow> ManifestAssertion list \<Rightarrow> string option \<Rightarrow>
   assertion_exception + StepResult" where
  "build_assertion_step env name success_message failure_message response assertions warning =
     rbind (evaluate_assertions env response assertions) (\<lambda>results.
       let passed = list_all ar_passed results;
           details = [(''assertions'', JArr (map (\<lambda>r. JObj (assertion_result_to_json r)) results))];
           judged = (\<lambda>status message details.
             \<lparr>sr_name = name, sr_status = status, sr_message = message, sr_url = Some (jr_url response),
              sr_status_code = Some (jr_status_code response), sr_details = details, sr_mandatory = False\<rparr>)
       in case warning of
            Some w \<Rightarrow>
              if passed
              then Inr (judged CWarn (success_message @ '' (warning: '' @ w @ '')'') (details @ [(''warning'', JStr w)]))
              else Inr (judged CFailed failure_message details)
          | None \<Rightarrow>
              Inr (judged (if passed then CPassed else CFailed)
                     (if passed then success_message else failure_message) details))"

definition assertion_events :: "string \<Rightarrow> StepResult \<Rightarrow> emission list" where
  "assertion_events i r =
     (case jget (sr_details r) ''assertions'' of
        JArr entries \<Rightarrow>
          map (\<lambda>(index, entry). (AssertionEvaluated, Some i, (''index'', JInt (int index)) # obj_of entry))
            (filter (\<lambda>(_, entry). is_object entry) (enumerate 0 entries))
      | _ \<Rightarrow> [])"

definition response_evidence :: "bool \<Rightarrow> JsonHttpResponse \<Rightarrow> json_object" where
  "response_evidence developer_mode response =
     [(''statusCode'', JInt (jr_status_code response)),
      (''body'', mask_result_json_value developer_mode (JObj (jr_body response)))]
     @ (if headers_len (jr_headers response) = 0 then []
        else [(''headers'', mask_result_headers developer_mode (fh_items (jr_headers response)))])"

section \<open>The step\<close>

definition status_member :: "int option \<Rightarrow> json_object" where
  "status_member code = opt_member ''statusCode'' (map_option JInt code)"

text \<open>What happens once the response has been parsed.\<close>

definition judge_response ::
  "'key step_env \<Rightarrow> ManifestStep \<Rightarrow> ExecutionContext \<Rightarrow> prepared_request \<Rightarrow> emission list \<Rightarrow> JsonHttpResponse \<Rightarrow> step_exit" where
  "judge_response env step context p events response =
     (let i = ms_id step;
          rr = response_record (jr_status_code response) (jr_body response) (Some (fh_items (jr_headers response)));
          new_context = record_runtime_token_if_present
            (record_step context i \<lparr>rr_method = request_method_name (rq_method (ms_request step)), rr_url = pq_url p\<rparr> (Some rr))
            step rr;
          evidence = response_evidence (se_developer_mode env) response;
          received = events @ [(ResponseReceived, Some i,
            [(''statusCode'', JInt (jr_status_code response)), (''url'', JStr (jr_url response))])]
      in case validate_response_signature_if_required env step response context of
           Inl Uncaught \<Rightarrow> StepCrash received
         | Inl (Caught e) \<Rightarrow>
             StepDone (received @ [(ResponseSignatureInvalid, Some i, [(''message'', JStr e)])])
               (attach_evidence
                  ((step_result i CFailed (''Response signature validation failed: '' @ e) (pq_url p))
                     \<lparr>sr_status_code := Some (jr_status_code response)\<rparr>)
                  (pq_evidence p)
                  (Some (evidence @ [(''responseSignature'', JObj [(''status'', JStr ''failed''), (''message'', JStr e)])])))
               new_context
         | Inr signature \<Rightarrow>
             let validated = (case signature of None \<Rightarrow> [] | Some s \<Rightarrow> [(ResponseSignatureValidated, Some i, s)]);
                 evidence' = evidence @ (case signature of None \<Rightarrow> []
                   | Some s \<Rightarrow> [(''responseSignature'', JObj ((''status'', JStr ''passed'') # s))])
             in case build_assertion_step env i (ms_name step @ '' passed'') (ms_name step @ '' failed'') response
                       (ms_assertions step) (ms_warning step) of
                  Inl _ \<Rightarrow> StepCrash (received @ validated)
                | Inr r \<Rightarrow>
                    StepDone (received @ validated @ assertion_events i r)
                      (attach_evidence r (pq_evidence p) (Some evidence')) new_context)"

definition send_prepared :: "'key step_env \<Rightarrow> ManifestStep \<Rightarrow> prepared_request \<Rightarrow> http_error + JsonHttpResponse" where
  "send_prepared env step p =
     send_json (se_client env) (se_transport env (ms_id step) 0) (request_method_name (rq_method (ms_request step)))
       (pq_url p) (pq_headers p)
       \<lparr>ba_json = (if pq_bytes p \<noteq> None then None else pq_json p), ba_json_bytes = pq_bytes p, ba_form = pq_form p,
        ba_raw = None\<rparr>
       (\<not> assertions_require_json_body (ms_assertions step))"

definition execute_v1_step_inner :: "'key step_env \<Rightarrow> ManifestStep \<Rightarrow> ExecutionContext \<Rightarrow> step_exit" where
  "execute_v1_step_inner env step context =
     (case prepare_request env step context of
        Inl early_exit \<Rightarrow> early_exit
      | Inr p \<Rightarrow>
          let i = ms_id step; sent = [(RequestSent, Some i, pq_evidence p)]
          in case send_prepared env step p of
               Inr response \<Rightarrow> judge_response env step context p sent response
             | Inl (JsonHttpClientError e code) \<Rightarrow>
                 StepDone
                   (sent @ [(ApplicationError, Some i, (''message'', JStr e) # status_member code)])
                   (attach_evidence ((step_result i CFailed e (pq_url p))\<lparr>sr_status_code := code\<rparr>) (pq_evidence p)
                      (map_option (\<lambda>c. [(''statusCode'', JInt c)]) code))
                   (record_step context i \<lparr>rr_method = request_method_name (rq_method (ms_request step)), rr_url = pq_url p\<rparr> None)
             | Inl _ \<Rightarrow> StepCrash sent)"

definition step_completed :: "string \<Rightarrow> StepResult \<Rightarrow> emission" where
  "step_completed i r =
     (StepCompleted, Some i,
      [(''status'', JStr (check_status_name (sr_status r))), (''message'', JStr (sr_message r))]
      @ status_member (sr_status_code r))"

definition execute_v1_step :: "'key step_env \<Rightarrow> ManifestStep \<Rightarrow> ExecutionContext \<Rightarrow> step_exit" where
  "execute_v1_step env step context =
     (let started = (StepStarted, Some (ms_id step), [])
      in case execute_v1_step_inner env step context of
           StepCrash events \<Rightarrow> StepCrash (started # events)
         | StepHangs events \<Rightarrow> StepHangs (started # events)
         | StepDone events r c \<Rightarrow> StepDone (started # events @ [step_completed (ms_id step) r]) r c)"

section \<open>Lemmas\<close>

lemma or_exit_eqs [result_simps]:
  "or_exit f r = Inr x \<longleftrightarrow> r = Inr x"
  "or_exit f r = Inl y \<longleftrightarrow> (\<exists>e. r = Inl e \<and> y = f e)"
  by (cases r; auto simp: or_exit_def)+

lemma supported_method: "m \<in> {GET, POST, PUT, PATCH, DELETE}"
  by (cases m) auto

lemma attach_evidence_simps [simp]:
  "sr_name (attach_evidence r q e) = sr_name r" "sr_status (attach_evidence r q e) = sr_status r"
  "sr_mandatory (attach_evidence r q e) = sr_mandatory r" "sr_status_code (attach_evidence r q e) = sr_status_code r"
  by (simp_all add: attach_evidence_def Let_def)

lemma attach_evidence_members:
  "jget (sr_details (attach_evidence r q e)) ''request'' = JObj q"
  "jget (sr_details (attach_evidence r q (Some o'))) ''response'' = JObj o'"
  "jget (sr_details (attach_evidence r q None)) ''response'' = jget (sr_details r) ''response''"
  by (simp_all add: attach_evidence_def Let_def jget_def update_conv split: option.splits)

lemma step_result_simps [simp]:
  "sr_name (step_result i st m u) = i" "sr_status (step_result i st m u) = st" "sr_details (step_result i st m u) = []"
  "\<not> sr_mandatory (step_result i st m u)"
  by (simp_all add: step_result_def)

subsection \<open>Masked evidence\<close>

definition entry_masked :: "string \<times> json \<Rightarrow> bool" where
  "entry_masked entry =
     ((fst entry = ''headers'' \<longrightarrow>
         (\<forall>(n, w) \<in> set (obj_of (snd entry)). py_lower n \<in> set SENSITIVE_HEADER_NAMES \<longrightarrow> w = JStr MASKED_VALUE)) \<and>
      (fst entry \<in> {''body'', ''form''} \<longrightarrow> all_masked (snd entry)))"

definition evidence_masked :: "json_object \<Rightarrow> bool" where
  "evidence_masked e = list_all entry_masked e"

lemma evidence_masked_update:
  assumes "evidence_masked e" "entry_masked (k, v)"
  shows "evidence_masked (AList.update k v e)"
  using assms set_update_subset [of k v e] by (auto simp: evidence_masked_def list_all_iff)

lemma masked_headers_entry: "entry_masked (''headers'', mask_result_headers False hs)"
  by (auto simp: entry_masked_def mask_result_headers_def str_members_def mask_headers_def)

lemma masked_body_entry: "entry_masked (''body'', mask_result_json_value False v)"
  by (simp add: entry_masked_def mask_result_json_value_def mask_all_masked)

lemma masked_form_entry: "entry_masked (''form'', mask_result_form_fields False fs)"
  by (auto simp: entry_masked_def mask_result_form_fields_def str_members_def mask_form_fields_def)

lemma evidence_masked_headers: "evidence_masked e \<Longrightarrow> evidence_masked (evidence_headers False hs e)"
  by (auto simp: evidence_headers_def intro: evidence_masked_update masked_headers_entry split: option.splits)

lemma evidence_masked_body: "evidence_masked e \<Longrightarrow> evidence_masked (evidence_body False j f e)"
  by (auto simp: evidence_body_def intro: evidence_masked_update masked_body_entry masked_form_entry split: option.splits)

lemma evidence_masked_base: "evidence_masked [(''method'', JStr m), (''url'', JStr u)]"
  by (simp add: evidence_masked_def entry_masked_def)

lemma evidence_masked_append [simp]: "evidence_masked (a @ b) \<longleftrightarrow> evidence_masked a \<and> evidence_masked b"
  by (simp add: evidence_masked_def)

lemma response_evidence_masked: "evidence_masked (response_evidence False r)"
  using masked_headers_entry masked_body_entry
  by (auto simp: evidence_masked_def response_evidence_def) (simp_all add: entry_masked_def)

lemmas evidence_masked_intros = evidence_masked_headers evidence_masked_body evidence_masked_base

subsection \<open>How a preparation can end\<close>

text \<open>The failures before a request: none of them sends anything, and their evidence is masked.\<close>

definition early_failure :: "bool \<Rightarrow> string \<Rightarrow> ExecutionContext \<Rightarrow> string \<Rightarrow> step_exit \<Rightarrow> bool" where
  "early_failure masked i context m ex =
     (ex = StepCrash [] \<or>
      (\<exists>url events message evidence. (masked \<longrightarrow> evidence_masked evidence) \<and>
          (\<forall>e \<in> set events. fst e = PlaceholderErrorEvent) \<and>
          ex = failed_step i context m url events message evidence))"

definition early_skip :: "bool \<Rightarrow> string \<Rightarrow> ExecutionContext \<Rightarrow> string \<Rightarrow> step_exit \<Rightarrow> bool" where
  "early_skip masked i context m ex =
     (\<exists>url message evidence. (masked \<longrightarrow> evidence_masked evidence) \<and> ex = skipped_step i context m url message evidence)"

text \<open>The placeholder error that ends a preparation, when one does.\<close>

definition resolution_error :: "ManifestStep \<Rightarrow> ExecutionContext \<Rightarrow> placeholder_error option" where
  "resolution_error step context =
     (let request = ms_request step in
      case resolve_placeholders (rq_url request) context of
        Inl e \<Rightarrow> Some e
      | Inr _ \<Rightarrow>
          (case resolve_headers (rq_headers request) context of
             Inl e \<Rightarrow> Some e
           | Inr headers \<Rightarrow>
               (case validate_resolved_headers (ms_id step) headers of
                  Inl _ \<Rightarrow> None
                | Inr _ \<Rightarrow> (case resolve_body (rq_body request) context of Inl e \<Rightarrow> Some e | Inr _ \<Rightarrow> None))))"

definition missing_predecessor :: "ManifestStep \<Rightarrow> ExecutionContext \<Rightarrow> bool" where
  "missing_predecessor step context = (\<exists>m. resolution_error step context = Some (MissingPredecessorResponseError m))"

lemma failed_step_early:
  assumes "masked \<longrightarrow> evidence_masked evidence" "\<forall>e \<in> set events. fst e = PlaceholderErrorEvent"
  shows "early_failure masked i context m (failed_step i context m url events message evidence)"
  unfolding early_failure_def using assms by blast

lemma crash_early: "early_failure masked i context m (StepCrash [])"
  by (simp add: early_failure_def)

lemma placeholder_exit_cases:
  assumes "masked \<longrightarrow> evidence_masked evidence"
  shows "if \<exists>t. e = MissingPredecessorResponseError t
         then early_skip masked i context m (placeholder_exit i context m url loc evidence e)
         else early_failure masked i context m (placeholder_exit i context m url loc evidence e)"
  using assms by (cases e) (auto simp: placeholder_exit_def early_skip_def intro!: failed_step_early)

lemma prepare_exit:
  assumes prep: "prepare_request env step context = Inl ex"
  shows "if missing_predecessor step context
         then early_skip (\<not> se_developer_mode env) (ms_id step) context (request_method_name (rq_method (ms_request step))) ex
         else early_failure (\<not> se_developer_mode env) (ms_id step) context (request_method_name (rq_method (ms_request step))) ex"
    (is "if ?missing then ?skip else ?fail")
proof -
  let ?dev = "se_developer_mode env" and ?m = "request_method_name (rq_method (ms_request step))" and ?rq = "ms_request step"
  let ?ev0 = "\<lambda>url. [(''method'', JStr ?m), (''url'', JStr url)]"
  have ev1: "\<not> ?dev \<longrightarrow> evidence_masked (evidence_headers ?dev hs (?ev0 url))" for hs url
    by (cases ?dev) (auto intro: evidence_masked_intros)
  have ev2: "\<not> ?dev \<longrightarrow> evidence_masked (evidence_body ?dev j f (evidence_headers ?dev hs (?ev0 url)))" for j f hs url
    by (cases ?dev) (auto intro: evidence_masked_intros)
  have ev3: "\<not> ?dev \<longrightarrow> evidence_masked (evidence_headers ?dev hs' (evidence_body ?dev j f (evidence_headers ?dev hs (?ev0 url))))"
    for j f hs hs' url by (cases ?dev) (auto intro: evidence_masked_intros)
  note prep' = prep [unfolded prepare_request_def Let_def, simplified supported_method not_not if_False]
  note miss = missing_predecessor_def resolution_error_def Let_def
  show ?thesis
  proof (cases "resolve_placeholders (rq_url ?rq) context")
    case (Inl e)
    with prep' have "ex = placeholder_exit (ms_id step) context ?m (rq_url ?rq) ''url'' (?ev0 (rq_url ?rq)) e"
      by (simp add: or_exit_def)
    with placeholder_exit_cases [of "\<not> ?dev" "?ev0 (rq_url ?rq)" e] Inl show ?thesis
      by (simp add: miss evidence_masked_base)
  next
    case (Inr url)
    note url = this
    show ?thesis
    proof (cases "resolve_headers (rq_headers ?rq) context")
      case (Inl e)
      with prep' url have "ex = placeholder_exit (ms_id step) context ?m url ''headers'' (?ev0 url) e"
        by (simp add: or_exit_def)
      with placeholder_exit_cases [of "\<not> ?dev" "?ev0 url" e] Inl url show ?thesis
        by (simp add: miss evidence_masked_base)
    next
      case (Inr hs)
      note hs = this
      show ?thesis
      proof (cases "validate_resolved_headers (ms_id step) hs")
        case (Inl e)
        with prep' url hs show ?thesis by (auto simp: or_exit_def miss intro!: failed_step_early ev1 [rule_format])
      next
        case (Inr u)
        note ok = this
        show ?thesis
        proof (cases "resolve_body (rq_body ?rq) context")
          case (Inl e)
          with prep' url hs ok have "ex = placeholder_exit (ms_id step) context ?m url ''body'' (evidence_headers ?dev hs (?ev0 url)) e"
            by (simp add: or_exit_def)
          with placeholder_exit_cases [OF ev1, of e] Inl url hs ok show ?thesis by (simp add: miss)
        next
          case (Inr b)
          obtain j f where b: "b = (j, f)" by (cases b)
          from prep' url hs ok Inr b have ?fail
            by (auto simp: or_exit_def crash_early split: sum.splits caught_error.splits prod.splits
                intro!: failed_step_early ev2 [rule_format] ev3 [rule_format])
          with url hs ok Inr show ?thesis by (simp add: miss)
        qed
      qed
    qed
  qed
qed

lemma prepare_Inr:
  assumes "prepare_request env step context = Inr p"
  shows "resolution_error step context = None" "\<not> se_developer_mode env \<Longrightarrow> evidence_masked (pq_evidence p)"
proof -
  note prep = assms [unfolded prepare_request_def Let_def, simplified supported_method simp_thms if_False rbind_eq_Inr or_exit_eqs]
  show "resolution_error step context = None"
    using prep by (auto simp: resolution_error_def Let_def)
  show "evidence_masked (pq_evidence p)" if "\<not> se_developer_mode env"
    using prep that by (auto simp: rbind_eq_Inr or_exit_eqs intro!: evidence_masked_intros)
qed

subsection \<open>The result of a step\<close>

lemma build_assertion_step_Inr:
  assumes "build_assertion_step env name s f response assertions warning = Inr r"
  obtains results where "evaluate_assertions env response assertions = Inr results" "sr_name r = name"
    "sr_status r = (if list_all ar_passed results then (if warning = None then CPassed else CWarn) else CFailed)"
    "jget (sr_details r) ''response'' = JNull"
  using assms by (auto simp: build_assertion_step_def rbind_eq_Inr Let_def jget_def split: option.splits if_splits)

lemma token_context_simps [simp]:
  "ec_steps (record_runtime_token_if_present c step rr) = ec_steps c"
  "ec_config (record_runtime_token_if_present c step rr) = ec_config c"
  by (auto simp: record_runtime_token_if_present_def record_token_def split: option.splits json.splits)

lemma record_step_simps [simp]:
  "ec_steps (record_step c i q o') = AList.update i \<lparr>rec_request = q, rec_response = o'\<rparr> (ec_steps c)"
  "ec_tokens (record_step c i q o') = ec_tokens c" "ec_config (record_step c i q o') = ec_config c"
  by (simp_all add: record_step_def)

text \<open>A step only writes its own record and the token it declares.\<close>

definition own_writes :: "ManifestStep \<Rightarrow> ExecutionContext \<Rightarrow> ExecutionContext \<Rightarrow> bool" where
  "own_writes step c c' =
     ((\<exists>r. ec_steps c' = AList.update (ms_id step) r (ec_steps c)) \<and> ec_config c' = ec_config c \<and>
      (ec_tokens c' = ec_tokens c \<or>
       (\<exists>t v. ms_produces_token_id step = Some t \<and> ec_tokens c' = AList.update t v (ec_tokens c))))"

lemma own_writes_record: "own_writes step c (record_step c (ms_id step) q o')"
  by (auto simp: own_writes_def)

lemma own_writes_token: "own_writes step c c' \<Longrightarrow> ec_tokens c' = ec_tokens c \<Longrightarrow>
   own_writes step c (record_runtime_token_if_present c' step rr)"
  by (auto simp: own_writes_def record_runtime_token_if_present_def record_token_def split: option.splits json.splits)

lemma exit_of_early:
  assumes "early_skip k i c m (StepDone ev r c') \<or> early_failure k i c m (StepDone ev r c')"
  shows "sr_name r = i" "\<exists>q. c' = record_step c i q None" "sr_status r \<in> {CSkipped, CFailed}"
    "\<forall>e \<in> set ev. fst e = PlaceholderErrorEvent" "jget (sr_details r) ''response'' = JNull"
    "\<exists>e. jget (sr_details r) ''request'' = JObj e \<and> (k \<longrightarrow> evidence_masked e)"
  using assms
  by (auto simp: early_skip_def early_failure_def skipped_step_def failed_step_def attach_evidence_members)

lemma inner_cases:
  assumes "execute_v1_step_inner env step context = StepDone ev r c"
  obtains
    (early) "prepare_request env step context = Inl (StepDone ev r c)"
  | (transport) p e code where "prepare_request env step context = Inr p" "send_prepared env step p = Inl (JsonHttpClientError e code)"
      "sr_name r = ms_id step" "sr_status r = CFailed" "(RequestSent, Some (ms_id step), pq_evidence p) \<in> set ev"
      "c = record_step context (ms_id step) \<lparr>rr_method = request_method_name (rq_method (ms_request step)), rr_url = pq_url p\<rparr> None"
      "jget (sr_details r) ''request'' = JObj (pq_evidence p)"
      "jget (sr_details r) ''response'' = (case code of None \<Rightarrow> JNull | Some n \<Rightarrow> JObj [(''statusCode'', JInt n)])"
  | (judged) p response where "prepare_request env step context = Inr p" "send_prepared env step p = Inr response"
      "judge_response env step context p [(RequestSent, Some (ms_id step), pq_evidence p)] response = StepDone ev r c"
proof (cases "prepare_request env step context")
  case (Inl x)
  then show ?thesis using assms early by (simp add: execute_v1_step_inner_def)
next
  case (Inr p)
  show ?thesis
  proof (cases "send_prepared env step p")
    case (Inr response)
    with \<open>prepare_request env step context = Inr p\<close> assms judged show ?thesis by (simp add: execute_v1_step_inner_def)
  next
    case (Inl x)
    note failed = assms [unfolded execute_v1_step_inner_def Inr Inl sum.case Let_def]
    from failed obtain e code where x: "x = JsonHttpClientError e code" by (cases x) auto
    show ?thesis
      by (rule transport [OF Inr Inl [unfolded x]])
        (use failed in \<open>auto simp: x attach_evidence_members split: option.splits\<close>)
  qed
qed

text \<open>The verdict on a received response.\<close>

definition response_ok :: "'key step_env \<Rightarrow> ManifestStep \<Rightarrow> ExecutionContext \<Rightarrow> JsonHttpResponse \<Rightarrow> bool" where
  "response_ok env step context response =
     ((\<exists>s. validate_response_signature_if_required env step response context = Inr s) \<and>
      (\<exists>rs. evaluate_assertions env response (ms_assertions step) = Inr rs \<and> list_all ar_passed rs))"

lemma judged_result:
  assumes "judge_response env step context p ev0 response = StepDone ev r c"
  shows "sr_name r = ms_id step" "set ev0 \<subseteq> set ev" "own_writes step context c"
    "\<exists>q rr. map_of (ec_steps c) (ms_id step) = Some \<lparr>rec_request = q, rec_response = Some rr\<rparr>"
    "sr_status r = (if response_ok env step context response then if ms_warning step = None then CPassed else CWarn else CFailed)"
    "jget (sr_details r) ''request'' = JObj (pq_evidence p)"
    "\<exists>e. jget (sr_details r) ''response'' = JObj e \<and> (\<not> se_developer_mode env \<longrightarrow> evidence_masked e)"
proof -
  note J = assms [unfolded judge_response_def Let_def]
  have masked: "\<not> se_developer_mode env \<longrightarrow>
      evidence_masked (response_evidence (se_developer_mode env) response @ [(''responseSignature'', x)])"
    "\<not> se_developer_mode env \<longrightarrow> evidence_masked (response_evidence (se_developer_mode env) response)" for x
    using response_evidence_masked by (auto simp: evidence_masked_def entry_masked_def)
  show "own_writes step context c"
    using J by (auto intro!: own_writes_token own_writes_record split: sum.splits caught_error.splits)
  show "\<exists>q rr. map_of (ec_steps c) (ms_id step) = Some \<lparr>rec_request = q, rec_response = Some rr\<rparr>"
    using J by (auto simp: update_conv split: sum.splits caught_error.splits)
  show "set ev0 \<subseteq> set ev" using J by (auto split: sum.splits caught_error.splits)
  consider (bad) e where "validate_response_signature_if_required env step response context = Inl (Caught e)"
      "r = attach_evidence ((step_result (ms_id step) CFailed (''Response signature validation failed: '' @ e) (pq_url p))
             \<lparr>sr_status_code := Some (jr_status_code response)\<rparr>) (pq_evidence p)
             (Some (response_evidence (se_developer_mode env) response
                @ [(''responseSignature'', JObj [(''status'', JStr ''failed''), (''message'', JStr e)])]))"
    | (good) sig r0 where "validate_response_signature_if_required env step response context = Inr sig"
      "build_assertion_step env (ms_id step) (ms_name step @ '' passed'') (ms_name step @ '' failed'') response
         (ms_assertions step) (ms_warning step) = Inr r0"
      "r = attach_evidence r0 (pq_evidence p) (Some (response_evidence (se_developer_mode env) response @
             (case sig of None \<Rightarrow> [] | Some s \<Rightarrow> [(''responseSignature'', JObj ((''status'', JStr ''passed'') # s))])))"
    using J by (auto split: sum.splits caught_error.splits)
  then have all: "sr_name r = ms_id step \<and>
     sr_status r = (if response_ok env step context response then if ms_warning step = None then CPassed else CWarn else CFailed) \<and>
     jget (sr_details r) ''request'' = JObj (pq_evidence p) \<and>
     (\<exists>e. jget (sr_details r) ''response'' = JObj e \<and> (\<not> se_developer_mode env \<longrightarrow> evidence_masked e))"
  proof cases
    case bad
    then show ?thesis using masked by (simp add: attach_evidence_members response_ok_def)
  next
    case good
    from build_assertion_step_Inr [OF good(2)] obtain results where
      "evaluate_assertions env response (ms_assertions step) = Inr results" "sr_name r0 = ms_id step"
      "sr_status r0 = (if list_all ar_passed results then (if ms_warning step = None then CPassed else CWarn) else CFailed)"
      by metis
    then show ?thesis using good masked
      by (cases sig) (auto simp: attach_evidence_members response_ok_def)
  qed
  then show "sr_name r = ms_id step"
    "sr_status r = (if response_ok env step context response then if ms_warning step = None then CPassed else CWarn else CFailed)"
    "jget (sr_details r) ''request'' = JObj (pq_evidence p)"
    "\<exists>e. jget (sr_details r) ''response'' = JObj e \<and> (\<not> se_developer_mode env \<longrightarrow> evidence_masked e)" by blast+
qed

lemma step_inner:
  assumes "execute_v1_step env step context = StepDone ev r c"
  obtains ev' where "execute_v1_step_inner env step context = StepDone ev' r c"
    "ev = (StepStarted, Some (ms_id step), []) # ev' @ [step_completed (ms_id step) r]"
  using assms by (auto simp: execute_v1_step_def Let_def split: step_exit.splits)

text \<open>The contract of a step that returns, whichever way it went.\<close>

definition step_contract :: "'key step_env \<Rightarrow> ManifestStep \<Rightarrow> ExecutionContext \<Rightarrow> StepResult \<Rightarrow> ExecutionContext \<Rightarrow> bool" where
  "step_contract env step context r c =
     (sr_name r = ms_id step \<and> own_writes step context c \<and>
      ((\<exists>q rr. map_of (ec_steps c) (ms_id step) = Some \<lparr>rec_request = q, rec_response = Some rr\<rparr>) \<longleftrightarrow>
         (\<exists>p response. prepare_request env step context = Inr p \<and> send_prepared env step p = Inr response)) \<and>
      (sr_status r = CSkipped \<longleftrightarrow> missing_predecessor step context) \<and>
      (sr_status r \<in> {CPassed, CWarn} \<longleftrightarrow> (\<exists>p response. prepare_request env step context = Inr p \<and>
         send_prepared env step p = Inr response \<and> response_ok env step context response)) \<and>
      (sr_status r = CWarn \<longrightarrow> ms_warning step \<noteq> None) \<and> (sr_status r = CPassed \<longrightarrow> ms_warning step = None))"

lemma early_contract:
  assumes prep: "prepare_request env step context = Inl (StepDone ev r c)"
  shows "step_contract env step context r c"
proof -
  note ex = prepare_exit [OF prep]
  have "early_skip (\<not> se_developer_mode env) (ms_id step) context (request_method_name (rq_method (ms_request step))) (StepDone ev r c)
      \<or> early_failure (\<not> se_developer_mode env) (ms_id step) context (request_method_name (rq_method (ms_request step))) (StepDone ev r c)"
    using ex by (auto split: if_splits)
  note e = exit_of_early [OF this]
  obtain q where c: "c = record_step context (ms_id step) q None" using e(2) by blast
  have "sr_status r = CSkipped \<longleftrightarrow> missing_predecessor step context"
    using ex by (auto simp: early_skip_def early_failure_def skipped_step_def failed_step_def split: if_splits)
  then show ?thesis
    using e(1,3) prep own_writes_record [of step "context" q None]
    by (auto simp: step_contract_def c update_conv)
qed

lemma step_meets_contract:
  assumes "execute_v1_step env step context = StepDone ev r c"
  shows "step_contract env step context r c"
proof -
  obtain ev' where "execute_v1_step_inner env step context = StepDone ev' r c" using step_inner [OF assms] by metis
  then show ?thesis
  proof (cases rule: inner_cases)
    case early
    then show ?thesis by (rule early_contract)
  next
    case (transport p e code)
    then show ?thesis using prepare_Inr(1) [OF transport(1)] own_writes_record
      by (auto simp: step_contract_def missing_predecessor_def update_conv)
  next
    case (judged p response)
    note j = judged_result [OF judged(3)]
    show ?thesis using j(1,3,4,5) judged(1,2) prepare_Inr(1) [OF judged(1)]
      by (auto simp: step_contract_def missing_predecessor_def split: if_splits)
  qed
qed

lemma request_sent_iff:
  assumes "execute_v1_step env step context = StepDone ev r c"
  shows "RequestSent \<in> fst ` set ev \<longleftrightarrow> (\<exists>p. prepare_request env step context = Inr p)"
proof -
  obtain ev' where inner: "execute_v1_step_inner env step context = StepDone ev' r c"
    and ev: "ev = (StepStarted, Some (ms_id step), []) # ev' @ [step_completed (ms_id step) r]" using step_inner [OF assms] by metis
  have "RequestSent \<in> fst ` set ev \<longleftrightarrow> RequestSent \<in> fst ` set ev'" by (simp add: ev step_completed_def)
  moreover from inner have "RequestSent \<in> fst ` set ev' \<longleftrightarrow> (\<exists>p. prepare_request env step context = Inr p)"
  proof (cases rule: inner_cases)
    case early
    note ex = prepare_exit [OF early]
    have "\<forall>e \<in> set ev'. fst e = PlaceholderErrorEvent"
      using exit_of_early(4) [of _ _ _ _ ev' r c] ex by (metis (full_types))
    then show ?thesis using early by force
  next
    case (transport p e code)
    then show ?thesis by force
  next
    case (judged p response)
    from judged_result(2) [OF judged(3)] judged(1) show ?thesis by force
  qed
  ultimately show ?thesis by simp
qed

lemma step_evidence:
  assumes "execute_v1_step env step context = StepDone ev r c" "\<not> se_developer_mode env"
  shows "(\<exists>e. jget (sr_details r) ''request'' = JObj e \<and> evidence_masked e) \<and>
         (jget (sr_details r) ''response'' = JNull \<or> (\<exists>e. jget (sr_details r) ''response'' = JObj e \<and> evidence_masked e))"
proof -
  obtain ev' where "execute_v1_step_inner env step context = StepDone ev' r c" using step_inner [OF assms(1)] by metis
  then show ?thesis
  proof (cases rule: inner_cases)
    case early
    from prepare_exit [OF early] exit_of_early(5,6) [of "\<not> se_developer_mode env" _ _ _ ev' r c] assms(2)
    show ?thesis by (metis (full_types))
  next
    case (transport p e code)
    then show ?thesis using prepare_Inr(2) [OF transport(1) assms(2)]
      by (cases code) (auto simp: evidence_masked_def entry_masked_def)
  next
    case (judged p response)
    from judged_result(6,7) [OF judged(3)] prepare_Inr(2) [OF judged(1) assms(2)] assms(2) show ?thesis by auto
  qed
qed

section \<open>A small run\<close>

text \<open>A client whose bank answers every request with a token, the input of the concrete instances below.\<close>

definition sample_client :: http_client where
  "sample_client =
     \<lparr>hc_update = (\<lambda>base new. filter (\<lambda>(k, _). py_lower k \<notin> set (map (\<lambda>(n, _). py_lower n) new)) base @ new),
      hc_contains = (\<lambda>hs k. k \<in> set (map (\<lambda>(n, _). py_lower n) hs))\<rparr>"

definition sample_env :: "unit step_env" where
  "sample_env =
     \<lparr>se_developer_mode = False, se_client = sample_client,
      se_transport = (\<lambda>i n request. HxResponse \<lparr>hx_url = hr_url request, hx_status_code = 200,
        hx_headers = [(''Content-Type'', ''application/json''), (''Set-Cookie'', ''session=1'')], hx_content = ''{}'',
        hx_json = Some (JObj [(''access_token'', JStr ''secret'')])\<rparr>),
      se_signing_config = None, se_mtls_client_configured = False, se_jose = sample_jose,
      se_read_bytes = (\<lambda>_ _. None), se_cached_signer = (\<lambda>_. None), se_cached_jwks = (\<lambda>_. None),
      se_clock = (\<lambda>_. Some 1700000000), se_jwt_id = (\<lambda>_. ''id''), se_schema = (\<lambda>_. None, \<lambda>_ _. []),
      se_url_error = (\<lambda>_. ''Invalid URL'')\<rparr>"

definition sample_http_step :: ManifestStep where
  "sample_http_step =
     \<lparr>ms_id = ''token'', ms_name = ''Token'',
      ms_request = \<lparr>rq_method = POST, rq_url = ''https://bank.example/token'',
        rq_headers = Some [(''Authorization'', ''Basic c2VjcmV0'')],
        rq_body = Some (FormBody [(''grant_type'', ''client_credentials''), (''client_secret'', ''secret'')]),
        rq_detached_jws = None\<rparr>,
      ms_assertions = [AHttpStatus \<lparr>hs_expected = Some 200, hs_expected_one_of = []\<rparr>], ms_warning = None, ms_mandatory = True,
      ms_optional = False, ms_group = ''setup'', ms_phase = SetupPhase, ms_token_endpoint_auth_policy = False,
      ms_required_token_id = None, ms_produces_token_id = Some ''ais'', ms_response_signature_policy = False\<rparr>"

definition empty_context :: ExecutionContext where
  "empty_context = \<lparr>ec_steps = [], ec_tokens = [], ec_config = None\<rparr>"

definition exit_result :: "step_exit \<Rightarrow> (emission list \<times> StepResult \<times> ExecutionContext) option" where
  "exit_result x = (case x of StepDone ev r c \<Rightarrow> Some (ev, r, c) | _ \<Rightarrow> None)"

lemma sample_step_returns: "exit_result (execute_v1_step sample_env sample_http_step empty_context) \<noteq> None"
  by code_simp

lemma exit_result_Some: "exit_result x = Some (ev, r, c) \<longleftrightarrow> x = StepDone ev r c"
  by (cases x) (auto simp: exit_result_def)

section \<open>Properties\<close>

text \<open>C17: A step that returns has one result, named after it, and its status is decided as follows. It is skipped exactly when
  the first placeholder error of its URL, headers and body is that a predecessor has no response. It passes (or warns, exactly
  when the step declares a warning) if and only if the request could be prepared, the exchange gave a JSON response, the response
  signature is valid where one is required, and every assertion passed; otherwise it failed. A request is logged as sent if
  and only if it could be prepared, so a skipped step sends nothing.\<close>

theorem step_verdict:
  assumes "execute_v1_step env step context = StepDone ev r c"
  shows "sr_name r = ms_id step \<and>
    (sr_status r = CSkipped \<longleftrightarrow> missing_predecessor step context) \<and>
    (sr_status r \<in> {CPassed, CWarn} \<longleftrightarrow>
       (\<exists>p response. prepare_request env step context = Inr p \<and> send_prepared env step p = Inr response \<and>
          (\<exists>s. validate_response_signature_if_required env step response context = Inr s) \<and>
          (\<exists>rs. evaluate_assertions env response (ms_assertions step) = Inr rs \<and> list_all ar_passed rs))) \<and>
    (sr_status r = CWarn \<longrightarrow> ms_warning step \<noteq> None) \<and> (sr_status r = CPassed \<longrightarrow> ms_warning step = None) \<and>
    (RequestSent \<in> fst ` set ev \<longleftrightarrow> (\<exists>p. prepare_request env step context = Inr p)) \<and>
    (missing_predecessor step context \<longrightarrow> RequestSent \<notin> fst ` set ev)"
proof -
  have "\<not> missing_predecessor step context" if "prepare_request env step context = Inr p" for p
    using prepare_Inr(1) [OF that] by (simp add: missing_predecessor_def)
  then show ?thesis
    using step_meets_contract [OF assms, unfolded step_contract_def response_ok_def] request_sent_iff [OF assms] by blast
qed

theorem step_verdict_witness:
  "\<exists>ev r c. execute_v1_step sample_env sample_http_step empty_context = StepDone ev r c \<and> sr_name r = ms_id sample_http_step"
proof -
  obtain ev r c where "execute_v1_step sample_env sample_http_step empty_context = StepDone ev r c"
    using sample_step_returns by (metis exit_result_Some not_None_eq prod_cases3)
  with step_verdict [OF this] show ?thesis by blast
qed

text \<open>C18: Outside developer mode the evidence attached to a step result shows no secret: whether the step was skipped, failed
  before or after the request, or was judged, every sensitive header of the request and response evidence and every
  sensitive field of the JSON body, the form and the response body, at any depth, is the mask.\<close>

theorem step_evidence_is_masked:
  assumes "execute_v1_step env step context = StepDone ev r c" and "\<not> se_developer_mode env"
  shows "(\<exists>e. jget (sr_details r) ''request'' = JObj e \<and> evidence_masked e) \<and>
         (jget (sr_details r) ''response'' = JNull \<or> (\<exists>e. jget (sr_details r) ''response'' = JObj e \<and> evidence_masked e))"
  by (rule step_evidence [OF assms])

theorem step_evidence_is_masked_witness:
  "\<exists>ev r c. execute_v1_step sample_env sample_http_step empty_context = StepDone ev r c \<and>
     (\<exists>e. jget (sr_details r) ''request'' = JObj e \<and> evidence_masked e)"
proof -
  obtain ev r c where "execute_v1_step sample_env sample_http_step empty_context = StepDone ev r c"
    using sample_step_returns by (metis exit_result_Some not_None_eq prod_cases3)
  moreover have "\<not> se_developer_mode sample_env" by code_simp
  ultimately show ?thesis using step_evidence_is_masked by metis
qed

end
