(* ===== verification/Auth_Session_Store.thy ===== *)
theory Auth_Session_Store
  imports Prelude
begin

text \<open>
  The auth-session store (\<open>conformance/api/auth_session_store.py\<close>). Every public method holds
  the store's lock for its whole body, so a method is one atomic step: a function of the
  sessions dictionary that returns the result and the new dictionary, or the exception it
  raises (the dictionary is then unchanged). The clock (\<open>now\<close>) and the token that
  \<open>secrets.token_urlsafe\<close> returns (\<open>token\<close>) are arguments.
\<close>

datatype AuthSessionStatus = Awaiting | Captured | ErrorStatus

record AuthSession =
  as_state :: string
  as_run_id :: string
  as_status :: AuthSessionStatus
  as_created_at :: datetime
  as_captured_at :: "datetime option"
  as_code :: "string option"
  as_error :: "string option"
  as_error_description :: "string option"

type_synonym sessions = "(string, AuthSession) dict"

datatype AuthSessionError =
    UnknownAuthSessionError string
  | DuplicateAuthSessionError string
  | InvalidAuthSessionStateError string
  | AuthSessionLimitError string
  | AuthSessionAlreadyResolvedError string AuthSessionStatus

definition MAX_SESSIONS_PER_RUN :: nat where
  "MAX_SESSIONS_PER_RUN = 8"

definition MIN_CALLER_SUPPLIED_STATE_LENGTH :: nat where
  "MIN_CALLER_SUPPLIED_STATE_LENGTH = 32"

definition init_sessions :: sessions where
  "init_sessions = []"

definition run_sessions :: "sessions \<Rightarrow> string \<Rightarrow> AuthSession list" where
  "run_sessions ss run_id = filter (\<lambda>s. as_run_id s = run_id) (map snd ss)"

definition register ::
  "datetime \<Rightarrow> string \<Rightarrow> string \<Rightarrow> string option \<Rightarrow> sessions \<Rightarrow> AuthSessionError + AuthSession \<times> sessions" where
  "register now token run_id state ss =
     rbind (case state of
              Some st \<Rightarrow> rguard (MIN_CALLER_SUPPLIED_STATE_LENGTH \<le> length st)
                               (InvalidAuthSessionStateError st)
            | None \<Rightarrow> Inr ()) (\<lambda>_.
       let resolved_state = (case state of Some st \<Rightarrow> st | None \<Rightarrow> token)
       in if map_of ss resolved_state \<noteq> None then Inl (DuplicateAuthSessionError resolved_state)
          else if MAX_SESSIONS_PER_RUN \<le> length (run_sessions ss run_id)
          then Inl (AuthSessionLimitError run_id)
          else let session = \<lparr>as_state = resolved_state, as_run_id = run_id, as_status = Awaiting,
                              as_created_at = now, as_captured_at = None, as_code = None,
                              as_error = None, as_error_description = None\<rparr>
               in Inr (session, AList.update resolved_state session ss))"

definition capture_code ::
  "datetime \<Rightarrow> string \<Rightarrow> string \<Rightarrow> sessions \<Rightarrow> AuthSessionError + AuthSession \<times> sessions" where
  "capture_code now state code ss =
     (case map_of ss state of
        None \<Rightarrow> Inl (UnknownAuthSessionError state)
      | Some session \<Rightarrow>
          if as_status session \<noteq> Awaiting
          then Inl (AuthSessionAlreadyResolvedError state (as_status session))
          else let session' = session\<lparr>as_status := Captured, as_code := Some code,
                                      as_captured_at := Some now\<rparr>
               in Inr (session', AList.update state session' ss))"

definition capture_error ::
  "datetime \<Rightarrow> string \<Rightarrow> string \<Rightarrow> string option \<Rightarrow> sessions \<Rightarrow> AuthSessionError + AuthSession \<times> sessions" where
  "capture_error now state err description ss =
     (case map_of ss state of
        None \<Rightarrow> Inl (UnknownAuthSessionError state)
      | Some session \<Rightarrow>
          if as_status session \<noteq> Awaiting
          then Inl (AuthSessionAlreadyResolvedError state (as_status session))
          else let session' = session\<lparr>as_status := ErrorStatus, as_error := Some err,
                                      as_error_description := description,
                                      as_captured_at := Some now\<rparr>
               in Inr (session', AList.update state session' ss))"

definition get_session :: "string \<Rightarrow> string \<Rightarrow> sessions \<Rightarrow> AuthSession option" where
  "get_session run_id state ss =
     (case map_of ss state of
        None \<Rightarrow> None
      | Some session \<Rightarrow> if as_run_id session \<noteq> run_id then None else Some session)"

definition for_run :: "string \<Rightarrow> sessions \<Rightarrow> AuthSession list" where
  "for_run run_id ss = run_sessions ss run_id"

definition discard_for_run :: "string \<Rightarrow> sessions \<Rightarrow> nat \<times> sessions" where
  "discard_for_run run_id ss =
     (let to_drop = map fst (filter (\<lambda>(_, session). as_run_id session = run_id) ss)
      in (length to_drop, fold AList.delete to_drop ss))"

definition discard_session :: "string \<Rightarrow> string \<Rightarrow> sessions \<Rightarrow> bool \<times> sessions" where
  "discard_session run_id state ss =
     (case map_of ss state of
        None \<Rightarrow> (False, ss)
      | Some session \<Rightarrow>
          if as_run_id session \<noteq> run_id then (False, ss) else (True, AList.delete state ss))"

definition reset_sessions :: "sessions \<Rightarrow> sessions" where
  "reset_sessions ss = []"

section \<open>The store as a transition system\<close>

inductive session_step :: "sessions \<Rightarrow> sessions \<Rightarrow> bool" where
  step_register: "register now token run_id state ss = Inr (s, ss') \<Longrightarrow> session_step ss ss'"
| step_capture_code: "capture_code now state code ss = Inr (s, ss') \<Longrightarrow> session_step ss ss'"
| step_capture_error: "capture_error now state err d ss = Inr (s, ss') \<Longrightarrow> session_step ss ss'"
| step_discard_for_run: "discard_for_run run_id ss = (n, ss') \<Longrightarrow> session_step ss ss'"
| step_discard: "discard_session run_id state ss = (b, ss') \<Longrightarrow> session_step ss ss'"
| step_reset: "session_step ss (reset_sessions ss)"

inductive_cases session_stepE: "session_step ss ss'"

section \<open>Invariant\<close>

text \<open>The lifecycle fields agree with the status: a code only after a capture, an error only after an error.\<close>

fun session_ok :: "AuthSession \<Rightarrow> bool" where
  "session_ok s =
     (case as_status s of
        Awaiting \<Rightarrow> as_captured_at s = None \<and> as_code s = None \<and> as_error s = None \<and>
                    as_error_description s = None
      | Captured \<Rightarrow> as_captured_at s \<noteq> None \<and> as_code s \<noteq> None \<and> as_error s = None \<and>
                    as_error_description s = None
      | ErrorStatus \<Rightarrow> as_captured_at s \<noteq> None \<and> as_code s = None \<and> as_error s \<noteq> None)"

definition sessions_inv :: "sessions \<Rightarrow> bool" where
  "sessions_inv ss =
     (dict_wf ss \<and>
      (\<forall>(k, s) \<in> set ss. as_state s = k \<and> session_ok s) \<and>
      (\<forall>r. length (run_sessions ss r) \<le> MAX_SESSIONS_PER_RUN))"

lemma sessions_inv_lookup:
  "sessions_inv ss \<Longrightarrow> map_of ss k = Some s \<Longrightarrow> as_state s = k \<and> session_ok s"
  by (fastforce simp: sessions_inv_def dest: map_of_SomeD)

lemma run_sessions_update_old:
  "map_of ss k = Some s \<Longrightarrow> as_run_id s' = as_run_id s \<Longrightarrow>
   length (run_sessions (AList.update k s' ss) r) = length (run_sessions ss r)"
  by (induction ss) (auto simp: run_sessions_def split: if_splits)

lemma sessions_inv_update_old:
  assumes "sessions_inv ss" "map_of ss k = Some s" "as_run_id s' = as_run_id s"
    "as_state s' = k" "session_ok s'"
  shows "sessions_inv (AList.update k s' ss)"
  using assms run_sessions_update_old [OF assms(2,3)] set_update_subset [of k s' ss]
  by (fastforce simp: sessions_inv_def distinct_update simp del: session_ok.simps)

lemma register_inv [inv_intros]:
  assumes "register now token run_id state ss = Inr (s, ss')" and inv: "sessions_inv ss"
  shows "sessions_inv ss'"
proof -
  obtain k where new: "map_of ss k = None" and lim: "length (run_sessions ss run_id) < MAX_SESSIONS_PER_RUN"
    and s: "as_state s = k" "as_run_id s = run_id" "session_ok s"
    and ss': "ss' = AList.update k s ss"
    using assms(1)
    by (auto simp: register_def Let_def result_simps not_le split: option.splits if_splits)
  have upd: "ss' = ss @ [(k, s)]"
    using new ss' by (simp add: keys_update_new map_of_eq_None_iff)
  then have "length (run_sessions ss' r) \<le> MAX_SESSIONS_PER_RUN" for r
    using inv lim s by (auto simp: run_sessions_def sessions_inv_def Suc_le_eq)
  moreover have "dict_wf ss'"
    using inv ss' by (simp add: sessions_inv_def distinct_update)
  ultimately show ?thesis using inv s upd
    by (auto simp: sessions_inv_def simp del: session_ok.simps)
qed

lemma capture_code_inv [inv_intros]:
  assumes "capture_code now state code ss = Inr (s, ss')" and inv: "sessions_inv ss"
  shows "sessions_inv ss'"
proof -
  obtain x where x: "map_of ss state = Some x" "as_status x = Awaiting"
    and s: "s = x\<lparr>as_status := Captured, as_code := Some code, as_captured_at := Some now\<rparr>"
    and ss': "ss' = AList.update state s ss"
    using assms(1) by (auto simp: capture_code_def Let_def split: option.splits if_splits)
  have "session_ok x" "as_state x = state" using sessions_inv_lookup [OF inv x(1)] by auto
  with x s show ?thesis unfolding ss' by (intro sessions_inv_update_old [OF inv x(1)]) auto
qed

lemma capture_error_inv [inv_intros]:
  assumes "capture_error now state err d ss = Inr (s, ss')" and inv: "sessions_inv ss"
  shows "sessions_inv ss'"
proof -
  obtain x where x: "map_of ss state = Some x" "as_status x = Awaiting"
    and s: "s = x\<lparr>as_status := ErrorStatus, as_error := Some err, as_error_description := d,
                  as_captured_at := Some now\<rparr>"
    and ss': "ss' = AList.update state s ss"
    using assms(1) by (auto simp: capture_error_def Let_def split: option.splits if_splits)
  have "session_ok x" "as_state x = state" using sessions_inv_lookup [OF inv x(1)] by auto
  with x s show ?thesis unfolding ss' by (intro sessions_inv_update_old [OF inv x(1)]) auto
qed

lemma sessions_inv_filter: "sessions_inv ss \<Longrightarrow> sessions_inv (filter P ss)"
proof -
  assume inv: "sessions_inv ss"
  have "length (run_sessions (filter P ss) r) \<le> length (run_sessions ss r)" for r
    by (induction ss) (auto simp: run_sessions_def)
  moreover have "length (run_sessions ss r) \<le> MAX_SESSIONS_PER_RUN" for r
    using inv by (simp add: sessions_inv_def)
  ultimately have "length (run_sessions (filter P ss) r) \<le> MAX_SESSIONS_PER_RUN" for r
    by (rule le_trans)
  with inv show ?thesis
    by (auto simp: sessions_inv_def distinct_map_filter simp del: session_ok.simps)
qed

lemma discard_for_run_inv [inv_intros]:
  "discard_for_run run_id ss = (n, ss') \<Longrightarrow> sessions_inv ss \<Longrightarrow> sessions_inv ss'"
  by (auto simp: discard_for_run_def Let_def fold_delete_filter intro: sessions_inv_filter)

lemma discard_session_inv [inv_intros]:
  "discard_session run_id state ss = (b, ss') \<Longrightarrow> sessions_inv ss \<Longrightarrow> sessions_inv ss'"
  by (auto simp: discard_session_def AList.delete_eq case_prod_unfold
      split: option.splits if_splits intro: sessions_inv_filter)

lemma sessions_inv_empty: "sessions_inv []"
  by (simp add: sessions_inv_def run_sessions_def)

lemma session_step_inv: "session_step ss ss' \<Longrightarrow> sessions_inv ss \<Longrightarrow> sessions_inv ss'"
  by (induction rule: session_step.induct)
     (auto simp: reset_sessions_def intro: inv_intros sessions_inv_empty)

interpretation sessions: inductive_invariant "\<lambda>ss. ss = init_sessions" session_step sessions_inv
  by unfold_locales (auto simp: init_sessions_def intro: sessions_inv_empty session_step_inv)

section \<open>Effects on one state token\<close>

lemma discard_for_run_eq:
  assumes "dict_wf ss"
  shows "discard_for_run run_id ss =
           (length (run_sessions ss run_id), filter (\<lambda>(_, s). as_run_id s \<noteq> run_id) ss)"
proof -
  let ?drop = "map fst (filter (\<lambda>(_, s). as_run_id s = run_id) ss)"
  have "k \<in> set ?drop \<longleftrightarrow> as_run_id s = run_id" if "(k, s) \<in> set ss" for k s
    using assms that by (auto dest: eq_key_imp_eq_value intro: rev_image_eqI)
  then have "filter (\<lambda>(k, _). k \<notin> set ?drop) ss = filter (\<lambda>(_, s). as_run_id s \<noteq> run_id) ss"
    by (intro filter_cong) auto
  moreover have "length ?drop = length (run_sessions ss run_id)"
    by (induction ss) (auto simp: run_sessions_def)
  ultimately show ?thesis
    by (simp add: discard_for_run_def Let_def fold_delete_filter)
qed

lemma resolved_stable:
  assumes "session_step ss ss'" and "map_of ss k = Some s" and "as_status s \<noteq> Awaiting"
  shows "map_of ss' k = Some s \<or> map_of ss' k = None"
  using assms
proof (induction rule: session_step.induct)
  case (step_register now token run_id state ss s' ss')
  then show ?case
    by (auto simp: register_def Let_def result_simps alist.lookup_update split: option.splits if_splits)
next
  case (step_capture_code now state code ss s' ss')
  then show ?case
    by (auto simp: capture_code_def Let_def alist.lookup_update split: option.splits if_splits)
next
  case (step_capture_error now state err d ss s' ss')
  then show ?case
    by (auto simp: capture_error_def Let_def alist.lookup_update split: option.splits if_splits)
next
  case (step_discard_for_run run_id ss n ss')
  then show ?case
    by (auto simp: discard_for_run_def Let_def alist.lookup_fold_delete split: if_splits)
next
  case (step_discard run_id state ss b ss')
  then show ?case
    by (auto simp: discard_session_def alist.lookup_delete split: option.splits if_splits)
next
  case (step_reset ss)
  then show ?case by (simp add: reset_sessions_def)
qed

section \<open>Properties\<close>

text \<open>C32: After any sequence of store operations the sessions are consistent: keys are distinct and are the sessions' own
  state tokens, a session carries a code exactly when captured and an error exactly when the redirect reported one, and no
  run ever holds more than eight sessions.\<close>

theorem session_store_stays_consistent:
  "reachable_from (\<lambda>ss. ss = init_sessions) session_step ss \<Longrightarrow> sessions_inv ss"
  by (rule sessions.holds_reachable)

definition sample_sessions :: sessions where
  "sample_sessions =
     snd (projr (register datetime_min ''token-from-the-operating-system'' ''run-1'' None init_sessions))"

lemma sample_sessions_step: "session_step init_sessions sample_sessions"
  by (rule step_register [where now = datetime_min and token = "''token-from-the-operating-system''"
        and run_id = "''run-1''" and state = None])
     (simp add: sample_sessions_def register_def Let_def init_sessions_def run_sessions_def MAX_SESSIONS_PER_RUN_def)

theorem session_store_stays_consistent_witness: "sessions_inv sample_sessions"
  by (rule session_store_stays_consistent)
     (blast intro: reachable_from.intros sample_sessions_step)

text \<open>C33: Capture is one-shot: once a session is resolved, every further capture of the same state is refused with the
  already-resolved error, and no operation of the store changes the resolved session except by dropping it.\<close>

theorem capture_is_one_shot:
  assumes "map_of ss st = Some s" and "as_status s \<noteq> Awaiting"
  shows "capture_code now st code ss = Inl (AuthSessionAlreadyResolvedError st (as_status s)) \<and>
         capture_error now st err d ss = Inl (AuthSessionAlreadyResolvedError st (as_status s)) \<and>
         (\<forall>ss'. session_step ss ss' \<longrightarrow> map_of ss' st = Some s \<or> map_of ss' st = None)"
  using assms resolved_stable [OF _ assms] by (auto simp: capture_code_def capture_error_def)

theorem capture_is_one_shot_witness:
  "capture_code datetime_min ''st'' ''again''
     [(''st'', \<lparr>as_state = ''st'', as_run_id = ''run-1'', as_status = Captured, as_created_at = datetime_min,
               as_captured_at = Some datetime_min, as_code = Some ''abc'', as_error = None,
               as_error_description = None\<rparr>)] =
   Inl (AuthSessionAlreadyResolvedError ''st'' Captured)"
  using capture_is_one_shot
    [of "[(''st'', \<lparr>as_state = ''st'', as_run_id = ''run-1'', as_status = Captured, as_created_at = datetime_min,
               as_captured_at = Some datetime_min, as_code = Some ''abc'', as_error = None,
               as_error_description = None\<rparr>)]" "''st''"]
  by simp

end
