(* ===== verification/Psu_Execution.thy ===== *)
theory Psu_Execution
  imports Step_Execution Url_Query Auth_Session_Store
begin

text \<open>
  The execution of a PSU authorisation step (\<open>conformance/executor.py\<close>, \<open>_execute_v1_psu_step\<close> and what it calls): the
  customer is sent to the bank, and the step waits for the callback (manual mode) or follows the redirect itself
  (headless mode). The auth-session store is shared with the callback endpoint, so what the step finds in it is a
  parameter: \<open>pe_store\<close> at registration, \<open>pe_polls\<close> at the successive polls, and \<open>pe_interfere\<close> for what other threads do
  to it between two calls of the headless exchange. The monotonic clock is \<open>pe_monotonic\<close>: reading 0 sets the deadline,
  reading \<open>n + 1\<close> is the test before poll \<open>n\<close>. Waiting is an unbounded loop, a partial function; a step whose wait
  never ends is \<open>StepHangs\<close>.
\<close>

datatype authorization_response =
    AuthorizationResponse int "string option"
  | AuthorizationHttpError string
  | AuthorizationOtherError

record psu_env =
  pe_run_id :: string
  pe_state_token :: string
  pe_nonce :: string
  pe_now :: datetime
  pe_store :: sessions
  pe_authorization :: "string \<Rightarrow> authorization_response"
  pe_interfere :: "nat \<Rightarrow> sessions \<Rightarrow> sessions"
  pe_polls :: "nat \<Rightarrow> sessions"
  pe_monotonic :: "nat \<Rightarrow> rat"

text \<open>The outcome of a step and the calls by which it changed the store.\<close>

record psu_outcome =
  po_exit :: step_exit
  po_registered :: "(AuthSession \<times> sessions) option"
  po_captured :: "(AuthSession \<times> sessions) option"

definition PSU_AUTHORIZATION_TIMEOUT_SECONDS :: rat where
  "PSU_AUTHORIZATION_TIMEOUT_SECONDS = 120"

fun auth_status_text :: "AuthSessionStatus \<Rightarrow> string" where
  "auth_status_text Awaiting = ''awaiting''"
| "auth_status_text Captured = ''captured''"
| "auth_status_text ErrorStatus = ''error''"

fun auth_error_text :: "AuthSessionError \<Rightarrow> string" where
  "auth_error_text (UnknownAuthSessionError state) = ''Unknown auth-session state: '' @ repr_str state"
| "auth_error_text (DuplicateAuthSessionError state) = ''Auth-session state already registered: '' @ repr_str state"
| "auth_error_text (InvalidAuthSessionStateError state) =
     ''Caller-supplied state must be at least '' @ str_nat MIN_CALLER_SUPPLIED_STATE_LENGTH @ '' characters''"
| "auth_error_text (AuthSessionLimitError run_id) =
     ''Run '' @ run_id @ '' already has '' @ str_nat MAX_SESSIONS_PER_RUN @ '' auth sessions''"
| "auth_error_text (AuthSessionAlreadyResolvedError state status) =
     ''Auth session '' @ repr_str state @ '' already resolved (status='' @ auth_status_text status @ '')''"

definition mask_result_url_query :: "bool \<Rightarrow> string \<Rightarrow> value_error + string" where
  "mask_result_url_query developer_mode url = (if developer_mode then Inr url else mask_url_query url SENSITIVE_JSON_KEYS)"

definition psu_evidence :: "string \<Rightarrow> json_object" where
  "psu_evidence url = [(''method'', JStr ''GET''), (''url'', JStr url)]"

text \<open>A failed result with the status code of the redirect exchange.\<close>

definition psu_failed ::
  "string \<Rightarrow> ExecutionContext \<Rightarrow> string \<Rightarrow> int option \<Rightarrow> emission list \<Rightarrow> string \<Rightarrow> step_exit" where
  "psu_failed i context url code events message =
     StepDone events
       (attach_evidence ((step_result i CFailed message url)\<lparr>sr_status_code := code\<rparr>) (psu_evidence url)
          (map_option (\<lambda>c. [(''statusCode'', JInt c)]) code))
       (record_step context i \<lparr>rr_method = ''GET'', rr_url = url\<rparr> None)"

definition complete_psu_step_from_session ::
  "PsuAuthorizationStep \<Rightarrow> ExecutionContext \<Rightarrow> string \<Rightarrow> emission list \<Rightarrow> AuthSession \<Rightarrow> step_exit" where
  "complete_psu_step_from_session step context result_url events session =
     (let i = pa_id step; request_record = \<lparr>rr_method = ''GET'', rr_url = result_url\<rparr>;
          failed =
            StepDone events
              (attach_evidence
                 ((step_result i CFailed (pa_name step @ '' returned an authorization error'') result_url)
                    \<lparr>sr_details := (''error'', JStr (case as_error session of Some (c # cs) \<Rightarrow> c # cs | _ \<Rightarrow> ''authorization_error''))
                       # opt_member ''error_description'' (map_option JStr (as_error_description session))\<rparr>)
                 (psu_evidence result_url) None)
              (record_step context i request_record None)
      in case as_code session of
           Some code \<Rightarrow>
             if as_status session = Captured then
               (let rr = synthesize_psu_response code (as_state session)
                in StepDone events
                     ((step_result i CPassed (pa_name step @ '' captured authorization code'') result_url)
                        \<lparr>sr_status_code := Some (rp_status_code rr)\<rparr>)
                     (record_step context i request_record (Some rr)))
             else failed
         | None \<Rightarrow> failed)"

section \<open>Headless mode\<close>

text \<open>The capture call a redirect with these parameters leads to, if any.\<close>

definition capture_redirect ::
  "psu_env \<Rightarrow> string \<Rightarrow> (string, string) dict \<Rightarrow> sessions \<Rightarrow> (AuthSessionError + AuthSession \<times> sessions) option" where
  "capture_redirect pe redirect_state params store =
     (case map_of params ''error'' of
        Some e \<Rightarrow> Some (capture_error (pe_now pe) redirect_state e (map_of params ''error_description'') store)
      | None \<Rightarrow>
          (case map_of params ''code'' of
             Some (c # cs) \<Rightarrow> Some (capture_code (pe_now pe) redirect_state (c # cs) store)
           | _ \<Rightarrow> None))"

definition execute_headless_psu_authorization ::
  "psu_env \<Rightarrow> PsuAuthorizationStep \<Rightarrow> ExecutionContext \<Rightarrow> string \<Rightarrow> string \<Rightarrow> emission list \<Rightarrow> string \<Rightarrow> string \<Rightarrow> sessions \<Rightarrow>
   step_exit \<times> (AuthSession \<times> sessions) option" where
  "execute_headless_psu_authorization pe step context authorization_url result_url events registered_state redirect_uri store =
     (let i = pa_id step; failed = (\<lambda>code message. (psu_failed i context result_url code events message, None)) in
      case pe_authorization pe authorization_url of
        AuthorizationOtherError \<Rightarrow> (StepCrash events, None)
      | AuthorizationHttpError e \<Rightarrow> failed None (''PSU authorisation headless request failed: '' @ e)
      | AuthorizationResponse status location \<Rightarrow>
          if \<not> (300 \<le> status \<and> status < 400)
          then failed (Some status)
                 (''PSU authorisation headless request did not return a redirect (got HTTP '' @ str_int status @ '')'')
          else case location of
            None \<Rightarrow> failed (Some status) ''PSU authorisation headless redirect was missing a Location header''
          | Some target \<Rightarrow>
              (case redirect_matches_registered_uri target redirect_uri of
                 Inl _ \<Rightarrow> (StepCrash events, None)
               | Inr False \<Rightarrow>
                   failed (Some status) ''PSU authorisation redirect target did not match the configured redirectUri''
               | Inr True \<Rightarrow>
                   (case extract_redirect_parameters target of
                      Inl _ \<Rightarrow> (StepCrash events, None)
                    | Inr params \<Rightarrow>
                        if map_of params ''state'' \<noteq> Some registered_state
                        then failed (Some status) ''PSU authorisation redirect state did not match the registered session''
                        else
                          let received = events @ [(PsuAuthorizationRedirectReceived, Some i,
                                [(''state'', JStr registered_state), (''status'', JInt status)])];
                              failed' = (\<lambda>message. psu_failed i context result_url (Some status) received message)
                          in case capture_redirect pe registered_state params (pe_interfere pe 0 store) of
                               None \<Rightarrow> (failed' ''PSU authorisation redirect did not include a code or error'', None)
                             | Some (Inl e) \<Rightarrow> (failed' (''Unable to capture PSU authorisation redirect: '' @ auth_error_text e), None)
                             | Some (Inr (session, after)) \<Rightarrow>
                                 (case get_session (pe_run_id pe) registered_state (pe_interfere pe 1 after) of
                                    None \<Rightarrow>
                                      (failed' ''PSU authorisation redirect did not resolve a session for this run'', Some (session, after))
                                  | Some current_session \<Rightarrow>
                                      (complete_psu_step_from_session step context result_url received current_session,
                                       Some (session, after))))))"

section \<open>Manual mode\<close>

text \<open>The waiting loop: \<open>Some None\<close> is the timeout, \<open>None\<close> a loop that never ends.\<close>

partial_function (option) psu_poll ::
  "(nat \<Rightarrow> rat) \<Rightarrow> rat \<Rightarrow> (nat \<Rightarrow> sessions) \<Rightarrow> string \<Rightarrow> string \<Rightarrow> nat \<Rightarrow> AuthSession option option" where
  "psu_poll clock deadline polls run_id state n =
     (if clock (Suc n) < deadline then
        (case get_session run_id state (polls n) of
           None \<Rightarrow> psu_poll clock deadline polls run_id state (Suc n)
         | Some session \<Rightarrow>
             if as_status session = Awaiting then psu_poll clock deadline polls run_id state (Suc n)
             else Some (Some session))
      else Some None)"

declare psu_poll.simps [code]

definition await_callback ::
  "psu_env \<Rightarrow> PsuAuthorizationStep \<Rightarrow> ExecutionContext \<Rightarrow> string \<Rightarrow> emission list \<Rightarrow> string \<Rightarrow> step_exit" where
  "await_callback pe step context result_url events state =
     (case psu_poll (pe_monotonic pe) (pe_monotonic pe 0 + PSU_AUTHORIZATION_TIMEOUT_SECONDS) (pe_polls pe) (pe_run_id pe) state 0 of
        None \<Rightarrow> StepHangs events
      | Some (Some session) \<Rightarrow> complete_psu_step_from_session step context result_url events session
      | Some None \<Rightarrow>
          StepDone events
            (attach_evidence
               ((step_result (pa_id step) CFailed
                   (pa_name step @ '' timed out waiting for PSU authorisation callback'') result_url)
                  \<lparr>sr_details := [(''timeoutSeconds'', JInt 120)]\<rparr>)
               (psu_evidence result_url) None)
            (record_step context (pa_id step) \<lparr>rr_method = ''GET'', rr_url = result_url\<rparr> None))"

section \<open>The request object\<close>

datatype request_object_error = ObjectPlaceholderError placeholder_error | ObjectSigningError string

definition no_request_object_config :: string where
  "no_request_object_config = ''Generated PSU requestObject requires participant fapiSigning config''"

definition generate_psu_request_object ::
  "'key step_env \<Rightarrow> PsuAuthorizationStep \<Rightarrow> string \<Rightarrow> string option \<Rightarrow> string \<Rightarrow> string \<Rightarrow> string \<Rightarrow> string \<Rightarrow> string + string" where
  "generate_psu_request_object env step audience intent_id client_id redirect_uri state nonce =
     (case se_signing_config env of
        None \<Rightarrow> Inl no_request_object_config
      | Some config \<Rightarrow>
          rbind (signing_service env (pa_id step)) (\<lambda>service.
            case service of
              None \<Rightarrow> Inl no_request_object_config
            | Some sv \<Rightarrow>
                rbind (sign_request_object (se_jose env) (se_clock env (pa_id step)) (se_jwt_id env (pa_id step))
                         DEFAULT_JWT_LIFETIME sv
                         \<lparr>ro_issuer = fs_client_assertion_issuer config, ro_audience = audience, ro_client_id = client_id,
                          ro_redirect_uri = redirect_uri, ro_response_type = pa_response_type step, ro_scope = pa_scope step,
                          ro_state = state, ro_nonce = nonce, ro_openbanking_intent_id = intent_id\<rparr>)
                  (\<lambda>signed. Inr (sj_token signed))))"

definition resolve_optional ::
  "string option \<Rightarrow> ExecutionContext \<Rightarrow> placeholder_error + string option" where
  "resolve_optional template context =
     (case template of None \<Rightarrow> Inr None | Some t \<Rightarrow> rbind (resolve_placeholders t context) (\<lambda>r. Inr (Some r)))"

definition map_error :: "('e \<Rightarrow> 'f) \<Rightarrow> 'e + 'a \<Rightarrow> 'f + 'a" where
  "map_error f r = (case r of Inl e \<Rightarrow> Inl (f e) | Inr x \<Rightarrow> Inr x)"

definition resolve_psu_request_object ::
  "'key step_env \<Rightarrow> PsuAuthorizationStep \<Rightarrow> ExecutionContext \<Rightarrow> string \<Rightarrow> string \<Rightarrow> string \<Rightarrow> string \<Rightarrow> string \<Rightarrow>
   request_object_error + string option" where
  "resolve_psu_request_object env step context authorization_endpoint client_id redirect_uri state nonce =
     (case pa_request_object step of
        None \<Rightarrow> Inr None
      | Some (OpaqueRequestObject t) \<Rightarrow>
          map_error ObjectPlaceholderError (rbind (resolve_placeholders t context) (\<lambda>r. Inr (Some r)))
      | Some (GeneratedObject g) \<Rightarrow>
          rbind (map_error ObjectPlaceholderError (resolve_optional (go_audience g) context)) (\<lambda>audience.
          rbind (map_error ObjectPlaceholderError (resolve_optional (go_openbanking_intent_id g) context)) (\<lambda>intent_id.
          rbind (map_error ObjectSigningError
                   (generate_psu_request_object env step (case audience of Some a \<Rightarrow> a | None \<Rightarrow> authorization_endpoint) intent_id
                      client_id redirect_uri state nonce)) (\<lambda>token. Inr (Some token)))))"

section \<open>The step\<close>

record resolved_psu =
  rs_endpoint :: string
  rs_client_id :: string
  rs_redirect_uri :: string
  rs_state :: "string option"
  rs_nonce :: string

text \<open>A configured authorisation endpoint overrides the one of the manifest, after that one was resolved.\<close>

definition resolve_psu_fields ::
  "psu_env \<Rightarrow> PsuAuthorizationStep \<Rightarrow> ExecutionContext \<Rightarrow> placeholder_error + resolved_psu" where
  "resolve_psu_fields pe step context =
     rbind (resolve_placeholders (pa_authorization_endpoint step) context) (\<lambda>endpoint.
     rbind (resolve_placeholders (pa_client_id step) context) (\<lambda>client_id.
     rbind (resolve_placeholders (pa_redirect_uri step) context) (\<lambda>redirect_uri.
     rbind (resolve_optional (pa_state step) context) (\<lambda>state.
     rbind (resolve_optional (pa_nonce step) context) (\<lambda>nonce.
       Inr \<lparr>rs_endpoint = (case Option.bind (ec_config context) cf_oauth_authorization_endpoint of
               Some configured \<Rightarrow> configured | None \<Rightarrow> endpoint),
            rs_client_id = client_id, rs_redirect_uri = redirect_uri, rs_state = state,
            rs_nonce = (case nonce of Some n \<Rightarrow> n | None \<Rightarrow> pe_nonce pe)\<rparr>)))))"

definition validate_psu_urls :: "string \<Rightarrow> resolved_psu \<Rightarrow> caught_error + unit" where
  "validate_psu_urls i rs =
     map_error (\<lambda>e. case e of HttpsUrlValidationError m \<Rightarrow> Caught m | UrlValueError \<Rightarrow> Uncaught)
       (rbind (validate_https_url (rs_endpoint rs) (''Step '' @ quoted i @ '' authorizationEndpoint'')) (\<lambda>_.
          validate_oauth_redirect_uri (rs_redirect_uri rs) (''Step '' @ quoted i @ '' redirectUri'')))"

definition unregistered :: "step_exit \<Rightarrow> psu_outcome" where
  "unregistered ex = \<lparr>po_exit = ex, po_registered = None, po_captured = None\<rparr>"

definition or_crash :: "value_error + 'a \<Rightarrow> step_exit + 'a" where
  "or_crash r = map_error (\<lambda>_. StepCrash []) r"

text \<open>The stages up to the registration of the session.\<close>

definition prepare_psu ::
  "'key step_env \<Rightarrow> psu_env \<Rightarrow> PsuAuthorizationStep \<Rightarrow> ExecutionContext \<Rightarrow>
   step_exit + resolved_psu \<times> string \<times> AuthSession \<times> sessions" where
  "prepare_psu env pe step context =
     (let i = pa_id step in
      rbind (or_crash (mask_result_url_query (se_developer_mode env) (pa_authorization_endpoint step))) (\<lambda>initial_url.
      rbind (or_exit (placeholder_exit i context ''GET'' initial_url ''psu-authorization'' (psu_evidence initial_url))
               (resolve_psu_fields pe step context)) (\<lambda>rs.
      rbind (or_crash (mask_result_url_query (se_developer_mode env) (rs_endpoint rs))) (\<lambda>resolved_url.
      rbind (or_exit (\<lambda>e. case e of Caught m \<Rightarrow> psu_failed i context resolved_url None [] m | Uncaught \<Rightarrow> StepCrash [])
               (validate_psu_urls i rs)) (\<lambda>_.
      rbind (or_exit (\<lambda>e. psu_failed i context resolved_url None []
                            (''Unable to register PSU authorisation session: '' @ auth_error_text e))
               (register (pe_now pe) (pe_state_token pe) (pe_run_id pe) (rs_state rs) (pe_store pe))) (\<lambda>(session, store).
        Inr (rs, resolved_url, session, store)))))))"

definition psu_mode_name :: "PsuAuthorizationMode \<Rightarrow> string" where
  "psu_mode_name m = (case m of Manual \<Rightarrow> ''manual'' | Headless \<Rightarrow> ''headless'')"

text \<open>The stages after it.\<close>

definition authorize_psu ::
  "'key step_env \<Rightarrow> psu_env \<Rightarrow> PsuAuthorizationStep \<Rightarrow> ExecutionContext \<Rightarrow> resolved_psu \<Rightarrow> string \<Rightarrow> AuthSession \<Rightarrow> sessions \<Rightarrow>
   step_exit \<times> (AuthSession \<times> sessions) option" where
  "authorize_psu env pe step context rs resolved_url session store =
     (let i = pa_id step in
      case resolve_psu_request_object env step context (rs_endpoint rs) (rs_client_id rs) (rs_redirect_uri rs)
             (as_state session) (rs_nonce rs) of
        Inl (ObjectPlaceholderError e) \<Rightarrow>
          (placeholder_exit i context ''GET'' resolved_url ''psu-authorization.requestObject'' (psu_evidence resolved_url) e, None)
      | Inl (ObjectSigningError e) \<Rightarrow>
          (psu_failed i context resolved_url None [] (''Unable to build PSU request object: '' @ e), None)
      | Inr request_object \<Rightarrow>
          (case build_authorization_url (rs_endpoint rs) (rs_client_id rs) (rs_redirect_uri rs) (pa_response_type step)
                  (pa_scope step) (as_state session) (rs_nonce rs) request_object of
             Inl _ \<Rightarrow> (StepCrash [], None)
           | Inr authorization_url \<Rightarrow>
               (case mask_result_url_query (se_developer_mode env) authorization_url of
                  Inl _ \<Rightarrow> (StepCrash [], None)
                | Inr result_url \<Rightarrow>
                    let events = [(PsuAuthorizationUrl, Some i,
                          [(''url'', JStr authorization_url), (''client_id'', JStr (rs_client_id rs)),
                           (''request_object'', case request_object of None \<Rightarrow> JNull | Some jwt \<Rightarrow> JStr jwt),
                           (''state'', JStr (as_state session)), (''nonce'', JStr (rs_nonce rs)),
                           (''mode'', JStr (psu_mode_name (pa_mode step)))])]
                    in if pa_mode step = Headless
                       then execute_headless_psu_authorization pe step context authorization_url result_url events
                              (as_state session) (rs_redirect_uri rs) store
                       else (await_callback pe step context result_url events (as_state session), None))))"

definition execute_v1_psu_step_inner ::
  "'key step_env \<Rightarrow> psu_env \<Rightarrow> PsuAuthorizationStep \<Rightarrow> ExecutionContext \<Rightarrow> psu_outcome" where
  "execute_v1_psu_step_inner env pe step context =
     (case prepare_psu env pe step context of
        Inl early \<Rightarrow> unregistered early
      | Inr (rs, resolved_url, session, store) \<Rightarrow>
          (case authorize_psu env pe step context rs resolved_url session store of (ex, captured) \<Rightarrow>
             \<lparr>po_exit = ex, po_registered = Some (session, store), po_captured = captured\<rparr>))"

definition execute_v1_psu_step ::
  "'key step_env \<Rightarrow> psu_env \<Rightarrow> PsuAuthorizationStep \<Rightarrow> ExecutionContext \<Rightarrow> psu_outcome" where
  "execute_v1_psu_step env pe step context =
     (let outcome = execute_v1_psu_step_inner env pe step context; i = pa_id step; started = (StepStarted, Some i, [])
      in outcome\<lparr>po_exit := (case po_exit outcome of
           StepCrash events \<Rightarrow> StepCrash (started # events)
         | StepHangs events \<Rightarrow> StepHangs (started # events)
         | StepDone events r c \<Rightarrow>
             StepDone (started # events @ [(StepCompleted, Some i,
               [(''status'', JStr (check_status_name (sr_status r))), (''message'', JStr (sr_message r))])]) r c)\<rparr>)"

section \<open>Lemmas\<close>

text \<open>A step that returns names its result after itself and writes its own record only.\<close>

definition own_exit :: "string \<Rightarrow> ExecutionContext \<Rightarrow> step_exit \<Rightarrow> bool" where
  "own_exit i context ex =
     (case ex of StepDone _ r c \<Rightarrow> sr_name r = i \<and> \<not> sr_mandatory r \<and> (\<exists>q response. c = record_step context i q response) | _ \<Rightarrow> True)"

lemma own_exit_intros:
  "own_exit i context (psu_failed i context url code events message)"
  "own_exit (pa_id step) context (complete_psu_step_from_session step context url events session)"
  "own_exit i context (placeholder_exit i context m url loc evidence e)"
  "own_exit i context (StepCrash events)" "own_exit i context (StepHangs events)"
  by (auto simp: own_exit_def psu_failed_def complete_psu_step_from_session_def placeholder_exit_def skipped_step_def
      failed_step_def Let_def split: option.splits placeholder_error.splits)

lemma headless_own_exit:
  "own_exit (pa_id step) context
     (fst (execute_headless_psu_authorization pe step context aurl rurl events st ru store))"
  unfolding execute_headless_psu_authorization_def Let_def
  by (auto simp: own_exit_intros split: authorization_response.split option.split sum.split bool.split list.split prod.split)

lemma await_own_exit: "own_exit (pa_id step) context (await_callback pe step context url events st)"
  by (auto simp: await_callback_def own_exit_intros split: option.split) (auto simp: own_exit_def)

lemma authorize_own_exit:
  "own_exit (pa_id step) context (fst (authorize_psu env pe step context rs url session store))"
  unfolding authorize_psu_def Let_def
  by (auto simp: own_exit_intros headless_own_exit await_own_exit split: sum.split request_object_error.split)

lemma or_crash_eqs:
  "or_crash r = Inr x \<longleftrightarrow> r = Inr x" "or_crash r = Inl y \<longleftrightarrow> (\<exists>e. r = Inl e) \<and> y = StepCrash []"
  by (cases r; auto simp: or_crash_def map_error_def)+

lemma caught_own_exit:
  "own_exit i context (case e of Caught m \<Rightarrow> psu_failed i context url None [] m | Uncaught \<Rightarrow> StepCrash [])"
  by (cases e) (simp_all add: own_exit_intros)

lemma prepare_own_exit: "prepare_psu env pe step context = Inl ex \<Longrightarrow> own_exit (pa_id step) context ex"
  unfolding prepare_psu_def Let_def
  by (auto simp: rbind_eq_Inl or_crash_eqs or_exit_eqs own_exit_intros caught_own_exit)

lemma inner_outcome_cases:
  obtains (early) ex where "prepare_psu env pe step context = Inl ex"
      "execute_v1_psu_step_inner env pe step context = unregistered ex"
  | (authorized) rs url session store where "prepare_psu env pe step context = Inr (rs, url, session, store)"
      "execute_v1_psu_step_inner env pe step context =
         \<lparr>po_exit = fst (authorize_psu env pe step context rs url session store), po_registered = Some (session, store),
          po_captured = snd (authorize_psu env pe step context rs url session store)\<rparr>"
proof (cases "prepare_psu env pe step context")
  case (Inl ex)
  then show ?thesis by (intro early) (simp_all add: execute_v1_psu_step_inner_def)
next
  case (Inr x)
  obtain rs url session store where "x = (rs, url, session, store)" by (cases x)
  with Inr show ?thesis
    by (intro authorized [of rs url session store]) (simp_all add: execute_v1_psu_step_inner_def split: prod.split)
qed

lemma psu_own_exit: "own_exit (pa_id step) context (po_exit (execute_v1_psu_step env pe step context))"
proof -
  have "own_exit (pa_id step) context (po_exit (execute_v1_psu_step_inner env pe step context))"
  proof (cases rule: inner_outcome_cases [of env pe step "context"])
    case (early ex)
    then show ?thesis using prepare_own_exit [OF early(1)] by (simp add: unregistered_def)
  next
    case (authorized rs url session store)
    then show ?thesis using authorize_own_exit by simp
  qed
  then show ?thesis by (auto simp: execute_v1_psu_step_def Let_def own_exit_def split: step_exit.splits)
qed

text \<open>The store changes only by the registration and one capture.\<close>

lemma prepare_registers:
  assumes "prepare_psu env pe step context = Inr (rs, url, session, store)"
  shows "register (pe_now pe) (pe_state_token pe) (pe_run_id pe) (rs_state rs) (pe_store pe) = Inr (session, store)"
  using assms by (auto simp: prepare_psu_def Let_def rbind_eq_Inr or_crash_eqs or_exit_eqs)

lemma prepare_resolves:
  assumes "prepare_psu env pe step context = Inr (rs, url, session, store)"
  shows "resolve_placeholders (pa_client_id step) context = Inr (rs_client_id rs)"
    "resolve_placeholders (pa_redirect_uri step) context = Inr (rs_redirect_uri rs)"
  using assms by (auto simp: prepare_psu_def resolve_psu_fields_def Let_def rbind_eq_Inr or_crash_eqs or_exit_eqs)

definition exit_passed :: "step_exit \<Rightarrow> bool" where
  "exit_passed ex = (case ex of StepDone _ r _ \<Rightarrow> sr_status r = CPassed | _ \<Rightarrow> False)"

lemma not_passed [simp]:
  "\<not> exit_passed (psu_failed i context url code events message)" "\<not> exit_passed (StepCrash events)" "\<not> exit_passed (StepHangs events)"
  "\<not> exit_passed (placeholder_exit i context m url loc evidence e)"
  by (auto simp: exit_passed_def psu_failed_def placeholder_exit_def skipped_step_def failed_step_def Let_def
      split: placeholder_error.splits)

lemma caught_not_passed [simp]:
  "\<not> exit_passed (case e of Caught m \<Rightarrow> psu_failed i context url None [] m | Uncaught \<Rightarrow> StepCrash [])"
  by (cases e) simp_all

lemma prepare_not_passed: "prepare_psu env pe step context = Inl ex \<Longrightarrow> \<not> exit_passed ex"
  unfolding prepare_psu_def Let_def by (auto simp: rbind_eq_Inl or_crash_eqs or_exit_eqs)

lemma register_session:
  assumes "register now token run_id state ss = Inr (session, store)"
  shows "map_of ss (as_state session) = None" "map_of store (as_state session) = Some session"
    "as_run_id session = run_id" "as_status session = Awaiting"
  using assms by (auto simp: register_def Let_def result_simps alist.lookup_update split: option.splits if_splits)

lemma capture_redirect_steps: "capture_redirect pe st params ss = Some (Inr (s, ss')) \<Longrightarrow> session_step ss ss'"
  by (auto simp: capture_redirect_def intro: step_capture_code step_capture_error split: option.splits list.splits)

lemma headless_captures:
  assumes "snd (execute_headless_psu_authorization pe step context aurl rurl events st ru store) = Some (s, ss)"
  shows "session_step (pe_interfere pe 0 store) ss"
  using assms unfolding execute_headless_psu_authorization_def Let_def
  by (auto intro: capture_redirect_steps
      split: authorization_response.splits option.splits sum.splits bool.splits prod.splits if_splits)

lemma authorize_captures:
  assumes "snd (authorize_psu env pe step context rs url session store) = Some (s, ss)"
  shows "session_step (pe_interfere pe 0 store) ss"
proof -
  obtain aurl rurl events st ru where
    "snd (execute_headless_psu_authorization pe step context aurl rurl events st ru store) = Some (s, ss)"
    using assms by (auto simp: authorize_psu_def Let_def split: sum.splits request_object_error.splits if_splits)
  then show ?thesis by (rule headless_captures)
qed

lemma psu_store_steps:
  assumes "execute_v1_psu_step env pe step context = outcome"
  shows "po_registered outcome = Some (s, ss) \<Longrightarrow> session_step (pe_store pe) ss"
    "po_captured outcome = Some (s', ss') \<Longrightarrow>
       \<exists>s ss. po_registered outcome = Some (s, ss) \<and> session_step (pe_interfere pe 0 ss) ss'"
proof -
  have o: "po_registered outcome = po_registered (execute_v1_psu_step_inner env pe step context)"
    "po_captured outcome = po_captured (execute_v1_psu_step_inner env pe step context)"
    using assms by (auto simp: execute_v1_psu_step_def Let_def)
  show "session_step (pe_store pe) ss" if "po_registered outcome = Some (s, ss)"
    using that by (cases rule: inner_outcome_cases [of env pe step "context"])
      (auto simp: o unregistered_def intro: step_register [OF prepare_registers])
  show "\<exists>s ss. po_registered outcome = Some (s, ss) \<and> session_step (pe_interfere pe 0 ss) ss'" if "po_captured outcome = Some (s', ss')"
    using that authorize_captures
    by (cases rule: inner_outcome_cases [of env pe step "context"]) (auto simp: o unregistered_def)
qed

subsection \<open>The waiting loop\<close>

text \<open>A poll that finds the session resolved.\<close>

definition resolved_at :: "(nat \<Rightarrow> sessions) \<Rightarrow> string \<Rightarrow> string \<Rightarrow> nat \<Rightarrow> AuthSession \<Rightarrow> bool" where
  "resolved_at polls run_id state n s = (get_session run_id state (polls n) = Some s \<and> as_status s \<noteq> Awaiting)"

lemma poll_step:
  assumes "clock (Suc n) < deadline" "\<nexists>s. resolved_at polls run_id state n s"
  shows "psu_poll clock deadline polls run_id state n = psu_poll clock deadline polls run_id state (Suc n)"
  using assms by (subst psu_poll.simps) (auto simp: resolved_at_def split: option.splits)

lemma poll_skip:
  assumes "\<forall>m < n. clock (Suc m) < deadline \<and> (\<nexists>s. resolved_at polls run_id state m s)"
  shows "psu_poll clock deadline polls run_id state 0 = psu_poll clock deadline polls run_id state n"
  using assms by (induction n) (simp_all add: poll_step)

lemma poll_found:
  assumes "\<forall>m < n. \<nexists>s. resolved_at polls run_id state m s" "\<forall>m \<le> n. clock (Suc m) < deadline" "resolved_at polls run_id state n s"
  shows "psu_poll clock deadline polls run_id state 0 = Some (Some s)"
proof -
  have "psu_poll clock deadline polls run_id state 0 = psu_poll clock deadline polls run_id state n"
    using assms(1,2) by (intro poll_skip) auto
  then show ?thesis using assms(2,3) by (subst (asm) (2) psu_poll.simps) (auto simp: resolved_at_def)
qed

lemma poll_timeout:
  assumes "\<forall>m < n. \<nexists>s. resolved_at polls run_id state m s" "\<forall>m < n. clock (Suc m) < deadline" "deadline \<le> clock (Suc n)"
  shows "psu_poll clock deadline polls run_id state 0 = Some None"
proof -
  have "psu_poll clock deadline polls run_id state 0 = psu_poll clock deadline polls run_id state n"
    using assms(1,2) by (intro poll_skip) auto
  then show ?thesis using assms(3) by (subst (asm) (2) psu_poll.simps) auto
qed

text \<open>The clock of a wait: it never runs backwards, and between two tests of the loop it advances by at least the half
  second the loop sleeps. Nothing sleeps between the reading that sets the deadline and the first test.\<close>

definition sleeping_clock :: "(nat \<Rightarrow> rat) \<Rightarrow> bool" where
  "sleeping_clock clock = (clock 0 \<le> clock 1 \<and> (\<forall>n. clock (Suc n) + 1 / 2 \<le> clock (Suc (Suc n))))"

lemma clock_growth:
  assumes "sleeping_clock clock"
  shows "clock 0 + of_nat n / 2 \<le> clock (Suc n)"
proof (induction n)
  case 0
  then show ?case using assms by (simp add: sleeping_clock_def)
next
  case (Suc n)
  moreover have "clock (Suc n) + 1 / 2 \<le> clock (Suc (Suc n))" using assms by (simp add: sleeping_clock_def)
  ultimately show ?case by (simp add: add_divide_distrib)
qed

text \<open>What the wait is for: the first poll, of those begun before the deadline, that finds the session resolved.\<close>

definition first_resolved :: "(nat \<Rightarrow> rat) \<Rightarrow> rat \<Rightarrow> (nat \<Rightarrow> sessions) \<Rightarrow> string \<Rightarrow> string \<Rightarrow> nat \<Rightarrow> AuthSession \<Rightarrow> bool" where
  "first_resolved clock deadline polls run_id state n s =
     (resolved_at polls run_id state n s \<and> (\<forall>m \<le> n. clock (Suc m) < deadline) \<and>
      (\<forall>m < n. \<nexists>s. resolved_at polls run_id state m s))"

lemma poll_result:
  assumes tick: "sleeping_clock clock" and deadline: "deadline = clock 0 + 120"
  shows "\<exists>r. psu_poll clock deadline polls run_id state 0 = Some r \<and>
     (case r of None \<Rightarrow> \<nexists>n s. first_resolved clock deadline polls run_id state n s
      | Some s \<Rightarrow> \<exists>n < 240. first_resolved clock deadline polls run_id state n s)"
proof -
  have late: "deadline \<le> clock (Suc 240)" using clock_growth [OF tick, of 240] deadline by simp
  define N where "N = (LEAST n. deadline \<le> clock (Suc n))"
  have N: "deadline \<le> clock (Suc N)" "N \<le> 240" "\<forall>m < N. clock (Suc m) < deadline"
  proof -
    show "deadline \<le> clock (Suc N)" unfolding N_def by (rule LeastI [of "\<lambda>n. deadline \<le> clock (Suc n)" 240, OF late])
    show "N \<le> 240" unfolding N_def by (rule Least_le [of "\<lambda>n. deadline \<le> clock (Suc n)" 240, OF late])
    show "\<forall>m < N. clock (Suc m) < deadline" by (auto simp: N_def not_le dest: not_less_Least)
  qed
  show ?thesis
  proof (cases "\<exists>n < N. \<exists>s. resolved_at polls run_id state n s")
    case True
    define k where "k = (LEAST n. \<exists>s. resolved_at polls run_id state n s)"
    obtain n where n: "n < N" "\<exists>s. resolved_at polls run_id state n s" using True by blast
    have "\<exists>s. resolved_at polls run_id state k s" unfolding k_def
      by (rule LeastI [of "\<lambda>n. \<exists>s. resolved_at polls run_id state n s" n, OF n(2)])
    then obtain s where s: "resolved_at polls run_id state k s" by blast
    have first: "\<forall>m < k. \<nexists>s. resolved_at polls run_id state m s" by (auto simp: k_def dest: not_less_Least)
    have "k \<le> n" unfolding k_def using n(2) by (rule Least_le)
    then have k: "\<forall>m \<le> k. clock (Suc m) < deadline" "k < 240" using N n(1) by auto
    then show ?thesis using poll_found [OF first k(1) s] s first by (auto simp: first_resolved_def)
  next
    case False
    then have "psu_poll clock deadline polls run_id state 0 = Some None" using N by (intro poll_timeout) auto
    moreover have "\<not> first_resolved clock deadline polls run_id state n s" for n s
    proof
      assume "first_resolved clock deadline polls run_id state n s"
      then have "clock (Suc n) < deadline" "resolved_at polls run_id state n s" "\<forall>m \<le> n. clock (Suc m) < deadline"
        by (auto simp: first_resolved_def)
      moreover from this False have "N \<le> n" by (meson not_le)
      ultimately show False using N(1) by fastforce
    qed
    ultimately show ?thesis by auto
  qed
qed

lemma first_resolved_unique:
  assumes "first_resolved clock d polls r st n s" "first_resolved clock d polls r st n' s'"
  shows "s = s'"
proof -
  have "n = n'" using assms by (meson first_resolved_def linorder_neqE_nat)
  with assms show ?thesis by (auto simp: first_resolved_def resolved_at_def)
qed

subsection \<open>A passed headless exchange\<close>

lemma complete_passed:
  assumes "complete_psu_step_from_session step context url events session = StepDone ev r c" "sr_status r = CPassed"
  shows "as_status session = Captured" "\<exists>code. as_code session = Some code \<and>
    map_of (ec_steps c) (pa_id step) = Some \<lparr>rec_request = \<lparr>rr_method = ''GET'', rr_url = url\<rparr>,
       rec_response = Some (synthesize_psu_response code (as_state session))\<rparr>"
  using assms by (auto simp: complete_psu_step_from_session_def Let_def update_conv split: option.splits if_splits)

lemma psu_failed_status: "psu_failed i context url code events m = StepDone ev r c \<Longrightarrow> sr_status r = CFailed"
  by (auto simp: psu_failed_def)

lemma headless_passed:
  assumes result: "fst (execute_headless_psu_authorization pe step context aurl rurl events st ru store) = StepDone ev r c"
    and passed: "sr_status r = CPassed"
  obtains status target params s ss current events' where
    "pe_authorization pe aurl = AuthorizationResponse status (Some target)" "300 \<le> status" "status < 400"
    "redirect_matches_registered_uri target ru = Inr True" "extract_redirect_parameters target = Inr params"
    "map_of params ''state'' = Some st" "capture_redirect pe st params (pe_interfere pe 0 store) = Some (Inr (s, ss))"
    "snd (execute_headless_psu_authorization pe step context aurl rurl events st ru store) = Some (s, ss)"
    "get_session (pe_run_id pe) st (pe_interfere pe 1 ss) = Some current"
    "complete_psu_step_from_session step context rurl events' current = StepDone ev r c"
proof -
  have failed: "psu_failed i k url code evs m \<noteq> StepDone ev r c" for i k url code evs m
    using psu_failed_status passed by fastforce
  note X = result [unfolded execute_headless_psu_authorization_def Let_def]
  obtain status loc where resp: "pe_authorization pe aurl = AuthorizationResponse status loc"
    using X failed by (cases "pe_authorization pe aurl") auto
  have range: "300 \<le> status" "status < 400" using X [unfolded resp] failed by (auto split: if_splits)
  then obtain target where loc: "loc = Some target" using X [unfolded resp] failed by (cases loc) auto
  note X2 = X [unfolded resp loc authorization_response.case option.case]
  have matches: "redirect_matches_registered_uri target ru = Inr True"
  proof (cases "redirect_matches_registered_uri target ru")
    case (Inr b)
    then show ?thesis using X2 range failed by (cases b) auto
  qed (use X2 range in auto)
  obtain params where params: "extract_redirect_parameters target = Inr params"
    using X2 range matches by (cases "extract_redirect_parameters target") auto
  have state: "map_of params ''state'' = Some st" using X2 range matches params failed by (auto split: if_splits)
  note X3 = X2 [simplified range matches params state sum.case bool.case]
  obtain s ss where cap: "capture_redirect pe st params (pe_interfere pe 0 store) = Some (Inr (s, ss))"
    using X3 range failed by (auto split: option.splits sum.splits)
  obtain current where cur: "get_session (pe_run_id pe) st (pe_interfere pe 1 ss) = Some current"
    using X3 range failed cap by (cases "get_session (pe_run_id pe) st (pe_interfere pe 1 ss)") auto
  show ?thesis
  proof (rule that [OF resp [unfolded loc] range matches params state cap _ cur])
    show "snd (execute_headless_psu_authorization pe step context aurl rurl events st ru store) = Some (s, ss)"
      using resp loc range matches params state cap cur by (simp add: execute_headless_psu_authorization_def Let_def)
  qed (use X3 range cap cur in simp)
qed

lemma capture_redirect_code:
  assumes "capture_redirect pe st params ss = Some (Inr (s, ss'))" "as_status s = Captured" "as_code s = Some code"
  shows "map_of params ''error'' = None \<and> map_of params ''code'' = Some code \<and> code \<noteq> []"
  using assms by (auto simp: capture_redirect_def capture_code_def capture_error_def Let_def
      split: option.splits list.splits if_splits)

lemma authorize_headless:
  assumes "pa_mode step = Headless" and "fst (authorize_psu env pe step context rs url session store) = StepDone ev r c"
    and "sr_status r = CPassed"
  obtains request_object aurl rurl events where
    "build_authorization_url (rs_endpoint rs) (rs_client_id rs) (rs_redirect_uri rs) (pa_response_type step) (pa_scope step)
       (as_state session) (rs_nonce rs) request_object = Inr aurl"
    "mask_result_url_query (se_developer_mode env) aurl = Inr rurl"
    "authorize_psu env pe step context rs url session store =
       execute_headless_psu_authorization pe step context aurl rurl events (as_state session) (rs_redirect_uri rs) store"
proof -
  have passed: "exit_passed (fst (authorize_psu env pe step context rs url session store))" using assms(2,3) by (simp add: exit_passed_def)
  show ?thesis
  proof (cases "resolve_psu_request_object env step context (rs_endpoint rs) (rs_client_id rs) (rs_redirect_uri rs)
             (as_state session) (rs_nonce rs)")
    case (Inl e)
    then show ?thesis using passed by (cases e) (simp_all add: authorize_psu_def Let_def)
  next
    case (Inr request_object)
    then show ?thesis using passed assms(1) that by (auto simp: authorize_psu_def Let_def split: sum.splits)
  qed
qed

lemma psu_step_passed:
  assumes "execute_v1_psu_step env pe step context = outcome" "po_exit outcome = StepDone ev r c" "sr_status r = CPassed"
  obtains rs url session store ev' where "prepare_psu env pe step context = Inr (rs, url, session, store)"
    "fst (authorize_psu env pe step context rs url session store) = StepDone ev' r c"
    "po_registered outcome = Some (session, store)"
    "po_captured outcome = snd (authorize_psu env pe step context rs url session store)"
proof (cases rule: inner_outcome_cases [of env pe step "context"])
  case (early ex)
  then show ?thesis using assms prepare_not_passed [OF early(1)]
    by (auto simp: execute_v1_psu_step_def Let_def unregistered_def exit_passed_def split: step_exit.splits)
next
  case (authorized rs url session store)
  then show ?thesis using assms that [OF authorized(1)]
    by (auto simp: execute_v1_psu_step_def Let_def split: step_exit.splits)
qed

text \<open>Where a URL leads: scheme, host name, effective port and path.\<close>

definition redirect_target :: "string \<Rightarrow> value_error + string \<times> string option \<times> nat option \<times> string" where
  "redirect_target url =
     rbind (urlsplit url) (\<lambda>parts. let p = split_result parts in
     rbind (url_port p) (\<lambda>port. Inr (pr_scheme p, url_hostname p, effective_port (pr_scheme p) port, pr_path p)))"

lemma redirect_matches_target:
  assumes "redirect_matches_registered_uri location uri = Inr True"
  shows "\<exists>t. redirect_target location = Inr t \<and> redirect_target uri = Inr t"
  using assms by (auto simp: redirect_matches_registered_uri_def redirect_target_def Let_def rbind_eq_Inr split: if_splits)

text \<open>What other threads do to the store while a run executes: its operations, none of which drops a session then.\<close>

definition keeping_step :: "sessions \<Rightarrow> sessions \<Rightarrow> bool" where
  "keeping_step ss ss' = (session_step ss ss' \<and> dom (map_of ss) \<subseteq> dom (map_of ss'))"

lemma keeping_step_lookup:
  assumes "keeping_step ss ss'" and "map_of ss k = Some s"
  obtains s' where "map_of ss' k = Some s'" "as_state s' = as_state s" "as_run_id s' = as_run_id s"
    "as_status s \<noteq> Awaiting \<Longrightarrow> s' = s"
proof -
  have step: "session_step ss ss'" using assms(1) by (simp add: keeping_step_def)
  obtain s' where s': "map_of ss' k = Some s'" using assms by (auto simp: keeping_step_def)
  with step assms(2) have "as_state s' = as_state s \<and> as_run_id s' = as_run_id s"
    by cases (auto simp: register_def capture_code_def capture_error_def discard_for_run_def discard_session_def reset_sessions_def
        Let_def result_simps alist.lookup_update alist.lookup_fold_delete alist.lookup_delete split: option.splits if_splits)
  then show ?thesis using that [OF s'] resolved_stable [OF step assms(2)] s' by auto
qed

lemma keeping_steps_lookup:
  assumes "keeping_step\<^sup>*\<^sup>* ss ss'" and "map_of ss k = Some s"
  shows "\<exists>s'. map_of ss' k = Some s' \<and> as_state s' = as_state s \<and> as_run_id s' = as_run_id s \<and> (as_status s \<noteq> Awaiting \<longrightarrow> s' = s)"
  using assms(1)
proof (induction rule: rtranclp_induct)
  case (step y z)
  then obtain s' where s': "map_of y k = Some s'" "as_state s' = as_state s" "as_run_id s' = as_run_id s"
    "as_status s \<noteq> Awaiting \<longrightarrow> s' = s" by blast
  show ?case by (rule keeping_step_lookup [OF step.hyps(2) s'(1)]) (use s' in auto)
qed (simp add: assms(2))

lemma captured_session_kept:
  assumes "map_of store k = Some session" and "keeping_step\<^sup>*\<^sup>* store ss"
    and "capture_redirect pe k params ss = Some (Inr (captured, after))" and "keeping_step\<^sup>*\<^sup>* after ss'"
  shows "map_of ss' k = Some captured" "as_run_id captured = as_run_id session" "as_state captured = as_state session"
proof -
  obtain s where s: "map_of ss k = Some s" "as_state s = as_state session" "as_run_id s = as_run_id session"
    using keeping_steps_lookup [OF assms(2,1)] by blast
  have "map_of after k = Some captured \<and> as_state captured = as_state s \<and> as_run_id captured = as_run_id s \<and>
      as_status captured \<noteq> Awaiting"
    using assms(3) s(1) by (auto simp: capture_redirect_def capture_code_def capture_error_def Let_def update_conv
        split: option.splits list.splits if_splits)
  then show "map_of ss' k = Some captured" "as_run_id captured = as_run_id session" "as_state captured = as_state session"
    using keeping_steps_lookup [OF assms(4)] s by auto
qed

text \<open>On a clock that advances by what the loop sleeps, no authorisation step hangs.\<close>

definition exit_ends :: "step_exit \<Rightarrow> bool" where
  "exit_ends ex = (case ex of StepHangs _ \<Rightarrow> False | _ \<Rightarrow> True)"

lemma exit_ends_intros:
  "exit_ends (StepDone events r c)" "exit_ends (StepCrash events)"
  "exit_ends (psu_failed i context url code events message)"
  "exit_ends (complete_psu_step_from_session step context url events session)"
  "exit_ends (placeholder_exit i context m url loc evidence e)"
  by (auto simp: exit_ends_def psu_failed_def complete_psu_step_from_session_def placeholder_exit_def skipped_step_def
      failed_step_def Let_def split: option.splits placeholder_error.splits)

lemma await_ends:
  assumes "sleeping_clock (pe_monotonic pe)"
  shows "exit_ends (await_callback pe step context url events state)"
  using poll_result [of "pe_monotonic pe" _ "pe_polls pe" "pe_run_id pe" state, OF assms refl]
  by (auto simp: await_callback_def PSU_AUTHORIZATION_TIMEOUT_SECONDS_def exit_ends_intros split: option.split)

lemma headless_ends: "exit_ends (fst (execute_headless_psu_authorization pe step context aurl rurl events st ru store))"
  unfolding execute_headless_psu_authorization_def Let_def
  by (auto simp: exit_ends_intros split: authorization_response.split option.split sum.split bool.split list.split prod.split)

lemma authorize_ends:
  assumes "sleeping_clock (pe_monotonic pe)"
  shows "exit_ends (fst (authorize_psu env pe step context rs url session store))"
  unfolding authorize_psu_def Let_def
  by (auto simp: exit_ends_intros headless_ends await_ends [OF assms] split: sum.split request_object_error.split)

lemma prepare_psu_ends: "prepare_psu env pe step context = Inl ex \<Longrightarrow> exit_ends ex"
  unfolding prepare_psu_def Let_def
  by (auto simp: rbind_eq_Inl or_crash_eqs or_exit_eqs exit_ends_intros split: caught_error.split)

lemma psu_ends:
  assumes "sleeping_clock (pe_monotonic pe)"
  shows "exit_ends (po_exit (execute_v1_psu_step env pe step context))"
proof -
  have "exit_ends (po_exit (execute_v1_psu_step_inner env pe step context))"
    by (cases rule: inner_outcome_cases [of env pe step "context"])
      (auto simp: unregistered_def intro: prepare_psu_ends authorize_ends assms)
  then show ?thesis by (auto simp: execute_v1_psu_step_def Let_def exit_ends_def split: step_exit.splits)
qed

section \<open>A small exchange\<close>

definition sample_psu_step :: PsuAuthorizationStep where
  "sample_psu_step =
     \<lparr>pa_id = ''consent'', pa_name = ''Consent'', pa_mode = Headless, pa_authorization_endpoint = ''https://b.example/auth'',
      pa_client_id = ''c'', pa_redirect_uri = ''https://t.example/cb'', pa_response_type = ''code'', pa_scope = ''openid'',
      pa_state = None, pa_nonce = None, pa_request_object = None, pa_mandatory = True, pa_optional = False, pa_group = ''setup'',
      pa_phase = SetupPhase\<rparr>"

definition sample_session :: AuthSession where
  "sample_session =
     \<lparr>as_state = ''s'', as_run_id = ''run'', as_status = Awaiting, as_created_at = (2025, 1, 1, 0, 0, 0, 0), as_captured_at = None,
      as_code = None, as_error = None, as_error_description = None\<rparr>"

definition sample_psu_env :: psu_env where
  "sample_psu_env =
     \<lparr>pe_run_id = ''run'', pe_state_token = ''s'', pe_nonce = ''n'', pe_now = (2025, 1, 1, 0, 0, 0, 0), pe_store = [],
      pe_authorization = (\<lambda>_. AuthorizationResponse 302 (Some ''https://t.example/cb?code=abc&state=s'')),
      pe_interfere = (\<lambda>_ ss. ss), pe_polls = (\<lambda>n. [(''s'', sample_session)]), pe_monotonic = (\<lambda>n. of_nat (n - 1) / 2)\<rparr>"

definition captured_session :: AuthSession where
  "captured_session = sample_session\<lparr>as_status := Captured, as_code := Some ''abc''\<rparr>"

definition late_psu_env :: psu_env where
  "late_psu_env = sample_psu_env\<lparr>pe_polls := (\<lambda>n. [(''s'', if n < 239 then sample_session else captured_session)])\<rparr>"

lemma sample_clock: "sleeping_clock (pe_monotonic sample_psu_env)"
  by (simp add: sample_psu_env_def sleeping_clock_def add_divide_distrib)

lemma late_clock: "sleeping_clock (pe_monotonic late_psu_env)"
  using sample_clock by (simp add: late_psu_env_def)

lemma late_first_resolved:
  "first_resolved (pe_monotonic late_psu_env) (pe_monotonic late_psu_env 0 + PSU_AUTHORIZATION_TIMEOUT_SECONDS)
     (pe_polls late_psu_env) (pe_run_id late_psu_env) ''s'' 239 captured_session"
proof -
  have "of_nat m / 2 < (120 :: rat)" if "m \<le> 239" for m
  proof -
    have "(of_nat m :: rat) \<le> of_nat 239" using that by (simp only: of_nat_le_iff)
    then show ?thesis by simp
  qed
  then show ?thesis
    by (auto simp: first_resolved_def resolved_at_def late_psu_env_def sample_psu_env_def captured_session_def sample_session_def
        get_session_def PSU_AUTHORIZATION_TIMEOUT_SECONDS_def)
qed

definition sample_headless :: psu_outcome where
  "sample_headless = execute_v1_psu_step sample_env sample_psu_env sample_psu_step empty_context"

lemma sample_headless_passes: "map_option (\<lambda>(_, r, _). sr_status r) (exit_result (po_exit sample_headless)) = Some CPassed"
  by code_simp

lemma sample_others: "keeping_step\<^sup>*\<^sup>* ss (pe_interfere sample_psu_env n ss)"
  by (simp add: sample_psu_env_def)

section \<open>Properties\<close>

text \<open>C20: The wait for the customer always ends, on a clock that never runs backwards and advances by at least the half second
  the loop sleeps between two of its tests: after at most 240 polls it returns the session of the first poll begun before
  the deadline of 120 seconds that finds it resolved, and it times out if and only if no poll begun before the deadline
  does. So a manual authorisation step never hangs.\<close>

theorem psu_wait_ends:
  assumes tick: "sleeping_clock (pe_monotonic pe)"
    and deadline: "deadline = pe_monotonic pe 0 + PSU_AUTHORIZATION_TIMEOUT_SECONDS"
  shows "(\<exists>r. psu_poll (pe_monotonic pe) deadline (pe_polls pe) (pe_run_id pe) state 0 = Some r \<and>
       (\<forall>s. r = Some s \<longleftrightarrow> (\<exists>n < 240. first_resolved (pe_monotonic pe) deadline (pe_polls pe) (pe_run_id pe) state n s)) \<and>
       (r = None \<longleftrightarrow> (\<nexists>n s. first_resolved (pe_monotonic pe) deadline (pe_polls pe) (pe_run_id pe) state n s))) \<and>
     await_callback pe step context url events state \<noteq> StepHangs events'"
proof -
  have d: "deadline = pe_monotonic pe 0 + 120" using deadline by (simp add: PSU_AUTHORIZATION_TIMEOUT_SECONDS_def)
  let ?F = "first_resolved (pe_monotonic pe) deadline (pe_polls pe) (pe_run_id pe) state"
  obtain r where r: "psu_poll (pe_monotonic pe) deadline (pe_polls pe) (pe_run_id pe) state 0 = Some r"
    and c: "case r of None \<Rightarrow> \<nexists>n s. ?F n s | Some s \<Rightarrow> \<exists>n < 240. ?F n s"
    using poll_result [OF tick d] by blast
  have "r = Some s \<longleftrightarrow> (\<exists>n < 240. ?F n s)" for s using c first_resolved_unique by (cases r) fastforce+
  moreover have "r = None \<longleftrightarrow> (\<nexists>n s. ?F n s)" using c by (cases r) auto
  ultimately have "\<exists>r. psu_poll (pe_monotonic pe) deadline (pe_polls pe) (pe_run_id pe) state 0 = Some r \<and>
       (\<forall>s. r = Some s \<longleftrightarrow> (\<exists>n < 240. ?F n s)) \<and> (r = None \<longleftrightarrow> (\<nexists>n s. ?F n s))" using r by blast
  with await_ends [OF tick] show ?thesis unfolding exit_ends_def by (metis step_exit.simps(12))
qed

text \<open>The bound is attained: on a clock that ticks only at the sleeps, a session resolved at the 240th poll is still found.\<close>

theorem psu_wait_ends_witness:
  "psu_poll (pe_monotonic late_psu_env) (pe_monotonic late_psu_env 0 + PSU_AUTHORIZATION_TIMEOUT_SECONDS)
     (pe_polls late_psu_env) (pe_run_id late_psu_env) ''s'' 0 = Some (Some captured_session)"
proof -
  let ?d = "pe_monotonic late_psu_env 0 + PSU_AUTHORIZATION_TIMEOUT_SECONDS"
  from psu_wait_ends [OF late_clock refl, of "''s''"] obtain r where
    r: "psu_poll (pe_monotonic late_psu_env) ?d (pe_polls late_psu_env) (pe_run_id late_psu_env) ''s'' 0 = Some r"
    and found: "\<forall>s. r = Some s \<longleftrightarrow> (\<exists>n < 240. first_resolved (pe_monotonic late_psu_env) ?d (pe_polls late_psu_env)
      (pe_run_id late_psu_env) ''s'' n s)" by blast
  have "(239 :: nat) < 240" by simp
  with found late_first_resolved have "r = Some captured_session" by blast
  with r show ?thesis by simp
qed

text \<open>C19: A headless authorisation step passes only on a genuine redirect. The step registered a fresh session for its run; the
  authorisation URL it requested names the resolved client and redirect URI and the state of that session; the bank
  answered with a 3xx status and a location whose scheme, host, effective port and path are those of the redirect URI and
  whose parameters hold that state, no error and a non-empty code; that code was captured in the session, and it is the
  code recorded for the later steps. It is assumed that other threads change the store only by its operations and drop no
  session during the exchange.\<close>

theorem headless_pass_is_genuine:
  assumes outcome: "execute_v1_psu_step env pe step context = outcome" and mode: "pa_mode step = Headless"
    and result: "po_exit outcome = StepDone ev r c" and passed: "sr_status r = CPassed"
    and others: "\<And>n ss. keeping_step\<^sup>*\<^sup>* ss (pe_interfere pe n ss)"
  shows "\<exists>session store client_id redirect_uri endpoint nonce request_object aurl rurl status target t params code captured.
     po_registered outcome = Some (session, store) \<and>
     map_of (pe_store pe) (as_state session) = None \<and> map_of store (as_state session) = Some session \<and>
     as_run_id session = pe_run_id pe \<and> as_status session = Awaiting \<and>
     resolve_placeholders (pa_client_id step) context = Inr client_id \<and>
     resolve_placeholders (pa_redirect_uri step) context = Inr redirect_uri \<and>
     build_authorization_url endpoint client_id redirect_uri (pa_response_type step) (pa_scope step) (as_state session)
       nonce request_object = Inr aurl \<and>
     pe_authorization pe aurl = AuthorizationResponse status (Some target) \<and> 300 \<le> status \<and> status < 400 \<and>
     redirect_target target = Inr t \<and> redirect_target redirect_uri = Inr t \<and>
     extract_redirect_parameters target = Inr params \<and> map_of params ''state'' = Some (as_state session) \<and>
     map_of params ''error'' = None \<and> map_of params ''code'' = Some code \<and> code \<noteq> [] \<and>
     map_option fst (po_captured outcome) = Some captured \<and> as_run_id captured = pe_run_id pe \<and>
     as_state captured = as_state session \<and> as_status captured = Captured \<and> as_code captured = Some code \<and>
     mask_result_url_query (se_developer_mode env) aurl = Inr rurl \<and>
     map_of (ec_steps c) (pa_id step) = Some \<lparr>rec_request = \<lparr>rr_method = ''GET'', rr_url = rurl\<rparr>,
        rec_response = Some (synthesize_psu_response code (as_state session))\<rparr>"
proof -
  obtain rs url session store ev' where prep: "prepare_psu env pe step context = Inr (rs, url, session, store)"
    and auth: "fst (authorize_psu env pe step context rs url session store) = StepDone ev' r c"
    and out: "po_registered outcome = Some (session, store)"
      "po_captured outcome = snd (authorize_psu env pe step context rs url session store)"
    by (rule psu_step_passed [OF outcome result passed])
  obtain request_object aurl rurl events where
    aurl: "build_authorization_url (rs_endpoint rs) (rs_client_id rs) (rs_redirect_uri rs) (pa_response_type step) (pa_scope step)
       (as_state session) (rs_nonce rs) request_object = Inr aurl"
    and rurl: "mask_result_url_query (se_developer_mode env) aurl = Inr rurl"
    and exec: "authorize_psu env pe step context rs url session store =
       execute_headless_psu_authorization pe step context aurl rurl events (as_state session) (rs_redirect_uri rs) store"
    by (rule authorize_headless [OF mode auth passed])
  note reg = register_session [OF prepare_registers [OF prep]]
  obtain status target params captured after current events' where
    resp: "pe_authorization pe aurl = AuthorizationResponse status (Some target)" "300 \<le> status" "status < 400"
    and red: "redirect_matches_registered_uri target (rs_redirect_uri rs) = Inr True" "extract_redirect_parameters target = Inr params"
      "map_of params ''state'' = Some (as_state session)"
    and cap: "capture_redirect pe (as_state session) params (pe_interfere pe 0 store) = Some (Inr (captured, after))"
    and snd: "snd (authorize_psu env pe step context rs url session store) = Some (captured, after)"
    and cur: "get_session (pe_run_id pe) (as_state session) (pe_interfere pe 1 after) = Some current"
    and fin: "complete_psu_step_from_session step context rurl events' current = StepDone ev' r c"
    by (rule headless_passed [OF auth [unfolded exec] passed, folded exec])
  have current: "current = captured" "as_run_id captured = as_run_id session" "as_state captured = as_state session"
    using captured_session_kept [OF reg(2) others cap others] cur by (auto simp: get_session_def split: option.splits if_splits)
  obtain code where code: "as_status captured = Captured" "as_code captured = Some code"
    "map_of (ec_steps c) (pa_id step) = Some \<lparr>rec_request = \<lparr>rr_method = ''GET'', rr_url = rurl\<rparr>,
        rec_response = Some (synthesize_psu_response code (as_state captured))\<rparr>"
    using complete_passed [OF fin passed] by (auto simp: current)
  obtain t where t: "redirect_target target = Inr t" "redirect_target (rs_redirect_uri rs) = Inr t"
    using redirect_matches_target [OF red(1)] by blast
  show ?thesis
    using out snd reg prepare_resolves [OF prep] aurl rurl resp red t code current capture_redirect_code [OF cap code(1,2)]
    by - (rule exI [of _ session], rule exI [of _ store], rule exI [of _ "rs_client_id rs"],
        rule exI [of _ "rs_redirect_uri rs"], rule exI [of _ "rs_endpoint rs"], rule exI [of _ "rs_nonce rs"],
        rule exI [of _ request_object], rule exI [of _ aurl], rule exI [of _ rurl], rule exI [of _ status],
        rule exI [of _ target], rule exI [of _ t], rule exI [of _ params], rule exI [of _ code], rule exI [of _ captured],
        intro conjI; simp)
qed

theorem headless_pass_is_genuine_witness:
  "\<exists>aurl target t. pe_authorization sample_psu_env aurl = AuthorizationResponse 302 (Some target) \<and>
     redirect_target target = Inr t \<and> redirect_target ''https://t.example/cb'' = Inr t"
proof -
  obtain ev r c where ret: "po_exit sample_headless = StepDone ev r c" and passed: "sr_status r = CPassed"
    using sample_headless_passes by (auto simp: exit_result_Some)
  have mode: "pa_mode sample_psu_step = Headless" by (simp add: sample_psu_step_def)
  have uri: "resolve_placeholders (pa_redirect_uri sample_psu_step) empty_context = Inr ''https://t.example/cb''" by code_simp
  from headless_pass_is_genuine [OF sample_headless_def [symmetric] mode ret passed sample_others] uri
  show ?thesis by (auto simp: sample_psu_env_def)
qed

end
