(* ===== verification/Execution_Schedule.thy ===== *)
theory Execution_Schedule
  imports Test_Plan
begin

text \<open>
  The execution schedule (\<open>conformance/execution_schedule.py\<close>): the selected setup steps in
  manifest order, then the selected execution steps partitioned into groups in order of first
  appearance. \<open>schedule_loop\<close> is the source's loop over \<open>manifest.steps\<close>, with the list of
  setup steps, the dictionary of grouped steps and the list of group ids as its state.
\<close>

record ExecutionGroup =
  eg_group_id :: string
  eg_steps :: "V1Step list"

record ExecutionSchedule =
  es_setup_steps :: "V1Step list"
  es_execution_groups :: "ExecutionGroup list"

record schedule_state =
  sc_setup :: "V1Step list"
  sc_grouped :: "(string, V1Step list) dict"
  sc_order :: "string list"

definition schedule_step :: "string list \<Rightarrow> schedule_state \<Rightarrow> V1Step \<Rightarrow> schedule_state" where
  "schedule_step selected st step =
     (if step_id step \<notin> set selected then st
      else if step_phase step = SetupPhase then st\<lparr>sc_setup := sc_setup st @ [step]\<rparr>
      else case map_of (sc_grouped st) (step_group step) of
             None \<Rightarrow> st\<lparr>sc_grouped := AList.update (step_group step) [step] (sc_grouped st),
                       sc_order := sc_order st @ [step_group step]\<rparr>
           | Some steps \<Rightarrow>
               st\<lparr>sc_grouped := AList.update (step_group step) (steps @ [step]) (sc_grouped st)\<rparr>)"

definition schedule_loop :: "string list \<Rightarrow> V1Step list \<Rightarrow> schedule_state" where
  "schedule_loop selected steps =
     foldl (schedule_step selected) \<lparr>sc_setup = [], sc_grouped = [], sc_order = []\<rparr> steps"

definition build_execution_schedule :: "Manifest \<Rightarrow> TestPlan \<Rightarrow> ExecutionSchedule" where
  "build_execution_schedule m plan =
     (if mf_schema_version m \<noteq> V1 then \<lparr>es_setup_steps = [], es_execution_groups = []\<rparr>
      else let st = schedule_loop (selected_step_ids plan) (mf_steps m)
           in \<lparr>es_setup_steps = sc_setup st,
               es_execution_groups =
                 map (\<lambda>g. \<lparr>eg_group_id = g, eg_steps = the (map_of (sc_grouped st) g)\<rparr>)
                     (sc_order st)\<rparr>)"

section \<open>Specification\<close>

definition selected_steps :: "Manifest \<Rightarrow> TestPlan \<Rightarrow> V1Step list" where
  "selected_steps m plan = filter (\<lambda>s. step_id s \<in> set (selected_step_ids plan)) (mf_steps m)"

fun is_setup :: "V1Step \<Rightarrow> bool" where
  "is_setup s = (step_phase s = SetupPhase)"

text \<open>Elements in order of first appearance.\<close>

fun firsts :: "'a list \<Rightarrow> 'a list" where
  "firsts [] = []"
| "firsts (x # xs) = x # filter (\<lambda>y. y \<noteq> x) (firsts xs)"

section \<open>Lemmas\<close>

lemma set_firsts [simp]: "set (firsts xs) = set xs"
  by (induction xs) auto

lemma distinct_firsts [simp]: "distinct (firsts xs)"
  by (induction xs) auto

lemma firsts_snoc: "firsts (xs @ [x]) = firsts xs @ (if x \<in> set xs then [] else [x])"
  by (induction xs) auto

definition chosen :: "string list \<Rightarrow> V1Step list \<Rightarrow> V1Step list" where
  "chosen sel xs = filter (\<lambda>s. step_id s \<in> set sel) xs"

definition in_group :: "string list \<Rightarrow> V1Step list \<Rightarrow> string \<Rightarrow> V1Step list" where
  "in_group sel xs g = filter (\<lambda>s. \<not> is_setup s \<and> step_group s = g) (chosen sel xs)"

definition schedule_inv :: "string list \<Rightarrow> V1Step list \<Rightarrow> schedule_state \<Rightarrow> bool" where
  "schedule_inv sel xs st =
     (sc_setup st = filter is_setup (chosen sel xs) \<and>
      sc_order st = firsts (map step_group (filter (\<lambda>s. \<not> is_setup s) (chosen sel xs))) \<and>
      (\<forall>g. map_of (sc_grouped st) g =
             (if in_group sel xs g = [] then None else Some (in_group sel xs g))))"

lemma in_group_snoc:
  "in_group sel (xs @ [x]) g =
     in_group sel xs g @
       (if step_id x \<in> set sel \<and> \<not> is_setup x \<and> step_group x = g then [x] else [])"
  by (simp add: in_group_def chosen_def)

lemma in_group_empty_iff:
  "in_group sel xs g = [] \<longleftrightarrow>
     g \<notin> set (map step_group (filter (\<lambda>s. \<not> is_setup s) (chosen sel xs)))"
  by (auto simp: in_group_def filter_empty_conv)

lemma schedule_step_inv [inv_intros]:
  assumes "schedule_inv sel xs st"
  shows "schedule_inv sel (xs @ [x]) (schedule_step sel st x)"
proof (cases "step_id x \<in> set sel \<and> \<not> is_setup x")
  case False
  with assms show ?thesis
    by (auto simp: schedule_inv_def schedule_step_def in_group_snoc chosen_def)
next
  case True
  show ?thesis
  proof (cases "map_of (sc_grouped st) (step_group x)")
    case None
    with assms have "in_group sel xs (step_group x) = []"
      by (auto simp: schedule_inv_def split: if_splits)
    with None True assms show ?thesis
      unfolding schedule_inv_def schedule_step_def
      by (auto simp: alist.lookup_update in_group_snoc in_group_empty_iff chosen_def firsts_snoc)
  next
    case (Some ys)
    with assms have "in_group sel xs (step_group x) \<noteq> []" "ys = in_group sel xs (step_group x)"
      by (auto simp: schedule_inv_def split: if_splits)
    with Some True assms show ?thesis
      unfolding schedule_inv_def schedule_step_def
      by (auto simp: alist.lookup_update in_group_snoc in_group_empty_iff chosen_def firsts_snoc)
  qed
qed

lemma schedule_loop_inv: "schedule_inv sel xs (schedule_loop sel xs)"
proof (induction xs rule: rev_induct)
  case Nil
  show ?case by (simp add: schedule_loop_def schedule_inv_def in_group_def chosen_def)
next
  case (snoc x xs)
  then show ?case
    using schedule_step_inv [OF snoc, of x] by (simp add: schedule_loop_def)
qed

lemma schedule_groups:
  assumes "mf_schema_version m = V1"
  shows "es_execution_groups (build_execution_schedule m plan) =
           map (\<lambda>g. \<lparr>eg_group_id = g,
                     eg_steps = filter (\<lambda>s. \<not> is_setup s \<and> step_group s = g) (selected_steps m plan)\<rparr>)
               (firsts (map step_group (filter (\<lambda>s. \<not> is_setup s) (selected_steps m plan))))"
    and "es_setup_steps (build_execution_schedule m plan) = filter is_setup (selected_steps m plan)"
proof -
  let ?sel = "selected_step_ids plan"
  let ?st = "schedule_loop ?sel (mf_steps m)"
  have inv: "schedule_inv ?sel (mf_steps m) ?st" by (rule schedule_loop_inv)
  have sel: "chosen ?sel (mf_steps m) = selected_steps m plan"
    by (simp add: chosen_def selected_steps_def)
  have "the (map_of (sc_grouped ?st) g) = in_group ?sel (mf_steps m) g"
    if "g \<in> set (sc_order ?st)" for g
    using inv that in_group_empty_iff [of ?sel "mf_steps m" g]
    by (auto simp: schedule_inv_def)
  then show "es_execution_groups (build_execution_schedule m plan) =
           map (\<lambda>g. \<lparr>eg_group_id = g,
                     eg_steps = filter (\<lambda>s. \<not> is_setup s \<and> step_group s = g) (selected_steps m plan)\<rparr>)
               (firsts (map step_group (filter (\<lambda>s. \<not> is_setup s) (selected_steps m plan))))"
    using inv assms sel
    by (auto simp: build_execution_schedule_def Let_def schedule_inv_def in_group_def)
  show "es_setup_steps (build_execution_schedule m plan) = filter is_setup (selected_steps m plan)"
    using inv assms sel by (simp add: build_execution_schedule_def Let_def schedule_inv_def)
qed

lemma mset_concat_groups:
  assumes "distinct gs" and "\<forall>x \<in> set xs. f x \<in> set gs"
  shows "mset (concat (map (\<lambda>g. filter (\<lambda>x. f x = g) xs) gs)) = mset xs"
  using assms
proof (induction gs arbitrary: xs)
  case Nil
  then show ?case by (cases xs) auto
next
  case (Cons g gs)
  let ?ys = "filter (\<lambda>x. f x \<noteq> g) xs"
  have 1: "mset (concat (map (\<lambda>g. filter (\<lambda>x. f x = g) ?ys) gs)) = mset ?ys"
    using Cons by (intro Cons.IH) auto
  have 2: "map (\<lambda>g'. filter (\<lambda>x. f x = g') ?ys) gs = map (\<lambda>g'. filter (\<lambda>x. f x = g') xs) gs"
    using Cons.prems by (auto simp: intro!: filter_cong)
  have "mset (concat (map (\<lambda>g'. filter (\<lambda>x. f x = g') xs) gs)) = mset ?ys"
    using 1 unfolding 2 .
  then show ?case by (simp add: mset_filter multiset_partition [symmetric])
qed

lemma schedule_partition:
  assumes "mf_schema_version m = V1"
  shows "mset (concat (map eg_steps (es_execution_groups (build_execution_schedule m plan)))) =
           mset (filter (\<lambda>s. \<not> is_setup s) (selected_steps m plan))"
proof -
  let ?xs = "selected_steps m plan" and ?ex = "filter (\<lambda>s. \<not> is_setup s) (selected_steps m plan)"
  let ?gs = "firsts (map step_group ?ex)"
  have "map (\<lambda>g. filter (\<lambda>s. \<not> is_setup s \<and> step_group s = g) ?xs) ?gs = map (\<lambda>g. filter (\<lambda>s. step_group s = g) ?ex) ?gs"
    by (simp add: conj_commute)
  moreover have "mset (concat (map (\<lambda>g. filter (\<lambda>s. step_group s = g) ?ex) ?gs)) = mset ?ex"
    by (rule mset_concat_groups) auto
  ultimately show ?thesis unfolding schedule_groups(1) [OF assms] map_map comp_def ExecutionGroup.simps by metis
qed

section \<open>Properties\<close>

text \<open>The schedule of a v1 manifest runs every selected step exactly once: setup steps first in manifest order, then the
  execution groups, whose ids are distinct and in order of first appearance, each holding its steps in manifest order.\<close>

lemma schedule_runs_selected_steps_once:
  assumes "mf_schema_version m = V1"
  shows "let sch = build_execution_schedule m plan;
             groups = es_execution_groups sch
         in mset (es_setup_steps sch @ concat (map eg_steps groups)) = mset (selected_steps m plan) \<and>
            es_setup_steps sch = filter is_setup (selected_steps m plan) \<and>
            distinct (map eg_group_id groups) \<and>
            (\<forall>g \<in> set groups. eg_steps g = filter (\<lambda>s. \<not> is_setup s \<and> step_group s = eg_group_id g) (selected_steps m plan))"
proof -
  have "mset (filter is_setup (selected_steps m plan)) + mset (filter (\<lambda>s. \<not> is_setup s) (selected_steps m plan)) =
          mset (selected_steps m plan)" by simp
  then show ?thesis
    unfolding Let_def mset_append schedule_partition [OF assms] schedule_groups(2) [OF assms]
    by (simp add: schedule_groups(1) [OF assms] comp_def)
qed

theorem schedule_runs_selected_steps_once_witness:
  "es_setup_steps (build_execution_schedule sample_manifest (default_plan_from_manifest sample_manifest)) =
     [sample_step ''token'' SetupPhase False]"
  using schedule_runs_selected_steps_once [of sample_manifest "default_plan_from_manifest sample_manifest"]
  by (simp add: Let_def selected_steps_def selected_step_ids_def default_plan_from_manifest_def)

end
