(* ===== verification/Manifest_Execution.thy ===== *)
theory Manifest_Execution
  imports Psu_Execution Execution_Schedule
begin

text \<open>
  The execution of a manifest (\<open>conformance/executor.py\<close>, \<open>run_manifest\<close> and the functions that run the steps of a
  v1 or v0 manifest). Setup steps run in sequence; then every execution group runs, in a thread of its own, from the context
  that the setup left, and the results are merged in manifest order. A call returns, raises or never ends; with the
  first two come the log events it emitted. What the threads interleave is a parameter: \<open>rn_merge\<close> is the order in which
  the log received the events of the concurrent groups, and the surroundings of a step (\<open>rn_step\<close>, \<open>rn_psu\<close>) are given by the
  step, as \<open>Step_Execution\<close> and \<open>Psu_Execution\<close> explain. The thread pool runs at most 32 groups at a time, which delays
  groups but changes no result.
\<close>

datatype 'a run_outcome =
    Returns "emission list" 'a
  | Raises "emission list"
  | Diverges

record 'key run_env =
  rn_step :: "'key step_env"
  rn_psu :: "string \<Rightarrow> psu_env"
  rn_merge :: "emission list list \<Rightarrow> emission list"
  rn_error_text :: string
  rn_logger_run_id :: "string option"
  rn_fresh_run_id :: string
  rn_started_at :: datetime
  rn_finished_at :: datetime

section \<open>Steps and groups\<close>

text \<open>The run id of the run reaches only the PSU steps.\<close>

definition execute_v1_manifest_step ::
  "'key run_env \<Rightarrow> string \<Rightarrow> V1Step \<Rightarrow> ExecutionContext \<Rightarrow> step_exit" where
  "execute_v1_manifest_step env run_id step context =
     (case (case step of
              PsuStep s \<Rightarrow> po_exit (execute_v1_psu_step (rn_step env) ((rn_psu env (pa_id s))\<lparr>pe_run_id := run_id\<rparr>) s context)
            | HttpStep s \<Rightarrow> execute_v1_step (rn_step env) s context) of
        StepDone events r c \<Rightarrow> StepDone events (if step_mandatory step then r\<lparr>sr_mandatory := True\<rparr> else r) c
      | other \<Rightarrow> other)"

fun execute_v1_step_sequence ::
  "'key run_env \<Rightarrow> string \<Rightarrow> V1Step list \<Rightarrow> ExecutionContext \<Rightarrow> (StepResult list \<times> ExecutionContext) run_outcome" where
  "execute_v1_step_sequence env run_id [] context = Returns [] ([], context)"
| "execute_v1_step_sequence env run_id (step # steps) context =
     (case execute_v1_manifest_step env run_id step context of
        StepHangs _ \<Rightarrow> Diverges
      | StepCrash events \<Rightarrow> Raises events
      | StepDone events r c \<Rightarrow>
          (case execute_v1_step_sequence env run_id steps c of
             Diverges \<Rightarrow> Diverges
           | Raises later \<Rightarrow> Raises (events @ later)
           | Returns later (rs, c') \<Rightarrow> Returns (events @ later) (r # rs, c')))"

definition execute_v1_group ::
  "'key run_env \<Rightarrow> string \<Rightarrow> ExecutionContext \<Rightarrow> V1Step list \<Rightarrow> StepResult list run_outcome" where
  "execute_v1_group env run_id setup_context steps =
     (case execute_v1_step_sequence env run_id steps setup_context of
        Returns events (rs, _) \<Rightarrow> Returns events rs
      | Raises events \<Rightarrow> Raises events
      | Diverges \<Rightarrow> Diverges)"

text \<open>The index a result is sorted by: that of the last step with its name, or the number of different step ids.\<close>

definition manifest_order :: "Manifest \<Rightarrow> string \<Rightarrow> nat" where
  "manifest_order m name =
     (case map_of (rev (zip (map step_id (mf_steps m)) [0..<length (mf_steps m)])) name of
        Some index \<Rightarrow> index
      | None \<Rightarrow> length (remdups (map step_id (mf_steps m))))"

fun outcome_events :: "'a run_outcome \<Rightarrow> emission list" where
  "outcome_events (Returns events _) = events"
| "outcome_events (Raises events) = events"
| "outcome_events Diverges = []"

fun outcome_value :: "'a list run_outcome \<Rightarrow> 'a list" where
  "outcome_value (Returns _ rs) = rs"
| "outcome_value _ = []"

fun returned :: "'a run_outcome \<Rightarrow> bool" where
  "returned (Returns _ _) = True"
| "returned _ = False"

text \<open>
  Leaving the pool waits for every group, so one group that never ends blocks the run; only then is the first exception
  raised, when every group has emitted its events.
\<close>

definition execute_v1_execution_groups_concurrently ::
  "'key run_env \<Rightarrow> string \<Rightarrow> Manifest \<Rightarrow> ExecutionGroup list \<Rightarrow> ExecutionContext \<Rightarrow> StepResult list run_outcome" where
  "execute_v1_execution_groups_concurrently env run_id m groups setup_context =
     (if groups = [] then Returns [] []
      else
        let outcomes = map (\<lambda>g. execute_v1_group env run_id setup_context (eg_steps g)) groups;
            events = rn_merge env (map outcome_events outcomes)
        in if list_ex (\<lambda>x. case x of Diverges \<Rightarrow> True | _ \<Rightarrow> False) outcomes then Diverges
           else if \<not> list_all returned outcomes then Raises events
           else Returns events (sort_key (\<lambda>r. manifest_order m (sr_name r)) (concat (map outcome_value outcomes))))"

section \<open>Runs of a v1 manifest\<close>

definition request_metadata :: "CompiledTestPlan \<Rightarrow> (string, json_object) dict" where
  "request_metadata cp =
     foldl (\<lambda>d (i, metadata). AList.update i metadata d) []
       (concat (map (\<lambda>tc. map (\<lambda>rs. (rs_step_id rs,
            [(''testCaseId'', JStr (tc_test_case_id tc)), (''requestStepId'', JStr (rs_step_id rs)),
             (''role'', JStr (role_name (tc_role tc))), (''complianceScope'', JArr (map JStr (tc_compliance_scope tc)))]))
          (tc_request_steps tc)) (cp_test_cases cp)))"

definition attach_catalogue_evidence_to_steps :: "CompiledTestPlan \<Rightarrow> StepResult list \<Rightarrow> StepResult list" where
  "attach_catalogue_evidence_to_steps cp steps =
     map (\<lambda>step. case map_of (request_metadata cp) (sr_name step) of
                   None \<Rightarrow> step
                 | Some metadata \<Rightarrow> step\<lparr>sr_details := AList.update ''catalogue'' (JObj metadata) (sr_details step)\<rparr>) steps"

definition deselected_events :: "TestPlan \<Rightarrow> emission list" where
  "deselected_events plan =
     map (\<lambda>e. (StepDeselected, Some (te_step_id e), [(''mandatory'', JBool (te_mandatory e))]))
       (filter (\<lambda>e. \<not> te_selected e) (tp_entries plan))"

definition initial_context :: "RuntimeConfig option \<Rightarrow> ExecutionContext" where
  "initial_context config = \<lparr>ec_steps = [], ec_tokens = [], ec_config = config\<rparr>"

definition run_manifest_v1 ::
  "'key run_env \<Rightarrow> string \<Rightarrow> RuntimeConfig option \<Rightarrow> ApprovedReleasePolicy option \<Rightarrow> CompiledTestPlan option \<Rightarrow>
   Manifest \<Rightarrow> TestPlan \<Rightarrow> SmokeCheckResult run_outcome" where
  "run_manifest_v1 env run_id config policy compiled_plan m plan =
     (let schedule = build_execution_schedule m plan;
          deselected = deselected_events plan
      in case execute_v1_step_sequence env run_id (es_setup_steps schedule) (initial_context config) of
           Diverges \<Rightarrow> Diverges
         | Raises setup_events \<Rightarrow> Raises (deselected @ setup_events)
         | Returns setup_events (setup_steps, context) \<Rightarrow>
             (case execute_v1_execution_groups_concurrently env run_id m (es_execution_groups schedule) context of
                Diverges \<Rightarrow> Diverges
              | Raises group_events \<Rightarrow> Raises (deselected @ setup_events @ group_events)
              | Returns group_events execution_steps \<Rightarrow>
                  let steps = setup_steps @ execution_steps;
                      steps = (case compiled_plan of None \<Rightarrow> steps | Some cp \<Rightarrow> attach_catalogue_evidence_to_steps cp steps)
                  in Returns (deselected @ setup_events @ group_events)
                       (build_smoke_check_result steps (rn_started_at env) (rn_finished_at env) (Some plan) policy
                          (mf_certification_coverage m) compiled_plan
                          (case compiled_plan of None \<Rightarrow> [] | Some cp \<Rightarrow> ty_non_certifying_reasons (cp_traceability cp)))))"

section \<open>Runs of a v0 manifest\<close>

text \<open>The parser fixes the URL source and the method of a follow-up.\<close>

definition extract_v0_follow_up_url :: "ExecutionContext \<Rightarrow> ManifestTest \<Rightarrow> string option" where
  "extract_v0_follow_up_url context test =
     (case map_of (ec_steps context) (mt_id test) of
        None \<Rightarrow> None
      | Some rec \<Rightarrow>
          (case rec_response rec of
             None \<Rightarrow> None
           | Some response \<Rightarrow>
               (case jget (rp_body response) ''jwks_uri'' of
                  JStr v \<Rightarrow> (if py_strip v = [] then None else Some (py_strip v))
                | _ \<Rightarrow> None)))"

definition v0_step :: "string \<Rightarrow> string \<Rightarrow> ManifestRequest \<Rightarrow> ManifestAssertion list \<Rightarrow> ManifestStep" where
  "v0_step i name request assertions =
     \<lparr>ms_id = i, ms_name = name, ms_request = request, ms_assertions = assertions, ms_warning = None, ms_mandatory = False,
      ms_optional = False, ms_group = ''default'', ms_phase = ExecutionPhase, ms_token_endpoint_auth_policy = False,
      ms_required_token_id = None, ms_produces_token_id = None, ms_response_signature_policy = False\<rparr>"

text \<open>A v0 step runs without signing configuration, without client certificate and with caches of its own.\<close>

definition v0_env :: "'key run_env \<Rightarrow> 'key step_env" where
  "v0_env env = (rn_step env)\<lparr>se_signing_config := None, se_mtls_client_configured := False,
                              se_cached_signer := (\<lambda>_. None), se_cached_jwks := (\<lambda>_. None)\<rparr>"

text \<open>A result that is recorded without a request.\<close>

definition v0_failed :: "ExecutionContext \<Rightarrow> string \<Rightarrow> string \<Rightarrow> string \<Rightarrow> string \<Rightarrow> StepResult \<times> ExecutionContext" where
  "v0_failed context i http_method url message =
     (attach_evidence (step_result i CFailed message url) [(''method'', JStr http_method), (''url'', JStr url)] None,
      record_step context i \<lparr>rr_method = http_method, rr_url = url\<rparr> None)"

definition follow_up_id :: "ManifestTest \<Rightarrow> string" where
  "follow_up_id test = mt_id test @ ''.followUp''"

definition execute_v0_follow_up :: "'key run_env \<Rightarrow> ManifestTest \<Rightarrow> ManifestFollowUp \<Rightarrow> ExecutionContext \<Rightarrow> step_exit" where
  "execute_v0_follow_up env test follow_up context =
     (case extract_v0_follow_up_url context test of
        None \<Rightarrow>
          (let primary_url = (case map_of (ec_steps context) (mt_id test) of Some rec \<Rightarrow> rr_url (rec_request rec) | None \<Rightarrow> []);
               (r, c) = v0_failed context (follow_up_id test) ''GET'' primary_url
                          ''Unable to resolve follow-up URL from response.body.jwks_uri''
           in StepDone [] r c)
      | Some url \<Rightarrow>
          execute_v1_step (v0_env env)
            (v0_step (follow_up_id test) (mt_name test @ '' follow-up'')
               \<lparr>rq_method = GET, rq_url = url, rq_headers = None, rq_body = None, rq_detached_jws = None\<rparr>
               (fu_assertions follow_up)) context)"

text \<open>One iteration of the loop: the events, the results it appends and the new context.\<close>

definition execute_v0_test :: "'key run_env \<Rightarrow> ManifestTest \<Rightarrow> ExecutionContext \<Rightarrow> (StepResult list \<times> ExecutionContext) run_outcome" where
  "execute_v0_test env test context =
     (if rq_method (mt_request test) \<noteq> GET then
        (let name = request_method_name (rq_method (mt_request test));
             (r, c) = v0_failed context (mt_id test) name (rq_url (mt_request test))
                        (''v0 manifest primary requests must use GET, got: '' @ name)
         in Returns [] ([r], c))
      else case execute_v1_step (v0_env env) (v0_step (mt_id test) (mt_name test) (mt_request test) (mt_assertions test)) context of
             StepHangs _ \<Rightarrow> Diverges
           | StepCrash events \<Rightarrow> Raises events
           | StepDone events r c \<Rightarrow>
               (case mt_follow_up test of
                  Some follow_up \<Rightarrow>
                    if sr_status r = CPassed
                    then (case execute_v0_follow_up env test follow_up c of
                            StepHangs _ \<Rightarrow> Diverges
                          | StepCrash later \<Rightarrow> Raises (events @ later)
                          | StepDone later r' c' \<Rightarrow> Returns (events @ later) ([r, r'], c'))
                    else Returns events ([r], c)
                | None \<Rightarrow> Returns events ([r], c)))"

fun execute_v0_tests ::
  "'key run_env \<Rightarrow> ManifestTest list \<Rightarrow> ExecutionContext \<Rightarrow> StepResult list run_outcome" where
  "execute_v0_tests env [] context = Returns [] []"
| "execute_v0_tests env (test # tests) context =
     (case execute_v0_test env test context of
        Diverges \<Rightarrow> Diverges
      | Raises events \<Rightarrow> Raises events
      | Returns events (rs, c) \<Rightarrow>
          (case execute_v0_tests env tests c of
             Diverges \<Rightarrow> Diverges
           | Raises later \<Rightarrow> Raises (events @ later)
           | Returns later rs' \<Rightarrow> Returns (events @ later) (rs @ rs')))"

definition run_manifest_v0 ::
  "'key run_env \<Rightarrow> RuntimeConfig option \<Rightarrow> ApprovedReleasePolicy option \<Rightarrow> Manifest \<Rightarrow> SmokeCheckResult run_outcome" where
  "run_manifest_v0 env config policy m =
     (case execute_v0_tests env (mf_tests m) (initial_context config) of
        Diverges \<Rightarrow> Diverges
      | Raises events \<Rightarrow> Raises events
      | Returns events steps \<Rightarrow>
          Returns events
            (build_smoke_check_result steps (rn_started_at env) (rn_finished_at env) None policy Partial None []))"

section \<open>Runs\<close>

definition effective_run_id :: "string option \<Rightarrow> string option \<Rightarrow> string \<Rightarrow> string" where
  "effective_run_id run_id logger_run_id fresh =
     (case run_id of Some i \<Rightarrow> i
      | None \<Rightarrow> (case logger_run_id of Some i \<Rightarrow> if i = [] then fresh else i | None \<Rightarrow> fresh))"

definition run_summary :: "StepResult list \<Rightarrow> json_object" where
  "run_summary steps =
     [(''total'', JInt (int (length steps))), (''passed'', JInt (int (count_status CPassed steps))),
      (''failed'', JInt (int (count_status CFailed steps))), (''warn'', JInt (int (count_status CWarn steps))),
      (''skipped'', JInt (int (count_status CSkipped steps)))]"

text \<open>The events around a run, shared by the two entry points of the module.\<close>

definition with_run_events :: "string \<Rightarrow> json_object \<Rightarrow> SmokeCheckResult run_outcome \<Rightarrow> SmokeCheckResult run_outcome" where
  "with_run_events error_text started outcome =
     (case outcome of
        Diverges \<Rightarrow> Diverges
      | Raises events \<Rightarrow>
          Raises ((RunStarted, None, started) # events @ [(ApplicationError, None, [(''message'', JStr error_text)])])
      | Returns events result \<Rightarrow>
          Returns ((RunStarted, None, started) # events @
                   [(RunCompleted, None, [(''status'', JStr (check_status_name (sc_status result))),
                                          (''summary'', JObj (run_summary (sc_steps result)))])]) result)"

fun schema_version_name :: "ManifestSchemaVersion \<Rightarrow> string" where
  "schema_version_name V0 = ''v0''"
| "schema_version_name V1 = ''v1''"

definition run_manifest ::
  "'key run_env \<Rightarrow> string option \<Rightarrow> RuntimeConfig option \<Rightarrow> ApprovedReleasePolicy option \<Rightarrow> TestPlan option \<Rightarrow>
   Manifest \<Rightarrow> SmokeCheckResult run_outcome" where
  "run_manifest env run_id config policy plan m =
     with_run_events (rn_error_text env) [(''schemaVersion'', JStr (schema_version_name (mf_schema_version m)))]
       (if mf_schema_version m = V1
        then run_manifest_v1 env (effective_run_id run_id (rn_logger_run_id env) (rn_fresh_run_id env)) config policy None m
               (case plan of Some p \<Rightarrow> p | None \<Rightarrow> default_plan_from_manifest m)
        else run_manifest_v0 env config policy m)"

section \<open>Steps\<close>

definition plain_exit :: "step_exit \<Rightarrow> bool" where
  "plain_exit ex = (case ex of StepDone _ r _ \<Rightarrow> \<not> sr_mandatory r | StepCrash _ \<Rightarrow> True | StepHangs _ \<Rightarrow> False)"

lemma assertion_step_plain:
  assumes "build_assertion_step env i sm fm response assertions w = Inr r"
  shows "\<not> sr_mandatory r"
proof -
  obtain results where "evaluate_assertions env response assertions = Inr results"
    using assms by (rule build_assertion_step_Inr)
  note r = assms [unfolded build_assertion_step_def this rbind_simps Let_def]
  show ?thesis
  proof (cases w)
    case None
    have "sr_mandatory r = False" using r [unfolded None option.case sum.inject] by (elim subst) simp
    then show ?thesis by simp
  next
    case (Some m)
    have "sr_mandatory r = False" using r [unfolded Some option.case]
      by (cases "list_all ar_passed results") (simp_all only: if_True if_False sum.inject, (elim subst, simp)+)
    then show ?thesis by simp
  qed
qed

lemma judge_plain: "plain_exit (judge_response env step context p events response)"
proof (cases "validate_response_signature_if_required env step response context")
  case (Inl e)
  then show ?thesis by (cases e) (simp_all add: judge_response_def Let_def plain_exit_def)
next
  case (Inr signature)
  let ?r = "build_assertion_step env (ms_id step) (ms_name step @ '' passed'') (ms_name step @ '' failed'') response
              (ms_assertions step) (ms_warning step)"
  show ?thesis
  proof (cases ?r)
    case (Inr r)
    then show ?thesis using \<open>_ = Inr signature\<close> assertion_step_plain [OF Inr]
      by (simp add: judge_response_def Let_def plain_exit_def)
  qed (use Inr in \<open>simp add: judge_response_def Let_def plain_exit_def\<close>)
qed

lemma http_plain: "plain_exit (execute_v1_step env step context)"
proof -
  have "plain_exit ex" if "prepare_request env step context = Inl ex" for ex
    using prepare_exit [OF that]
    by (auto simp: early_skip_def early_failure_def skipped_step_def failed_step_def plain_exit_def split: if_splits)
  then have "plain_exit (execute_v1_step_inner env step context)"
    by (auto simp: execute_v1_step_inner_def Let_def judge_plain split: sum.split http_error.split) (simp_all add: plain_exit_def)
  then show ?thesis by (auto simp: execute_v1_step_def Let_def plain_exit_def split: step_exit.splits)
qed

text \<open>What a step does to the context: it writes its own record, whichever kind it is.\<close>

definition own_record :: "string \<Rightarrow> ExecutionContext \<Rightarrow> ExecutionContext \<Rightarrow> bool" where
  "own_record i c c' = ((\<exists>rec. ec_steps c' = AList.update i rec (ec_steps c)) \<and> ec_config c' = ec_config c)"

lemma manifest_step_done:
  assumes "execute_v1_manifest_step env run_id step context = StepDone ev r c"
  shows "sr_name r = step_id step" "sr_mandatory r = step_mandatory step" "own_record (step_id step) context c"
proof -
  have "sr_name r = step_id step \<and> sr_mandatory r = step_mandatory step \<and> own_record (step_id step) context c"
  proof (cases step)
    case (HttpStep s)
    obtain r' where http: "execute_v1_step (rn_step env) s context = StepDone ev r' c"
      and r: "r = (if ms_mandatory s then r'\<lparr>sr_mandatory := True\<rparr> else r')"
      using assms HttpStep by (auto simp: execute_v1_manifest_step_def split: step_exit.splits)
    have "\<not> sr_mandatory r'" using http_plain [of "rn_step env" s "context"] http by (simp add: plain_exit_def)
    moreover have "sr_name r' = ms_id s" "own_writes s context c" using step_meets_contract [OF http] by (auto simp: step_contract_def)
    ultimately show ?thesis using HttpStep r by (auto simp: own_record_def own_writes_def)
  next
    case (PsuStep s)
    let ?pe = "(rn_psu env (pa_id s))\<lparr>pe_run_id := run_id\<rparr>"
    obtain r' where psu: "po_exit (execute_v1_psu_step (rn_step env) ?pe s context) = StepDone ev r' c"
      and r: "r = (if pa_mandatory s then r'\<lparr>sr_mandatory := True\<rparr> else r')"
      using assms PsuStep by (auto simp: execute_v1_manifest_step_def split: step_exit.splits)
    from psu_own_exit [of s "context" "rn_step env" ?pe] psu
    have "sr_name r' = pa_id s" "\<not> sr_mandatory r'" "\<exists>q response. c = record_step context (pa_id s) q response"
      by (auto simp: own_exit_def)
    then show ?thesis using PsuStep r by (auto simp: own_record_def record_step_def)
  qed
  then show "sr_name r = step_id step" "sr_mandatory r = step_mandatory step" "own_record (step_id step) context c" by auto
qed

lemma manifest_step_ends:
  assumes "\<And>i. sleeping_clock (pe_monotonic (rn_psu env i))"
  shows "exit_ends (execute_v1_manifest_step env run_id step context)"
proof (cases step)
  case (HttpStep s)
  then show ?thesis using http_plain [of "rn_step env" s "context"]
    by (auto simp: execute_v1_manifest_step_def exit_ends_def plain_exit_def split: step_exit.splits)
next
  case (PsuStep s)
  have "exit_ends (po_exit (execute_v1_psu_step (rn_step env) ((rn_psu env (pa_id s))\<lparr>pe_run_id := run_id\<rparr>) s context))"
    by (rule psu_ends) (simp add: assms)
  then show ?thesis using PsuStep by (auto simp: execute_v1_manifest_step_def exit_ends_def split: step_exit.splits)
qed

section \<open>Sequences\<close>

text \<open>The context in which a step of a sequence runs: the initial one and the records of the steps before it, nothing else.\<close>

definition context_after :: "ExecutionContext \<Rightarrow> V1Step list \<Rightarrow> ExecutionContext \<Rightarrow> bool" where
  "context_after c0 before c =
     (ec_config c = ec_config c0 \<and> dom (map_of (ec_steps c)) = dom (map_of (ec_steps c0)) \<union> set (map step_id before) \<and>
      (\<forall>i. i \<notin> set (map step_id before) \<longrightarrow> map_of (ec_steps c) i = map_of (ec_steps c0) i))"

lemma context_after_refl [simp]: "context_after c [] c"
  by (simp add: context_after_def)

lemma own_record_after: "own_record (step_id step) c c' \<Longrightarrow> context_after c [step] c'"
  by (auto simp: own_record_def context_after_def update_conv)

lemma context_after_trans:
  "context_after c0 xs c1 \<Longrightarrow> context_after c1 ys c2 \<Longrightarrow> context_after c0 (xs @ ys) c2"
  by (auto simp: context_after_def)

lemma sequence_Cons_Returns:
  assumes "execute_v1_step_sequence env run_id (step # steps) context = Returns ev (rs, c)"
  obtains ev1 r c1 ev2 rs' where "execute_v1_manifest_step env run_id step context = StepDone ev1 r c1"
    "execute_v1_step_sequence env run_id steps c1 = Returns ev2 (rs', c)" "rs = r # rs'" "ev = ev1 @ ev2"
  using assms by (auto split: step_exit.splits run_outcome.splits)

lemma sequence_results:
  assumes "execute_v1_step_sequence env run_id steps context = Returns ev (rs, c)"
  shows "map sr_name rs = map step_id steps \<and> map sr_mandatory rs = map step_mandatory steps \<and> context_after context steps c"
  using assms
proof (induction steps arbitrary: "context" ev rs)
  case (Cons step steps)
  then obtain ev1 r c1 ev2 rs' where r: "execute_v1_manifest_step env run_id step context = StepDone ev1 r c1"
    and s: "execute_v1_step_sequence env run_id steps c1 = Returns ev2 (rs', c)" "rs = r # rs'"
    using sequence_Cons_Returns by metis
  from Cons.IH [OF s(1)] manifest_step_done [OF r] s(2)
    context_after_trans [OF own_record_after [OF manifest_step_done(3) [OF r]]]
  show ?case by fastforce
qed simp

text \<open>Every step of the sequence ran, once, in the context its predecessors left.\<close>

lemma sequence_trace:
  assumes "execute_v1_step_sequence env run_id (before @ step # after) context = Returns ev (rs, c)"
  shows "\<exists>c1 ev1 c2. execute_v1_manifest_step env run_id step c1 = StepDone ev1 (rs ! length before) c2 \<and>
           context_after context before c1"
  using assms
proof (induction before arbitrary: "context" ev rs)
  case Nil
  then show ?case using sequence_Cons_Returns [of env run_id step after "context" ev rs c]
    by (metis append_Nil context_after_refl list.size(3) nth_Cons_0)
next
  case (Cons x before)
  obtain ev1 r c1 ev2 rs' where r: "execute_v1_manifest_step env run_id x context = StepDone ev1 r c1"
    and s: "execute_v1_step_sequence env run_id (before @ step # after) c1 = Returns ev2 (rs', c)" "rs = r # rs'"
    using Cons.prems sequence_Cons_Returns by (metis append_Cons)
  from Cons.IH [OF s(1)] s(2) context_after_trans [OF own_record_after [OF manifest_step_done(3) [OF r]], of before]
  show ?case by (metis append_Cons append_Nil length_Cons nth_Cons_Suc)
qed

lemma sequence_ends:
  assumes "\<And>i. sleeping_clock (pe_monotonic (rn_psu env i))"
  shows "execute_v1_step_sequence env run_id steps context \<noteq> Diverges"
proof (induction steps arbitrary: "context")
  case (Cons step steps)
  have "exit_ends (execute_v1_manifest_step env run_id step context)" by (rule manifest_step_ends [OF assms])
  then show ?case using Cons by (auto simp: exit_ends_def split: step_exit.split run_outcome.split)
qed simp

section \<open>Groups\<close>

lemma manifest_order_nth:
  assumes "distinct (map step_id (mf_steps m))" "k < length (mf_steps m)"
  shows "manifest_order m (step_id (mf_steps m ! k)) = k"
proof -
  let ?z = "zip (map step_id (mf_steps m)) [0..<length (mf_steps m)]"
  have "distinct (map fst (rev ?z))" using assms(1) by (simp add: rev_map [symmetric])
  moreover have "(step_id (mf_steps m ! k), k) \<in> set (rev ?z)" using assms(2) by (auto simp: in_set_zip intro!: exI [of _ k])
  ultimately have "map_of (rev ?z) (step_id (mf_steps m ! k)) = Some k" by (simp only: map_of_eq_Some_iff)
  then show ?thesis by (simp add: manifest_order_def)
qed

lemma manifest_order_steps:
  "distinct (map step_id (mf_steps m)) \<Longrightarrow>
     map (\<lambda>s. manifest_order m (step_id s)) (mf_steps m) = [0..<length (mf_steps m)]"
  by (rule nth_equalityI) (simp_all add: manifest_order_nth)

text \<open>Sorting by manifest order undoes the partition into groups.\<close>

lemma manifest_order_sorts:
  assumes "distinct (map step_id (mf_steps m))" and steps: "steps = filter P (mf_steps m)"
    and rs: "mset (map (\<lambda>r. (sr_name r, sr_mandatory r)) rs) = mset (map (\<lambda>s. (step_id s, step_mandatory s)) steps)"
  shows "map (\<lambda>r. (sr_name r, sr_mandatory r)) (sort_key (\<lambda>r. manifest_order m (sr_name r)) rs) =
           map (\<lambda>s. (step_id s, step_mandatory s)) steps" (is "map ?pr ?rs = map ?ps steps")
proof -
  let ?f = "\<lambda>p :: string \<times> bool. manifest_order m (fst p)"
  have all: "sorted (map (\<lambda>s. manifest_order m (step_id s)) (mf_steps m))" "distinct (map (\<lambda>s. manifest_order m (step_id s)) (mf_steps m))"
    by (simp_all only: manifest_order_steps [OF assms(1)] sorted_upt distinct_upt)
  then have ys: "sorted (map ?f (map ?ps steps))" "distinct (map ?f (map ?ps steps))"
    unfolding steps by (simp_all add: comp_def sorted_filter distinct_map_filter)
  have eq: "mset (map ?pr ?rs) = mset (map ?ps steps)" using rs by simp
  have "mset (map ?f (map ?pr ?rs)) = mset (map ?f (map ?ps steps))" unfolding mset_map [of ?f] eq ..
  then have xs: "distinct (map ?f (map ?pr ?rs))" using ys(2) mset_eq_imp_distinct_iff by blast
  moreover have "sorted (map ?f (map ?pr ?rs))" by (simp add: comp_def)
  moreover have "set (map ?pr ?rs) = set (map ?ps steps)" using eq by (rule mset_eq_setD)
  moreover have "inj_on ?f (set (map ?ps steps))" using ys(2) by (simp only: distinct_map)
  ultimately show ?thesis using ys by (intro map_sorted_distinct_set_unique [of ?f]) simp_all
qed

lemma group_Returns:
  "execute_v1_group env run_id c steps = Returns ev rs \<longleftrightarrow> (\<exists>c'. execute_v1_step_sequence env run_id steps c = Returns ev (rs, c'))"
  by (auto simp: execute_v1_group_def split: run_outcome.splits)

lemma returned_value: "returned x \<Longrightarrow> \<exists>ev. x = Returns ev (outcome_value x)"
  by (cases x) simp_all

lemma groups_Returns:
  assumes "execute_v1_execution_groups_concurrently env run_id m groups c = Returns ev rs"
  obtains results where
    "\<And>g. g \<in> set groups \<Longrightarrow> \<exists>ev' c'. execute_v1_step_sequence env run_id (eg_steps g) c = Returns ev' (results g, c')"
    "rs = sort_key (\<lambda>r. manifest_order m (sr_name r)) (concat (map results groups))"
proof -
  let ?results = "\<lambda>g. outcome_value (execute_v1_group env run_id c (eg_steps g))"
  have "returned (execute_v1_group env run_id c (eg_steps g))" if "g \<in> set groups" for g
    using assms that by (auto simp: execute_v1_execution_groups_concurrently_def Let_def list_all_iff split: if_splits)
  then have "\<exists>ev'. execute_v1_group env run_id c (eg_steps g) = Returns ev' (?results g)" if "g \<in> set groups" for g
    using returned_value that by blast
  then have "\<exists>ev' c'. execute_v1_step_sequence env run_id (eg_steps g) c = Returns ev' (?results g, c')" if "g \<in> set groups" for g
    using that unfolding group_Returns .
  moreover have "rs = sort_key (\<lambda>r. manifest_order m (sr_name r)) (concat (map ?results groups))"
    using assms by (auto simp: execute_v1_execution_groups_concurrently_def Let_def comp_def split: if_splits)
  ultimately show ?thesis by (rule that)
qed

lemma sequence_pairs:
  assumes "execute_v1_step_sequence env run_id steps context = Returns ev (rs, c)"
  shows "map (\<lambda>r. (sr_name r, sr_mandatory r)) rs = map (\<lambda>s. (step_id s, step_mandatory s)) steps"
proof -
  have "map (\<lambda>r. (sr_name r, sr_mandatory r)) rs = zip (map sr_name rs) (map sr_mandatory rs)"
    by (simp add: zip_map_map zip_same_conv_map)
  also have "\<dots> = zip (map step_id steps) (map step_mandatory steps)" using sequence_results [OF assms] by simp
  finally show ?thesis by (simp add: zip_map_map zip_same_conv_map)
qed

lemma groups_pairs:
  assumes "\<And>g. g \<in> set groups \<Longrightarrow> \<exists>ev' c'. execute_v1_step_sequence env run_id (eg_steps g) c = Returns ev' (results g, c')"
  shows "map (\<lambda>r. (sr_name r, sr_mandatory r)) (concat (map results groups)) =
           map (\<lambda>s. (step_id s, step_mandatory s)) (concat (map eg_steps groups))"
  using assms
proof (induction groups)
  case (Cons g groups)
  obtain ev' c' where "execute_v1_step_sequence env run_id (eg_steps g) c = Returns ev' (results g, c')"
    using Cons.prems [of g] by auto
  from sequence_pairs [OF this] Cons show ?case by simp
qed simp

lemma groups_end:
  assumes "\<And>i. sleeping_clock (pe_monotonic (rn_psu env i))"
  shows "execute_v1_execution_groups_concurrently env run_id m groups c \<noteq> Diverges"
proof -
  have "execute_v1_group env run_id c steps \<noteq> Diverges" for steps
    using sequence_ends [OF assms, of run_id steps c] by (auto simp: execute_v1_group_def split: run_outcome.splits)
  moreover have "(case x of Diverges \<Rightarrow> True | _ \<Rightarrow> False) \<longleftrightarrow> x = Diverges" for x :: "StepResult list run_outcome"
    by (cases x) simp_all
  ultimately show ?thesis
    by (auto simp: execute_v1_execution_groups_concurrently_def Let_def list_ex_iff dest: sym [of Diverges])
qed

section \<open>The runs\<close>

lemma attach_catalogue_pairs:
  "map (\<lambda>r. (sr_name r, sr_mandatory r)) (attach_catalogue_evidence_to_steps cp steps) = map (\<lambda>r. (sr_name r, sr_mandatory r)) steps"
  "map sr_status (attach_catalogue_evidence_to_steps cp steps) = map sr_status steps"
  by (auto simp: attach_catalogue_evidence_to_steps_def split: option.split)

text \<open>The steps of a run in the order of its results.\<close>

definition run_order :: "Manifest \<Rightarrow> TestPlan \<Rightarrow> V1Step list" where
  "run_order m plan = filter is_setup (selected_steps m plan) @ filter (\<lambda>s. \<not> is_setup s) (selected_steps m plan)"

lemma run_v1_Returns:
  assumes "run_manifest_v1 env run_id config policy cp m plan = Returns ev result"
  obtains setup_events setup_steps c group_events execution_steps steps where
    "execute_v1_step_sequence env run_id (es_setup_steps (build_execution_schedule m plan)) (initial_context config) =
       Returns setup_events (setup_steps, c)"
    "execute_v1_execution_groups_concurrently env run_id m (es_execution_groups (build_execution_schedule m plan)) c =
       Returns group_events execution_steps"
    "ev = deselected_events plan @ setup_events @ group_events"
    "steps = (case cp of None \<Rightarrow> setup_steps @ execution_steps
              | Some p \<Rightarrow> attach_catalogue_evidence_to_steps p (setup_steps @ execution_steps))"
    "result = build_smoke_check_result steps (rn_started_at env) (rn_finished_at env) (Some plan) policy (mf_certification_coverage m) cp
       (case cp of None \<Rightarrow> [] | Some p \<Rightarrow> ty_non_certifying_reasons (cp_traceability p))"
  using assms by (auto simp: run_manifest_v1_def Let_def split: run_outcome.splits prod.splits)

lemma run_v1_pairs:
  assumes "distinct (map step_id (mf_steps m))" "mf_schema_version m = V1"
    and run: "run_manifest_v1 env run_id config policy cp m plan = Returns ev result"
  shows "map (\<lambda>r. (sr_name r, sr_mandatory r)) (sc_steps result) = map (\<lambda>s. (step_id s, step_mandatory s)) (run_order m plan)"
proof -
  let ?ex = "filter (\<lambda>s. \<not> is_setup s) (selected_steps m plan)" and ?sch = "build_execution_schedule m plan"
  obtain ev1 setup_steps c ev2 execution_steps steps where
    prelim: "execute_v1_step_sequence env run_id (es_setup_steps ?sch) (initial_context config) = Returns ev1 (setup_steps, c)"
    and groups: "execute_v1_execution_groups_concurrently env run_id m (es_execution_groups ?sch) c = Returns ev2 execution_steps"
    and steps: "steps = (case cp of None \<Rightarrow> setup_steps @ execution_steps
              | Some p \<Rightarrow> attach_catalogue_evidence_to_steps p (setup_steps @ execution_steps))" "sc_steps result = steps"
    using run_v1_Returns [OF run] by (metis build_smoke_check_result_def SmokeCheckResult.select_convs(4))
  obtain results where
    res: "\<And>g. g \<in> set (es_execution_groups ?sch) \<Longrightarrow> \<exists>ev' c'. execute_v1_step_sequence env run_id (eg_steps g) c = Returns ev' (results g, c')"
    and sorted: "execution_steps = sort_key (\<lambda>r. manifest_order m (sr_name r)) (concat (map results (es_execution_groups ?sch)))"
    using groups_Returns [OF groups] by metis
  have "?ex = filter (\<lambda>s. step_id s \<in> set (selected_step_ids plan) \<and> \<not> is_setup s) (mf_steps m)" by (simp add: selected_steps_def)
  moreover have "mset (map (\<lambda>r. (sr_name r, sr_mandatory r)) (concat (map results (es_execution_groups ?sch)))) =
      mset (map (\<lambda>s. (step_id s, step_mandatory s)) ?ex)"
    using arg_cong [OF schedule_partition [OF assms(2), of plan], of "image_mset (\<lambda>s. (step_id s, step_mandatory s))"]
    by (simp only: groups_pairs [of "es_execution_groups ?sch", OF res] mset_map)
  ultimately have "map (\<lambda>r. (sr_name r, sr_mandatory r)) execution_steps = map (\<lambda>s. (step_id s, step_mandatory s)) ?ex"
    unfolding sorted by (rule manifest_order_sorts [OF assms(1)])
  moreover have "map (\<lambda>r. (sr_name r, sr_mandatory r)) steps = map (\<lambda>r. (sr_name r, sr_mandatory r)) (setup_steps @ execution_steps)"
    by (simp add: steps(1) attach_catalogue_pairs split: option.split)
  ultimately show ?thesis
    using sequence_pairs [OF prelim] by (simp add: steps(2) run_order_def schedule_groups(2) [OF assms(2)])
qed

lemma selected_steps_subset: "set (run_order m plan) = set (selected_steps m plan)"
  by (auto simp: run_order_def)

lemma run_order_distinct:
  assumes "distinct (map step_id (mf_steps m))"
  shows "distinct (map step_id (run_order m plan))"
proof -
  have "mset (run_order m plan) = mset (selected_steps m plan)" by (simp add: run_order_def)
  moreover have "distinct (map step_id (selected_steps m plan))"
    using assms by (simp add: selected_steps_def distinct_map_filter)
  ultimately show ?thesis using mset_eq_imp_distinct_iff mset_map by metis
qed

text \<open>The step of a group and the context it runs in.\<close>

lemma group_member_scheduled:
  assumes "mf_schema_version m = V1" and "step \<in> set (selected_steps m plan)" "\<not> is_setup step"
  shows "\<lparr>eg_group_id = step_group step,
          eg_steps = filter (\<lambda>s. \<not> is_setup s \<and> step_group s = step_group step) (selected_steps m plan)\<rparr>
         \<in> set (es_execution_groups (build_execution_schedule m plan))"
  unfolding schedule_groups(1) [OF assms(1)] using assms(2,3) by auto

lemma run_v1_ends:
  assumes "\<And>i. sleeping_clock (pe_monotonic (rn_psu env i))"
  shows "run_manifest_v1 env run_id config policy cp m plan \<noteq> Diverges"
  using sequence_ends [OF assms] groups_end [OF assms]
  by (auto simp: run_manifest_v1_def Let_def split: run_outcome.split)

lemma v0_step_ends:
  "exit_ends (execute_v1_step env step context)" "exit_ends (execute_v0_follow_up renv test follow_up context)"
proof -
  show http: "exit_ends (execute_v1_step env step context)" for env :: "'a step_env" and step "context"
    using http_plain [of env step "context"] by (auto simp: exit_ends_def plain_exit_def split: step_exit.splits)
  have "exit_ends (execute_v1_step (v0_env renv) step context)" for step "context"
    using http_plain [of "v0_env renv" step "context"] by (auto simp: exit_ends_def plain_exit_def split: step_exit.splits)
  then show "exit_ends (execute_v0_follow_up renv test follow_up context)"
    by (auto simp: execute_v0_follow_up_def exit_ends_intros v0_failed_def Let_def split: option.split)
qed

lemma exit_ends_iff: "exit_ends ex \<longleftrightarrow> (\<forall>ev. ex \<noteq> StepHangs ev)"
  by (cases ex) (simp_all add: exit_ends_def)

lemma v0_test_ends: "execute_v0_test env test context \<noteq> Diverges"
  using v0_step_ends(1) [of "v0_env env" "v0_step (mt_id test) (mt_name test) (mt_request test) (mt_assertions test)" "context"]
    v0_step_ends(2) [of env test]
  by (auto simp: execute_v0_test_def v0_failed_def exit_ends_iff Let_def split: step_exit.split option.split)

lemma v0_tests_end: "execute_v0_tests env tests context \<noteq> Diverges"
proof (induction tests arbitrary: "context")
  case (Cons test tests)
  then show ?case using v0_test_ends [of env test "context"] by (auto split: run_outcome.split)
qed simp

text \<open>What one v0 test contributes to the results.\<close>

definition v0_results :: "ManifestTest \<Rightarrow> StepResult list \<Rightarrow> bool" where
  "v0_results test rs =
     (\<exists>r. sr_name r = mt_id test \<and> (rq_method (mt_request test) \<noteq> GET \<longrightarrow> sr_status r = CFailed) \<and>
        (if mt_follow_up test \<noteq> None \<and> sr_status r = CPassed then \<exists>r'. sr_name r' = follow_up_id test \<and> rs = [r, r']
         else rs = [r]))"

lemma follow_up_name:
  assumes "execute_v0_follow_up env test follow_up context = StepDone ev r c"
  shows "sr_name r = follow_up_id test"
proof (cases "extract_v0_follow_up_url context test")
  case None
  then show ?thesis using assms by (auto simp: execute_v0_follow_up_def v0_failed_def Let_def)
next
  case (Some url)
  then show ?thesis using assms step_meets_contract by (fastforce simp: execute_v0_follow_up_def step_contract_def v0_step_def)
qed

lemma v0_test_results:
  assumes "execute_v0_test env test context = Returns ev (rs, c)"
  shows "v0_results test rs"
proof (cases "rq_method (mt_request test) = GET")
  case False
  then obtain message url evidence where "rs = [attach_evidence (step_result (mt_id test) CFailed message url) evidence None]"
    using assms by (auto simp: execute_v0_test_def v0_failed_def Let_def)
  then show ?thesis unfolding v0_results_def
    by (intro exI [of _ "attach_evidence (step_result (mt_id test) CFailed message url) evidence None"]) simp
next
  case True
  then obtain ev1 r c1 where
    r: "execute_v1_step (v0_env env) (v0_step (mt_id test) (mt_name test) (mt_request test) (mt_assertions test)) context = StepDone ev1 r c1"
    using assms by (auto simp: execute_v0_test_def split: step_exit.splits)
  have name: "sr_name r = mt_id test" using step_meets_contract [OF r] by (simp add: step_contract_def v0_step_def)
  show ?thesis
  proof (cases "mt_follow_up test \<noteq> None \<and> sr_status r = CPassed")
    case passed: True
    then obtain follow_up where f: "mt_follow_up test = Some follow_up" by auto
    then obtain ev2 r' c' where "execute_v0_follow_up env test follow_up c1 = StepDone ev2 r' c'" "rs = [r, r']"
      using assms True r passed by (auto simp: execute_v0_test_def split: step_exit.splits)
    with follow_up_name [OF this(1)] passed True name show ?thesis unfolding v0_results_def by auto
  next
    case other: False
    then have "rs = [r]" using assms True r by (auto simp: execute_v0_test_def split: option.splits if_splits)
    then show ?thesis using other True name unfolding v0_results_def by auto
  qed
qed

lemma v0_tests_results:
  assumes "execute_v0_tests env tests context = Returns ev rs"
  shows "\<exists>rss. rs = concat rss \<and> list_all2 v0_results tests rss"
  using assms
proof (induction tests arbitrary: "context" ev rs)
  case (Cons test tests)
  obtain ev1 rs1 c ev2 rs2 where t: "execute_v0_test env test context = Returns ev1 (rs1, c)"
    and ts: "execute_v0_tests env tests c = Returns ev2 rs2" "rs = rs1 @ rs2"
    using Cons.prems by (auto split: run_outcome.splits)
  obtain rss where "rs2 = concat rss" "list_all2 v0_results tests rss" using Cons.IH [OF ts(1)] by blast
  with v0_test_results [OF t] ts(2) show ?case by (intro exI [of _ "rs1 # rss"]) simp
qed simp

section \<open>A small run\<close>

text \<open>The sample manifest against the bank of \<open>sample_env\<close>, with the log in group order.\<close>

definition sample_run_env :: "unit run_env" where
  "sample_run_env =
     \<lparr>rn_step = sample_env, rn_psu = (\<lambda>_. sample_psu_env), rn_merge = concat, rn_error_text = [], rn_logger_run_id = None,
      rn_fresh_run_id = ''run'', rn_started_at = datetime_min, rn_finished_at = datetime_min\<rparr>"

definition run_steps :: "SmokeCheckResult run_outcome \<Rightarrow> StepResult list option" where
  "run_steps outcome = (case outcome of Returns _ result \<Rightarrow> Some (sc_steps result) | _ \<Rightarrow> None)"

lemma run_steps_Some: "run_steps outcome = Some steps \<longleftrightarrow> (\<exists>ev result. outcome = Returns ev result \<and> sc_steps result = steps)"
  by (cases outcome) (simp_all add: run_steps_def)

lemma run_steps_policy:
  "run_steps (run_manifest_v1 env run_id config policy cp m plan) = run_steps (run_manifest_v1 env run_id config None cp m plan)"
  by (auto simp: run_manifest_v1_def Let_def run_steps_def build_smoke_check_result_def split: run_outcome.split)

lemma sample_run_passes:
  "map_option (map sr_status) (run_steps (run_manifest_v1 sample_run_env ''run'' None None None sample_manifest
     (default_plan_from_manifest sample_manifest))) = Some [CPassed, CPassed]"
  by code_simp

lemma sample_run_returns:
  obtains ev result where
    "run_manifest_v1 sample_run_env ''run'' None policy None sample_manifest (default_plan_from_manifest sample_manifest) = Returns ev result"
    "map sr_status (sc_steps result) = [CPassed, CPassed]"
  using sample_run_passes
  by (auto simp: run_steps_Some run_steps_policy [of sample_run_env "''run''" None policy None sample_manifest, symmetric])

lemma returned_iff: "returned x \<longleftrightarrow> (\<exists>ev v. x = Returns ev v)"
  by (cases x) simp_all

lemma sample_run_clock: "sleeping_clock (pe_monotonic (rn_psu sample_run_env i))"
  using sample_clock by (simp add: sample_run_env_def)

section \<open>Properties\<close>

text \<open>C14: A v1 run that returns has exactly one result per selected step: first the setup steps, then the execution steps, both in
  manifest order although the groups ran concurrently and finished in any order. Every result is named after its step and
  carries its mandatory flag, and the run passes if and only if every one of these results passed or warned.\<close>

theorem run_reports_selected_steps:
  assumes "wf_manifest m" "mf_schema_version m = V1"
    and run: "run_manifest_v1 env run_id config policy cp m plan = Returns ev result"
  shows "map (\<lambda>r. (sr_name r, sr_mandatory r)) (sc_steps result) = map (\<lambda>s. (step_id s, step_mandatory s)) (run_order m plan) \<and>
         distinct (map sr_name (sc_steps result)) \<and>
         set (map sr_name (sc_steps result)) = set (map step_id (selected_steps m plan)) \<and>
         (sc_status result = CPassed \<longleftrightarrow> (\<forall>r \<in> set (sc_steps result). sr_status r = CPassed \<or> sr_status r = CWarn))"
proof -
  have dist: "distinct (map step_id (mf_steps m))" using assms(1) by (simp add: wf_manifest_def)
  note pairs = run_v1_pairs [OF dist assms(2) run]
  have names: "map sr_name (sc_steps result) = map step_id (run_order m plan)"
    using arg_cong [OF pairs, of "map fst"] by (simp add: comp_def)
  moreover have "sc_status result = CPassed \<longleftrightarrow> (\<forall>r \<in> set (sc_steps result). sr_status r = CPassed \<or> sr_status r = CWarn)"
    by (rule run_v1_Returns [OF run]) (simp add: build_status_iff, simp add: build_smoke_check_result_def)
  ultimately show ?thesis using pairs run_order_distinct [OF dist, of plan] by (simp add: selected_steps_subset)
qed

theorem run_reports_selected_steps_witness:
  "\<exists>ev result. run_manifest_v1 sample_run_env ''run'' None None None sample_manifest (default_plan_from_manifest sample_manifest) =
     Returns ev result \<and> distinct (map sr_name (sc_steps result))"
proof -
  obtain ev result where "run_manifest_v1 sample_run_env ''run'' None None None sample_manifest
      (default_plan_from_manifest sample_manifest) = Returns ev result"
    using sample_run_returns by blast
  with run_reports_selected_steps [OF sample_manifest_facts(9) sample_manifest_facts(1) this] show ?thesis by blast
qed

text \<open>C15: Execution groups are isolated. A selected execution step of a run that returns ran in a context that holds the records
  of all selected setup steps and of the selected steps of its own group before it, and of no other step, whatever the
  other groups did meanwhile; its result is the one the run reports.\<close>

theorem groups_are_isolated:
  assumes v1: "mf_schema_version m = V1"
    and run: "run_manifest_v1 env run_id config policy None m plan = Returns ev result"
    and step: "filter (\<lambda>s. \<not> is_setup s \<and> step_group s = g) (selected_steps m plan) = before @ step # after"
  shows "\<exists>c ev' r c'. execute_v1_manifest_step env run_id step c = StepDone ev' r c' \<and> r \<in> set (sc_steps result) \<and>
           ec_config c = config \<and>
           dom (map_of (ec_steps c)) = set (map step_id (filter is_setup (selected_steps m plan) @ before))"
proof -
  let ?sch = "build_execution_schedule m plan"
  obtain ev1 setup_steps c0 ev2 execution_steps where
    prelim: "execute_v1_step_sequence env run_id (es_setup_steps ?sch) (initial_context config) = Returns ev1 (setup_steps, c0)"
    and groups: "execute_v1_execution_groups_concurrently env run_id m (es_execution_groups ?sch) c0 = Returns ev2 execution_steps"
    and steps: "sc_steps result = setup_steps @ execution_steps"
    by (rule run_v1_Returns [OF run]) (simp add: build_smoke_check_result_def)
  obtain results where
    res: "\<And>g. g \<in> set (es_execution_groups ?sch) \<Longrightarrow> \<exists>ev' c'. execute_v1_step_sequence env run_id (eg_steps g) c0 = Returns ev' (results g, c')"
    and sorted: "execution_steps = sort_key (\<lambda>r. manifest_order m (sr_name r)) (concat (map results (es_execution_groups ?sch)))"
    using groups_Returns [OF groups] by metis
  have "step \<in> set (filter (\<lambda>s. \<not> is_setup s \<and> step_group s = g) (selected_steps m plan))" by (simp only: step) simp
  then have s: "step \<in> set (selected_steps m plan)" "\<not> is_setup step" "step_group step = g" by simp_all
  let ?g = "\<lparr>eg_group_id = g, eg_steps = before @ step # after\<rparr>"
  have g: "?g \<in> set (es_execution_groups ?sch)" using group_member_scheduled [OF v1 s(1,2)] step s(3) by simp
  then obtain ev' c' where seq: "execute_v1_step_sequence env run_id (before @ step # after) c0 = Returns ev' (results ?g, c')"
    using res by fastforce
  obtain c1 ev1' c2 where ran: "execute_v1_manifest_step env run_id step c1 = StepDone ev1' (results ?g ! length before) c2"
    and c1: "context_after c0 before c1" using sequence_trace [OF seq] by blast
  have "length (results ?g) = length (before @ step # after)" using sequence_results [OF seq] map_eq_imp_length_eq by metis
  then have "results ?g ! length before \<in> set (results ?g)" by (intro nth_mem) simp
  with g have "results ?g ! length before \<in> set (sc_steps result)" by (auto simp: steps sorted simp del: nth_mem)
  moreover have "context_after (initial_context config) (filter is_setup (selected_steps m plan)) c0"
    using sequence_results [OF prelim] by (simp add: schedule_groups(2) [OF v1])
  then have "context_after (initial_context config) (filter is_setup (selected_steps m plan) @ before) c1"
    using c1 by (rule context_after_trans)
  ultimately show ?thesis using ran by (auto simp: context_after_def initial_context_def)
qed

theorem groups_are_isolated_witness:
  "\<exists>c ev r c'. execute_v1_manifest_step sample_run_env ''run'' (sample_step ''accounts'' ExecutionPhase True) c = StepDone ev r c' \<and>
     dom (map_of (ec_steps c)) = {''token''}"
proof -
  let ?plan = "default_plan_from_manifest sample_manifest"
  obtain ev result where run: "run_manifest_v1 sample_run_env ''run'' None None None sample_manifest ?plan = Returns ev result"
    using sample_run_returns by blast
  have sel: "selected_steps sample_manifest ?plan = [sample_step ''token'' SetupPhase False, sample_step ''accounts'' ExecutionPhase True]"
    by (simp add: selected_steps_def selected_step_ids_def default_plan_from_manifest_def)
  have "filter (\<lambda>s. \<not> is_setup s \<and> step_group s = ''ais'') (selected_steps sample_manifest ?plan) =
          [] @ sample_step ''accounts'' ExecutionPhase True # []" by (simp add: sel)
  from groups_are_isolated [OF sample_manifest_facts(1) run this] show ?thesis by (auto simp: sel)
qed

text \<open>C16: A run always ends, on clocks that never run backwards and advance by the half second a waiting step sleeps between two
  tests of its loop, and its log says how: it opens with run-started, and it closes with run-completed, carrying the status of the result and the number of results of each
  status, if and only if the run returns that result; otherwise with application-error.\<close>

theorem run_ends_and_logs_it:
  assumes "\<And>i. sleeping_clock (pe_monotonic (rn_psu env i))"
  shows "\<exists>started events.
     (\<exists>result. run_manifest env run_id config policy plan m =
        Returns ((RunStarted, None, started) # events @
                 [(RunCompleted, None, [(''status'', JStr (check_status_name (sc_status result))),
                                        (''summary'', JObj (run_summary (sc_steps result)))])]) result) \<or>
     run_manifest env run_id config policy plan m =
        Raises ((RunStarted, None, started) # events @ [(ApplicationError, None, [(''message'', JStr (rn_error_text env))])])"
proof -
  define outcome where "outcome = (if mf_schema_version m = V1
        then run_manifest_v1 env (effective_run_id run_id (rn_logger_run_id env) (rn_fresh_run_id env)) config policy None m
               (case plan of Some p \<Rightarrow> p | None \<Rightarrow> default_plan_from_manifest m)
        else run_manifest_v0 env config policy m)"
  have "outcome \<noteq> Diverges" using run_v1_ends [OF assms] v0_tests_end [of env "mf_tests m" "initial_context config"]
    by (auto simp: outcome_def run_manifest_v0_def split: run_outcome.split)
  moreover have "run_manifest env run_id config policy plan m =
      with_run_events (rn_error_text env) [(''schemaVersion'', JStr (schema_version_name (mf_schema_version m)))] outcome"
    by (simp add: run_manifest_def outcome_def)
  ultimately show ?thesis by (cases outcome) (auto simp: with_run_events_def)
qed

theorem run_ends_and_logs_it_witness:
  "run_manifest sample_run_env None None None None sample_manifest \<noteq> Diverges"
  using run_ends_and_logs_it [of sample_run_env None None None None sample_manifest, OF sample_run_clock] by fastforce

text \<open>C23: A v0 run reports, test by test in manifest order, the result of the primary request, and the result of the follow-up
  directly after it exactly when the test has a follow-up and the primary request passed. A primary request that is not a
  GET fails without being sent.\<close>

theorem v0_follow_up_only_after_pass:
  assumes "run_manifest_v0 env config policy m = Returns ev result"
  shows "\<exists>rss. sc_steps result = concat rss \<and> list_all2 v0_results (mf_tests m) rss"
proof -
  obtain events steps where "execute_v0_tests env (mf_tests m) (initial_context config) = Returns events steps" "sc_steps result = steps"
    using assms by (auto simp: run_manifest_v0_def build_smoke_check_result_def split: run_outcome.splits)
  with v0_tests_results show ?thesis by metis
qed

definition sample_v0_manifest :: Manifest where
  "sample_v0_manifest =
     \<lparr>mf_schema_version = V0, mf_name = ''sample'',
      mf_tests = [\<lparr>mt_id = ''discovery'', mt_name = ''Discovery'',
        mt_request = \<lparr>rq_method = GET, rq_url = ''https://bank.example/x'', rq_headers = None, rq_body = None, rq_detached_jws = None\<rparr>,
        mt_assertions = [], mt_follow_up = Some \<lparr>fu_assertions = []\<rparr>\<rparr>],
      mf_steps = [], mf_certification_coverage = Partial\<rparr>"

lemma sample_v0_returns: "returned (run_manifest_v0 sample_run_env None None sample_v0_manifest)"
  by code_simp

theorem v0_follow_up_only_after_pass_witness:
  "\<exists>ev result rss. run_manifest_v0 sample_run_env None None sample_v0_manifest = Returns ev result \<and>
     sc_steps result = concat rss \<and> list_all2 v0_results (mf_tests sample_v0_manifest) rss"
proof -
  obtain ev result where "run_manifest_v0 sample_run_env None None sample_v0_manifest = Returns ev result"
    using sample_v0_returns unfolding returned_iff by blast
  with v0_follow_up_only_after_pass [OF this] show ?thesis by blast
qed

end
