(* ===== verification/Specification_Registry.thy ===== *)
theory Specification_Registry
  imports Catalogue_Model
begin

text \<open>
  The registry of supported specification families (\<open>conformance/specification_registry.py\<close>): the two
  definitions as data and the functions that resolve a plan boundary against them. A \<open>ValueError\<close> carries its
  message.
\<close>

datatype ScopePresentation = ResourceGroups | DirectEndpoints

datatype ExecutionSchedulingPolicy = DependencyOrdered | Sequential

datatype registry_error = RegistryValueError string

record SpecificationVersionDefinition =
  sv_version :: string
  sv_catalogue_standard :: string
  sv_catalogue_version :: string
  sv_catalogue_apis :: "string list"
  sv_security_profiles :: "SecurityProfile list"

record SpecificationDefinition =
  sd_scheme :: string
  sd_scheme_display_name :: string
  sd_family :: string
  sd_specification :: string
  sd_display_name :: string
  sd_versions :: "SpecificationVersionDefinition list"
  sd_uses_resource_groups :: bool
  sd_scope_presentation :: ScopePresentation
  sd_execution_scheduling :: ExecutionSchedulingPolicy

definition read_write_version :: "string \<Rightarrow> string \<Rightarrow> SpecificationVersionDefinition" where
  "read_write_version version catalogue_version =
     \<lparr>sv_version = version, sv_catalogue_standard = ''open-banking'', sv_catalogue_version = catalogue_version,
      sv_catalogue_apis = [''ais'', ''pis'', ''cbpii'', ''vrp''], sv_security_profiles = [Fapi1Advanced]\<rparr>"

definition OPEN_BANKING_READ_WRITE :: SpecificationDefinition where
  "OPEN_BANKING_READ_WRITE =
     \<lparr>sd_scheme = ''open-banking-uk'', sd_scheme_display_name = ''Open Banking UK'', sd_family = ''OBL_READ_WRITE'',
      sd_specification = ''read-write'', sd_display_name = ''Read/Write'',
      sd_versions = map (\<lambda>version. read_write_version version ''v4.0'') [''4.0.1'', ''4.0.0'', ''4.0'']
                    @ [read_write_version ''3.1.11'' ''v3.1''],
      sd_uses_resource_groups = True, sd_scope_presentation = ResourceGroups,
      sd_execution_scheduling = DependencyOrdered\<rparr>"

definition OPEN_BANKING_DCR :: SpecificationDefinition where
  "OPEN_BANKING_DCR =
     \<lparr>sd_scheme = ''open-banking-uk'', sd_scheme_display_name = ''Open Banking UK'', sd_family = ''OBL_DCR'',
      sd_specification = ''dynamic-client-registration'', sd_display_name = ''Dynamic Client Registration'',
      sd_versions = [\<lparr>sv_version = ''3.4'', sv_catalogue_standard = ''open-banking'', sv_catalogue_version = ''v3.4'',
                      sv_catalogue_apis = [''dcr''], sv_security_profiles = [ProfileAll]\<rparr>],
      sd_uses_resource_groups = False, sd_scope_presentation = DirectEndpoints,
      sd_execution_scheduling = Sequential\<rparr>"

definition SPECIFICATIONS :: "SpecificationDefinition list" where
  "SPECIFICATIONS = [OPEN_BANKING_READ_WRITE, OPEN_BANKING_DCR]"

definition supported_specifications :: "SpecificationDefinition list" where
  "supported_specifications = SPECIFICATIONS"

definition specification_for_family :: "string \<Rightarrow> registry_error + SpecificationDefinition" where
  "specification_for_family family =
     (case find (\<lambda>d. sd_family d = family) SPECIFICATIONS of
        Some d \<Rightarrow> Inr d
      | None \<Rightarrow> Inl (RegistryValueError (''specification.family must be one of: ''
                        @ join '', '' (map sd_family SPECIFICATIONS))))"

fun boundary_search ::
  "string \<Rightarrow> string \<Rightarrow> string \<Rightarrow> SpecificationDefinition list \<Rightarrow>
   registry_error + SpecificationDefinition \<times> SpecificationVersionDefinition" where
  "boundary_search scheme specification version [] =
     Inl (RegistryValueError (''specification boundary must be one of: ''
            @ join '', '' (map (\<lambda>d. sd_scheme d @ ''/'' @ sd_specification d) SPECIFICATIONS)))"
| "boundary_search scheme specification version (d # ds) =
     (if sd_scheme d \<noteq> scheme \<or> sd_specification d \<noteq> specification
      then boundary_search scheme specification version ds
      else case find (\<lambda>v. sv_version v = version) (sd_versions d) of
             Some v \<Rightarrow> Inr (d, v)
           | None \<Rightarrow> Inl (RegistryValueError (''specification.version must be one of: ''
                             @ join '', '' (map sv_version (sd_versions d)))))"

definition specification_for_boundary ::
  "string \<Rightarrow> string \<Rightarrow> string \<Rightarrow> registry_error + SpecificationDefinition \<times> SpecificationVersionDefinition" where
  "specification_for_boundary scheme specification version =
     boundary_search scheme specification version SPECIFICATIONS"

definition security_profiles_for_boundary :: "string \<Rightarrow> string \<Rightarrow> string \<Rightarrow> registry_error + SecurityProfile list" where
  "security_profiles_for_boundary scheme specification version =
     rbind (specification_for_boundary scheme specification version) (\<lambda>(d, v). Inr (sv_security_profiles v))"

definition derived_security_profile_for_boundary :: "string \<Rightarrow> string \<Rightarrow> string \<Rightarrow> registry_error + SecurityProfile" where
  "derived_security_profile_for_boundary scheme specification version =
     rbind (security_profiles_for_boundary scheme specification version) (\<lambda>profiles.
       if length profiles \<noteq> 1
       then Inl (RegistryValueError (''specification boundary must declare exactly one security profile ''
              @ ''for automatic derivation; found '' @ str_nat (length profiles)))
       else Inr (profiles ! 0))"

section \<open>Resolution\<close>

lemma boundary_search_Inr:
  "boundary_search scheme specification version ds = Inr (d, v) \<Longrightarrow>
   d \<in> set ds \<and> v \<in> set (sd_versions d) \<and> sd_scheme d = scheme \<and> sd_specification d = specification \<and> sv_version v = version"
  by (induction ds) (auto simp: find_Some_iff split: if_splits option.splits)

lemma find_key: "distinct (map f xs) \<Longrightarrow> x \<in> set xs \<Longrightarrow> find (\<lambda>y. f y = f x) xs = Some x"
  by (induction xs) (auto simp: image_iff)

lemma boundary_search_complete:
  "d \<in> set ds \<Longrightarrow> v \<in> set (sd_versions d) \<Longrightarrow> distinct (map (\<lambda>d. (sd_scheme d, sd_specification d)) ds) \<Longrightarrow>
   distinct (map sv_version (sd_versions d)) \<Longrightarrow>
   boundary_search (sd_scheme d) (sd_specification d) (sv_version v) ds = Inr (d, v)"
  by (induction ds) (auto simp: find_key image_iff)

lemmas registry_defs = SPECIFICATIONS_def OPEN_BANKING_READ_WRITE_def OPEN_BANKING_DCR_def read_write_version_def

lemma registry_wf:
  "distinct (map (\<lambda>d. (sd_scheme d, sd_specification d)) SPECIFICATIONS)"
  "d \<in> set SPECIFICATIONS \<Longrightarrow> distinct (map sv_version (sd_versions d))"
  by (auto simp: registry_defs)

lemma boundary_resolution:
  "specification_for_boundary scheme specification version = Inr (d, v) \<longleftrightarrow>
     d \<in> set supported_specifications \<and> v \<in> set (sd_versions d) \<and>
     sd_scheme d = scheme \<and> sd_specification d = specification \<and> sv_version v = version"
proof
  assume "d \<in> set supported_specifications \<and> v \<in> set (sd_versions d) \<and>
    sd_scheme d = scheme \<and> sd_specification d = specification \<and> sv_version v = version"
  then show "specification_for_boundary scheme specification version = Inr (d, v)"
    using boundary_search_complete [OF _ _ registry_wf(1) registry_wf(2), of d v]
    by (auto simp: specification_for_boundary_def supported_specifications_def)
qed (auto simp: specification_for_boundary_def supported_specifications_def dest: boundary_search_Inr)

lemma boundary_profiles:
  "d \<in> set supported_specifications \<Longrightarrow> v \<in> set (sd_versions d) \<Longrightarrow> length (sv_security_profiles v) = 1"
  by (auto simp: supported_specifications_def registry_defs)

text \<open>A boundary resolves to a definition of the registry with that scheme, specification and version, and every registered
  version resolves to itself; each of them declares exactly one security profile, so the profile of a plan can be derived at
  every boundary that resolves.\<close>

lemma registry_resolution:
  "(specification_for_boundary scheme specification version = Inr (d, v) \<longleftrightarrow>
     d \<in> set supported_specifications \<and> v \<in> set (sd_versions d) \<and>
     sd_scheme d = scheme \<and> sd_specification d = specification \<and> sv_version v = version) \<and>
   ((\<exists>p. derived_security_profile_for_boundary scheme specification version = Inr p) \<longleftrightarrow>
     (\<exists>r. specification_for_boundary scheme specification version = Inr r))"
proof (intro conjI)
  show "(\<exists>p. derived_security_profile_for_boundary scheme specification version = Inr p) \<longleftrightarrow>
     (\<exists>r. specification_for_boundary scheme specification version = Inr r)"
  proof (cases "specification_for_boundary scheme specification version")
    case (Inr r)
    obtain d v where r: "r = (d, v)" by (cases r)
    then have "length (sv_security_profiles v) = 1" using Inr boundary_profiles [of d v] by (simp add: boundary_resolution)
    then show ?thesis using Inr r
      by (simp add: derived_security_profile_for_boundary_def security_profiles_for_boundary_def)
  qed (simp add: derived_security_profile_for_boundary_def security_profiles_for_boundary_def)
qed (rule boundary_resolution)

end
