(* ===== verification/Builder_Draft_Store.thy ===== *)
theory Builder_Draft_Store
  imports Specification_Registry "HOL-Library.Multiset"
begin

text \<open>
  Drafts of the browser wizard (\<open>conformance/api/builder_draft_store.py\<close>): the draft and its copies with one step
  saved, its session encoding, and the store that keeps the five most recently updated drafts of a browser session.
  The session is the JSON value under the store's key, null when there is none; the clock and the generated identifier
  are arguments. Warnings written to the log are left out.
\<close>

datatype PlanExecutionMode = CertificationMode | DevelopmentMode

fun mode_name :: "PlanExecutionMode \<Rightarrow> string" where
  "mode_name CertificationMode = ''certification''"
| "mode_name DevelopmentMode = ''development''"

record BuilderDraft =
  bd_draft_id :: string
  bd_scheme :: "string option"
  bd_specification :: "string option"
  bd_version :: "string option"
  bd_security_profile :: SecurityProfile
  bd_resource_group_ids :: "string list"
  bd_endpoint_ids :: "string list"
  bd_endpoint_capability_ids :: "(string, string list) dict"
  bd_config :: json_object
  bd_security_environment :: json_object
  bd_business_test_data :: json_object
  bd_dynamic_client_registration :: json_object
  bd_metadata :: json_object
  bd_execution_mode :: PlanExecutionMode
  bd_discovery_metadata :: json_object
  bd_created_at :: string
  bd_updated_at :: string

definition MAX_SESSION_DRAFTS :: nat where
  "MAX_SESSION_DRAFTS = 5"

definition utc_timestamp :: "datetime \<Rightarrow> string" where
  "utc_timestamp now = isoformat now"

section \<open>Readers of session values\<close>

definition optional_string :: "json \<Rightarrow> string option" where
  "optional_string v = (case v of JStr s \<Rightarrow> if s = [] then None else Some s | _ \<Rightarrow> None)"

definition string_tuple :: "json \<Rightarrow> string list" where
  "string_tuple v = (case v of JArr xs \<Rightarrow> if list_all is_string xs then map str_of xs else [] | _ \<Rightarrow> [])"

fun decode_tuple_mapping :: "json_object \<Rightarrow> (string, string list) dict \<Rightarrow> (string, string list) dict" where
  "decode_tuple_mapping [] decoded = decoded"
| "decode_tuple_mapping ((key, raw_items) # rest) decoded =
     (let items = string_tuple raw_items
      in if raw_items \<noteq> JNull \<and> items = [] \<and> raw_items \<noteq> JArr [] then []
         else decode_tuple_mapping rest (AList.update key items decoded))"

definition string_tuple_mapping :: "json \<Rightarrow> (string, string list) dict" where
  "string_tuple_mapping v = (case v of JObj kvs \<Rightarrow> decode_tuple_mapping kvs [] | _ \<Rightarrow> [])"

fun is_json_value :: "json \<Rightarrow> bool" where
  "is_json_value (JArr xs) = list_all is_json_value xs"
| "is_json_value (JObj kvs) = list_all (\<lambda>(k, v). is_json_value v) kvs"
| "is_json_value _ = True"

fun copy_json_value :: "json \<Rightarrow> json" where
  "copy_json_value (JObj kvs) = JObj (map (\<lambda>(k, v). (k, copy_json_value v)) kvs)"
| "copy_json_value (JArr xs) = JArr (map copy_json_value xs)"
| "copy_json_value v = v"

definition draft_json_object :: "json \<Rightarrow> json_object" where
  "draft_json_object v =
     (case v of JObj kvs \<Rightarrow> [(k, copy_json_value item). (k, item) \<leftarrow> kvs, is_json_value item] | _ \<Rightarrow> [])"

definition config_object :: "json \<Rightarrow> json_object" where
  "config_object v = AList.delete ''environment'' (draft_json_object v)"

definition execution_mode_of :: "json \<Rightarrow> PlanExecutionMode" where
  "execution_mode_of v = (if v = JStr ''development'' then DevelopmentMode else CertificationMode)"

definition profile_of :: "string \<Rightarrow> SecurityProfile option" where
  "profile_of s =
     (if s = ''fapi1-advanced'' then Some Fapi1Advanced else if s = ''fapi2'' then Some Fapi2
      else if s = ''all'' then Some ProfileAll else None)"

section \<open>Drafts\<close>

definition create_draft :: "string \<Rightarrow> datetime \<Rightarrow> BuilderDraft" where
  "create_draft new_id now =
     \<lparr>bd_draft_id = new_id, bd_scheme = None, bd_specification = None, bd_version = None,
      bd_security_profile = Fapi1Advanced, bd_resource_group_ids = [], bd_endpoint_ids = [],
      bd_endpoint_capability_ids = [], bd_config = [], bd_security_environment = [], bd_business_test_data = [],
      bd_dynamic_client_registration = [], bd_metadata = [], bd_execution_mode = CertificationMode,
      bd_discovery_metadata = [], bd_created_at = utc_timestamp now, bd_updated_at = utc_timestamp now\<rparr>"

definition from_session_object :: "json \<Rightarrow> BuilderDraft option" where
  "from_session_object raw_value =
     (case raw_value of
        JObj raw \<Rightarrow>
          (case (jget raw ''draftId'', jget raw ''securityProfile'', jget raw ''createdAt'', jget raw ''updatedAt'') of
             (JStr draft_id, JStr security_profile, JStr created_at, JStr updated_at) \<Rightarrow>
               (case profile_of security_profile of
                  None \<Rightarrow> None
                | Some profile \<Rightarrow>
                    Some \<lparr>bd_draft_id = draft_id,
                      bd_scheme = optional_string (jget raw ''scheme''),
                      bd_specification = optional_string (jget raw ''specification''),
                      bd_version = optional_string (jget raw ''version''),
                      bd_security_profile = profile,
                      bd_resource_group_ids = string_tuple (jget raw ''resourceGroupIds''),
                      bd_endpoint_ids = string_tuple (jget raw ''endpointIds''),
                      bd_endpoint_capability_ids = string_tuple_mapping (jget raw ''endpointCapabilityIds''),
                      bd_config = config_object (jget raw ''config''),
                      bd_security_environment = draft_json_object (jget raw ''securityEnvironment''),
                      bd_business_test_data = draft_json_object (jget raw ''businessTestData''),
                      bd_dynamic_client_registration = draft_json_object (jget raw ''dynamicClientRegistration''),
                      bd_metadata = draft_json_object (jget raw ''metadata''),
                      bd_execution_mode = execution_mode_of (jget raw ''executionMode''),
                      bd_discovery_metadata = draft_json_object (jget raw ''discoveryMetadata''),
                      bd_created_at = created_at,
                      bd_updated_at = updated_at\<rparr>)
           | _ \<Rightarrow> None)
      | _ \<Rightarrow> None)"

definition with_catalogue_boundary ::
  "BuilderDraft \<Rightarrow> string \<Rightarrow> string \<Rightarrow> string \<Rightarrow> datetime \<Rightarrow> registry_error + BuilderDraft" where
  "with_catalogue_boundary draft scheme specification version now =
     rbind (derived_security_profile_for_boundary scheme specification version) (\<lambda>security_profile.
       Inr (draft\<lparr>bd_scheme := Some scheme, bd_specification := Some specification, bd_version := Some version,
              bd_security_profile := security_profile, bd_updated_at := utc_timestamp now\<rparr>))"

text \<open>The capability mapping comes as the items of a mapping, which have distinct keys.\<close>

definition with_scope_selection ::
  "BuilderDraft \<Rightarrow> string list \<Rightarrow> string list \<Rightarrow> (string, string list) dict \<Rightarrow> datetime \<Rightarrow> BuilderDraft" where
  "with_scope_selection draft resource_group_ids endpoint_ids endpoint_capability_ids now =
     draft\<lparr>bd_resource_group_ids := resource_group_ids, bd_endpoint_ids := endpoint_ids,
       bd_endpoint_capability_ids := endpoint_capability_ids, bd_updated_at := utc_timestamp now\<rparr>"

definition with_config :: "BuilderDraft \<Rightarrow> json_object \<Rightarrow> datetime \<Rightarrow> BuilderDraft" where
  "with_config draft config now =
     draft\<lparr>bd_config := config_object (JObj config), bd_updated_at := utc_timestamp now\<rparr>"

definition with_plan_context ::
  "BuilderDraft \<Rightarrow> json_object \<Rightarrow> json_object \<Rightarrow> json_object \<Rightarrow> PlanExecutionMode \<Rightarrow> json_object option \<Rightarrow> datetime \<Rightarrow> BuilderDraft" where
  "with_plan_context draft security_environment business_test_data metadata execution_mode dynamic_client_registration now =
     draft\<lparr>bd_security_environment := draft_json_object (JObj security_environment),
       bd_business_test_data := draft_json_object (JObj business_test_data),
       bd_dynamic_client_registration :=
         (case dynamic_client_registration of
            None \<Rightarrow> bd_dynamic_client_registration draft
          | Some dcr \<Rightarrow> draft_json_object (JObj dcr)),
       bd_metadata := draft_json_object (JObj metadata),
       bd_execution_mode := execution_mode,
       bd_updated_at := utc_timestamp now\<rparr>"

definition with_discovery_metadata :: "BuilderDraft \<Rightarrow> json_object \<Rightarrow> datetime \<Rightarrow> BuilderDraft" where
  "with_discovery_metadata draft discovery_metadata now =
     draft\<lparr>bd_discovery_metadata := draft_json_object (JObj discovery_metadata), bd_updated_at := utc_timestamp now\<rparr>"

definition opt_json :: "string option \<Rightarrow> json" where
  "opt_json v = (case v of None \<Rightarrow> JNull | Some s \<Rightarrow> JStr s)"

definition to_session_object :: "BuilderDraft \<Rightarrow> json" where
  "to_session_object d = JObj
     [(''draftId'', JStr (bd_draft_id d)),
      (''scheme'', opt_json (bd_scheme d)),
      (''specification'', opt_json (bd_specification d)),
      (''version'', opt_json (bd_version d)),
      (''securityProfile'', JStr (profile_name (bd_security_profile d))),
      (''resourceGroupIds'', JArr (map JStr (bd_resource_group_ids d))),
      (''endpointIds'', JArr (map JStr (bd_endpoint_ids d))),
      (''endpointCapabilityIds'', JObj (map (\<lambda>(k, ids). (k, JArr (map JStr ids))) (bd_endpoint_capability_ids d))),
      (''config'', JObj (config_object (JObj (bd_config d)))),
      (''securityEnvironment'', JObj (draft_json_object (JObj (bd_security_environment d)))),
      (''businessTestData'', JObj (draft_json_object (JObj (bd_business_test_data d)))),
      (''dynamicClientRegistration'', JObj (draft_json_object (JObj (bd_dynamic_client_registration d)))),
      (''metadata'', JObj (draft_json_object (JObj (bd_metadata d)))),
      (''executionMode'', JStr (mode_name (bd_execution_mode d))),
      (''discoveryMetadata'', JObj (draft_json_object (JObj (bd_discovery_metadata d)))),
      (''createdAt'', JStr (bd_created_at d)),
      (''updatedAt'', JStr (bd_updated_at d))]"

section \<open>The store\<close>

fun load_drafts :: "json_object \<Rightarrow> (string, BuilderDraft) dict \<Rightarrow> (string, BuilderDraft) dict" where
  "load_drafts [] drafts = drafts"
| "load_drafts ((draft_id, raw_draft) # rest) drafts =
     (case from_session_object raw_draft of
        Some draft \<Rightarrow>
          if bd_draft_id draft = draft_id then load_drafts rest (AList.update draft_id draft drafts)
          else load_drafts rest drafts
      | None \<Rightarrow> load_drafts rest drafts)"

definition store_drafts :: "json \<Rightarrow> (string, BuilderDraft) dict" where
  "store_drafts session =
     (case session of
        JObj raw_state \<Rightarrow> (case jget raw_state ''drafts'' of JObj raw_drafts \<Rightarrow> load_drafts raw_drafts [] | _ \<Rightarrow> [])
      | _ \<Rightarrow> [])"

text \<open>\<open>sorted(..., reverse=True)\<close> keeps the order of equal elements.\<close>

definition sorted_reverse :: "('a \<Rightarrow> 'k::linorder) \<Rightarrow> 'a list \<Rightarrow> 'a list" where
  "sorted_reverse f xs = rev (sort_key f (rev xs))"

definition store_save :: "BuilderDraft \<Rightarrow> json \<Rightarrow> json" where
  "store_save draft session =
     (let drafts = AList.update (bd_draft_id draft) draft (store_drafts session);
          sorted_drafts = sorted_reverse bd_updated_at (map snd drafts);
          limited_drafts = take MAX_SESSION_DRAFTS sorted_drafts
      in JObj [(''drafts'',
           JObj (fold (\<lambda>d obj. AList.update (bd_draft_id d) (to_session_object d) obj) limited_drafts []))])"

definition store_get :: "string \<Rightarrow> json \<Rightarrow> BuilderDraft option" where
  "store_get draft_id session = map_of (store_drafts session) draft_id"

definition store_create :: "string \<Rightarrow> datetime \<Rightarrow> json \<Rightarrow> BuilderDraft \<times> json" where
  "store_create new_id now session = (let draft = create_draft new_id now in (draft, store_save draft session))"

section \<open>Session round trip\<close>

definition draft_ok :: "BuilderDraft \<Rightarrow> bool" where
  "draft_ok d =
     (bd_scheme d \<noteq> Some [] \<and> bd_specification d \<noteq> Some [] \<and> bd_version d \<noteq> Some []
      \<and> dict_wf (bd_endpoint_capability_ids d) \<and> ''environment'' \<notin> set (keys (bd_config d)))"

lemma is_json_value_True: "is_json_value v"
  by (induction v) (auto simp: list_all_iff)

lemma copy_json_value_id: "copy_json_value v = v"
  by (induction v) (auto intro: map_idI)

lemma draft_json_object_id [simp]: "draft_json_object (JObj kvs) = kvs"
  by (simp add: draft_json_object_def is_json_value_True copy_json_value_id case_prod_unfold concat_map_singleton)

lemma config_object_id: "''environment'' \<notin> set (keys kvs) \<Longrightarrow> config_object (JObj kvs) = kvs"
  by (simp add: config_object_def AList.delete_eq) (force intro!: filter_True)

lemma string_tuple_list [simp]: "string_tuple (JArr (map JStr xs)) = xs"
  by (auto simp: string_tuple_def list_all_iff o_def)

lemma decode_tuple_mapping_list:
  "dict_wf (acc @ d) \<Longrightarrow> decode_tuple_mapping (map (\<lambda>(k, ids). (k, JArr (map JStr ids))) d) acc = acc @ d"
proof (induction d arbitrary: acc)
  case (Cons kv d)
  then have "AList.update (fst kv) (snd kv) acc = acc @ [kv]" using keys_update_new [of "fst kv" acc "snd kv"] by auto
  then show ?case using Cons.IH [of "acc @ [kv]"] Cons.prems by (cases kv) simp
qed simp

lemma optional_string_opt: "v \<noteq> Some [] \<Longrightarrow> optional_string (opt_json v) = v"
  by (cases v) (simp_all add: optional_string_def opt_json_def)

lemma profile_of_name: "profile_of (profile_name p) = Some p"
  by (cases p) (simp_all add: profile_of_def)

lemma mode_of_name: "execution_mode_of (JStr (mode_name m)) = m"
  by (cases m) (simp_all add: execution_mode_of_def)

lemma session_roundtrip: "draft_ok d \<Longrightarrow> from_session_object (to_session_object d) = Some d"
  unfolding draft_ok_def from_session_object_def to_session_object_def
  using decode_tuple_mapping_list [of "[]" "bd_endpoint_capability_ids d"]
  by (simp add: optional_string_opt profile_of_name mode_of_name config_object_id string_tuple_mapping_def)

lemma decode_tuple_mapping_wf: "dict_wf acc \<Longrightarrow> dict_wf (decode_tuple_mapping kvs acc)"
proof (induction kvs arbitrary: acc)
  case (Cons kv kvs)
  then show ?case using Cons.IH [OF alist.wf_update [OF Cons.prems]] by (cases kv) (simp add: Let_def)
qed simp

lemma reader_ok:
  "optional_string v \<noteq> Some []" "dict_wf (string_tuple_mapping v)" "''environment'' \<notin> fst ` set (config_object v)"
  by (auto simp: optional_string_def string_tuple_mapping_def config_object_def AList.delete_eq decode_tuple_mapping_wf
      split: json.splits)

lemma decoded_draft_ok:
  assumes "from_session_object raw = Some d"
  shows "draft_ok d"
proof -
  obtain kvs where kvs: "raw = JObj kvs" using assms by (cases raw) (simp_all add: from_session_object_def)
  obtain a where a: "jget kvs ''draftId'' = JStr a"
    using assms kvs by (cases "jget kvs ''draftId''") (simp_all add: from_session_object_def)
  obtain p where p: "jget kvs ''securityProfile'' = JStr p"
    using assms kvs a by (cases "jget kvs ''securityProfile''") (simp_all add: from_session_object_def)
  obtain c where c: "jget kvs ''createdAt'' = JStr c"
    using assms kvs a p by (cases "jget kvs ''createdAt''") (simp_all add: from_session_object_def)
  obtain u where u: "jget kvs ''updatedAt'' = JStr u"
    using assms kvs a p c by (cases "jget kvs ''updatedAt''") (simp_all add: from_session_object_def)
  show ?thesis
  proof (cases "profile_of p")
    case (Some q)
    then have "bd_scheme d = optional_string (jget kvs ''scheme'')"
      "bd_specification d = optional_string (jget kvs ''specification'')"
      "bd_version d = optional_string (jget kvs ''version'')"
      "bd_endpoint_capability_ids d = string_tuple_mapping (jget kvs ''endpointCapabilityIds'')"
      "bd_config d = config_object (jget kvs ''config'')"
      using assms kvs a p c u by (simp_all add: from_session_object_def) auto
    then show ?thesis by (simp add: draft_ok_def reader_ok)
  qed (use assms kvs a p c u in \<open>simp add: from_session_object_def\<close>)
qed

section \<open>The store as a bounded map\<close>

definition store_wf :: "(string, BuilderDraft) dict \<Rightarrow> bool" where
  "store_wf drafts = (dict_wf drafts \<and> (\<forall>(k, d) \<in> set drafts. bd_draft_id d = k \<and> draft_ok d))"

lemma drafts_wf_update: "store_wf drafts \<Longrightarrow> draft_ok d \<Longrightarrow> store_wf (AList.update (bd_draft_id d) d drafts)"
  using set_update_subset [of "bd_draft_id d" d drafts] by (auto simp: store_wf_def alist.wf_update)

lemma load_drafts_wf: "store_wf acc \<Longrightarrow> store_wf (load_drafts kvs acc)"
proof (induction kvs arbitrary: acc)
  case (Cons kv kvs)
  then show ?case using drafts_wf_update [OF Cons.prems decoded_draft_ok]
    by (cases kv) (auto split: option.splits)
qed simp

lemma store_drafts_wf: "store_wf (store_drafts session)"
  by (auto simp: store_drafts_def store_wf_def [of "[]"] intro!: load_drafts_wf split: json.splits)

definition keyed :: "BuilderDraft list \<Rightarrow> (string, BuilderDraft) dict" where
  "keyed ds = map (\<lambda>d. (bd_draft_id d, d)) ds"

lemma keys_keyed [simp]: "keys (keyed ds) = map bd_draft_id ds"
  by (simp add: keyed_def)

lemma store_wf_keyed: "store_wf drafts \<Longrightarrow> keyed (map snd drafts) = drafts \<and> distinct (map bd_draft_id (map snd drafts))"
proof
  assume wf: "store_wf drafts"
  then show k: "keyed (map snd drafts) = drafts" by (auto simp: keyed_def store_wf_def intro!: map_idI)
  show "distinct (map bd_draft_id (map snd drafts))"
    using wf keys_keyed [of "map snd drafts"] unfolding k store_wf_def by (simp del: map_map)
qed

lemma save_object:
  "distinct (keys obj @ map bd_draft_id ds) \<Longrightarrow>
   fold (\<lambda>d obj. AList.update (bd_draft_id d) (to_session_object d) obj) ds obj
   = obj @ map (\<lambda>d. (bd_draft_id d, to_session_object d)) ds"
proof (induction ds arbitrary: obj)
  case (Cons d ds)
  then show ?case using Cons.IH [of "obj @ [(bd_draft_id d, to_session_object d)]"]
      keys_update_new [of "bd_draft_id d" obj "to_session_object d"] by simp
qed simp

lemma load_saved:
  "distinct (keys acc @ map bd_draft_id ds) \<Longrightarrow> (\<forall>d \<in> set ds. draft_ok d) \<Longrightarrow>
   load_drafts (map (\<lambda>d. (bd_draft_id d, to_session_object d)) ds) acc = acc @ keyed ds"
proof (induction ds arbitrary: acc)
  case (Cons d ds)
  then show ?case using Cons.IH [of "acc @ [(bd_draft_id d, d)]"] keys_update_new [of "bd_draft_id d" acc d]
    by (simp add: session_roundtrip keyed_def)
qed (simp add: keyed_def)

definition after_save :: "BuilderDraft \<Rightarrow> json \<Rightarrow> BuilderDraft list" where
  "after_save draft session =
     sorted_reverse bd_updated_at (map snd (AList.update (bd_draft_id draft) draft (store_drafts session)))"

lemma set_sorted_reverse [simp]: "set (sorted_reverse f xs) = set xs"
  by (simp add: sorted_reverse_def)

lemma mset_sorted_reverse: "mset (sorted_reverse f xs) = mset xs"
  by (simp add: sorted_reverse_def)

lemma after_save_props:
  assumes "draft_ok d"
  shows "distinct (map bd_draft_id (after_save d s))" and "\<forall>e \<in> set (after_save d s). draft_ok e"
    and "map_of (keyed (after_save d s)) = (map_of (store_drafts s))(bd_draft_id d \<mapsto> d)"
proof -
  let ?drafts = "AList.update (bd_draft_id d) d (store_drafts s)"
  have wf: "store_wf ?drafts" by (rule drafts_wf_update [OF store_drafts_wf assms])
  have perm: "mset (map bd_draft_id (after_save d s)) = mset (map bd_draft_id (map snd ?drafts))"
    by (simp only: after_save_def mset_map mset_sorted_reverse)
  show dist: "distinct (map bd_draft_id (after_save d s))"
    using store_wf_keyed [OF wf] mset_eq_imp_distinct_iff [OF perm] by blast
  show "\<forall>e \<in> set (after_save d s). draft_ok e" using wf by (auto simp: after_save_def store_wf_def)
  have "set (keyed (after_save d s)) = set (keyed (map snd ?drafts))" by (simp add: keyed_def after_save_def image_image)
  then have "map_of (keyed (after_save d s)) = map_of (keyed (map snd ?drafts))"
    using dist store_wf_keyed [OF wf] map_of_inject_set [of "keyed (after_save d s)" "keyed (map snd ?drafts)"]
      wf unfolding store_wf_def by (simp del: map_map)
  then show "map_of (keyed (after_save d s)) = (map_of (store_drafts s))(bd_draft_id d \<mapsto> d)"
    using store_wf_keyed [OF wf] by (simp add: update_conv')
qed

lemma store_drafts_save:
  assumes "draft_ok d"
  shows "store_drafts (store_save d s) = keyed (take MAX_SESSION_DRAFTS (after_save d s))"
proof -
  let ?ds = "take MAX_SESSION_DRAFTS (after_save d s)"
  have dist: "distinct (map bd_draft_id ?ds)"
    using after_save_props(1) [OF assms, of s] by (simp add: take_map [symmetric])
  have ok: "\<forall>e \<in> set ?ds. draft_ok e" using after_save_props(2) [OF assms, of s] by (auto dest: in_set_takeD)
  show ?thesis
    using save_object [of "[]" ?ds] load_saved [of "[]" ?ds] dist ok
    by (simp add: store_save_def store_drafts_def after_save_def Let_def)
qed

text \<open>The abstract operation: a finite map from identifiers to drafts loses all but the latest entries.\<close>

definition keeps_latest :: "nat \<Rightarrow> (string \<rightharpoonup> BuilderDraft) \<Rightarrow> (string \<rightharpoonup> BuilderDraft) \<Rightarrow> bool" where
  "keeps_latest n m m' =
     (m' \<subseteq>\<^sub>m m \<and> card (dom m') = min n (card (dom m)) \<and>
      (\<forall>k d j e. m' k = Some d \<longrightarrow> m j = Some e \<longrightarrow> m' j = None \<longrightarrow> bd_updated_at e \<le> bd_updated_at d))"

lemma card_keyed: "distinct (map bd_draft_id ds) \<Longrightarrow> card (dom (map_of (keyed ds))) = length ds"
  using distinct_card [of "map bd_draft_id ds"] by (simp add: dom_map_of_conv_image_fst keyed_def image_image)

lemma sorted_reverse_order:
  "x \<in> set (take n (sorted_reverse f xs)) \<Longrightarrow> y \<in> set (drop n (sorted_reverse f xs)) \<Longrightarrow> f y \<le> f x"
proof -
  assume x: "x \<in> set (take n (sorted_reverse f xs))" and y: "y \<in> set (drop n (sorted_reverse f xs))"
  have "sorted (map f (rev (sorted_reverse f xs)))" by (simp add: sorted_reverse_def)
  then have "sorted (map f (rev (take n (sorted_reverse f xs) @ drop n (sorted_reverse f xs))))" by simp
  then have "sorted (map f (rev (drop n (sorted_reverse f xs))) @ map f (rev (take n (sorted_reverse f xs))))"
    by (simp only: rev_append map_append)
  then show "f y \<le> f x" using x y by (auto simp: sorted_append)
qed

lemma keyed_take_latest:
  assumes "distinct (map bd_draft_id ds)" and "ds = sorted_reverse bd_updated_at xs"
  shows "keeps_latest n (map_of (keyed ds)) (map_of (keyed (take n ds)))"
proof -
  have split: "map_of (keyed ds) = map_of (keyed (drop n ds)) ++ map_of (keyed (take n ds))"
    unfolding map_of_append [symmetric] keyed_def map_append [symmetric] by simp
  have "distinct (map bd_draft_id (take n ds))" using assms(1) by (simp add: take_map [symmetric])
  then have card: "card (dom (map_of (keyed (take n ds)))) = min n (card (dom (map_of (keyed ds))))"
    using card_keyed [OF assms(1)] card_keyed [of "take n ds"] by simp
  have order: "bd_updated_at e \<le> bd_updated_at d"
    if "map_of (keyed (take n ds)) k = Some d" "map_of (keyed ds) j = Some e" "map_of (keyed (take n ds)) j = None" for k d j e
  proof -
    have "d \<in> set (take n ds)" using map_of_SomeD [OF that(1)] by (auto simp: keyed_def)
    moreover have "map_of (keyed (drop n ds)) j = Some e" using that(2,3) unfolding split by (simp add: map_add_def)
    then have "e \<in> set (drop n ds)" using map_of_SomeD [of "keyed (drop n ds)" j e] by (auto simp: keyed_def)
    ultimately show ?thesis using sorted_reverse_order unfolding assms(2) by metis
  qed
  show ?thesis unfolding keeps_latest_def using map_le_map_add [of "map_of (keyed (take n ds))"] split card order by metis
qed

lemma save_keeps_latest:
  assumes "draft_ok d"
  shows "keeps_latest MAX_SESSION_DRAFTS ((\<lambda>k. store_get k s)(bd_draft_id d \<mapsto> d)) (\<lambda>k. store_get k (store_save d s))"
proof -
  have "keeps_latest MAX_SESSION_DRAFTS (map_of (keyed (after_save d s))) (map_of (keyed (take MAX_SESSION_DRAFTS (after_save d s))))"
    using after_save_props(1) [OF assms] by (rule keyed_take_latest) (simp add: after_save_def)
  then show ?thesis
    by (simp add: after_save_props(3) [OF assms] store_get_def store_drafts_save [OF assms] fun_upd_def)
qed

lemma keeps_latest_newest:
  assumes "keeps_latest n m m'" and "0 < n" and "finite (dom m)" and "m k = Some d"
    and newest: "\<And>j e. m j = Some e \<Longrightarrow> j \<noteq> k \<Longrightarrow> bd_updated_at e < bd_updated_at d"
  shows "m' k = Some d"
proof (rule ccontr)
  assume no: "m' k \<noteq> Some d"
  then have none: "m' k = None" using assms(1,4) unfolding keeps_latest_def map_le_def by (metis domI domIff)
  have "card (dom m) \<noteq> 0" using assms(3,4) by auto
  then have "card (dom m') \<noteq> 0" using assms(1,2) unfolding keeps_latest_def by simp
  then obtain j where "j \<in> dom m'" by (metis card.empty equals0I)
  then obtain e where e: "m' j = Some e" by blast
  then have "m j = Some e" using assms(1) unfolding keeps_latest_def map_le_def by (metis domI)
  moreover have "j \<noteq> k" using e none by auto
  moreover have "bd_updated_at d \<le> bd_updated_at e" using assms(1,4) none e unfolding keeps_latest_def by blast
  ultimately show False using newest by fastforce
qed

section \<open>Timestamps\<close>

definition valid_datetime :: "datetime \<Rightarrow> bool" where
  "valid_datetime t =
     (case t of (y, mo, d, h, mi, s, us) \<Rightarrow>
        y < 10000 \<and> mo < 100 \<and> d < 100 \<and> h < 100 \<and> mi < 100 \<and> s < 100 \<and> us < 1000000)"

lemma less_prefix:
  fixes a a' :: string
  shows "length a = length a' \<Longrightarrow> a @ b < a' @ b' \<longleftrightarrow> a < a' \<or> a = a' \<and> b < b'"
  by (induction a a' rule: list_induct2) auto

lemma digit_char_less: "i < 10 \<Longrightarrow> j < 10 \<Longrightarrow> digit_char i < digit_char j \<longleftrightarrow> i < j"
  by (simp add: digit_char_def less_char_def code_of_def)

fun digits :: "nat \<Rightarrow> nat \<Rightarrow> string" where
  "digits 0 n = []"
| "digits (Suc w) n = digits w (n div 10) @ [digit_char (n mod 10)]"

lemma length_digits [simp]: "length (digits w n) = w"
  by (induction w arbitrary: n) auto

lemma digits_zero: "digits w 0 = replicate w (digit_char 0)"
  by (induction w) (simp_all add: replicate_append_same)

lemma digit_split_less:
  fixes a b c d :: nat
  assumes "b < 10" "d < 10"
  shows "10 * a + b < 10 * c + d \<longleftrightarrow> a < c \<or> a = c \<and> b < d"
  using assms by (cases a c rule: linorder_cases) auto

lemma digits_less: "n < 10 ^ w \<Longrightarrow> m < 10 ^ w \<Longrightarrow> digits w n < digits w m \<longleftrightarrow> n < m"
proof (induction w arbitrary: n m)
  case (Suc w)
  have lt: "n div 10 < 10 ^ w" "m div 10 < 10 ^ w" using Suc.prems by auto
  have eq: "digits w (n div 10) = digits w (m div 10) \<longleftrightarrow> n div 10 = m div 10"
    using Suc.IH [OF lt] Suc.IH [OF lt(2,1)] by (metis less_irrefl linorder_neqE_nat)
  have last: "digit_char (n mod 10) < digit_char (m mod 10) \<longleftrightarrow> n mod 10 < m mod 10" by (rule digit_char_less) auto
  have "n < m \<longleftrightarrow> n div 10 < m div 10 \<or> n div 10 = m div 10 \<and> n mod 10 < m mod 10"
    using digit_split_less [of "n mod 10" "m mod 10" "n div 10" "m div 10"] by simp
  then show ?case by (simp add: less_prefix Suc.IH [OF lt] eq last)
qed simp

lemma digits_eq: "n < 10 ^ w \<Longrightarrow> m < 10 ^ w \<Longrightarrow> digits w n = digits w m \<longleftrightarrow> n = m"
  using digits_less [of n w m] digits_less [of m w n] by (metis less_irrefl linorder_neqE_nat)

lemma length_str_nat: "n < 10 ^ w \<Longrightarrow> 0 < w \<Longrightarrow> length (str_nat n) \<le> w"
proof (induction w arbitrary: n)
  case (Suc w)
  show ?case
  proof (cases "n < 10")
    case False
    then have "0 < w" using Suc.prems by (cases w) auto
    then show ?thesis using False Suc.IH [of "n div 10"] Suc.prems by (simp add: str_nat.simps [of n])
  qed (simp add: str_nat.simps [of n])
qed simp

lemma pad_digits: "n < 10 ^ w \<Longrightarrow> 0 < w \<Longrightarrow> pad w n = digits w n"
proof (induction w arbitrary: n)
  case (Suc w)
  have zero: "digit_char 0 = CHR ''0''" by code_simp
  show ?case
  proof (cases "n < 10")
    case True
    then show ?thesis by (simp add: pad_def str_nat.simps [of n] digits_zero zero)
  next
    case False
    then have "0 < w" using Suc.prems by (cases w) auto
    then have IH: "pad w (n div 10) = digits w (n div 10)" using Suc.IH [of "n div 10"] Suc.prems by simp
    have "length (str_nat (n div 10)) \<le> w" using length_str_nat [of "n div 10" w] \<open>0 < w\<close> Suc.prems by simp
    then show ?thesis using False IH by (simp add: pad_def str_nat.simps [of n] Let_def)
  qed
qed simp

lemma isoformat_digits:
  "valid_datetime (y, mo, d, h, mi, s, us) \<Longrightarrow> isoformat (y, mo, d, h, mi, s, us) =
     digits 4 y @ ''-'' @ digits 2 mo @ ''-'' @ digits 2 d @ ''T'' @ digits 2 h @ '':'' @ digits 2 mi @ '':'' @ digits 2 s @
     (if us = 0 then [] else ''.'' @ digits 6 us) @ ''+00:00''"
  by (simp add: isoformat_def valid_datetime_def pad_digits del: digits.simps)

lemma fraction_less:
  fixes us us' :: nat
  assumes "us < 1000000" "us' < 1000000"
  shows "(if us = 0 then [] else ''.'' @ digits 6 us) @ ''+00:00'' < (if us' = 0 then [] else ''.'' @ digits 6 us') @ ''+00:00''
         \<longleftrightarrow> us < us'"
  using assms digits_less [of us 6 us'] digits_eq [of us 6 us']
  by (cases "us = 0"; cases "us' = 0") (simp_all add: less_prefix less_char_def del: digits.simps)

lemma digits_cmp:
  "n < 100 \<Longrightarrow> m < 100 \<Longrightarrow> digits 2 n < digits 2 m \<longleftrightarrow> n < m"
  "n < 100 \<Longrightarrow> m < 100 \<Longrightarrow> digits 2 n = digits 2 m \<longleftrightarrow> n = m"
  "n < 10000 \<Longrightarrow> m < 10000 \<Longrightarrow> digits 4 n < digits 4 m \<longleftrightarrow> n < m"
  "n < 10000 \<Longrightarrow> m < 10000 \<Longrightarrow> digits 4 n = digits 4 m \<longleftrightarrow> n = m"
  using digits_less [of n 2 m] digits_eq [of n 2 m] digits_less [of n 4 m] digits_eq [of n 4 m] by simp_all

lemma isoformat_order:
  assumes "valid_datetime t" "valid_datetime t'"
  shows "isoformat t < isoformat t' \<longleftrightarrow> t < t'"
proof -
  obtain y mo d h mi s us where t: "t = (y, mo, d, h, mi, s, us)" by (metis prod.collapse)
  obtain y' mo' d' h' mi' s' us' where t': "t' = (y', mo', d', h', mi', s', us')" by (metis prod.collapse)
  have v: "y < 10000" "mo < 100" "d < 100" "h < 100" "mi < 100" "s < 100" "us < 1000000"
    "y' < 10000" "mo' < 100" "d' < 100" "h' < 100" "mi' < 100" "s' < 100" "us' < 1000000"
    using assms by (simp_all add: t t' valid_datetime_def)
  have "isoformat t < isoformat t' \<longleftrightarrow>
      y < y' \<or> y = y' \<and> (mo < mo' \<or> mo = mo' \<and> (d < d' \<or> d = d' \<and> (h < h' \<or> h = h' \<and> (mi < mi' \<or> mi = mi' \<and>
        (s < s' \<or> s = s' \<and> us < us')))))"
    unfolding t t' isoformat_digits [OF assms(1) [unfolded t]] isoformat_digits [OF assms(2) [unfolded t']]
    by (simp add: less_prefix digits_cmp v fraction_less [OF v(7,14), simplified] del: digits.simps)
  then show ?thesis by (auto simp: t t' less_prod_def)
qed

section \<open>Drafts of the wizard\<close>

text \<open>The drafts a wizard can hold: created blank, decoded from a session, or a copy with one more step saved.\<close>

inductive wizard_draft :: "BuilderDraft \<Rightarrow> bool" where
  created: "wizard_draft (create_draft new_id now)"
| decoded: "from_session_object raw = Some d \<Longrightarrow> wizard_draft d"
| boundary: "wizard_draft d \<Longrightarrow> with_catalogue_boundary d scheme specification version now = Inr d' \<Longrightarrow> wizard_draft d'"
| scope: "wizard_draft d \<Longrightarrow> dict_wf capabilities \<Longrightarrow> wizard_draft (with_scope_selection d groups endpoints capabilities now)"
| config: "wizard_draft d \<Longrightarrow> wizard_draft (with_config d conf now)"
| plan_context: "wizard_draft d \<Longrightarrow> wizard_draft (with_plan_context d env data meta mode dcr now)"
| discovery: "wizard_draft d \<Longrightarrow> wizard_draft (with_discovery_metadata d meta now)"

lemma registry_names:
  "d \<in> set supported_specifications \<Longrightarrow> v \<in> set (sd_versions d) \<Longrightarrow>
   sd_scheme d \<noteq> [] \<and> sd_specification d \<noteq> [] \<and> sv_version v \<noteq> []"
  by (auto simp: supported_specifications_def registry_defs)

lemma boundary_names:
  assumes "derived_security_profile_for_boundary scheme specification version = Inr p"
  shows "scheme \<noteq> [] \<and> specification \<noteq> [] \<and> version \<noteq> []"
proof -
  obtain d v where "specification_for_boundary scheme specification version = Inr (d, v)"
    using assms by (auto simp: derived_security_profile_for_boundary_def security_profiles_for_boundary_def rbind_eq_Inr)
  then show ?thesis using registry_names unfolding boundary_resolution by blast
qed

lemma config_object_no_env: "''environment'' \<notin> set (keys (config_object v))"
  by (auto simp: config_object_def AList.delete_eq)

lemma wizard_draft_ok: "wizard_draft d \<Longrightarrow> draft_ok d"
proof (induction rule: wizard_draft.induct)
  case (created new_id now)
  show ?case by (simp add: draft_ok_def create_draft_def)
next
  case (decoded raw d)
  then show ?case by (rule decoded_draft_ok)
next
  case (boundary d scheme spec version now d2)
  then show ?case using boundary_names
    by (auto simp: with_catalogue_boundary_def rbind_eq_Inr draft_ok_def)
next
  case (config d conf now)
  then show ?case using config_object_no_env [of "JObj conf"] by (simp add: draft_ok_def with_config_def del: set_map)
qed (simp_all add: draft_ok_def with_scope_selection_def with_plan_context_def with_discovery_metadata_def)

section \<open>Properties\<close>

text \<open>Every draft the wizard can hold survives the browser session: decoding its session object gives the very
  draft that was encoded, however it was created and whichever steps were saved in whatever order.\<close>

lemma wizard_drafts_survive_the_session:
  assumes "wizard_draft d"
  shows "from_session_object (to_session_object d) = Some d"
  using session_roundtrip [OF wizard_draft_ok [OF assms]] .

theorem wizard_drafts_survive_the_session_witness:
  "from_session_object (to_session_object (with_config (create_draft ''id'' (2026, 1, 2, 3, 4, 5, 0))
     [(''environment'', JStr ''x''), (''a'', JNull)] (2026, 1, 2, 3, 4, 6, 7)))
   = Some (with_config (create_draft ''id'' (2026, 1, 2, 3, 4, 5, 0))
       [(''environment'', JStr ''x''), (''a'', JNull)] (2026, 1, 2, 3, 4, 6, 7))"
  by (rule wizard_drafts_survive_the_session) (rule wizard_draft.config [OF wizard_draft.created])

text \<open>C37: Saving a draft refines the update of a finite map that is then cut to its five latest entries: whatever the
  session held before, even malformed records, what the store reads back afterwards is a part of the old drafts with the
  saved one put in, five of them or all if there are fewer, and none that was dropped is newer than one that was kept. A
  draft newer than every other is always kept.\<close>

theorem save_refines_bounded_map:
  assumes "wizard_draft d"
  shows "keeps_latest MAX_SESSION_DRAFTS ((\<lambda>k. store_get k s)(bd_draft_id d \<mapsto> d)) (\<lambda>k. store_get k (store_save d s))
       \<and> ((\<forall>k e. store_get k s = Some e \<longrightarrow> k \<noteq> bd_draft_id d \<longrightarrow> bd_updated_at e < bd_updated_at d) \<longrightarrow>
          store_get (bd_draft_id d) (store_save d s) = Some d)"
proof (intro conjI impI)
  show kl: "keeps_latest MAX_SESSION_DRAFTS ((\<lambda>k. store_get k s)(bd_draft_id d \<mapsto> d)) (\<lambda>k. store_get k (store_save d s))"
    by (rule save_keeps_latest [OF wizard_draft_ok [OF assms]])
  assume newest: "\<forall>k e. store_get k s = Some e \<longrightarrow> k \<noteq> bd_draft_id d \<longrightarrow> bd_updated_at e < bd_updated_at d"
  have "finite (dom ((\<lambda>k. store_get k s)(bd_draft_id d \<mapsto> d)))"
    unfolding store_get_def by (simp add: finite_dom_map_of)
  then show "store_get (bd_draft_id d) (store_save d s) = Some d"
    using newest by (intro keeps_latest_newest [OF kl, of "bd_draft_id d" d, simplified]) (auto simp: MAX_SESSION_DRAFTS_def)
qed

theorem save_refines_bounded_map_witness:
  "store_get ''a'' (store_save (create_draft ''a'' (2026, 1, 2, 3, 4, 5, 0)) JNull) = Some (create_draft ''a'' (2026, 1, 2, 3, 4, 5, 0))"
  using save_refines_bounded_map [OF wizard_draft.created [of "''a''" "(2026, 1, 2, 3, 4, 5, 0)"], of JNull]
  by (simp add: store_get_def store_drafts_def create_draft_def)

text \<open>The order the store sorts by is the order of time: comparing the timestamp texts of two moments character by
  character is comparing the moments, also when one of them has no fraction of a second in its text.\<close>

lemma timestamps_order_chronologically:
  assumes "valid_datetime t" and "valid_datetime t'"
  shows "(utc_timestamp t < utc_timestamp t' \<longleftrightarrow> t < t') \<and> (utc_timestamp t = utc_timestamp t' \<longleftrightarrow> t = t')"
  using isoformat_order [OF assms] isoformat_order [OF assms(2,1)]
  by (auto simp: utc_timestamp_def neq_iff)

theorem timestamps_order_chronologically_witness:
  "utc_timestamp (2026, 1, 2, 3, 4, 5, 0) < utc_timestamp (2026, 1, 2, 3, 4, 5, 1)"
  using timestamps_order_chronologically [of "(2026, 1, 2, 3, 4, 5, 0)" "(2026, 1, 2, 3, 4, 5, 1)"]
  by (simp add: valid_datetime_def)

end
