(* ===== verification/Run_Store.thy ===== *)
theory Run_Store
  imports Execution_Log
begin

text \<open>
  The run store (\<open>conformance/api/run_store.py\<close>): the records of the runs of this process, at
  most one of them active. Every method holds the store's lock, so a method is one function of
  the store. The clock (\<open>now\<close>), the identifier \<open>uuid4\<close> returns (\<open>run_id\<close>) and the process
  environment (\<open>environ\<close>, read by the new run's logger) are arguments. A snapshot of the source
  (\<open>dataclasses.replace\<close>) is the record itself, because a model value cannot be mutated.
\<close>

datatype RunStatus = Pending | Running | Completed | Failed

datatype ParticipantActionStatus = ActionPending | ActionCompleted

record ParticipantAction =
  pt_step_id :: string
  pt_url :: string
  pt_status :: ParticipantActionStatus
  pt_created_at :: datetime
  pt_completed_at :: "datetime option"

record RunPlanStep =
  rp_step_id :: string
  rp_name :: string
  rp_kind :: string
  rp_group :: "string option"
  rp_phase :: "string option"
  rp_mandatory :: bool
  rp_optional :: bool
  rp_order :: nat

record RunRecord =
  rr_run_id :: string
  rr_status :: RunStatus
  rr_created_at :: datetime
  rr_started_at :: "datetime option"
  rr_finished_at :: "datetime option"
  rr_result :: "json_object option"
  rr_error :: "string option"
  rr_participant_actions :: "(string, ParticipantAction) dict"
  rr_participant_action :: "ParticipantAction option"
  rr_execution_logger :: "BufferedExecutionLogger option"
  rr_planned_steps :: "RunPlanStep list"
  rr_plan_snapshot :: "json_object option"
  rr_validation_result :: "json_object option"

record RunStore =
  st_runs :: "(string, RunRecord) dict"
  st_active_run_id :: "string option"

datatype RunConflictError = RunConflictError string

datatype run_key_error = RunKeyError string

definition MAX_TERMINAL_RECORDS :: nat where
  "MAX_TERMINAL_RECORDS = 10"

fun terminal :: "RunStatus \<Rightarrow> bool" where
  "terminal Completed = True"
| "terminal Failed = True"
| "terminal _ = False"

fun status_name :: "RunStatus \<Rightarrow> string" where
  "status_name Pending = ''pending''"
| "status_name Running = ''running''"
| "status_name Completed = ''completed''"
| "status_name Failed = ''failed''"

definition to_status_json :: "RunRecord \<Rightarrow> json_object" where
  "to_status_json r =
     [(''id'', JStr (rr_run_id r)), (''status'', JStr (status_name (rr_status r))),
      (''createdAt'', JStr (isoformat (rr_created_at r)))]
     @ (case rr_started_at r of None \<Rightarrow> [] | Some t \<Rightarrow> [(''startedAt'', JStr (isoformat t))])
     @ (case rr_finished_at r of None \<Rightarrow> [] | Some t \<Rightarrow> [(''finishedAt'', JStr (isoformat t))])
     @ (case rr_error r of None \<Rightarrow> [] | Some e \<Rightarrow> [(''error'', JStr e)])"

definition init_store :: RunStore where
  "init_store = \<lparr>st_runs = [], st_active_run_id = None\<rparr>"

section \<open>Participant actions\<close>

definition first_pending_action :: "RunRecord \<Rightarrow> ParticipantAction option" where
  "first_pending_action r =
     (let pending_actions = filter (\<lambda>a. pt_status a = ActionPending) (map snd (rr_participant_actions r))
      in if pending_actions = [] then None
         else Some (arg_min_list (\<lambda>a. (pt_created_at a, pt_step_id a)) pending_actions))"

definition sync_legacy_participant_action :: "RunRecord \<Rightarrow> RunRecord" where
  "sync_legacy_participant_action r = r\<lparr>rr_participant_action := first_pending_action r\<rparr>"

section \<open>Operations\<close>

definition finished_key :: "RunRecord \<Rightarrow> datetime" where
  "finished_key r = (case rr_finished_at r of None \<Rightarrow> datetime_min | Some t \<Rightarrow> t)"

definition prune_terminal_records :: "RunStore \<Rightarrow> RunStore" where
  "prune_terminal_records s =
     (let terminal_ids = map fst (filter (\<lambda>(_, r). terminal (rr_status r)) (st_runs s))
      in if length terminal_ids \<le> MAX_TERMINAL_RECORDS then s
         else let sorted_ids = sort_key (\<lambda>i. finished_key (the (map_of (st_runs s) i))) terminal_ids;
                  evict_count = length terminal_ids - MAX_TERMINAL_RECORDS
              in s\<lparr>st_runs := fold AList.delete (take evict_count sorted_ids) (st_runs s)\<rparr>)"

definition create_run ::
  "datetime \<Rightarrow> string \<Rightarrow> (string, string) dict \<Rightarrow> RunPlanStep list \<Rightarrow> json_object option \<Rightarrow>
   json_object option \<Rightarrow> RunStore \<Rightarrow> RunConflictError + RunRecord \<times> RunStore" where
  "create_run now run_id environ planned_steps plan_snapshot validation_result s =
     (case st_active_run_id s of
        Some active \<Rightarrow> Inl (RunConflictError active)
      | None \<Rightarrow>
          let record = \<lparr>rr_run_id = run_id, rr_status = Pending, rr_created_at = now,
                        rr_started_at = None, rr_finished_at = None, rr_result = None,
                        rr_error = None, rr_participant_actions = [], rr_participant_action = None,
                        rr_execution_logger = Some (new_logger environ run_id None),
                        rr_planned_steps = planned_steps, rr_plan_snapshot = plan_snapshot,
                        rr_validation_result = validation_result\<rparr>
          in Inr (record, prune_terminal_records
                    (s\<lparr>st_runs := AList.update run_id record (st_runs s),
                       st_active_run_id := Some run_id\<rparr>)))"

definition snapshot_record :: "RunRecord \<Rightarrow> RunRecord" where
  "snapshot_record r = r\<lparr>rr_participant_action := first_pending_action r\<rparr>"

definition get_run :: "string \<Rightarrow> RunStore \<Rightarrow> RunRecord option" where
  "get_run run_id s = map_option snapshot_record (map_of (st_runs s) run_id)"

definition get_participant_action :: "string \<Rightarrow> RunStore \<Rightarrow> ParticipantAction option" where
  "get_participant_action run_id s =
     (case map_of (st_runs s) run_id of None \<Rightarrow> None | Some r \<Rightarrow> first_pending_action r)"

definition get_participant_actions :: "string \<Rightarrow> RunStore \<Rightarrow> ParticipantAction list" where
  "get_participant_actions run_id s =
     (case map_of (st_runs s) run_id of
        None \<Rightarrow> []
      | Some r \<Rightarrow> sort_key (\<lambda>a. (pt_created_at a, pt_step_id a)) (map snd (rr_participant_actions r)))"

definition set_participant_action ::
  "datetime \<Rightarrow> string \<Rightarrow> string \<Rightarrow> string \<Rightarrow> RunStore \<Rightarrow> run_key_error + RunStore" where
  "set_participant_action now run_id step_id url s =
     (case map_of (st_runs s) run_id of
        None \<Rightarrow> Inl (RunKeyError run_id)
      | Some r \<Rightarrow>
          let action = \<lparr>pt_step_id = step_id, pt_url = url, pt_status = ActionPending,
                        pt_created_at = now, pt_completed_at = None\<rparr>;
              r' = sync_legacy_participant_action
                     (r\<lparr>rr_participant_actions := AList.update step_id action (rr_participant_actions r)\<rparr>)
          in Inr (s\<lparr>st_runs := AList.update run_id r' (st_runs s)\<rparr>))"

definition clear_participant_action :: "datetime \<Rightarrow> string \<Rightarrow> string option \<Rightarrow> RunStore \<Rightarrow> RunStore" where
  "clear_participant_action now run_id step_id s =
     (case map_of (st_runs s) run_id of
        None \<Rightarrow> s
      | Some r \<Rightarrow>
          (case step_id of
             None \<Rightarrow>
               s\<lparr>st_runs := AList.update run_id
                    (r\<lparr>rr_participant_actions := [], rr_participant_action := None\<rparr>) (st_runs s)\<rparr>
           | Some sid \<Rightarrow>
               (case map_of (rr_participant_actions r) sid of
                  None \<Rightarrow> s
                | Some action \<Rightarrow>
                    let action' = action\<lparr>pt_status := ActionCompleted, pt_completed_at := Some now\<rparr>;
                        r' = sync_legacy_participant_action
                               (r\<lparr>rr_participant_actions :=
                                    AList.update sid action' (rr_participant_actions r)\<rparr>)
                    in s\<lparr>st_runs := AList.update run_id r' (st_runs s)\<rparr>)))"

definition get_run_log_bytes :: "string \<Rightarrow> RunStore \<Rightarrow> string option" where
  "get_run_log_bytes run_id s =
     (case map_of (st_runs s) run_id of
        None \<Rightarrow> None
      | Some r \<Rightarrow> map_option to_ndjson (rr_execution_logger r))"

definition mark_running :: "datetime \<Rightarrow> string \<Rightarrow> RunStore \<Rightarrow> RunStore" where
  "mark_running now run_id s =
     (case map_of (st_runs s) run_id of
        None \<Rightarrow> s
      | Some r \<Rightarrow>
          s\<lparr>st_runs := AList.update run_id (r\<lparr>rr_status := Running, rr_started_at := Some now\<rparr>) (st_runs s)\<rparr>)"

definition mark_completed :: "datetime \<Rightarrow> string \<Rightarrow> json_object \<Rightarrow> RunStore \<Rightarrow> RunStore" where
  "mark_completed now run_id result s =
     (case map_of (st_runs s) run_id of
        None \<Rightarrow> s
      | Some r \<Rightarrow>
          s\<lparr>st_runs := AList.update run_id
               (r\<lparr>rr_status := Completed, rr_finished_at := Some now, rr_result := Some result,
                  rr_participant_actions := [], rr_participant_action := None\<rparr>) (st_runs s),
            st_active_run_id := (if st_active_run_id s = Some run_id then None else st_active_run_id s)\<rparr>)"

definition mark_failed :: "datetime \<Rightarrow> string \<Rightarrow> string \<Rightarrow> RunStore \<Rightarrow> RunStore" where
  "mark_failed now run_id err s =
     (case map_of (st_runs s) run_id of
        None \<Rightarrow> s
      | Some r \<Rightarrow>
          s\<lparr>st_runs := AList.update run_id
               (r\<lparr>rr_status := Failed, rr_finished_at := Some now, rr_error := Some err,
                  rr_participant_actions := [], rr_participant_action := None\<rparr>) (st_runs s),
            st_active_run_id := (if st_active_run_id s = Some run_id then None else st_active_run_id s)\<rparr>)"

definition reset_store :: "RunStore \<Rightarrow> RunStore" where
  "reset_store s = s\<lparr>st_runs := [], st_active_run_id := None\<rparr>"

section \<open>Invariant\<close>

text \<open>
  What every method keeps on its own: keys are distinct and are the run ids, and the legacy
  alias is the oldest pending action.
\<close>

definition store_wf :: "RunStore \<Rightarrow> bool" where
  "store_wf s =
     (dict_wf (st_runs s) \<and>
      (\<forall>(k, r) \<in> set (st_runs s). rr_run_id r = k \<and> rr_participant_action r = first_pending_action r))"

text \<open>
  What the callers' order of calls keeps as well: a run that is pending or running is the
  active one, and the active one is pending or running.
\<close>

definition single_active :: "RunStore \<Rightarrow> bool" where
  "single_active s =
     ((\<forall>k r. map_of (st_runs s) k = Some r \<longrightarrow> \<not> terminal (rr_status r) \<longrightarrow> st_active_run_id s = Some k) \<and>
      (\<forall>k. st_active_run_id s = Some k \<longrightarrow>
         (\<exists>r. map_of (st_runs s) k = Some r \<and> \<not> terminal (rr_status r))))"

definition terminal_count :: "RunStore \<Rightarrow> nat" where
  "terminal_count s = length (filter (\<lambda>(_, r). terminal (rr_status r)) (st_runs s))"

lemma store_wf_update:
  assumes "store_wf s" "rr_run_id r = k" "rr_participant_action r = first_pending_action r"
  shows "store_wf (s\<lparr>st_runs := AList.update k r (st_runs s), st_active_run_id := a\<rparr>)"
    and "store_wf (s\<lparr>st_runs := AList.update k r (st_runs s)\<rparr>)"
  using assms
  by (auto simp: store_wf_def distinct_update dest!: set_mp [OF set_update_subset])

lemma store_wf_lookup:
  "store_wf s \<Longrightarrow> map_of (st_runs s) k = Some r \<Longrightarrow>
   rr_run_id r = k \<and> rr_participant_action r = first_pending_action r"
  by (fastforce simp: store_wf_def dest: map_of_SomeD)

lemma first_pending_frame [simp]:
  "first_pending_action (r\<lparr>rr_status := a\<rparr>) = first_pending_action r"
  "first_pending_action (r\<lparr>rr_started_at := b\<rparr>) = first_pending_action r"
  "first_pending_action (r\<lparr>rr_finished_at := b\<rparr>) = first_pending_action r"
  "first_pending_action (r\<lparr>rr_result := c\<rparr>) = first_pending_action r"
  "first_pending_action (r\<lparr>rr_error := d\<rparr>) = first_pending_action r"
  "first_pending_action (r\<lparr>rr_participant_action := e\<rparr>) = first_pending_action r"
  "first_pending_action (r\<lparr>rr_execution_logger := f\<rparr>) = first_pending_action r"
  by (simp_all add: first_pending_action_def)

lemma first_pending_empty: "rr_participant_actions r = [] \<Longrightarrow> first_pending_action r = None"
  by (simp add: first_pending_action_def)

lemma store_wf_delete: "store_wf s \<Longrightarrow> store_wf (s\<lparr>st_runs := fold AList.delete ks (st_runs s)\<rparr>)"
  by (auto simp: store_wf_def fold_delete_filter distinct_map_filter)

lemma prune_wf [inv_intros]: "store_wf s \<Longrightarrow> store_wf (prune_terminal_records s)"
  by (simp add: prune_terminal_records_def Let_def store_wf_delete)

lemma create_run_wf [inv_intros]:
  "create_run now i env ps sn vr s = Inr (r, s') \<Longrightarrow> store_wf s \<Longrightarrow> store_wf s'"
  by (auto simp: create_run_def Let_def first_pending_empty split: option.splits
      intro!: prune_wf store_wf_update(1))

lemma mark_running_wf [inv_intros]: "store_wf s \<Longrightarrow> store_wf (mark_running now i s)"
  by (auto simp: mark_running_def split: option.splits intro!: store_wf_update dest: store_wf_lookup)

lemma mark_completed_wf [inv_intros]: "store_wf s \<Longrightarrow> store_wf (mark_completed now i res s)"
  by (auto simp: mark_completed_def first_pending_empty split: option.splits
      intro!: store_wf_update dest: store_wf_lookup)

lemma mark_failed_wf [inv_intros]: "store_wf s \<Longrightarrow> store_wf (mark_failed now i e s)"
  by (auto simp: mark_failed_def first_pending_empty split: option.splits
      intro!: store_wf_update dest: store_wf_lookup)

lemma set_participant_action_wf [inv_intros]:
  "set_participant_action now i sid url s = Inr s' \<Longrightarrow> store_wf s \<Longrightarrow> store_wf s'"
  by (auto simp: set_participant_action_def Let_def sync_legacy_participant_action_def
      split: option.splits intro!: store_wf_update dest: store_wf_lookup)

lemma clear_participant_action_wf [inv_intros]:
  "store_wf s \<Longrightarrow> store_wf (clear_participant_action now i sid s)"
  by (auto simp: clear_participant_action_def Let_def sync_legacy_participant_action_def
      first_pending_empty split: option.splits intro!: store_wf_update dest: store_wf_lookup)

text \<open>
  An event of a run goes to the logger object its record refers to (\<open>record.execution_logger.emit\<close>);
  a run without a record or without a logger drops it. \<open>after_emit_to_run\<close> is the store after the call, whether
  the call returned or raised; only the event of an authorisation URL can raise (\<open>logger_emit_total\<close>).
\<close>

definition emit_to_run ::
  "string \<Rightarrow> string \<Rightarrow> EventType \<Rightarrow> string option \<Rightarrow> json_object option \<Rightarrow> RunStore \<Rightarrow> value_error + RunStore" where
  "emit_to_run now run_id ev sid payload s =
     (case map_of (st_runs s) run_id of
        None \<Rightarrow> Inr s
      | Some r \<Rightarrow>
          (case rr_execution_logger r of
             None \<Rightarrow> Inr s
           | Some lg \<Rightarrow>
               rbind (logger_emit now ev sid payload lg) (\<lambda>lg'.
                 Inr (s\<lparr>st_runs := AList.update run_id (r\<lparr>rr_execution_logger := Some lg'\<rparr>) (st_runs s)\<rparr>))))"

definition after_emit_to_run ::
  "string \<Rightarrow> string \<Rightarrow> EventType \<Rightarrow> string option \<Rightarrow> json_object option \<Rightarrow> RunStore \<Rightarrow> RunStore" where
  "after_emit_to_run now run_id ev sid payload s =
     (case emit_to_run now run_id ev sid payload s of Inl _ \<Rightarrow> s | Inr s' \<Rightarrow> s')"

lemma emit_to_run_total:
  assumes "ev \<noteq> PsuAuthorizationUrl"
  shows "\<exists>s'. emit_to_run now i ev sid p s = Inr s'"
proof -
  have "\<exists>s'. rbind (logger_emit now ev sid p lg) (\<lambda>lg'. Inr (f lg')) = (Inr s' :: value_error + RunStore)" for lg f
    using logger_emit_total [OF assms, of now sid p lg] by (auto simp: rbind_eq_Inr)
  then show ?thesis by (simp add: emit_to_run_def split: option.split)
qed

lemma after_emit_to_run_cases:
  obtains "after_emit_to_run now i ev sid p s = s"
  | r lg' where "map_of (st_runs s) i = Some r"
      "after_emit_to_run now i ev sid p s = s\<lparr>st_runs := AList.update i (r\<lparr>rr_execution_logger := Some lg'\<rparr>) (st_runs s)\<rparr>"
proof (cases "emit_to_run now i ev sid p s")
  case (Inl e)
  then show thesis by (intro that(1)) (simp add: after_emit_to_run_def)
next
  case (Inr s')
  then have "after_emit_to_run now i ev sid p s = s'" by (simp add: after_emit_to_run_def)
  moreover have "s' = s \<or> (\<exists>r lg'. map_of (st_runs s) i = Some r \<and>
      s' = s\<lparr>st_runs := AList.update i (r\<lparr>rr_execution_logger := Some lg'\<rparr>) (st_runs s)\<rparr>)"
    using Inr by (auto simp: emit_to_run_def rbind_eq_Inr split: option.splits)
  ultimately show thesis using that by metis
qed

lemma emit_to_run_wf [inv_intros]: "store_wf s \<Longrightarrow> store_wf (after_emit_to_run now i ev sid p s)"
  by (cases rule: after_emit_to_run_cases [of now i ev sid p s]) (auto intro!: store_wf_update dest: store_wf_lookup)

section \<open>Pruning\<close>

text \<open>The records a prune drops: the oldest terminal ones beyond the cap.\<close>

definition terminal_ids :: "RunStore \<Rightarrow> string list" where
  "terminal_ids s = map fst (filter (\<lambda>(_, r). terminal (rr_status r)) (st_runs s))"

definition evicted :: "RunStore \<Rightarrow> string list" where
  "evicted s =
     take (length (terminal_ids s) - MAX_TERMINAL_RECORDS)
       (sort_key (\<lambda>i. finished_key (the (map_of (st_runs s) i))) (terminal_ids s))"

lemma prune_eq:
  "prune_terminal_records s = s\<lparr>st_runs := filter (\<lambda>(k, _). k \<notin> set (evicted s)) (st_runs s)\<rparr>"
  by (auto simp: prune_terminal_records_def Let_def evicted_def terminal_ids_def fold_delete_filter)

lemma map_of_prune:
  "map_of (st_runs (prune_terminal_records s)) k =
     (if k \<in> set (evicted s) then None else map_of (st_runs s) k)"
  by (simp add: prune_eq fold_delete_filter [symmetric] alist.lookup_fold_delete)

lemma active_prune [simp]: "st_active_run_id (prune_terminal_records s) = st_active_run_id s"
  by (simp add: prune_eq)

lemma evicted_terminal: "set (evicted s) \<subseteq> set (terminal_ids s)"
  unfolding evicted_def by (metis set_sort set_take_subset)

lemma terminal_ids_iff:
  "store_wf s \<Longrightarrow>
   k \<in> set (terminal_ids s) \<longleftrightarrow> (\<exists>r. map_of (st_runs s) k = Some r \<and> terminal (rr_status r))"
  by (auto simp: terminal_ids_def store_wf_def dest: map_of_SomeD intro: rev_image_eqI)

lemma distinct_terminal_ids: "store_wf s \<Longrightarrow> distinct (terminal_ids s)"
  by (simp add: terminal_ids_def store_wf_def distinct_map_filter)

lemma length_evicted: "length (evicted s) = length (terminal_ids s) - MAX_TERMINAL_RECORDS"
  by (simp add: evicted_def)

lemma terminal_ids_prune:
  "terminal_ids (prune_terminal_records s) = filter (\<lambda>k. k \<notin> set (evicted s)) (terminal_ids s)"
  by (auto simp: terminal_ids_def prune_eq filter_map comp_def case_prod_unfold conj_commute)

lemma terminal_count_prune:
  assumes "store_wf s"
  shows "terminal_count (prune_terminal_records s) = min MAX_TERMINAL_RECORDS (terminal_count s)"
proof -
  let ?T = "terminal_ids s"
  have len: "terminal_count t = length (terminal_ids t)" for t
    by (simp add: terminal_count_def terminal_ids_def)
  have d: "distinct ?T" by (rule distinct_terminal_ids [OF assms])
  then have "distinct (evicted s)" by (simp add: evicted_def)
  then have card_e: "card (set (evicted s)) = length ?T - MAX_TERMINAL_RECORDS"
    by (simp add: distinct_card length_evicted)
  have "length (filter (\<lambda>k. k \<notin> set (evicted s)) ?T) = card (set ?T - set (evicted s))"
    using d by (simp add: distinct_card [symmetric] set_diff_eq)
  also have "\<dots> = length ?T - (length ?T - MAX_TERMINAL_RECORDS)"
    using d card_e evicted_terminal by (simp add: card_Diff_subset distinct_card)
  finally show ?thesis by (simp add: len terminal_ids_prune)
qed

lemma sorted_wrt_take_drop:
  "sorted_wrt R xs \<Longrightarrow> x \<in> set (take n xs) \<Longrightarrow> y \<in> set (drop n xs) \<Longrightarrow> R x y"
  using append_take_drop_id [of n xs] sorted_wrt_append [of R "take n xs" "drop n xs"] by simp

lemma evicted_oldest:
  assumes "i \<in> set (evicted s)" and "j \<in> set (terminal_ids s)" and "j \<notin> set (evicted s)"
  shows "finished_key (the (map_of (st_runs s) i)) \<le> finished_key (the (map_of (st_runs s) j))"
proof -
  let ?f = "\<lambda>i. finished_key (the (map_of (st_runs s) i))"
  let ?n = "length (terminal_ids s) - MAX_TERMINAL_RECORDS"
  let ?xs = "sort_key ?f (terminal_ids s)"
  have "sorted_wrt (\<lambda>x y. ?f x \<le> ?f y) ?xs"
    using sorted_sort_key [of ?f "terminal_ids s"] by (simp add: sorted_wrt_map)
  moreover have "j \<in> set (drop ?n ?xs)"
    using assms(2,3) unfolding evicted_def
    by (metis Un_iff append_take_drop_id set_append set_sort)
  ultimately show ?thesis
    using assms(1) unfolding evicted_def by (blast intro: sorted_wrt_take_drop [of "\<lambda>x y. ?f x \<le> ?f y"])
qed

section \<open>Lookups after an operation\<close>

lemma map_of_mark_running:
  "map_of (st_runs (mark_running now i s)) k =
     (if k = i then map_option (\<lambda>r. r\<lparr>rr_status := Running, rr_started_at := Some now\<rparr>) (map_of (st_runs s) i)
      else map_of (st_runs s) k)"
  by (simp add: mark_running_def alist.lookup_update split: option.split)

lemma map_of_mark_completed:
  "map_of (st_runs (mark_completed now i res s)) k =
     (if k = i then map_option (\<lambda>r. r\<lparr>rr_status := Completed, rr_finished_at := Some now,
                                   rr_result := Some res, rr_participant_actions := [],
                                   rr_participant_action := None\<rparr>) (map_of (st_runs s) i)
      else map_of (st_runs s) k)"
  by (simp add: mark_completed_def alist.lookup_update split: option.split)

lemma map_of_mark_failed:
  "map_of (st_runs (mark_failed now i e s)) k =
     (if k = i then map_option (\<lambda>r. r\<lparr>rr_status := Failed, rr_finished_at := Some now,
                                   rr_error := Some e, rr_participant_actions := [],
                                   rr_participant_action := None\<rparr>) (map_of (st_runs s) i)
      else map_of (st_runs s) k)"
  by (simp add: mark_failed_def alist.lookup_update split: option.split)

lemmas map_of_marks = map_of_mark_running map_of_mark_completed map_of_mark_failed

text \<open>
  The status of a run, and the operations that keep the status of every run and the active slot.
\<close>

definition status_of :: "RunStore \<Rightarrow> string \<Rightarrow> RunStatus option" where
  "status_of s k = map_option rr_status (map_of (st_runs s) k)"

definition same_statuses :: "RunStore \<Rightarrow> RunStore \<Rightarrow> bool" where
  "same_statuses s t = ((\<forall>k. status_of t k = status_of s k) \<and> st_active_run_id t = st_active_run_id s)"

lemma set_action_statuses: "set_participant_action now i sid url s = Inr s' \<Longrightarrow> same_statuses s s'"
  by (auto simp: set_participant_action_def Let_def same_statuses_def status_of_def
      sync_legacy_participant_action_def alist.lookup_update split: option.splits)

lemma clear_action_statuses: "same_statuses s (clear_participant_action now i sid s)"
  by (auto simp: clear_participant_action_def Let_def same_statuses_def status_of_def
      sync_legacy_participant_action_def alist.lookup_update split: option.splits)

lemma emit_to_run_statuses: "same_statuses s (after_emit_to_run now i ev sid p s)"
  by (cases rule: after_emit_to_run_cases [of now i ev sid p s])
    (auto simp: same_statuses_def status_of_def alist.lookup_update)

lemma status_of_marks:
  "status_of (mark_running now i s) k =
     (if k = i \<and> status_of s i \<noteq> None then Some Running else status_of s k)"
  "status_of (mark_completed now i res s) k =
     (if k = i \<and> status_of s i \<noteq> None then Some Completed else status_of s k)"
  "status_of (mark_failed now i e s) k =
     (if k = i \<and> status_of s i \<noteq> None then Some Failed else status_of s k)"
  by (auto simp: status_of_def map_of_marks)

lemma active_of_marks:
  "st_active_run_id (mark_running now i s) = st_active_run_id s"
  "status_of s i \<noteq> None \<Longrightarrow> st_active_run_id (mark_completed now i res s) =
     (if st_active_run_id s = Some i then None else st_active_run_id s)"
  "status_of s i \<noteq> None \<Longrightarrow> st_active_run_id (mark_failed now i e s) =
     (if st_active_run_id s = Some i then None else st_active_run_id s)"
  by (auto simp: status_of_def mark_running_def mark_completed_def mark_failed_def split: option.splits)

lemma mark_unknown:
  assumes "status_of s i = None"
  shows "mark_running now i s = s" "mark_completed now i res s = s" "mark_failed now i e s = s"
  using assms by (simp_all add: status_of_def mark_running_def mark_completed_def mark_failed_def)

lemma create_run_statuses:
  assumes "create_run now i env ps sn vr s = Inr (r, s')" and "store_wf s" and "status_of s i = None"
  shows "st_active_run_id s = None" and "st_active_run_id s' = Some i"
    and "status_of s' i = Some Pending"
    and "k \<noteq> i \<Longrightarrow> status_of s' k = status_of s k \<or> status_of s' k = None"
    and "k \<noteq> i \<Longrightarrow> status_of s k \<noteq> None \<Longrightarrow> \<not> terminal (the (status_of s k)) \<Longrightarrow>
         status_of s' k = status_of s k"
proof -
  obtain t where r: "rr_run_id r = i" "rr_status r = Pending" "rr_participant_action r = first_pending_action r"
    and act: "st_active_run_id s = None"
    and t: "t = s\<lparr>st_runs := AList.update i r (st_runs s), st_active_run_id := Some i\<rparr>"
    and s': "s' = prune_terminal_records t"
    using assms(1) by (auto simp: create_run_def Let_def first_pending_empty split: option.splits)
  have wf: "store_wf t" unfolding t by (rule store_wf_update(1) [OF assms(2) r(1,3)])
  have ev: "\<not> terminal (the (status_of t k)) \<Longrightarrow> k \<notin> set (evicted t)" for k
    using evicted_terminal [of t] terminal_ids_iff [OF wf, of k] by (auto simp: status_of_def)
  have st: "status_of s' k = (if k \<in> set (evicted t) then None else status_of t k)" for k
    by (simp add: s' status_of_def map_of_prune)
  have tk: "status_of t k = (if k = i then Some Pending else status_of s k)" for k
    using r by (simp add: t status_of_def alist.lookup_update)
  show "st_active_run_id s = None" by (rule act)
  show "st_active_run_id s' = Some i" by (simp add: s' t)
  show "status_of s' i = Some Pending" using st ev [of i] tk by simp
  show "status_of s' k = status_of s k \<or> status_of s' k = None" if "k \<noteq> i" using st tk that by simp
  show "status_of s' k = status_of s k" if "k \<noteq> i" "status_of s k \<noteq> None" "\<not> terminal (the (status_of s k))"
    using st tk ev [of k] that by simp
qed

section \<open>Properties\<close>

text \<open>C31: Creating a run is refused exactly when a run is active. When it succeeds the new run is stored as pending and
  active, at most ten terminal runs remain, and a record that disappears was terminal and finished no later than every
  terminal record that stays.\<close>

theorem create_run_retention:
  assumes "store_wf s" and "status_of s i = None"
  shows "(case create_run now i env ps sn vr s of
            Inl e \<Rightarrow> \<exists>a. st_active_run_id s = Some a \<and> e = RunConflictError a
          | Inr (r, s') \<Rightarrow>
              st_active_run_id s = None \<and> st_active_run_id s' = Some i \<and> status_of s' i = Some Pending \<and>
              store_wf s' \<and> terminal_count s' \<le> MAX_TERMINAL_RECORDS \<and>
              (\<forall>k x. map_of (st_runs s) k = Some x \<longrightarrow> map_of (st_runs s') k = None \<longrightarrow>
                 terminal (rr_status x) \<and>
                 (\<forall>j y. map_of (st_runs s') j = Some y \<longrightarrow> terminal (rr_status y) \<longrightarrow>
                    finished_key x \<le> finished_key y)))"
proof (cases "create_run now i env ps sn vr s")
  case (Inl e)
  then show ?thesis by (auto simp: create_run_def Let_def split: option.splits)
next
  case (Inr p)
  obtain r s' where p: "p = (r, s')" by (cases p)
  note cr = Inr [unfolded p]
  note st = create_run_statuses [OF cr assms]
  obtain t where r: "rr_status r = Pending" "rr_run_id r = i" "rr_participant_action r = first_pending_action r"
    and t: "t = s\<lparr>st_runs := AList.update i r (st_runs s), st_active_run_id := Some i\<rparr>"
    and s': "s' = prune_terminal_records t"
    using cr by (auto simp: create_run_def Let_def first_pending_empty split: option.splits)
  have wft: "store_wf t" unfolding t by (rule store_wf_update(1) [OF assms(1) r(2,3)])
  have cap: "terminal_count s' \<le> MAX_TERMINAL_RECORDS" unfolding s' terminal_count_prune [OF wft] by simp
  have gone: "terminal (rr_status x) \<and> (\<forall>j y. map_of (st_runs s') j = Some y \<longrightarrow> terminal (rr_status y) \<longrightarrow>
       finished_key x \<le> finished_key y)"
    if k: "map_of (st_runs s) k = Some x" "map_of (st_runs s') k = None" for k x
  proof -
    have "k \<noteq> i" using assms(2) k(1) by (auto simp: status_of_def)
    then have kt: "map_of (st_runs t) k = Some x" using k(1) by (simp add: t alist.lookup_update)
    then have ev: "k \<in> set (evicted t)" using k(2) by (auto simp: s' map_of_prune split: if_splits)
    then have "terminal (rr_status x)"
      using evicted_terminal [of t] terminal_ids_iff [OF wft, of k] kt by auto
    moreover have "finished_key x \<le> finished_key y" if "map_of (st_runs s') j = Some y" "terminal (rr_status y)" for j y
    proof -
      have "j \<notin> set (evicted t)" "map_of (st_runs t) j = Some y"
        using that(1) by (auto simp: s' map_of_prune split: if_splits)
      with evicted_oldest [OF ev, of j] terminal_ids_iff [OF wft, of j] that(2) kt show ?thesis by auto
    qed
    ultimately show ?thesis by blast
  qed
  show ?thesis unfolding cr
    using st(1-3) create_run_wf [OF cr assms(1)] cap gone by auto
qed

theorem create_run_retention_witness:
  "store_wf init_store \<and> status_of init_store ''run-1'' = None \<and>
   (\<exists>r s'. create_run datetime_min ''run-1'' [] [] None None init_store = Inr (r, s') \<and> status_of s' ''run-1'' = Some Pending)"
proof -
  have h: "store_wf init_store" "status_of init_store ''run-1'' = None"
    by (simp_all add: init_store_def store_wf_def status_of_def)
  obtain p where "create_run datetime_min ''run-1'' [] [] None None init_store = Inr p"
    by (auto simp: create_run_def init_store_def Let_def)
  with create_run_retention [OF h, of datetime_min "[]" "[]" None None] h show ?thesis
    by (cases p) auto
qed

end
