(* ===== verification/Api_Views.thy ===== *)
theory Api_Views
  imports Run_Store Auth_Session_Store
begin

text \<open>
  The run and auth-session endpoints (\<open>conformance/api/views.py\<close>) and the public callback
  (\<open>conformance/api/callback_views.py\<close>), for requests without a display time zone. A view that
  calls the stores several times is a sequence of functions, one per stretch between two store
  calls, because another request or the run thread may act in between. What the web framework
  decodes of a request (its body, its query parameters) is an argument.
\<close>

datatype ApiResponse = JsonResponse json_object nat

definition error_response :: "string \<Rightarrow> nat \<Rightarrow> ApiResponse" where
  "error_response message status = JsonResponse [(''error'', JStr message)] status"

section \<open>Reading a run\<close>

definition get_run_status :: "string \<Rightarrow> RunStore \<Rightarrow> ApiResponse" where
  "get_run_status run_id s =
     (case get_run run_id s of
        None \<Rightarrow> error_response ''Run not found'' 404
      | Some r \<Rightarrow> JsonResponse (to_status_json r) 200)"

definition get_run_result :: "string \<Rightarrow> RunStore \<Rightarrow> ApiResponse" where
  "get_run_result run_id s =
     (case get_run run_id s of
        None \<Rightarrow> error_response ''Run not found'' 404
      | Some r \<Rightarrow>
          if rr_status r \<in> {Pending, Running} then
            JsonResponse [(''error'', JStr ''Run has not completed yet''),
                          (''status'', JStr (status_name (rr_status r)))] 409
          else if rr_status r = Failed then error_response ''Run failed internally'' 500
          else JsonResponse (case rr_result r of None \<Rightarrow> [] | Some body \<Rightarrow> body) 200)"

section \<open>Auth sessions\<close>

fun auth_error_message :: "AuthSessionError \<Rightarrow> string" where
  "auth_error_message (UnknownAuthSessionError st) = ''Unknown auth-session state: '' @ repr_str st"
| "auth_error_message (DuplicateAuthSessionError st) = ''Auth-session state already registered: '' @ repr_str st"
| "auth_error_message (InvalidAuthSessionStateError _) =
     ''Caller-supplied state must be at least '' @ str_nat MIN_CALLER_SUPPLIED_STATE_LENGTH @ '' characters''"
| "auth_error_message (AuthSessionLimitError r) =
     ''Run '' @ r @ '' already has '' @ str_nat MAX_SESSIONS_PER_RUN @ '' auth sessions''"
| "auth_error_message (AuthSessionAlreadyResolvedError st status) =
     ''Auth session '' @ repr_str st @ '' already resolved (status='' @
     (case status of Awaiting \<Rightarrow> ''awaiting'' | Captured \<Rightarrow> ''captured'' | ErrorStatus \<Rightarrow> ''error'') @ '')''"

fun session_status_name :: "AuthSessionStatus \<Rightarrow> string" where
  "session_status_name Awaiting = ''awaiting''"
| "session_status_name Captured = ''captured''"
| "session_status_name ErrorStatus = ''error''"

text \<open>The request body as the framework hands it over.\<close>

datatype request_body =
    MultipartBody bool
  | EmptyBody
  | UndecodableBody
  | DecodedBody json

definition register_raw_state :: "request_body \<Rightarrow> ApiResponse + string option" where
  "register_raw_state body =
     (case body of
        MultipartBody has_fields \<Rightarrow>
          if has_fields then Inl (error_response ''Request body must be a JSON object'' 400) else Inr None
      | EmptyBody \<Rightarrow> Inr None
      | UndecodableBody \<Rightarrow> Inl (error_response ''Request body must be valid JSON'' 400)
      | DecodedBody v \<Rightarrow>
          (case v of
             JObj obj \<Rightarrow>
               (case jget obj ''state'' of
                  JNull \<Rightarrow> Inr None
                | JStr st \<Rightarrow> Inr (Some st)
                | _ \<Rightarrow> Inl (error_response ([CHR 34] @ ''state'' @ [CHR 34] @ '' must be a string if provided'') 400))
           | _ \<Rightarrow> Inl (error_response ''Request body must be a JSON object'' 400)))"

definition inactive_response :: "RunRecord option \<Rightarrow> ApiResponse + RunRecord" where
  "inactive_response record =
     (case record of
        None \<Rightarrow> Inl (error_response ''Run not found'' 404)
      | Some r \<Rightarrow>
          if terminal (rr_status r) then
            Inl (JsonResponse [(''error'', JStr ''Run is no longer active''),
                               (''status'', JStr (status_name (rr_status r)))] 409)
          else Inr r)"

definition register_check :: "string \<Rightarrow> RunStore \<Rightarrow> ApiResponse + RunRecord" where
  "register_check run_id s = inactive_response (get_run run_id s)"

definition register_error_response :: "AuthSessionError \<Rightarrow> ApiResponse" where
  "register_error_response e =
     error_response (auth_error_message e)
       (case e of DuplicateAuthSessionError _ \<Rightarrow> 409 | _ \<Rightarrow> 400)"

definition register_session ::
  "datetime \<Rightarrow> string \<Rightarrow> string \<Rightarrow> string option \<Rightarrow> sessions \<Rightarrow> ApiResponse + AuthSession \<times> sessions" where
  "register_session now token run_id raw_state ss =
     (case register now token run_id raw_state ss of
        Inl e \<Rightarrow> Inl (register_error_response e)
      | Inr x \<Rightarrow> Inr x)"

definition session_body :: "AuthSession \<Rightarrow> json_object" where
  "session_body session =
     [(''state'', JStr (as_state session)), (''status'', JStr (session_status_name (as_status session))),
      (''createdAt'', JStr (isoformat (as_created_at session)))]"

text \<open>
  After the registration the handler reads the run again: a run that is gone or ended meanwhile makes it discard the new
  session and answer as the first check does. A run that has ended stays ended, so it makes no difference at which moment
  between the reading and the discard the status is taken.
\<close>

definition register_recheck ::
  "string \<Rightarrow> AuthSession \<Rightarrow> RunStore \<Rightarrow> sessions \<Rightarrow> ApiResponse \<times> sessions + unit" where
  "register_recheck run_id session s ss =
     (case inactive_response (get_run run_id s) of
        Inl response \<Rightarrow> Inl (response, snd (discard_session run_id (as_state session) ss))
      | Inr _ \<Rightarrow> Inr ())"

definition announce_session :: "string \<Rightarrow> string \<Rightarrow> AuthSession \<Rightarrow> RunStore \<Rightarrow> RunStore" where
  "announce_session now run_id session s =
     after_emit_to_run now run_id AuthSessionRegistered None
       (Some [(''state'', JStr (as_state session)),
              (''status'', JStr (session_status_name (as_status session)))]) s"

definition register_revalidate ::
  "string \<Rightarrow> string \<Rightarrow> AuthSession \<Rightarrow> RunStore \<Rightarrow> sessions \<Rightarrow> ApiResponse \<times> RunStore \<times> sessions" where
  "register_revalidate now run_id session s ss =
     (case register_recheck run_id session s ss of
        Inl (response, ss') \<Rightarrow> (response, s, ss')
      | Inr _ \<Rightarrow> (JsonResponse (session_body session) 201, announce_session now run_id session s, ss))"

text \<open>The whole handler when nothing else runs in between.\<close>

definition register_auth_session ::
  "string \<Rightarrow> datetime \<Rightarrow> string \<Rightarrow> string \<Rightarrow> request_body \<Rightarrow>
   RunStore \<Rightarrow> sessions \<Rightarrow> ApiResponse \<times> RunStore \<times> sessions" where
  "register_auth_session stamp now token run_id body s ss =
     (case register_raw_state body of
        Inl response \<Rightarrow> (response, s, ss)
      | Inr raw_state \<Rightarrow>
          (case register_check run_id s of
             Inl response \<Rightarrow> (response, s, ss)
           | Inr _ \<Rightarrow>
               (case register_session now token run_id raw_state ss of
                  Inl response \<Rightarrow> (response, s, ss)
                | Inr (session, ss') \<Rightarrow> register_revalidate stamp run_id session s ss')))"

definition get_auth_session :: "string \<Rightarrow> string \<Rightarrow> RunStore \<Rightarrow> sessions \<Rightarrow> ApiResponse" where
  "get_auth_session run_id state s ss =
     (if get_run run_id s = None then error_response ''Auth session not found'' 404
      else case get_session run_id state ss of
             None \<Rightarrow> error_response ''Auth session not found'' 404
           | Some session \<Rightarrow>
               JsonResponse
                 (session_body session
                  @ (case as_captured_at session of None \<Rightarrow> [] | Some t \<Rightarrow> [(''capturedAt'', JStr (isoformat t))])
                  @ (case as_code session of None \<Rightarrow> [] | Some c \<Rightarrow> [(''code'', JStr c)])
                  @ (case as_error session of None \<Rightarrow> [] | Some e \<Rightarrow> [(''error'', JStr e)])
                  @ (case as_error_description session of None \<Rightarrow> []
                     | Some d \<Rightarrow> [(''errorDescription'', JStr d)])) 200)"

section \<open>The callback\<close>

datatype CallbackPage =
    FragmentBridge
  | FailurePage
  | LandingPage string "string option"

fun page_status :: "CallbackPage \<Rightarrow> nat" where
  "page_status FragmentBridge = 200"
| "page_status FailurePage = 400"
| "page_status (LandingPage _ _) = 200"

definition query_get :: "(string, string) dict \<Rightarrow> string \<Rightarrow> string" where
  "query_get query key = (case map_of query key of None \<Rightarrow> [] | Some v \<Rightarrow> v)"

text \<open>
  The part of the callback that touches the session store: a page when the request is answered
  at once, or the captured session and the landing page to render after its event is logged. An
  absent parameter and an empty one are both falsy.
\<close>

definition callback_capture ::
  "datetime \<Rightarrow> (string, string) dict \<Rightarrow> sessions \<Rightarrow> CallbackPage + (AuthSession \<times> CallbackPage) \<times> sessions" where
  "callback_capture now query ss =
     (let state = query_get query ''state'';
          code = query_get query ''code'';
          err = query_get query ''error''
      in if state = [] then (if query = [] then Inl FragmentBridge else Inl FailurePage)
         else
           let result = (if err \<noteq> [] then Some (capture_error now state err (map_of query ''error_description'') ss)
                         else if code \<noteq> [] then Some (capture_code now state code ss)
                         else None)
           in case result of
                None \<Rightarrow> Inl FailurePage
              | Some (Inl _) \<Rightarrow> Inl FailurePage
              | Some (Inr (session, ss')) \<Rightarrow>
                  Inr ((session, LandingPage (if err \<noteq> [] then ''error'' else ''success'')
                                   (map_of query ''error'')), ss'))"

definition callback_payload :: "AuthSession \<Rightarrow> json_object" where
  "callback_payload session =
     [(''state'', JStr (as_state session))]
     @ (case (as_status session, as_code session, as_error session) of
          (Captured, Some code, _) \<Rightarrow> [(''code'', JStr code)]
        | (ErrorStatus, _, Some e) \<Rightarrow>
            [(''error'', JStr e)]
            @ (case as_error_description session of None \<Rightarrow> [] | Some d \<Rightarrow> [(''error_description'', JStr d)])
        | _ \<Rightarrow> [])"

definition emit_callback_event ::
  "string \<Rightarrow> AuthSession \<Rightarrow> RunStore \<Rightarrow> RunStore" where
  "emit_callback_event now session s =
     after_emit_to_run now (as_run_id session) AuthCallbackReceived None (Some (callback_payload session)) s"

definition callback_view ::
  "string \<Rightarrow> datetime \<Rightarrow> (string, string) dict \<Rightarrow>
   RunStore \<Rightarrow> sessions \<Rightarrow> CallbackPage \<times> RunStore \<times> sessions" where
  "callback_view stamp now query s ss =
     (case callback_capture now query ss of
        Inl page \<Rightarrow> (page, s, ss)
      | Inr ((session, page), ss') \<Rightarrow> (page, emit_callback_event stamp session s, ss'))"

section \<open>Lemmas\<close>

lemma register_Inr:
  assumes "register now token run_id st ss = Inr (s, ss')"
  shows "map_of ss (as_state s) = None" and "ss' = AList.update (as_state s) s ss"
    and "as_run_id s = run_id" and "as_status s = Awaiting"
    and "as_state s = (case st of None \<Rightarrow> token | Some x \<Rightarrow> x)"
  using assms by (auto simp: register_def Let_def result_simps split: option.splits if_splits)

lemma capture_Inr:
  assumes "callback_capture now query ss = Inr ((session, page), ss')" and inv: "sessions_inv ss"
  shows "\<exists>x. map_of ss (as_state session) = Some x \<and> as_status x = Awaiting \<and>
           as_run_id session = as_run_id x \<and> ss' = AList.update (as_state session) session ss"
proof -
  have st: "as_state x = k" if "map_of ss k = Some x" for k x
    using sessions_inv_lookup [OF inv that] by simp
  show ?thesis
    using assms(1) st
    by (auto simp: callback_capture_def capture_code_def capture_error_def Let_def
        split: if_splits option.splits sum.splits)
qed

lemma callback_capture_step:
  "callback_capture now query ss = Inr (x, ss') \<Longrightarrow> session_step ss ss'"
  by (auto simp: callback_capture_def Let_def split: if_splits option.splits sum.splits
      intro: step_capture_code step_capture_error)

section \<open>Properties\<close>

text \<open>C34: The public callback does not disclose which states exist: for a state that is unknown or already resolved, whatever
  else the query carries, the answer is the same generic failure page (status 400) and neither store changes.\<close>

theorem callback_failure_is_uniform:
  assumes "query_get query ''state'' \<noteq> []"
    and "\<forall>x. map_of ss (query_get query ''state'') = Some x \<longrightarrow> as_status x \<noteq> Awaiting"
  shows "callback_view stamp now query s ss = (FailurePage, s, ss) \<and> page_status FailurePage = 400"
  using assms
  by (auto simp: callback_view_def callback_capture_def capture_code_def capture_error_def Let_def split: option.splits)

theorem callback_failure_is_uniform_witness:
  "callback_view ''t'' datetime_min [(''state'', ''unknown''), (''code'', ''c'')] init_store [] =
     (FailurePage, init_store, [])"
  using callback_failure_is_uniform [of "[(''state'', ''unknown''), (''code'', ''c'')]" "[]" "''t''" datetime_min init_store]
  by (simp add: query_get_def)

text \<open>C35: A callback for an awaiting session with a code captures exactly that code in exactly that session, answers with the
  success page, leaves every other session alone, and appends one event to the run's log in which the code is masked.\<close>

theorem callback_captures_and_masks_code:
  assumes inv: "sessions_inv ss" and look: "map_of ss st = Some x" "as_status x = Awaiting"
    and q: "query_get query ''state'' = st" "st \<noteq> []" "query_get query ''error'' = []"
           "query_get query ''code'' = code" "code \<noteq> []"
    and run: "map_of (st_runs s) (as_run_id x) = Some r" "rr_execution_logger r = Some lg" "\<not> bl_developer_mode lg"
  shows "\<exists>page s' ss' y r' e. callback_view stamp now query s ss = (page, s', ss') \<and> page_status page = 200 \<and>
           map_of ss' st = Some y \<and> as_status y = Captured \<and> as_code y = Some code \<and>
           (\<forall>k. k \<noteq> st \<longrightarrow> map_of ss' k = map_of ss k) \<and>
           map_of (st_runs s') (as_run_id x) = Some r' \<and>
           rr_execution_logger r' = Some (lg\<lparr>bl_events := bl_events lg @ [e]\<rparr>) \<and>
           ev_type e = AuthCallbackReceived \<and> jget (ev_payload e) ''code'' = JStr MASKED_VALUE"
proof -
  let ?y = "x\<lparr>as_status := Captured, as_code := Some code, as_captured_at := Some now\<rparr>"
  have cap: "callback_capture now query ss = Inr ((?y, LandingPage ''success'' (map_of query ''error'')), AList.update st ?y ss)"
    using look q by (simp add: callback_capture_def capture_code_def Let_def)
  have view: "callback_view stamp now query s ss =
      (LandingPage ''success'' (map_of query ''error''), emit_callback_event stamp ?y s, AList.update st ?y ss)"
    by (simp add: callback_view_def cap)
  have key: "sensitive_key ''code''" "\<not> sensitive_key ''state''"
    by (simp_all add: py_lower_def lower_char_def code_of_def SENSITIVE_JSON_KEYS_def)
  let ?p = "[(''state'', mask_json_value (JStr (as_state x))), (''code'', JStr MASKED_VALUE)]"
  have "mask_payload lg AuthCallbackReceived (callback_payload ?y) = Inr ?p"
    using run(3) key by (simp add: mask_payload_def callback_payload_def mask_payload_entry_def)
  moreover have "jget ?p ''code'' = JStr MASKED_VALUE" by (simp add: jget_def)
  ultimately obtain e where "ev_type e = AuthCallbackReceived" "jget (ev_payload e) ''code'' = JStr MASKED_VALUE"
    and lg: "logger_emit stamp AuthCallbackReceived None (Some (callback_payload ?y)) lg = Inr (lg\<lparr>bl_events := bl_events lg @ [e]\<rparr>)"
    using that [of "\<lparr>ev_timestamp = stamp, ev_run_id = bl_run_id lg, ev_type = AuthCallbackReceived, ev_step_id = None, ev_payload = ?p\<rparr>"]
    by (simp add: logger_emit_def)
  moreover have "map_of (st_runs (emit_callback_event stamp ?y s)) (as_run_id x) =
      Some (r\<lparr>rr_execution_logger := Some (lg\<lparr>bl_events := bl_events lg @ [e]\<rparr>)\<rparr>)"
    using run lg by (simp add: emit_callback_event_def after_emit_to_run_def emit_to_run_def alist.lookup_update)
  moreover have "rr_execution_logger (r\<lparr>rr_execution_logger := Some (lg\<lparr>bl_events := bl_events lg @ [e]\<rparr>)\<rparr>) =
      Some (lg\<lparr>bl_events := bl_events lg @ [e]\<rparr>)" by simp
  moreover have "map_of (AList.update st ?y ss) st = Some ?y" "\<forall>k. k \<noteq> st \<longrightarrow> map_of (AList.update st ?y ss) k = map_of ss k"
    by (simp_all add: alist.lookup_update)
  ultimately show ?thesis
    unfolding view by (intro exI conjI) (rule refl, auto)
qed

definition sample_awaiting :: AuthSession where
  "sample_awaiting =
     \<lparr>as_state = ''st'', as_run_id = ''run-1'', as_status = Awaiting, as_created_at = datetime_min,
      as_captured_at = None, as_code = None, as_error = None, as_error_description = None\<rparr>"

theorem callback_captures_and_masks_code_witness:
  "\<exists>page s' ss' y. callback_view ''t'' datetime_min [(''state'', ''st''), (''code'', ''s3cret'')]
       (snd (projr (create_run datetime_min ''run-1'' [] [] None None init_store))) [(''st'', sample_awaiting)] =
     (page, s', ss') \<and> map_of ss' ''st'' = Some y \<and> as_code y = Some ''s3cret''"
proof -
  let ?ss = "[(''st'', sample_awaiting)]" and ?q = "[(''state'', ''st''), (''code'', ''s3cret'')]"
  let ?s = "snd (projr (create_run datetime_min ''run-1'' [] [] None None init_store))"
  have inv: "sessions_inv ?ss"
    by (simp add: sessions_inv_def sample_awaiting_def run_sessions_def MAX_SESSIONS_PER_RUN_def)
  have look: "map_of ?ss ''st'' = Some sample_awaiting" "as_status sample_awaiting = Awaiting"
    by (simp_all add: sample_awaiting_def)
  have q: "query_get ?q ''state'' = ''st''" "''st'' \<noteq> []" "query_get ?q ''error'' = []"
    "query_get ?q ''code'' = ''s3cret''" "''s3cret'' \<noteq> []"
    by (simp_all add: query_get_def)
  have "\<not> is_developer_mode_enabled []"
    by (simp add: is_developer_mode_enabled_def py_strip_def py_lstrip_def py_lower_def)
  then obtain r lg where run: "map_of (st_runs ?s) (as_run_id sample_awaiting) = Some r"
    "rr_execution_logger r = Some lg" "\<not> bl_developer_mode lg"
    by (simp add: create_run_def init_store_def Let_def prune_terminal_records_def MAX_TERMINAL_RECORDS_def
        sample_awaiting_def new_logger_def)
  from callback_captures_and_masks_code [OF inv look q run, of "''t''" datetime_min]
  show ?thesis by blast
qed

end
