(* ===== verification/Run_Lifecycle.thy ===== *)
theory Run_Lifecycle
  imports Api_Views Results
begin

text \<open>
  The run lifecycle (\<open>conformance/api/run_lifecycle.py\<close>) and its concurrency. The process holds the
  two stores, one thread per started run and any number of requests in flight; every call of a
  store method is one step, so the steps of the system are the stretches of code between two such
  calls. Starting a run is two steps, the reservation of the slot and the start of the thread, which may fail. What the
  executor does with the stores while it runs (log events, the browser's participant actions, register its own auth
  session, capture a headless redirect) is any sequence of those calls; its result object and its
  failures are arbitrary, and so is the outcome of writing the artifacts. Finding the logger of a record and
  appending to it is one step, taken at the append: the logger of a record that was evicted in between is out of reach, so
  the append leaves the store as it is, as it does here for an unknown run.
\<close>

section \<open>Launch-time plan\<close>

definition effective_plan_for_launch :: "Manifest option \<Rightarrow> TestPlan option \<Rightarrow> TestPlan option" where
  "effective_plan_for_launch manifest plan =
     (case manifest of
        None \<Rightarrow> None
      | Some m \<Rightarrow> (case plan of Some p \<Rightarrow> Some p | None \<Rightarrow> Some (default_plan_from_manifest m)))"

fun manifest_step_kind :: "V1Step \<Rightarrow> string" where
  "manifest_step_kind (PsuStep _) = ''psu-authorization''"
| "manifest_step_kind (HttpStep _) = ''http''"

definition planned_step :: "nat \<Rightarrow> V1Step \<Rightarrow> RunPlanStep" where
  "planned_step order step =
     \<lparr>rp_step_id = step_id step, rp_name = step_name step, rp_kind = manifest_step_kind step,
      rp_group = Some (step_group step), rp_phase = Some (phase_name (step_phase step)),
      rp_mandatory = step_mandatory step, rp_optional = step_optional step, rp_order = order\<rparr>"

text \<open>The snapshot of a manifest run; a compiled catalogue plan has its own.\<close>

fun append_planned :: "string list \<Rightarrow> V1Step list \<Rightarrow> RunPlanStep list \<Rightarrow> RunPlanStep list" where
  "append_planned selected [] planned = planned"
| "append_planned selected (step # steps) planned =
     append_planned selected steps
       (if step_id step \<notin> set selected then planned
        else planned @ [planned_step (length planned) step])"

definition manifest_planned_steps_snapshot :: "Manifest option \<Rightarrow> TestPlan option \<Rightarrow> RunPlanStep list" where
  "manifest_planned_steps_snapshot manifest plan =
     (case (manifest, plan) of
        (Some m, Some p) \<Rightarrow>
          let selected = selected_step_ids p
          in if selected = [] then [] else append_planned selected (mf_steps m) []
      | _ \<Rightarrow> [])"

definition attach_plan_evidence :: "json_object \<Rightarrow> RunRecord \<Rightarrow> json_object" where
  "attach_plan_evidence result_object record =
     (let result1 = (case rr_plan_snapshot record of
                       Some snapshot \<Rightarrow> AList.update ''testPlanSnapshot'' (JObj snapshot) result_object
                     | None \<Rightarrow> result_object)
      in case rr_validation_result record of
           Some validation \<Rightarrow>
             mark_development_result_evidence validation
               (AList.update ''testPlanValidation'' (JObj validation) result1)
         | None \<Rightarrow> result1)"

section \<open>The browser action logger\<close>

definition set_action_from_event ::
  "datetime \<Rightarrow> string \<Rightarrow> string option \<Rightarrow> json_object option \<Rightarrow> RunStore \<Rightarrow> run_key_error + RunStore" where
  "set_action_from_event now run_id sid payload s =
     (case (sid, jget (case payload of None \<Rightarrow> [] | Some p \<Rightarrow> p) ''url'') of
        (Some i, JStr url) \<Rightarrow> set_participant_action now run_id i url s
      | _ \<Rightarrow> Inr s)"

definition browser_action ::
  "datetime \<Rightarrow> string \<Rightarrow> EventType \<Rightarrow> string option \<Rightarrow> json_object option \<Rightarrow> RunStore \<Rightarrow> run_key_error + RunStore" where
  "browser_action now run_id ev sid payload s =
     (if ev = PsuAuthorizationUrl then set_action_from_event now run_id sid payload s
      else if ev = StepCompleted \<and> sid \<noteq> None then Inr (clear_participant_action now run_id sid s)
      else if ev \<in> {AuthCallbackReceived, RunCompleted, ApplicationError}
      then Inr (clear_participant_action now run_id None s)
      else Inr s)"

datatype browser_emit_error = UnknownRun run_key_error | MaskingError value_error

text \<open>The store after the call and the exception it raised; the action is set before the wrapped logger may raise.\<close>

definition browser_emit ::
  "string \<Rightarrow> datetime \<Rightarrow> string \<Rightarrow> EventType \<Rightarrow> string option \<Rightarrow> json_object option \<Rightarrow> RunStore \<Rightarrow>
   browser_emit_error option \<times> RunStore" where
  "browser_emit stamp now run_id ev sid payload s =
     (case browser_action now run_id ev sid payload s of
        Inl e \<Rightarrow> (Some (UnknownRun e), s)
      | Inr s' \<Rightarrow>
          (case emit_to_run stamp run_id ev sid payload s' of
             Inl e \<Rightarrow> (Some (MaskingError e), s')
           | Inr s'' \<Rightarrow> (None, s'')))"

section \<open>The process\<close>

text \<open>
  Where the execution of a run is: its slot is reserved but its thread not started, or could not be started; its thread is
  at the beginning, has marked the run as running, is inside the executor, or has left it (with a result object, with an
  exception, or because no HTTP client could be built), is about to clean up, or is done.
\<close>

datatype thread_pc =
    Reserved | NotStarted | Starting | Started | Executing RunRecord
  | Returned RunRecord json_object | Raised | SetupFailed string | Closing | Closed

datatype request_pc =
    RegisterChecked string "string option"
  | Registered string AuthSession
  | Confirmed string AuthSession
  | CallbackCaptured AuthSession

record world =
  w_store :: RunStore
  w_sessions :: sessions
  w_threads :: "(string, thread_pc) dict"
  w_requests :: "(nat, request_pc) dict"

definition init_world :: world where
  "init_world = \<lparr>w_store = init_store, w_sessions = init_sessions, w_threads = [], w_requests = []\<rparr>"

text \<open>
  One step of the process. \<open>uuid4\<close> never returns the identifier of an earlier run of the process;
  a run id stays a key of \<open>w_threads\<close> for ever.
\<close>

inductive lifecycle_step :: "world \<Rightarrow> world \<Rightarrow> bool" where
  launch_reserve:
  "create_run now i env ps sn vr (w_store w) = Inr (r, s') \<Longrightarrow> map_of (w_threads w) i = None \<Longrightarrow>
   lifecycle_step w (w\<lparr>w_store := s', w_threads := AList.update i Reserved (w_threads w)\<rparr>)"
| launch_start:
  "map_of (w_threads w) i = Some Reserved \<Longrightarrow>
   lifecycle_step w (w\<lparr>w_threads := AList.update i Starting (w_threads w)\<rparr>)"
| launch_start_fails:
  "map_of (w_threads w) i = Some Reserved \<Longrightarrow>
   lifecycle_step w (w\<lparr>w_threads := AList.update i NotStarted (w_threads w)\<rparr>)"
| thread_mark_running:
  "map_of (w_threads w) i = Some Starting \<Longrightarrow>
   lifecycle_step w (w\<lparr>w_store := mark_running now i (w_store w),
                       w_threads := AList.update i Started (w_threads w)\<rparr>)"
| thread_read_record:
  "map_of (w_threads w) i = Some Started \<Longrightarrow>
   lifecycle_step w (w\<lparr>w_threads := AList.update i
     (case get_run i (w_store w) of None \<Rightarrow> Closing | Some r \<Rightarrow> Executing r) (w_threads w)\<rparr>)"
| thread_emit:
  "map_of (w_threads w) i = Some (Executing r) \<Longrightarrow>
   lifecycle_step w (w\<lparr>w_store := after_emit_to_run stamp i ev sid payload (w_store w)\<rparr>)"
| thread_browser_action:
  "map_of (w_threads w) i = Some (Executing r) \<Longrightarrow>
   browser_action now i ev sid payload (w_store w) = Inr s' \<Longrightarrow>
   lifecycle_step w (w\<lparr>w_store := s'\<rparr>)"
| thread_register:
  "map_of (w_threads w) i = Some (Executing r) \<Longrightarrow>
   register now token i st (w_sessions w) = Inr (session, ss') \<Longrightarrow>
   lifecycle_step w (w\<lparr>w_sessions := ss'\<rparr>)"
| thread_capture_code:
  "map_of (w_threads w) i = Some (Executing r) \<Longrightarrow>
   capture_code now st code (w_sessions w) = Inr (session, ss') \<Longrightarrow>
   lifecycle_step w (w\<lparr>w_sessions := ss'\<rparr>)"
| thread_capture_error:
  "map_of (w_threads w) i = Some (Executing r) \<Longrightarrow>
   capture_error now st err d (w_sessions w) = Inr (session, ss') \<Longrightarrow>
   lifecycle_step w (w\<lparr>w_sessions := ss'\<rparr>)"
| thread_setup_fails:
  "map_of (w_threads w) i = Some (Executing r) \<Longrightarrow>
   lifecycle_step w (w\<lparr>w_threads := AList.update i (SetupFailed (''HTTP client setup failed: '' @ err)) (w_threads w)\<rparr>)"
| thread_returns:
  "map_of (w_threads w) i = Some (Executing r) \<Longrightarrow>
   lifecycle_step w (w\<lparr>w_threads := AList.update i (Returned r result) (w_threads w)\<rparr>)"
| thread_raises:
  "map_of (w_threads w) i = Some (Executing r) \<Longrightarrow>
   lifecycle_step w (w\<lparr>w_threads := AList.update i Raised (w_threads w)\<rparr>)"
| thread_mark_completed:
  "map_of (w_threads w) i = Some (Returned r result) \<Longrightarrow>
   lifecycle_step w (w\<lparr>w_store := mark_completed now i (attach_plan_evidence result r) (w_store w),
                       w_threads := AList.update i Closing (w_threads w)\<rparr>)"
| thread_persist_fails:
  "map_of (w_threads w) i = Some (Returned r result) \<Longrightarrow>
   lifecycle_step w (w\<lparr>w_store := mark_failed now i (''Artifact persistence failed: '' @ err) (w_store w),
                       w_threads := AList.update i Closing (w_threads w)\<rparr>)"
| thread_persist_raises:
  "map_of (w_threads w) i = Some (Returned r result) \<Longrightarrow>
   lifecycle_step w (w\<lparr>w_threads := AList.update i Raised (w_threads w)\<rparr>)"
| thread_mark_setup_failed:
  "map_of (w_threads w) i = Some (SetupFailed err) \<Longrightarrow>
   lifecycle_step w (w\<lparr>w_store := mark_failed now i err (w_store w),
                       w_threads := AList.update i Closing (w_threads w)\<rparr>)"
| thread_handle_exception:
  "map_of (w_threads w) i = Some Raised \<Longrightarrow>
   lifecycle_step w (w\<lparr>w_store := mark_failed now i ''An internal error occurred'' (w_store w),
                       w_threads := AList.update i Closing (w_threads w)\<rparr>)"
| thread_cleanup:
  "map_of (w_threads w) i = Some Closing \<Longrightarrow>
   lifecycle_step w (w\<lparr>w_sessions := snd (discard_for_run i (w_sessions w)),
                       w_threads := AList.update i Closed (w_threads w)\<rparr>)"
| request_check:
  "map_of (w_requests w) q = None \<Longrightarrow> register_raw_state body = Inr st \<Longrightarrow>
   register_check i (w_store w) = Inr r \<Longrightarrow>
   lifecycle_step w (w\<lparr>w_requests := AList.update q (RegisterChecked i st) (w_requests w)\<rparr>)"
| request_register:
  "map_of (w_requests w) q = Some (RegisterChecked i st) \<Longrightarrow>
   register_session now token i st (w_sessions w) = Inr (session, ss') \<Longrightarrow>
   lifecycle_step w (w\<lparr>w_sessions := ss', w_requests := AList.update q (Registered i session) (w_requests w)\<rparr>)"
| request_register_refused:
  "map_of (w_requests w) q = Some (RegisterChecked i st) \<Longrightarrow>
   register_session now token i st (w_sessions w) = Inl response \<Longrightarrow>
   lifecycle_step w (w\<lparr>w_requests := AList.delete q (w_requests w)\<rparr>)"
| request_rollback:
  "map_of (w_requests w) q = Some (Registered i session) \<Longrightarrow>
   register_recheck i session (w_store w) (w_sessions w) = Inl (response, ss') \<Longrightarrow>
   lifecycle_step w (w\<lparr>w_sessions := ss', w_requests := AList.delete q (w_requests w)\<rparr>)"
| request_confirm:
  "map_of (w_requests w) q = Some (Registered i session) \<Longrightarrow>
   register_recheck i session (w_store w) (w_sessions w) = Inr x \<Longrightarrow>
   lifecycle_step w (w\<lparr>w_requests := AList.update q (Confirmed i session) (w_requests w)\<rparr>)"
| request_announce:
  "map_of (w_requests w) q = Some (Confirmed i session) \<Longrightarrow>
   lifecycle_step w (w\<lparr>w_store := announce_session stamp i session (w_store w),
                       w_requests := AList.delete q (w_requests w)\<rparr>)"
| request_callback:
  "map_of (w_requests w) q = None \<Longrightarrow>
   callback_capture now query (w_sessions w) = Inr ((session, page), ss') \<Longrightarrow>
   lifecycle_step w (w\<lparr>w_sessions := ss', w_requests := AList.update q (CallbackCaptured session) (w_requests w)\<rparr>)"
| request_callback_event:
  "map_of (w_requests w) q = Some (CallbackCaptured session) \<Longrightarrow>
   lifecycle_step w (w\<lparr>w_store := emit_callback_event stamp session (w_store w),
                       w_requests := AList.delete q (w_requests w)\<rparr>)"

inductive_cases lifecycle_stepE: "lifecycle_step w w'"

section \<open>Invariant\<close>

fun pc_matches :: "thread_pc option \<Rightarrow> RunStatus option \<Rightarrow> bool" where
  "pc_matches None st = (st = None)"
| "pc_matches (Some Reserved) st = (st = Some Pending)"
| "pc_matches (Some NotStarted) st = (st = Some Pending)"
| "pc_matches (Some Starting) st = (st = Some Pending)"
| "pc_matches (Some Started) st = (st = Some Running)"
| "pc_matches (Some (Executing _)) st = (st = Some Running)"
| "pc_matches (Some (Returned _ _)) st = (st = Some Running)"
| "pc_matches (Some Raised) st = (st = Some Running)"
| "pc_matches (Some (SetupFailed _)) st = (st = Some Running)"
| "pc_matches (Some Closing) st = (st = None \<or> (\<exists>x. st = Some x \<and> terminal x))"
| "pc_matches (Some Closed) st = (st = None \<or> (\<exists>x. st = Some x \<and> terminal x))"

definition live :: "thread_pc option \<Rightarrow> bool" where
  "live pc = (pc \<noteq> None \<and> pc \<noteq> Some Closed)"

definition slot_ok :: "RunStore \<Rightarrow> bool" where
  "slot_ok s =
     (\<forall>k. st_active_run_id s = Some k \<longleftrightarrow> (\<exists>st. status_of s k = Some st \<and> \<not> terminal st))"

definition session_owned :: "world \<Rightarrow> string \<Rightarrow> AuthSession \<Rightarrow> bool" where
  "session_owned w st session =
     (live (map_of (w_threads w) (as_run_id session)) \<or>
      (\<exists>q x. map_of (w_requests w) q = Some (Registered (as_run_id session) x) \<and> as_state x = st))"

definition world_inv :: "world \<Rightarrow> bool" where
  "world_inv w =
     (store_wf (w_store w) \<and> sessions_inv (w_sessions w) \<and> slot_ok (w_store w) \<and>
      (\<forall>k. pc_matches (map_of (w_threads w) k) (status_of (w_store w) k)) \<and>
      (\<forall>st session. map_of (w_sessions w) st = Some session \<longrightarrow> session_owned w st session))"

lemma slot_ok_single: "slot_ok s \<Longrightarrow> status_of s a = Some x \<Longrightarrow> \<not> terminal x \<Longrightarrow>
  status_of s b = Some y \<Longrightarrow> \<not> terminal y \<Longrightarrow> a = b"
  by (metis option.inject slot_ok_def)

lemma same_statuses_inv:
  assumes "same_statuses s t"
  shows "slot_ok s \<Longrightarrow> slot_ok t" and "status_of t k = status_of s k"
  using assms by (auto simp: same_statuses_def slot_ok_def)

lemma same_statuses_refl [simp]: "same_statuses s s"
  by (simp add: same_statuses_def)

lemma same_statuses_trans: "same_statuses s t \<Longrightarrow> same_statuses t u \<Longrightarrow> same_statuses s u"
  by (simp add: same_statuses_def)

lemma set_action_from_event_keeps:
  assumes "set_action_from_event now i sid p s = Inr s'"
  shows "same_statuses s s'" and "store_wf s \<Longrightarrow> store_wf s'"
  using assms
  by (auto simp: set_action_from_event_def split: option.splits json.splits
      intro: set_action_statuses set_participant_action_wf)

lemma browser_action_keeps:
  assumes "browser_action now i ev sid p s = Inr s'"
  shows "same_statuses s s' \<and> (store_wf s \<longrightarrow> store_wf s')"
proof -
  from assms have "set_action_from_event now i sid p s = Inr s' \<or> (\<exists>x. s' = clear_participant_action now i x s) \<or> s' = s"
    unfolding browser_action_def by (metis Inr_inject)
  then show ?thesis
    using set_action_from_event_keeps [of now i sid p s s'] clear_action_statuses [of s now i]
      clear_participant_action_wf [of s now i] by fastforce
qed

lemma emit_callback_event_keeps:
  "same_statuses s (emit_callback_event stamp x s)" "store_wf s \<Longrightarrow> store_wf (emit_callback_event stamp x s)"
  by (simp_all add: emit_callback_event_def emit_to_run_statuses emit_to_run_wf)

lemma announce_session_keeps:
  "same_statuses s (announce_session stamp i x s)" "store_wf s \<Longrightarrow> store_wf (announce_session stamp i x s)"
  by (simp_all add: announce_session_def emit_to_run_statuses emit_to_run_wf)

text \<open>What a step may do to each part, with the rest of the invariant kept.\<close>

lemma world_inv_store:
  assumes "world_inv w" and "same_statuses (w_store w) s'" and "store_wf (w_store w) \<longrightarrow> store_wf s'"
  shows "world_inv (w\<lparr>w_store := s'\<rparr>)"
  using assms same_statuses_inv [OF assms(2)] by (auto simp: world_inv_def session_owned_def)

lemma world_inv_sessions:
  assumes "world_inv w" and "sessions_inv ss'"
    and "\<And>st x. map_of ss' st = Some x \<Longrightarrow>
           (\<exists>y. map_of (w_sessions w) st = Some y \<and> as_run_id y = as_run_id x) \<or>
           live (map_of (w_threads w) (as_run_id x))"
  shows "world_inv (w\<lparr>w_sessions := ss'\<rparr>)"
  using assms by (fastforce simp: world_inv_def session_owned_def)

lemma world_inv_requests:
  assumes "world_inv w"
    and "\<And>q i x. map_of (w_requests w) q = Some (Registered i x) \<Longrightarrow> \<exists>q'. map_of rs q' = Some (Registered i x)"
  shows "world_inv (w\<lparr>w_requests := rs\<rparr>)"
  using assms by (fastforce simp: world_inv_def session_owned_def)

lemma world_inv_thread:
  assumes "world_inv w" and "live (Some pc)" and "store_wf s'" and "slot_ok s'"
    and "pc_matches (Some pc) (status_of s' i)"
    and "\<And>k. k \<noteq> i \<Longrightarrow> pc_matches (map_of (w_threads w) k) (status_of s' k)"
  shows "world_inv (w\<lparr>w_store := s', w_threads := AList.update i pc (w_threads w)\<rparr>)"
  using assms by (auto simp: world_inv_def session_owned_def alist.lookup_update)

lemma inv_parts:
  assumes "world_inv w"
  shows "store_wf (w_store w)" "sessions_inv (w_sessions w)" "slot_ok (w_store w)"
    "pc_matches (map_of (w_threads w) k) (status_of (w_store w) k)"
    "map_of (w_sessions w) st = Some x \<Longrightarrow> session_owned w st x"
  using assms by (auto simp: world_inv_def)

lemma registered_kept:
  assumes "map_of rs q = Some pc" and "pc \<noteq> Registered j y" and "map_of rs q' = Some (Registered j y)"
  shows "map_of (AList.update q z rs) q' = Some (Registered j y)"
    and "map_of (AList.delete q rs) q' = Some (Registered j y)"
  using assms by (auto simp: alist.lookup_update alist.lookup_delete)

lemma world_inv_pc:
  assumes "world_inv w" and "live (Some pc)" and "pc_matches (Some pc) (status_of (w_store w) i)"
  shows "world_inv (w\<lparr>w_threads := AList.update i pc (w_threads w)\<rparr>)"
  using world_inv_thread [OF assms(1,2) inv_parts(1,3) [OF assms(1)] assms(3)] inv_parts(4) [OF assms(1)] by simp

lemma launch_inv:
  assumes cr: "create_run now i env ps sn vr (w_store w) = Inr (r, s')"
    and fresh: "map_of (w_threads w) i = None" and inv: "world_inv w"
  shows "world_inv (w\<lparr>w_store := s', w_threads := AList.update i Reserved (w_threads w)\<rparr>)"
proof (rule world_inv_thread [OF inv])
  let ?s = "w_store w"
  note parts = inv_parts [OF inv]
  have none: "status_of ?s i = None" using parts(4) [of i] fresh by simp
  note st = create_run_statuses [OF cr parts(1) none]
  have all_term: "terminal (the (status_of ?s k))" if "status_of ?s k \<noteq> None" for k
    using parts(3) st(1) that by (auto simp: slot_ok_def)
  show "live (Some Reserved)" by (simp add: live_def)
  show "store_wf s'" using create_run_wf [OF cr parts(1)] .
  show "slot_ok s'"
    unfolding slot_ok_def
  proof
    fix k
    show "st_active_run_id s' = Some k \<longleftrightarrow> (\<exists>x. status_of s' k = Some x \<and> \<not> terminal x)"
      using st(2,3) st(4) [of k] all_term [of k] by (cases "k = i") auto
  qed
  show "pc_matches (Some Reserved) (status_of s' i)" using st(3) by simp
  fix k assume k: "k \<noteq> i"
  then consider "status_of s' k = status_of ?s k" | "status_of s' k = None" "status_of ?s k \<noteq> None"
    using st(4) [of k] by metis
  then show "pc_matches (map_of (w_threads w) k) (status_of s' k)"
  proof cases
    case 1
    then show ?thesis using parts(4) [of k] by simp
  next
    case 2
    then have "map_of (w_threads w) k \<in> {Some Closing, Some Closed}"
      using parts(4) [of k] all_term [of k]
      by (cases "(map_of (w_threads w) k, status_of ?s k)" rule: pc_matches.cases) auto
    then show ?thesis using 2(1) by auto
  qed
qed

lemma mark_running_inv:
  assumes "map_of (w_threads w) i = Some Starting" and inv: "world_inv w"
  shows "world_inv (w\<lparr>w_store := mark_running now i (w_store w), w_threads := AList.update i Started (w_threads w)\<rparr>)"
proof (rule world_inv_thread [OF inv])
  note parts = inv_parts [OF inv]
  have st: "status_of (w_store w) i = Some Pending" using parts(4) [of i] assms(1) by simp
  show "live (Some Started)" by (simp add: live_def)
  show "store_wf (mark_running now i (w_store w))" by (rule mark_running_wf [OF parts(1)])
  show "slot_ok (mark_running now i (w_store w))"
    using parts(3) st by (auto simp: slot_ok_def status_of_marks active_of_marks)
  show "pc_matches (Some Started) (status_of (mark_running now i (w_store w)) i)"
    using st by (simp add: status_of_marks)
  fix k assume "k \<noteq> i"
  then show "pc_matches (map_of (w_threads w) k) (status_of (mark_running now i (w_store w)) k)"
    using parts(4) [of k] by (simp add: status_of_marks)
qed

lemma finish_inv:
  assumes st: "status_of (w_store w) i = Some Running" and inv: "world_inv w"
    and s': "s' = mark_completed now i res (w_store w) \<or> s' = mark_failed now i err (w_store w)"
  shows "world_inv (w\<lparr>w_store := s', w_threads := AList.update i Closing (w_threads w)\<rparr>)"
proof (rule world_inv_thread [OF inv])
  note parts = inv_parts [OF inv]
  obtain x where x: "terminal x" and sx: "\<And>k. status_of s' k = (if k = i then Some x else status_of (w_store w) k)"
  proof -
    have "\<And>k. status_of s' k = (if k = i then Some (if s' = mark_completed now i res (w_store w) then Completed else Failed)
                                   else status_of (w_store w) k)"
      using s' st by (auto simp: status_of_marks)
    then show thesis using that [of "if s' = mark_completed now i res (w_store w) then Completed else Failed"] by auto
  qed
  have act: "st_active_run_id (w_store w) = Some i" using parts(3) st by (auto simp: slot_ok_def)
  then have none: "st_active_run_id s' = None" using s' st by (auto simp: active_of_marks)
  show "live (Some Closing)" by (simp add: live_def)
  show "store_wf s'" using s' parts(1) mark_completed_wf mark_failed_wf by blast
  show "slot_ok s'"
    unfolding slot_ok_def none sx using parts(3) act x by (auto simp: slot_ok_def split: if_splits)
  show "pc_matches (Some Closing) (status_of s' i)" using x sx by simp
  fix k assume "k \<noteq> i"
  then show "pc_matches (map_of (w_threads w) k) (status_of s' k)" using parts(4) [of k] sx by simp
qed

lemma cleanup_inv:
  assumes clo: "map_of (w_threads w) i = Some Closing" and inv: "world_inv w"
  shows "world_inv (w\<lparr>w_sessions := snd (discard_for_run i (w_sessions w)),
                     w_threads := AList.update i Closed (w_threads w)\<rparr>)"
proof -
  note parts = inv_parts [OF inv]
  have wf: "dict_wf (w_sessions w)" using parts(2) by (simp add: sessions_inv_def)
  have kept: "map_of (w_sessions w) st = Some x \<and> as_run_id x \<noteq> i"
    if "map_of (snd (discard_for_run i (w_sessions w))) st = Some x" for st x
    using that wf by (auto simp: discard_for_run_eq [OF wf] dest!: map_of_SomeD intro: map_of_is_SomeI)
  have "sessions_inv (snd (discard_for_run i (w_sessions w)))"
    using discard_for_run_inv [OF prod.collapse [symmetric] parts(2)] .
  moreover have "pc_matches (Some Closed) (status_of (w_store w) i)" using parts(4) [of i] clo by simp
  moreover have "session_owned w st x" if "map_of (snd (discard_for_run i (w_sessions w))) st = Some x" for st x
    using kept [OF that] parts(5) by blast
  ultimately show ?thesis
    using parts kept by (auto simp: world_inv_def session_owned_def alist.lookup_update)
qed

lemma request_register_inv:
  assumes q: "map_of (w_requests w) q = Some (RegisterChecked i st)"
    and reg: "register_session now token i st (w_sessions w) = Inr (session, ss')" and inv: "world_inv w"
  shows "world_inv (w\<lparr>w_sessions := ss', w_requests := AList.update q (Registered i session) (w_requests w)\<rparr>)"
proof -
  note parts = inv_parts [OF inv]
  have r: "register now token i st (w_sessions w) = Inr (session, ss')"
    using reg by (simp add: register_session_def split: sum.splits)
  have "session_owned (w\<lparr>w_sessions := ss', w_requests := AList.update q (Registered i session) (w_requests w)\<rparr>) k x"
    if look: "map_of ss' k = Some x" for k x
  proof (cases "k = as_state session")
    case True
    then have "x = session" using look register_Inr(2) [OF r] by (simp add: alist.lookup_update)
    then show ?thesis using register_Inr(3) [OF r] True
      by (auto simp: session_owned_def alist.lookup_update intro: exI [of _ q])
  next
    case False
    then have "map_of (w_sessions w) k = Some x" using look register_Inr(2) [OF r] by (simp add: alist.lookup_update)
    from parts(5) [OF this] registered_kept(1) [OF q] show ?thesis
      unfolding session_owned_def by (auto, blast)
  qed
  then show ?thesis using parts register_inv [OF r parts(2)] by (auto simp: world_inv_def)
qed

lemma inactive_response_Inr:
  "inactive_response (get_run i s) = Inr r \<Longrightarrow> \<exists>x. status_of s i = Some x \<and> \<not> terminal x"
  by (auto simp: inactive_response_def get_run_def snapshot_record_def status_of_def split: option.splits if_splits)

lemma other_session_owned:
  assumes q: "map_of (w_requests w) q = Some (Registered i session)" and own: "session_owned w k x"
    and diff: "k \<noteq> as_state session \<or> as_run_id x \<noteq> i"
    and keep: "\<And>q' j y. q' \<noteq> q \<Longrightarrow> map_of (w_requests w) q' = Some (Registered j y) \<Longrightarrow> map_of (w_requests w') q' = Some (Registered j y)"
    and thr: "w_threads w' = w_threads w"
  shows "session_owned w' k x"
proof (cases "live (map_of (w_threads w) (as_run_id x))")
  case False
  then obtain qa y where y: "map_of (w_requests w) qa = Some (Registered (as_run_id x) y)" "as_state y = k"
    using own by (auto simp: session_owned_def)
  then have "qa \<noteq> q" using diff q by auto
  from keep [OF this y(1)] y(2) show ?thesis unfolding session_owned_def by blast
qed (simp add: session_owned_def thr)

lemma rollback_inv:
  assumes q: "map_of (w_requests w) q = Some (Registered i session)"
    and rc: "register_recheck i session (w_store w) (w_sessions w) = Inl (response, ss')" and inv: "world_inv w"
  shows "world_inv (w\<lparr>w_sessions := ss', w_requests := AList.delete q (w_requests w)\<rparr>)" (is "world_inv ?w'")
proof -
  note parts = inv_parts [OF inv]
  have ss': "ss' = snd (discard_session i (as_state session) (w_sessions w))"
    using rc by (auto simp: register_recheck_def split: sum.splits)
  have "sessions_inv ss'" unfolding ss' using discard_session_inv [OF prod.collapse [symmetric] parts(2)] .
  moreover have "map_of (w_sessions w) k = Some x \<and> (k \<noteq> as_state session \<or> as_run_id x \<noteq> i)"
    if "map_of ss' k = Some x" for k x
    using that by (auto simp: ss' discard_session_def alist.lookup_delete split: option.splits if_splits)
  then have "session_owned ?w' k x" if "map_of ss' k = Some x" for k x
    using other_session_owned [OF q parts(5), of k x ?w'] that by (auto simp: alist.lookup_delete)
  ultimately show ?thesis using parts by (auto simp: world_inv_def)
qed

lemma confirm_inv:
  assumes q: "map_of (w_requests w) q = Some (Registered i session)"
    and rc: "register_recheck i session (w_store w) (w_sessions w) = Inr u" and inv: "world_inv w"
  shows "world_inv (w\<lparr>w_requests := AList.update q (Confirmed i session) (w_requests w)\<rparr>)" (is "world_inv ?w'")
proof -
  note parts = inv_parts [OF inv]
  obtain r where "inactive_response (get_run i (w_store w)) = Inr r" using rc by (auto simp: register_recheck_def split: sum.splits)
  then obtain x where "status_of (w_store w) i = Some x" "\<not> terminal x" using inactive_response_Inr by blast
  then have live: "live (map_of (w_threads w) i)"
    using parts(4) [of i] by (cases "(map_of (w_threads w) i, status_of (w_store w) i)" rule: pc_matches.cases)
      (auto simp: live_def)
  have "session_owned ?w' k y" if "map_of (w_sessions w) k = Some y" for k y
  proof (cases "as_run_id y = i")
    case True
    then show ?thesis using live by (simp add: session_owned_def)
  next
    case False
    then show ?thesis using other_session_owned [OF q parts(5) [OF that], of ?w'] by (auto simp: alist.lookup_update)
  qed
  then show ?thesis using parts by (auto simp: world_inv_def)
qed

lemma requests_keep_inv:
  assumes "world_inv w" and "map_of (w_requests w) q = Some pc" and "\<And>i x. pc \<noteq> Registered i x"
  shows "world_inv (w\<lparr>w_requests := AList.delete q (w_requests w)\<rparr>)"
proof (rule world_inv_requests [OF assms(1)])
  fix q' i x assume "map_of (w_requests w) q' = Some (Registered i x)"
  from registered_kept(2) [OF assms(2) assms(3) this]
  show "\<exists>q'. map_of (AList.delete q (w_requests w)) q' = Some (Registered i x)" by blast
qed

lemma requests_new_inv:
  assumes "world_inv w" and "map_of (w_requests w) q = None"
  shows "world_inv (w\<lparr>w_requests := AList.update q pc (w_requests w)\<rparr>)"
proof (rule world_inv_requests [OF assms(1)])
  fix q' i x assume q': "map_of (w_requests w) q' = Some (Registered i x)"
  then have "q' \<noteq> q" using assms(2) by auto
  with q' have "map_of (AList.update q pc (w_requests w)) q' = Some (Registered i x)"
    by (simp add: alist.lookup_update)
  then show "\<exists>q'. map_of (AList.update q pc (w_requests w)) q' = Some (Registered i x)" by blast
qed

lemma capture_code_runs:
  assumes "capture_code now st code ss = Inr (x, ss')" and "map_of ss' k = Some y"
  shows "\<exists>z. map_of ss k = Some z \<and> as_run_id z = as_run_id y"
  using assms by (auto simp: capture_code_def Let_def alist.lookup_update split: option.splits if_splits)

lemma capture_error_runs:
  assumes "capture_error now st err d ss = Inr (x, ss')" and "map_of ss' k = Some y"
  shows "\<exists>z. map_of ss k = Some z \<and> as_run_id z = as_run_id y"
  using assms by (auto simp: capture_error_def Let_def alist.lookup_update split: option.splits if_splits)

lemma lifecycle_step_inv: "lifecycle_step w w' \<Longrightarrow> world_inv w \<Longrightarrow> world_inv w'"
proof (induction rule: lifecycle_step.induct)
  case (launch_reserve now i env ps sn vr w r s')
  then show ?case by (rule launch_inv)
next
  case (launch_start w i)
  then show ?case using inv_parts(4) [OF launch_start(2), of i] by (intro world_inv_pc) (auto simp: live_def)
next
  case (launch_start_fails w i)
  then show ?case using inv_parts(4) [OF launch_start_fails(2), of i] by (intro world_inv_pc) (auto simp: live_def)
next
  case (thread_mark_running w i now)
  then show ?case by (rule mark_running_inv)
next
  case (thread_read_record w i)
  have st: "status_of (w_store w) i = Some Running" using inv_parts(4) [OF thread_read_record(2), of i] thread_read_record(1) by simp
  then obtain r where r: "get_run i (w_store w) = Some r" by (auto simp: status_of_def get_run_def)
  have "world_inv (w\<lparr>w_threads := AList.update i (Executing r) (w_threads w)\<rparr>)"
    by (rule world_inv_pc [OF thread_read_record(2)]) (use st in \<open>auto simp: live_def\<close>)
  then show ?case using r by simp
next
  case (thread_emit w i r stamp ev sid payload)
  then show ?case using emit_to_run_statuses emit_to_run_wf by (blast intro: world_inv_store)
next
  case (thread_browser_action w i r now ev sid payload s')
  then show ?case using browser_action_keeps by (blast intro: world_inv_store)
next
  case (thread_register w i r now token st session ss')
  note parts = inv_parts [OF thread_register(3)]
  note reg = register_Inr [OF thread_register(2)]
  show ?case
    by (rule world_inv_sessions [OF thread_register(3) register_inv [OF thread_register(2) parts(2)]])
       (use reg(2,3) thread_register(1) in \<open>auto simp: alist.lookup_update live_def split: if_splits\<close>)
next
  case (thread_capture_code w i r now st code session ss')
  note parts = inv_parts [OF thread_capture_code(3)]
  show ?case
    by (rule world_inv_sessions [OF thread_capture_code(3) capture_code_inv [OF thread_capture_code(2) parts(2)]])
       (use capture_code_runs [OF thread_capture_code(2)] in blast)
next
  case (thread_capture_error w i r now st err d session ss')
  note parts = inv_parts [OF thread_capture_error(3)]
  show ?case
    by (rule world_inv_sessions [OF thread_capture_error(3) capture_error_inv [OF thread_capture_error(2) parts(2)]])
       (use capture_error_runs [OF thread_capture_error(2)] in blast)
next
  case (thread_setup_fails w i r err)
  then show ?case using inv_parts(4) [OF thread_setup_fails(2), of i] by (intro world_inv_pc) (auto simp: live_def)
next
  case (thread_returns w i r result)
  then show ?case using inv_parts(4) [OF thread_returns(2), of i] by (intro world_inv_pc) (auto simp: live_def)
next
  case (thread_raises w i r)
  then show ?case using inv_parts(4) [OF thread_raises(2), of i] by (intro world_inv_pc) (auto simp: live_def)
next
  case (thread_persist_raises w i r result)
  then show ?case using inv_parts(4) [OF thread_persist_raises(2), of i] by (intro world_inv_pc) (auto simp: live_def)
next
  case (thread_mark_completed w i r result now)
  then show ?case using inv_parts(4) [OF thread_mark_completed(2), of i] by (intro finish_inv disjI1 [OF refl]) auto
next
  case (thread_persist_fails w i r result now err)
  then show ?case using inv_parts(4) [OF thread_persist_fails(2), of i] by (intro finish_inv disjI2 [OF refl]) auto
next
  case (thread_mark_setup_failed w i err now)
  then show ?case using inv_parts(4) [OF thread_mark_setup_failed(2), of i] by (intro finish_inv disjI2 [OF refl]) auto
next
  case (thread_handle_exception w i now)
  then show ?case using inv_parts(4) [OF thread_handle_exception(2), of i] by (intro finish_inv disjI2 [OF refl]) auto
next
  case (thread_cleanup w i)
  then show ?case by (rule cleanup_inv)
next
  case (request_check w q body st i r)
  then show ?case by (intro requests_new_inv)
next
  case (request_register w q i st now token session ss')
  then show ?case by (rule request_register_inv)
next
  case (request_register_refused w q i st now token response)
  then show ?case by (intro requests_keep_inv) auto
next
  case (request_rollback w q i session response ss')
  then show ?case by (rule rollback_inv)
next
  case (request_confirm w q i session x)
  then show ?case by (rule confirm_inv)
next
  case (request_announce w q i session stamp)
  have "world_inv (w\<lparr>w_store := announce_session stamp i session (w_store w)\<rparr>)"
    using request_announce(2) announce_session_keeps by (blast intro: world_inv_store)
  from requests_keep_inv [OF this, of q "Confirmed i session"] request_announce(1) show ?case by simp
next
  case (request_callback w q now query session page ss')
  note parts = inv_parts [OF request_callback(3)]
  obtain x where x: "map_of (w_sessions w) (as_state session) = Some x" "as_run_id session = as_run_id x"
    "ss' = AList.update (as_state session) session (w_sessions w)"
    using capture_Inr [OF request_callback(2) parts(2)] by blast
  have "world_inv (w\<lparr>w_sessions := ss'\<rparr>)"
    by (rule world_inv_sessions [OF request_callback(3)
          session_step_inv [OF callback_capture_step [OF request_callback(2)] parts(2)]])
       (use x in \<open>auto simp: alist.lookup_update split: if_splits\<close>)
  from requests_new_inv [OF this, of q] request_callback(1) show ?case by simp
next
  case (request_callback_event w q session stamp)
  have "world_inv (w\<lparr>w_store := emit_callback_event stamp session (w_store w)\<rparr>)"
    using request_callback_event(2) emit_callback_event_keeps by (blast intro: world_inv_store)
  from requests_keep_inv [OF this, of q "CallbackCaptured session"] request_callback_event(1) show ?case by simp
qed

lemma world_inv_init: "world_inv init_world"
  by (auto simp: world_inv_def init_world_def init_store_def init_sessions_def store_wf_def slot_ok_def
      status_of_def sessions_inv_empty)

interpretation lifecycle: inductive_invariant "\<lambda>w. w = init_world" lifecycle_step world_inv
  by unfold_locales (auto intro: world_inv_init lifecycle_step_inv)

section \<open>Consequences\<close>

text \<open>A status reached at the end of a run is never changed, only dropped with its record.\<close>

text \<open>What one step does to the status of one run.\<close>

lemma step_status:
  assumes "lifecycle_step w w'" and "world_inv w"
  shows "status_of (w_store w') k = status_of (w_store w) k \<or> status_of (w_store w') k = None \<or>
         map_of (w_threads w) k = None \<and> status_of (w_store w') k = Some Pending \<or>
         status_of (w_store w) k = Some Pending \<and> status_of (w_store w') k = Some Running \<or>
         status_of (w_store w) k = Some Running \<and> (\<exists>x. terminal x \<and> status_of (w_store w') k = Some x)"
  using assms
proof (induction rule: lifecycle_step.induct)
  case (launch_reserve now i env ps sn vr w r s')
  note parts = inv_parts [OF launch_reserve(3)]
  have none: "status_of (w_store w) i = None" using parts(4) [of i] launch_reserve(2) by simp
  note st = create_run_statuses [OF launch_reserve(1) parts(1) none]
  show ?case using st(3) st(4) [of k] launch_reserve(2) by (cases "k = i") auto
next
  case (thread_mark_running w i now)
  then show ?case using inv_parts(4) [OF thread_mark_running(2), of i] by (auto simp: status_of_marks)
next
  case (thread_emit w i r stamp ev sid payload)
  then show ?case using same_statuses_inv(2) [OF emit_to_run_statuses] by simp
next
  case (thread_browser_action w i r now ev sid payload s')
  then show ?case using same_statuses_inv(2) [OF conjunct1 [OF browser_action_keeps [OF thread_browser_action(2)]]] by simp
next
  case (thread_mark_completed w i r result now)
  then show ?case using inv_parts(4) [OF thread_mark_completed(2), of i] by (auto simp: status_of_marks)
next
  case (thread_persist_fails w i r result now err)
  then show ?case using inv_parts(4) [OF thread_persist_fails(2), of i] by (auto simp: status_of_marks)
next
  case (thread_mark_setup_failed w i err now)
  then show ?case using inv_parts(4) [OF thread_mark_setup_failed(2), of i] by (auto simp: status_of_marks)
next
  case (thread_handle_exception w i now)
  then show ?case using inv_parts(4) [OF thread_handle_exception(2), of i] by (auto simp: status_of_marks)
next
  case (request_announce w q i session stamp)
  then show ?case using same_statuses_inv(2) [OF announce_session_keeps(1)] by simp
next
  case (request_callback_event w q session stamp)
  then show ?case using same_statuses_inv(2) [OF emit_callback_event_keeps(1)] by simp
qed simp_all

lemma terminal_stable_step:
  assumes "lifecycle_step w w'" and "world_inv w" and "status_of (w_store w) k = Some x" and "terminal x"
  shows "status_of (w_store w') k = Some x \<or> status_of (w_store w') k = None"
  using step_status [OF assms(1,2), of k] assms(3,4) inv_parts(4) [OF assms(2), of k] by auto

lemma no_orphan_session:
  assumes "world_inv w" and "map_of (w_sessions w) st = Some x"
    and "\<forall>q pc. map_of (w_requests w) q = Some pc \<longrightarrow> (\<forall>i y. pc \<noteq> Registered i y)"
  shows "live (map_of (w_threads w) (as_run_id x))"
  using inv_parts(5) [OF assms(1,2)] assms(3) by (auto simp: session_owned_def)

section \<open>The end of a run\<close>

text \<open>
  How far a run is from its end: every move of its thread lowers this number, and it reaches 0 exactly with the status of
  the run. A run that could not be started does not move any more.
\<close>

fun thread_rank :: "thread_pc option \<Rightarrow> nat" where
  "thread_rank (Some Reserved) = 6"
| "thread_rank (Some NotStarted) = 5"
| "thread_rank (Some Starting) = 5"
| "thread_rank (Some Started) = 4"
| "thread_rank (Some (Executing _)) = 3"
| "thread_rank (Some (Returned _ _)) = 2"
| "thread_rank (Some Raised) = 1"
| "thread_rank (Some (SetupFailed _)) = 1"
| "thread_rank _ = 0"

abbreviation pc_of :: "string \<Rightarrow> world \<Rightarrow> thread_pc option" where
  "pc_of i w \<equiv> map_of (w_threads w) i"

definition moves :: "string \<Rightarrow> world \<Rightarrow> world \<Rightarrow> bool" where
  "moves i w w' = (pc_of i w' \<noteq> pc_of i w)"

definition can_move :: "string \<Rightarrow> world \<Rightarrow> bool" where
  "can_move i w = (\<exists>w'. lifecycle_step w w' \<and> moves i w w')"

lemma active_iff: "world_inv w \<Longrightarrow> st_active_run_id (w_store w) = Some i \<longleftrightarrow> (\<exists>x. status_of (w_store w) i = Some x \<and> \<not> terminal x)"
  using inv_parts(3) by (simp add: slot_ok_def)

lemma active_rank:
  assumes "world_inv w"
  shows "st_active_run_id (w_store w) = Some i \<longleftrightarrow> 0 < thread_rank (pc_of i w)"
  unfolding active_iff [OF assms] using inv_parts(4) [OF assms, of i]
  by (cases "(pc_of i w, status_of (w_store w) i)" rule: pc_matches.cases) auto

lemma moves_lower:
  assumes "lifecycle_step w w'" "world_inv w" "0 < thread_rank (pc_of i w)" "moves i w w'"
  shows "thread_rank (pc_of i w') < thread_rank (pc_of i w)"
  using assms
proof (induction rule: lifecycle_step.induct)
  case (launch_reserve now j env ps sn vr w r s')
  then show ?case by (cases "j = i") (auto simp: moves_def alist.lookup_update)
qed (auto simp: moves_def alist.lookup_update split: if_splits option.splits)

lemma not_started_stuck: "lifecycle_step w w' \<Longrightarrow> pc_of i w = Some NotStarted \<Longrightarrow> pc_of i w' = Some NotStarted"
  by (induction rule: lifecycle_step.induct) (auto simp: alist.lookup_update)

lemma closed_stays: "lifecycle_step w w' \<Longrightarrow> pc_of i w = Some Closed \<Longrightarrow> pc_of i w' = Some Closed"
  by (induction rule: lifecycle_step.induct) (auto simp: alist.lookup_update)

text \<open>A started run can always move on, whatever the executor did.\<close>

lemma active_can_move:
  assumes inv: "world_inv w" and act: "0 < thread_rank (pc_of i w)" and "pc_of i w \<noteq> Some NotStarted"
  shows "can_move i w"
proof -
  have step: "can_move i w" if "lifecycle_step w w'" "pc_of i w' \<noteq> pc_of i w" for w'
    using that unfolding can_move_def moves_def by blast
  consider "pc_of i w = Some Reserved" | "pc_of i w = Some Starting" | "pc_of i w = Some Started"
    | r where "pc_of i w = Some (Executing r)" | r x where "pc_of i w = Some (Returned r x)"
    | "pc_of i w = Some Raised" | e where "pc_of i w = Some (SetupFailed e)"
    using act assms(3) by (cases "pc_of i w" rule: thread_rank.cases) auto
  then show ?thesis
  proof cases
    case 1
    from step [OF launch_start [OF this]] this show ?thesis by (simp add: alist.lookup_update)
  next
    case 2
    from step [OF thread_mark_running [OF this, of datetime_min]] this show ?thesis by (simp add: alist.lookup_update)
  next
    case 3
    from step [OF thread_read_record [OF this]] this show ?thesis by (simp add: alist.lookup_update split: option.splits)
  next
    case (4 r)
    from step [OF thread_raises [OF this]] this show ?thesis by (simp add: alist.lookup_update)
  next
    case (5 r x)
    from step [OF thread_mark_completed [OF this, of datetime_min]] this show ?thesis by (simp add: alist.lookup_update)
  next
    case 6
    from step [OF thread_handle_exception [OF this, of datetime_min]] this show ?thesis by (simp add: alist.lookup_update)
  next
    case (7 e)
    from step [OF thread_mark_setup_failed [OF this, of datetime_min]] this show ?thesis by (simp add: alist.lookup_update)
  qed
qed

text \<open>Executions: infinite sequences of worlds, in which the process may also rest.\<close>

definition execution :: "(nat \<Rightarrow> world) \<Rightarrow> bool" where
  "execution \<sigma> = (\<forall>n. lifecycle_step (\<sigma> n) (\<sigma> (Suc n)) \<or> \<sigma> (Suc n) = \<sigma> n)"

text \<open>Weak fairness to one thread: if from some point on it can always move, it moves.\<close>

definition fair_to :: "string \<Rightarrow> (nat \<Rightarrow> world) \<Rightarrow> bool" where
  "fair_to i \<sigma> = (\<forall>n. (\<forall>m \<ge> n. can_move i (\<sigma> m)) \<longrightarrow> (\<exists>m \<ge> n. moves i (\<sigma> m) (\<sigma> (Suc m))))"

lemma execution_inv:
  assumes "execution \<sigma>" and "world_inv (\<sigma> 0)"
  shows "world_inv (\<sigma> n)"
proof (induction n)
  case (Suc n)
  from assms(1) have "lifecycle_step (\<sigma> n) (\<sigma> (Suc n)) \<or> \<sigma> (Suc n) = \<sigma> n" by (simp add: execution_def)
  then show ?case using Suc lifecycle_step_inv by auto
qed (rule assms(2))

lemma execution_stays:
  assumes "execution \<sigma>" and "\<And>w w'. lifecycle_step w w' \<Longrightarrow> P w \<Longrightarrow> P w'" and "P (\<sigma> n)" and "n \<le> m"
  shows "P (\<sigma> m)"
  using assms(4,3)
proof (induction rule: dec_induct)
  case (step k)
  then show ?case using assms(1,2) unfolding execution_def by metis
qed

lemma fair_run_ends:
  assumes ex: "execution \<sigma>" and inv: "world_inv (\<sigma> 0)" and fair: "fair_to i \<sigma>"
    and started: "\<And>m. pc_of i (\<sigma> m) \<noteq> Some NotStarted"
  shows "\<exists>m \<ge> n. thread_rank (pc_of i (\<sigma> m)) = 0"
proof (induction "thread_rank (pc_of i (\<sigma> n))" arbitrary: n rule: less_induct)
  case less
  show ?case
  proof (rule ccontr)
    assume no: "\<not> ?case"
    then have pos: "0 < thread_rank (pc_of i (\<sigma> m))" if "n \<le> m" for m using that by auto
    then have "\<forall>m \<ge> n. can_move i (\<sigma> m)" using active_can_move [OF execution_inv [OF ex inv] _ started] by blast
    then have "\<exists>m \<ge> n. moves i (\<sigma> m) (\<sigma> (Suc m))" using fair by (simp add: fair_to_def)
    define m where "m = (LEAST m. n \<le> m \<and> moves i (\<sigma> m) (\<sigma> (Suc m)))"
    have m: "n \<le> m" "moves i (\<sigma> m) (\<sigma> (Suc m))"
      using LeastI_ex [OF \<open>\<exists>m \<ge> n. moves i (\<sigma> m) (\<sigma> (Suc m))\<close>] by (auto simp: m_def)
    have still: "pc_of i (\<sigma> (Suc k)) = pc_of i (\<sigma> k)" if "n \<le> k" "k < m" for k
      using not_less_Least [of k "\<lambda>m. n \<le> m \<and> moves i (\<sigma> m) (\<sigma> (Suc m))"] that by (auto simp: m_def moves_def)
    have "pc_of i (\<sigma> m) = pc_of i (\<sigma> n)" using m(1) still
      by (induction rule: dec_induct) auto
    moreover have "lifecycle_step (\<sigma> m) (\<sigma> (Suc m))" using ex m(2) by (auto simp: execution_def moves_def)
    ultimately have "thread_rank (pc_of i (\<sigma> (Suc m))) < thread_rank (pc_of i (\<sigma> n))"
      using moves_lower [OF _ execution_inv [OF ex inv] pos [OF m(1)] m(2)] by simp
    from less [OF this] no m(1) show False by (meson Suc_leD le_trans)
  qed
qed

section \<open>The launch snapshot\<close>

lemma append_planned_eq:
  "append_planned sel steps planned =
     planned @ map (\<lambda>(n, step). planned_step (length planned + n) step)
       (enumerate 0 (filter (\<lambda>step. step_id step \<in> set sel) steps))"
proof (induction steps arbitrary: planned)
  case (Cons step steps)
  have shift: "map (\<lambda>(n, s). planned_step (Suc (length planned + n)) s) (enumerate 0 xs) =
               map (\<lambda>(n, s). planned_step (length planned + n) s) (enumerate (Suc 0) xs)" for xs
    by (rule nth_equalityI) (auto simp: nth_enumerate_eq)
  show ?case unfolding append_planned.simps Cons.IH by (simp add: shift)
qed simp

lemma manifest_snapshot_eq:
  "manifest_planned_steps_snapshot (Some m) (Some p) =
     map (\<lambda>(n, step). planned_step n step)
       (enumerate 0 (filter (\<lambda>step. step_id step \<in> set (selected_step_ids p)) (mf_steps m)))"
  by (auto simp: manifest_planned_steps_snapshot_def Let_def append_planned_eq)

section \<open>Evidence\<close>

lemma jget_update: "jget (AList.update k v obj) key = (if key = k then v else jget obj key)"
  by (auto simp: jget_def alist.lookup_update)

lemma mark_development_eligible:
  assumes "jget validation ''executionMode'' = JStr ''development''"
    and "jget result ''certificationEligibility'' = JObj e"
  shows "\<exists>e'. jget (mark_development_result_evidence validation result) ''certificationEligibility'' = JObj e' \<and>
           jget e' ''eligible'' = JBool False \<and> jget e' ''reason'' = JStr DEVELOPMENT_REASON"
proof -
  have "\<exists>m. (case jget result ''metadata'' of
              JObj metadata \<Rightarrow>
                AList.update ''metadata''
                  (JObj (AList.update ''executionMode'' (JStr ''development'') metadata)) result
            | _ \<Rightarrow> AList.update ''metadata'' (JObj [(''executionMode'', JStr ''development'')]) result)
          = AList.update ''metadata'' m result"
    by (cases "jget result ''metadata''") auto
  then show ?thesis using assms
    by (auto simp: mark_development_result_evidence_def Let_def jget_update)
qed

lemma gone_stable_step:
  assumes "lifecycle_step w w'" and "world_inv w"
    and "status_of (w_store w) k = None" and "map_of (w_threads w) k \<noteq> None"
  shows "status_of (w_store w') k = None"
  using step_status [OF assms(1,2), of k] assms(3,4) by auto

lemma threads_kept: "lifecycle_step w w' \<Longrightarrow> map_of (w_threads w) k \<noteq> None \<Longrightarrow> map_of (w_threads w') k \<noteq> None"
  by (induction rule: lifecycle_step.induct) (auto simp: alist.lookup_update)

lemma terminal_final:
  assumes "lifecycle_step\<^sup>*\<^sup>* w w'" and "world_inv w" and "status_of (w_store w) k = Some x" and "terminal x"
  shows "status_of (w_store w') k = Some x \<or> status_of (w_store w') k = None"
proof -
  have thr: "map_of (w_threads w) k \<noteq> None" using inv_parts(4) [OF assms(2), of k] assms(3) by (cases "map_of (w_threads w) k") auto
  have "world_inv w' \<and> map_of (w_threads w') k \<noteq> None \<and>
        (status_of (w_store w') k = Some x \<or> status_of (w_store w') k = None)"
    using assms(1)
  proof (induction rule: rtranclp_induct)
    case base
    then show ?case using assms thr by simp
  next
    case (step y z)
    then show ?case
      using lifecycle_step_inv [OF step(2)] threads_kept [OF step(2), of k]
        terminal_stable_step [OF step(2) _ _ assms(4), of k] gone_stable_step [OF step(2), of k] by metis
  qed
  then show ?thesis by (elim conjE)
qed

section \<open>A concrete process\<close>

text \<open>One run, started and executing, whose thread has registered an auth session.\<close>

definition sample_store :: RunStore where
  "sample_store = snd (projr (create_run datetime_min ''run-1'' [] [] None None init_store))"

definition world0 :: world where
  "world0 = init_world\<lparr>w_store := sample_store, w_threads := [(''run-1'', Reserved)]\<rparr>"

definition world1 :: world where
  "world1 = world0\<lparr>w_threads := [(''run-1'', Starting)]\<rparr>"

definition world2 :: world where
  "world2 = world1\<lparr>w_store := mark_running datetime_min ''run-1'' sample_store, w_threads := [(''run-1'', Started)]\<rparr>"

definition world3 :: world where
  "world3 = world2\<lparr>w_threads := [(''run-1'', Executing (the (get_run ''run-1'' (w_store world2))))]\<rparr>"

definition world4 :: world where
  "world4 = world3\<lparr>w_sessions := sample_sessions\<rparr>"

definition world4r :: world where
  "world4r = world4\<lparr>w_threads := [(''run-1'', Raised)]\<rparr>"

definition world5 :: world where
  "world5 = world4r\<lparr>w_store := mark_failed datetime_min ''run-1'' ''An internal error occurred'' (w_store world4r),
                    w_threads := [(''run-1'', Closing)]\<rparr>"

definition world6 :: world where
  "world6 = world5\<lparr>w_sessions := snd (discard_for_run ''run-1'' (w_sessions world5)), w_threads := [(''run-1'', Closed)]\<rparr>"

lemma sample_store_create: "\<exists>r. create_run datetime_min ''run-1'' [] [] None None init_store = Inr (r, sample_store)"
  by (simp add: sample_store_def create_run_def init_store_def Let_def)

lemma sample_status: "status_of sample_store ''run-1'' = Some Pending"
  by (simp add: sample_store_def create_run_def init_store_def Let_def prune_terminal_records_def
      MAX_TERMINAL_RECORDS_def status_of_def)

lemma sample_steps:
  "lifecycle_step init_world world0" "lifecycle_step world0 world1" "lifecycle_step world1 world2" "lifecycle_step world2 world3"
  "lifecycle_step world3 world4" "lifecycle_step world4 world4r" "lifecycle_step world4r world5" "lifecycle_step world5 world6"
proof -
  show "lifecycle_step init_world world0"
    using launch_reserve [of datetime_min "''run-1''" "[]" "[]" None None init_world _ sample_store] sample_store_create
    by (auto simp: world0_def init_world_def)
  show "lifecycle_step world0 world1"
    using launch_start [of world0 "''run-1''"] by (simp add: world0_def world1_def)
  show "lifecycle_step world1 world2"
    using thread_mark_running [of world1 "''run-1''" datetime_min] by (simp add: world0_def world1_def world2_def)
  have "get_run ''run-1'' (w_store world2) \<noteq> None"
    using sample_status by (auto simp: world2_def get_run_def map_of_mark_running status_of_def)
  then show "lifecycle_step world2 world3"
    using thread_read_record [of world2 "''run-1''"] by (auto simp: world3_def) (simp add: world2_def)
  have "\<exists>s. register datetime_min ''token-from-the-operating-system'' ''run-1'' None init_sessions = Inr (s, sample_sessions)"
    by (simp add: sample_sessions_def register_def Let_def init_sessions_def run_sessions_def MAX_SESSIONS_PER_RUN_def)
  then obtain s where "register datetime_min ''token-from-the-operating-system'' ''run-1'' None (w_sessions world3) = Inr (s, sample_sessions)"
    by (auto simp: world3_def world2_def world1_def world0_def init_world_def)
  then show "lifecycle_step world3 world4"
    using thread_register [of world3 "''run-1''"] by (fastforce simp: world4_def world3_def)
  show "lifecycle_step world4 world4r"
    using thread_raises [of world4 "''run-1''"] by (auto simp: world4r_def world4_def world3_def)
  show "lifecycle_step world4r world5"
    using thread_handle_exception [of world4r "''run-1''" datetime_min] by (simp add: world5_def world4r_def)
  show "lifecycle_step world5 world6"
    using thread_cleanup [of world5 "''run-1''"] by (auto simp: world6_def world5_def)
qed

abbreviation reachable_world :: "world \<Rightarrow> bool" where
  "reachable_world \<equiv> reachable_from (\<lambda>w. w = init_world) lifecycle_step"

lemma reachable_next: "reachable_world w \<Longrightarrow> lifecycle_step w w' \<Longrightarrow> reachable_world w'"
  by (erule (1) reach_step)

lemma sample_reachable: "reachable_world world0" "reachable_world world1" "reachable_world world4" "reachable_world world5"
proof -
  have "reachable_world init_world" by (simp add: reach_init)
  then show r0: "reachable_world world0" using sample_steps(1) by (rule reachable_next)
  then show r1: "reachable_world world1" using sample_steps(2) by (rule reachable_next)
  then have "reachable_world world2" using sample_steps(3) by (rule reachable_next)
  then have "reachable_world world3" using sample_steps(4) by (rule reachable_next)
  then show r4: "reachable_world world4" using sample_steps(5) by (rule reachable_next)
  then have "reachable_world world4r" using sample_steps(6) by (rule reachable_next)
  then show "reachable_world world5" using sample_steps(7) by (rule reachable_next)
qed

text \<open>The whole run as an execution.\<close>

definition sample_execution :: "nat \<Rightarrow> world" where
  "sample_execution n =
     (if n < 8 then [world0, world1, world2, world3, world4, world4r, world5, world6] ! n else world6)"

lemma sample_execution_facts: "execution sample_execution" "fair_to ''run-1'' sample_execution"
proof -
  have "lifecycle_step (sample_execution n) (sample_execution (Suc n)) \<or> sample_execution (Suc n) = sample_execution n" for n
  proof -
    consider "n \<in> {0, 1, 2, 3, 4, 5, 6}" | "7 \<le> n" by fastforce
    then show ?thesis using sample_steps by cases (auto simp: sample_execution_def nth_Cons')
  qed
  then show "execution sample_execution" by (simp add: execution_def)
  have "\<not> can_move ''run-1'' world6"
    using closed_stays [of world6 _ "''run-1''"] by (auto simp: can_move_def moves_def) (auto simp: world6_def)
  then have "\<not> can_move ''run-1'' (sample_execution (n + 8))" for n by (simp add: sample_execution_def)
  then show "fair_to ''run-1'' sample_execution" unfolding fair_to_def by (metis le_add1)
qed

section \<open>Properties\<close>

text \<open>C2: Under every interleaving of run threads, registrations and callbacks at most one run is pending or running, and it is
  the one that occupies the store's active slot, so two runs never execute at once.\<close>

theorem at_most_one_active_run:
  assumes "reachable_world w"
    and "status_of (w_store w) a = Some x" "\<not> terminal x" and "status_of (w_store w) b = Some y" "\<not> terminal y"
  shows "a = b \<and> st_active_run_id (w_store w) = Some a"
  using lifecycle.holds_reachable [OF assms(1)] assms(2-5) slot_ok_single
  by (metis inv_parts(3) slot_ok_def)

theorem at_most_one_active_run_witness: "st_active_run_id (w_store world1) = Some ''run-1''"
  using at_most_one_active_run [OF sample_reachable(2), of "''run-1''" Pending "''run-1''" Pending] sample_status
  by (simp add: world1_def world0_def)

text \<open>C3: No auth session outlives its run: once a run's thread has finished its cleanup, a session of that run exists only
  while the request that registered it has not yet re-validated the run (and will then roll it back).\<close>

theorem no_session_outlives_its_run:
  assumes "reachable_world w" and "map_of (w_sessions w) st = Some x"
    and "\<forall>q i y. map_of (w_requests w) q = Some (Registered i y) \<longrightarrow> i \<noteq> as_run_id x \<or> as_state y \<noteq> st"
  shows "\<exists>pc. map_of (w_threads w) (as_run_id x) = Some pc \<and> pc \<noteq> Closed"
  using inv_parts(5) [OF lifecycle.holds_reachable [OF assms(1)] assms(2)] assms(3)
  by (auto simp: session_owned_def live_def)

theorem no_session_outlives_its_run_witness:
  "\<exists>x pc. map_of (w_sessions world4) ''token-from-the-operating-system'' = Some x \<and>
     map_of (w_threads world4) (as_run_id x) = Some pc \<and> pc \<noteq> Closed"
proof -
  obtain x where x: "map_of (w_sessions world4) ''token-from-the-operating-system'' = Some x"
    by (simp add: world4_def sample_sessions_def register_def Let_def init_sessions_def run_sessions_def
        MAX_SESSIONS_PER_RUN_def)
  have "w_requests world4 = []" by (simp add: world4_def world3_def world2_def world1_def world0_def init_world_def)
  with no_session_outlives_its_run [OF sample_reachable(3) x] x show ?thesis by auto
qed

text \<open>C26: A run that has completed or failed never changes status again, whatever happens afterwards; its record can only be
  evicted.\<close>

theorem terminal_status_is_final:
  assumes "reachable_world w" and "lifecycle_step\<^sup>*\<^sup>* w w'"
    and "status_of (w_store w) k = Some x" and "terminal x"
  shows "status_of (w_store w') k = Some x \<or> status_of (w_store w') k = None"
  using terminal_final [OF assms(2) lifecycle.holds_reachable [OF assms(1)] assms(3,4)] .

theorem terminal_status_is_final_witness:
  "status_of (w_store world6) ''run-1'' = Some Failed \<or> status_of (w_store world6) ''run-1'' = None"
proof -
  have "status_of (w_store world5) ''run-1'' = Some Failed"
    using sample_status by (simp add: world5_def world4r_def world4_def world3_def world2_def status_of_marks)
  moreover have "lifecycle_step\<^sup>*\<^sup>* world5 world6" using sample_steps(8) by (rule r_into_rtranclp)
  ultimately show ?thesis using terminal_status_is_final [OF sample_reachable(4), of world6 "''run-1''" Failed] by simp
qed

text \<open>C27: The single run slot is given back. Take an execution of the process that is fair to the thread of the active run: when
  that thread can go on, it eventually does (so its executor call ends, with whatever outcome). Whatever the executor, the
  writing of the artifacts, the other threads and the requests do, the run is at some point no longer active, and in a
  terminal status if it is still stored; or else the thread of the run could not be started, and then the slot stays
  occupied for ever and every later launch is refused.\<close>

theorem active_run_ends:
  assumes "reachable_world (\<sigma> 0)" and "execution \<sigma>" and "fair_to i \<sigma>"
    and "st_active_run_id (w_store (\<sigma> 0)) = Some i"
  shows "(\<exists>n. st_active_run_id (w_store (\<sigma> n)) \<noteq> Some i \<and>
              (\<forall>x. status_of (w_store (\<sigma> n)) i = Some x \<longrightarrow> terminal x)) \<or>
         (\<exists>n. pc_of i (\<sigma> n) = Some NotStarted \<and>
              (\<forall>m \<ge> n. st_active_run_id (w_store (\<sigma> m)) = Some i \<and>
                 (\<forall>now j env ps sn vr. \<exists>e. create_run now j env ps sn vr (w_store (\<sigma> m)) = Inl e)))"
proof -
  have inv0: "world_inv (\<sigma> 0)" by (rule lifecycle.holds_reachable [OF assms(1)])
  note inv = execution_inv [OF assms(2) inv0]
  show ?thesis
  proof (cases "\<exists>n. pc_of i (\<sigma> n) = Some NotStarted")
    case False
    then obtain n where n: "thread_rank (pc_of i (\<sigma> n)) = 0" using fair_run_ends [OF assms(2) inv0 assms(3), of 0] by auto
    then have "st_active_run_id (w_store (\<sigma> n)) \<noteq> Some i" using active_rank [OF inv, of n i] by simp
    then show ?thesis using active_iff [OF inv, of n i] by blast
  next
    case True
    then obtain n where n: "pc_of i (\<sigma> n) = Some NotStarted" by blast
    have "st_active_run_id (w_store (\<sigma> m)) = Some i" if "n \<le> m" for m
    proof -
      have "pc_of i (\<sigma> m) = Some NotStarted"
        by (rule execution_stays [of \<sigma> "\<lambda>w. pc_of i w = Some NotStarted", OF assms(2) _ n that]) (rule not_started_stuck)
      then show ?thesis using active_rank [OF inv, of m i] by simp
    qed
    then show ?thesis using n by (auto simp: create_run_def)
  qed
qed

theorem active_run_ends_witness:
  "\<exists>n. st_active_run_id (w_store (sample_execution n)) \<noteq> Some ''run-1'' \<or> pc_of ''run-1'' (sample_execution n) = Some NotStarted"
proof -
  have zero: "sample_execution 0 = world0" by (simp add: sample_execution_def)
  have "st_active_run_id (w_store (sample_execution 0)) = Some ''run-1''"
    unfolding zero using active_iff [OF lifecycle.holds_reachable [OF sample_reachable(1)]] sample_status by (simp add: world0_def)
  from active_run_ends [OF _ sample_execution_facts this] sample_reachable(1) zero show ?thesis by auto
qed

text \<open>The planned-step snapshot of a manifest run lists exactly the selected steps of the manifest, in manifest order,
  numbered 0, 1, 2, ...\<close>

lemma launch_snapshot_lists_selected_steps:
  "map rp_step_id (manifest_planned_steps_snapshot (Some m) (Some p)) =
     filter (\<lambda>i. i \<in> set (selected_step_ids p)) (map step_id (mf_steps m)) \<and>
   map rp_order (manifest_planned_steps_snapshot (Some m) (Some p)) =
     [0..<length (manifest_planned_steps_snapshot (Some m) (Some p))]"
proof -
  let ?xs = "filter (\<lambda>step. step_id step \<in> set (selected_step_ids p)) (mf_steps m)"
  have "map rp_step_id (map (\<lambda>(n, step). planned_step n step) (enumerate k xs)) = map step_id xs" for k xs
    by (induction xs arbitrary: k) (auto simp: planned_step_def)
  moreover have "map rp_order (map (\<lambda>(n, step). planned_step n step) (enumerate k xs)) = [k..<k + length xs]" for k xs
    by (rule nth_equalityI) (auto simp: nth_enumerate_eq planned_step_def)
  moreover have "map step_id ?xs = filter (\<lambda>i. i \<in> set (selected_step_ids p)) (map step_id (mf_steps m))"
    by (simp add: filter_map comp_def)
  ultimately show ?thesis unfolding manifest_snapshot_eq by simp
qed

text \<open>A run launched from a plan validated in development mode is never presented as certification evidence: whatever the
  executor reported, the stored result says not eligible, with the development-mode reason first.\<close>

lemma development_run_is_not_evidence:
  assumes "rr_validation_result record = Some validation"
    and "jget validation ''executionMode'' = JStr ''development''"
  shows "\<exists>e. jget (attach_plan_evidence (result_to_json_object tv r) record) ''certificationEligibility'' = JObj e \<and>
           jget e ''eligible'' = JBool False \<and> jget e ''reason'' = JStr DEVELOPMENT_REASON"
proof -
  let ?res = "result_to_json_object tv r"
  have "jget (case rr_plan_snapshot record of
              Some snapshot \<Rightarrow> AList.update ''testPlanSnapshot'' (JObj snapshot) ?res | None \<Rightarrow> ?res)
          ''certificationEligibility'' = jget ?res ''certificationEligibility''"
    by (auto simp: jget_update split: option.split)
  then obtain e where "jget (AList.update ''testPlanValidation'' (JObj validation) (case rr_plan_snapshot record of
              Some snapshot \<Rightarrow> AList.update ''testPlanSnapshot'' (JObj snapshot) ?res | None \<Rightarrow> ?res))
          ''certificationEligibility'' = JObj e"
    by (simp add: jget_update result_to_json_object_def)
  from mark_development_eligible [OF assms(2) this] assms(1) show ?thesis
    by (auto simp: attach_plan_evidence_def Let_def)
qed

theorem development_run_is_not_evidence_witness:
  "\<exists>e. jget (attach_plan_evidence (result_to_json_object ''2.0'' (build_smoke_check_result
         [sample_result ''accounts'' CPassed True] datetime_min datetime_min None
         (Some \<lparr>ap_schema_version = ''v1'', ap_approved_tool_versions = [''2.0'']\<rparr>) Complete None []))
       ((fst (projr (create_run datetime_min ''run-1'' [] [] None (Some [(''executionMode'', JStr ''development'')]) init_store)))))
     ''certificationEligibility'' = JObj e \<and> jget e ''eligible'' = JBool False"
proof -
  let ?r = "fst (projr (create_run datetime_min ''run-1'' [] [] None (Some [(''executionMode'', JStr ''development'')]) init_store))"
  have "rr_validation_result ?r = Some [(''executionMode'', JStr ''development'')]"
    by (simp add: create_run_def init_store_def Let_def)
  from development_run_is_not_evidence [OF this] show ?thesis by auto
qed

end
