(* ===== verification/Result_Gate.thy ===== *)
theory Result_Gate
  imports Results
begin

text \<open>
  The operational gate (\<open>conformance/result_gate.py\<close>): whether a decoded result file is passing
  conformance evidence. The test \<open>catalogue.get("api") in {...}\<close> hashes its left operand, so an
  array or object there raises \<open>TypeError\<close>, which the module's own exception does not cover.
\<close>

datatype gate_error = StructuredResultGateError string | GateTypeError

definition RESULT_STATUSES :: "string list" where
  "RESULT_STATUSES = [''passed'', ''failed'', ''warn'', ''skipped'']"

definition gate_object :: "json \<Rightarrow> string \<Rightarrow> gate_error + json_object" where
  "gate_object = read_object StructuredResultGateError"

definition gate_array :: "json \<Rightarrow> string \<Rightarrow> gate_error + json list" where
  "gate_array v location =
     (case v of JArr xs \<Rightarrow> Inr xs
      | _ \<Rightarrow> Inl (StructuredResultGateError (location @ '' must be a JSON array'')))"

definition gate_status :: "json_object \<Rightarrow> string \<Rightarrow> gate_error + string" where
  "gate_status v location =
     (let err = Inl (StructuredResultGateError
                  (location @ ''.status must be one of: '' @ join '', '' (sort RESULT_STATUSES)))
      in case jget v ''status'' of
           JStr s \<Rightarrow> (if s \<in> set RESULT_STATUSES then Inr s else err)
         | _ \<Rightarrow> err)"

definition index_location :: "string \<Rightarrow> nat \<Rightarrow> string" where
  "index_location location index = location @ ''['' @ str_nat index @ '']''"

definition gate_statuses :: "json list \<Rightarrow> string \<Rightarrow> gate_error + string list" where
  "gate_statuses values location =
     rtraverse (\<lambda>(index, v).
       rbind (gate_object v (index_location location index))
         (\<lambda>obj. gate_status obj (index_location location index))) (enumerate 0 values)"

definition gate_non_negative_integer :: "json \<Rightarrow> string \<Rightarrow> gate_error + int" where
  "gate_non_negative_integer v location =
     (case v of
        JInt i \<Rightarrow> (if i < 0 then Inl (StructuredResultGateError (location @ '' must be a non-negative integer''))
                   else Inr i)
      | _ \<Rightarrow> Inl (StructuredResultGateError (location @ '' must be a non-negative integer'')))"

definition reject_failed_trace_case :: "nat \<Rightarrow> nat \<times> json \<Rightarrow> gate_error + unit" where
  "reject_failed_trace_case group_index = (\<lambda>(case_index, raw_case).
     let location = index_location
           (index_location ''result.catalogue.traceGroups'' group_index @ ''.testCases'') case_index
     in rbind (gate_object raw_case location) (\<lambda>c.
        rbind (gate_status c location) (\<lambda>status.
        rbind (rguard (status \<noteq> ''failed'')
                 (StructuredResultGateError (location @ '' is a failed conformance case''))) (\<lambda>_.
        rbind (gate_array (jget c ''steps'') (location @ ''.steps'')) (\<lambda>nested_steps.
        rbind (gate_statuses nested_steps (location @ ''.steps'')) (\<lambda>statuses.
        rguard (''failed'' \<notin> set statuses)
          (StructuredResultGateError (location @ ''.steps contains a failed conformance step''))))))))"

definition reject_failed_trace_cases :: "json list \<Rightarrow> nat \<Rightarrow> gate_error + unit" where
  "reject_failed_trace_cases cases group_index =
     rbind (rtraverse (reject_failed_trace_case group_index) (enumerate 0 cases)) (\<lambda>_. Inr ())"

definition gate_trace_group :: "nat \<times> json \<Rightarrow> gate_error + nat" where
  "gate_trace_group = (\<lambda>(group_index, raw_group).
     let location = index_location ''result.catalogue.traceGroups'' group_index
     in rbind (gate_object raw_group location) (\<lambda>group.
        rbind (gate_status group location) (\<lambda>group_status.
        rbind (rguard (group_status \<noteq> ''failed'')
                 (StructuredResultGateError (location @ '' is a failed conformance scenario''))) (\<lambda>_.
        rbind (gate_array (jget group ''testCases'') (location @ ''.testCases'')) (\<lambda>cases.
        rbind (reject_failed_trace_cases cases group_index) (\<lambda>_. Inr (length cases)))))))"

definition in_dcr_apis :: "json \<Rightarrow> gate_error + bool" where
  "in_dcr_apis v =
     (case v of
        JArr _ \<Rightarrow> Inl GateTypeError
      | JObj _ \<Rightarrow> Inl GateTypeError
      | JStr s \<Rightarrow> Inr (s \<in> {''dcr'', ''dynamic-client-registration''})
      | _ \<Rightarrow> Inr False)"

definition gate_catalogue :: "json \<Rightarrow> gate_error + nat" where
  "gate_catalogue catalogue =
     (if catalogue = JNull then Inr 0
      else
        rbind (gate_object catalogue ''result.catalogue'') (\<lambda>obj.
        rbind (in_dcr_apis (jget obj ''api'')) (\<lambda>is_dcr_result.
        rbind (rguard (\<not> (is_dcr_result \<and> jget obj ''traceGroups'' = JNull))
                 (StructuredResultGateError ''DCR result.catalogue.traceGroups is required'')) (\<lambda>_.
        rbind (if jget obj ''traceGroups'' = JNull then Inr 0
               else rbind (gate_array (jget obj ''traceGroups'') ''result.catalogue.traceGroups'') (\<lambda>groups.
                    rbind (rtraverse gate_trace_group (enumerate 0 groups)) (\<lambda>counts.
                    Inr (sum_list counts)))) (\<lambda>case_count.
        rbind (rguard (\<not> (is_dcr_result \<and> case_count = 0))
                 (StructuredResultGateError ''DCR result must contain traceable conformance cases'')) (\<lambda>_.
        Inr case_count))))))"

definition validate_structured_conformance_result :: "json \<Rightarrow> gate_error + json_object" where
  "validate_structured_conformance_result raw_result =
     rbind (gate_object raw_result ''result'') (\<lambda>result.
     rbind (rguard (jget result ''status'' = JStr ''passed'')
              (StructuredResultGateError (''result.status must be '' @ repr_str ''passed''))) (\<lambda>_.
     rbind (gate_object (jget result ''summary'') ''result.summary'') (\<lambda>summary.
     rbind (gate_non_negative_integer (jget summary ''failed'') ''result.summary.failed'') (\<lambda>reported_failed.
     rbind (rguard (reported_failed = 0)
              (StructuredResultGateError ''result.summary.failed must be zero'')) (\<lambda>_.
     rbind (gate_array (jget result ''steps'') ''result.steps'') (\<lambda>steps.
     rbind (rguard (steps \<noteq> [])
              (StructuredResultGateError ''result.steps must contain at least one conformance step'')) (\<lambda>_.
     rbind (gate_statuses steps ''result.steps'') (\<lambda>step_statuses.
     let computed_failed = length (filter (\<lambda>s. s = ''failed'') step_statuses)
     in rbind (rguard (computed_failed = 0)
                 (StructuredResultGateError (''result.steps contains '' @ str_nat computed_failed
                    @ '' failed conformance step(s)''))) (\<lambda>_.
        rbind (rguard (int computed_failed = reported_failed)
                 (StructuredResultGateError ''result.summary.failed does not match result.steps'')) (\<lambda>_.
        rbind (gate_catalogue (jget result ''catalogue'')) (\<lambda>case_count.
        Inr [(''status'', JStr ''passed''), (''failed'', JInt 0),
             (''stepCount'', JInt (int (length steps))), (''caseCount'', JInt (int case_count))])))))))))))"

section \<open>What the gate accepts\<close>

text \<open>An object whose status member is one of the four, and what the gate reads of it.\<close>

lemma rguard_Inr: "rguard P e = Inr u \<longleftrightarrow> P"
  by (simp add: rguard_def)

lemma gate_status_Inr:
  "gate_status obj loc = Inr s \<longleftrightarrow> jget obj ''status'' = JStr s \<and> s \<in> set RESULT_STATUSES"
  by (auto simp: gate_status_def Let_def split: json.splits)

lemma gate_array_Inr: "gate_array v loc = Inr xs \<longleftrightarrow> v = JArr xs"
  by (auto simp: gate_array_def split: json.splits)

lemma gate_object_Inr: "gate_object v loc = Inr kvs \<longleftrightarrow> v = JObj kvs"
  by (simp add: gate_object_def read_object_Inr)

lemmas gate_Inr = rguard_Inr gate_status_Inr gate_array_Inr gate_object_Inr

lemma check_status_name_known: "check_status_name st \<in> set RESULT_STATUSES"
  by (cases st) (simp_all add: RESULT_STATUSES_def)

lemma check_status_failed [simp]: "check_status_name st = ''failed'' \<longleftrightarrow> st = CFailed"
  by (cases st) simp_all

lemma check_status_passed [simp]: "check_status_name st = ''passed'' \<longleftrightarrow> st = CPassed"
  by (cases st) simp_all

lemma gate_statuses_rendered:
  assumes "\<And>x. x \<in> set xs \<Longrightarrow> \<exists>obj. f x = JObj obj \<and> jget obj ''status'' = JStr (check_status_name (g x))"
  shows "gate_statuses (map f xs) loc = Inr (map (\<lambda>x. check_status_name (g x)) xs)"
proof -
  have "list_all2 (\<lambda>p y. (\<lambda>(i, v). rbind (gate_object v (index_location loc i))
           (\<lambda>obj. gate_status obj (index_location loc i))) p = Inr y)
         (enumerate n (map f xs)) (map (\<lambda>x. check_status_name (g x)) xs)" for n
    using assms
  proof (induction xs arbitrary: n)
    case (Cons x xs)
    obtain obj where "f x = JObj obj" "jget obj ''status'' = JStr (check_status_name (g x))"
      using Cons.prems [of x] by auto
    then have "rbind (gate_object (f x) l) (\<lambda>obj. gate_status obj l) = Inr (check_status_name (g x))" for l
      by (simp add: rbind_eqs gate_Inr check_status_name_known)
    then show ?case using Cons by simp
  qed simp
  then show ?thesis by (simp add: gate_statuses_def rtraverse_Inr)
qed

text \<open>A step list without a failed step renders into traces without one.\<close>

definition no_failures :: "StepResult list \<Rightarrow> bool" where
  "no_failures steps = (\<forall>s \<in> set steps. sr_status s \<noteq> CFailed)"

lemma trace_step_not_failed: "no_failures steps \<Longrightarrow> trace_step_status steps b x \<noteq> CFailed"
proof -
  assume nf: "no_failures steps"
  have "r \<in> set steps" if "result_by_step_id steps i = Some r" for i r
    using that by (auto simp: result_by_step_id_def dest!: map_of_SomeD)
  with nf show ?thesis
    by (auto simp: trace_step_status_def no_failures_def split: option.splits)
qed

lemma trace_case_not_failed: "no_failures steps \<Longrightarrow> trace_case_status steps sk tc \<noteq> CFailed"
  using trace_step_not_failed by (metis aggregate_failed_iff imageE set_map trace_case_status_def)

lemma gate_case_rendered:
  assumes "no_failures steps"
  shows "reject_failed_trace_case gi (ci, render_trace_case steps sk tc) = Inr ()"
proof -
  let ?u = "tc_test_case_id tc \<in> set sk"
  have "gate_statuses (map (render_trace_step steps ?u) (tc_execution_steps tc)) l =
        Inr (map (\<lambda>x. check_status_name (trace_step_status steps ?u x)) (tc_execution_steps tc))" for l
    by (rule gate_statuses_rendered) (simp add: render_trace_step_def Let_def)
  moreover have "''failed'' \<notin> set (map (\<lambda>x. check_status_name (trace_step_status steps ?u x)) (tc_execution_steps tc))"
    using trace_step_not_failed [OF assms] by (auto dest: sym)
  ultimately show ?thesis
    using trace_case_not_failed [OF assms, of sk tc]
    by (auto simp: reject_failed_trace_case_def Let_def render_trace_case_def rbind_eqs gate_Inr
        check_status_name_known)
qed

lemma rtraverse_const: "(\<And>x. x \<in> set xs \<Longrightarrow> f x = Inr (g x)) \<Longrightarrow> rtraverse f xs = Inr (map g xs)"
  by (induction xs) (auto simp: rbind_eqs)

lemma gate_group_rendered:
  assumes "no_failures steps"
  shows "gate_trace_group (gi, render_trace_group steps sk (trace_group_metadata g, cs)) = Inr (length cs)"
proof -
  have "aggregate_trace_status (map (trace_case_status steps sk) cs) \<noteq> CFailed"
    using trace_case_not_failed [OF assms] by (metis aggregate_failed_iff imageE set_map)
  moreover have "reject_failed_trace_cases (map (render_trace_case steps sk) cs) gi = Inr ()"
  proof -
    have "reject_failed_trace_case gi x = Inr ()"
      if "x \<in> set (enumerate 0 (map (render_trace_case steps sk) cs))" for x
    proof -
      have "snd x \<in> render_trace_case steps sk ` set cs"
        using that by (auto simp: in_set_enumerate_eq intro: rev_image_eqI [OF nth_mem])
      then show ?thesis using gate_case_rendered [OF assms] by (cases x) auto
    qed
    then have "rtraverse (reject_failed_trace_case gi) (enumerate 0 (map (render_trace_case steps sk) cs)) =
               Inr (map (\<lambda>_. ()) (enumerate 0 (map (render_trace_case steps sk) cs)))"
      by (rule rtraverse_const)
    then show ?thesis by (simp add: reject_failed_trace_cases_def)
  qed
  ultimately show ?thesis
    by (auto simp: gate_trace_group_def Let_def render_trace_group_def trace_group_metadata_def rbind_eqs gate_Inr
        check_status_name_known)
qed

lemma groups_metadata:
  "\<forall>(_, m, _) \<in> set groups. \<exists>g. m = trace_group_metadata g \<Longrightarrow>
   \<forall>(_, m, _) \<in> set (fold add_trace_case tcs groups). \<exists>g. m = trace_group_metadata g"
proof (induction tcs arbitrary: groups)
  case (Cons tc tcs)
  have "\<forall>(_, m, _) \<in> set (add_trace_case tc groups). \<exists>g. m = trace_group_metadata g"
    using Cons.prems
    by (fastforce simp: add_trace_case_def split: option.splits
        dest!: set_mp [OF set_update_subset] dest: map_of_SomeD)
  then show ?case using Cons.IH by simp
qed simp

lemma gate_groups_rendered:
  assumes nf: "no_failures steps"
  shows "\<exists>counts. rtraverse gate_trace_group (enumerate 0 (compiled_trace_groups_to_json_object plan steps)) = Inr counts \<and>
         sum_list counts = length (filter (\<lambda>tc. tc_trace_group tc \<noteq> None) (trace_cases plan))"
proof -
  define sk where "sk = map tc_test_case_id (cp_skipped_test_cases plan)"
  define groups where "groups = fold add_trace_case (trace_cases plan) []"
  have meta: "\<forall>(_, m, _) \<in> set groups. \<exists>g. m = trace_group_metadata g"
    unfolding groups_def by (rule groups_metadata) simp
  have json: "compiled_trace_groups_to_json_object plan steps = map (\<lambda>(_, g). render_trace_group steps sk g) groups"
    by (simp add: compiled_trace_groups_to_json_object_def Let_def sk_def groups_def)
  have "rtraverse gate_trace_group (enumerate n (map (\<lambda>(_, g). render_trace_group steps sk g) gs)) =
          Inr (map (\<lambda>(_, _, cs). length cs) gs)"
    if "set gs \<subseteq> set groups" for n and gs :: trace_groups
    using that
  proof (induction gs arbitrary: n)
    case (Cons x gs)
    obtain k m cs where x: "x = (k, m, cs)" by (cases x)
    then obtain g where "m = trace_group_metadata g" using meta Cons.prems by fastforce
    then show ?case using Cons by (simp add: x gate_group_rendered [OF nf] rbind_eqs)
  qed simp
  then have "rtraverse gate_trace_group (enumerate 0 (compiled_trace_groups_to_json_object plan steps)) =
          Inr (map (\<lambda>(_, _, cs). length cs) groups)" by (simp add: json)
  moreover have "sum_list (map (\<lambda>(_, _, cs). length cs) groups) =
      size (mset (concat (map (\<lambda>(_, _, cs). cs) groups)))"
    by (simp add: length_concat comp_def case_prod_unfold)
  then have "sum_list (map (\<lambda>(_, _, cs). length cs) groups) =
      length (filter (\<lambda>tc. tc_trace_group tc \<noteq> None) (trace_cases plan))"
    unfolding groups_def trace_groups_cases
    by (simp only: list.map(1) concat.simps mset.simps empty_neutral size_mset)
  ultimately show ?thesis by blast
qed

text \<open>What the gate reads of a generated report.\<close>

lemma jget_opt_member [simp]:
  "jget (opt_member k v) key = (if key = k then (case v of None \<Rightarrow> JNull | Some j \<Rightarrow> j) else JNull)"
  by (auto simp: opt_member_def split: option.splits)

lemma keys_opt_member: "set (keys (opt_member k v)) \<subseteq> {k}"
  by (auto simp: opt_member_def split: option.splits)

lemma jget_opt_skip: "key \<noteq> k \<Longrightarrow> jget (opt_member k v @ rest) key = jget rest key"
  using keys_opt_member [of k v] by (auto simp: jget_append)

lemma report_members:
  fixes tv r
  defines "report \<equiv> result_to_json_object tv r"
  shows "jget report ''status'' = JStr (check_status_name (sc_status r))"
    and "\<exists>summary. jget report ''summary'' = JObj summary \<and>
           jget summary ''failed'' = JInt (int (count_status CFailed (sc_steps r)))"
    and "jget report ''steps'' = JArr (map (\<lambda>s. JObj (step_to_json_object s)) (sc_steps r))"
    and "jget report ''catalogue'' = (case sc_compiled_plan r of None \<Rightarrow> JNull
           | Some p \<Rightarrow> JObj (compiled_plan_to_json_object p (sc_steps r)))"
    and "jget report ''metadata'' = JObj [(''reportVersion'', JStr REPORT_METADATA_VERSION)]"
    and "jget report ''tool'' = JObj [(''version'', JStr tv)]"
    and "jget report ''certificationEligibility'' =
           JObj (build_eligibility (sc_steps r) (sc_deselected_mandatory_step_ids r)
                 (sc_approved_release_policy r) tv (sc_certification_coverage r) (sc_non_certifying_reasons r))"
  by (simp_all add: report_def result_to_json_object_def jget_opt_skip split: option.split)

lemma catalogue_members:
  fixes plan steps
  defines "obj \<equiv> compiled_plan_to_json_object plan steps"
  defines "groups \<equiv> compiled_trace_groups_to_json_object plan steps"
  shows "jget obj ''api'' = JStr (ck_api (ty_catalogue_key (cp_traceability plan)))"
    and "jget obj ''traceGroups'' = (if groups = [] then JNull else JArr groups)"
  by (simp_all add: obj_def groups_def compiled_plan_to_json_object_def Let_def jget_opt_skip)

lemma compiled_groups_empty:
  "compiled_trace_groups_to_json_object plan steps = [] \<longleftrightarrow>
     filter (\<lambda>tc. tc_trace_group tc \<noteq> None) (trace_cases plan) = []"
proof -
  let ?gs = "fold add_trace_case (trace_cases plan) []"
  have ne: "\<forall>(_, _, cs) \<in> set groups. cs \<noteq> [] \<Longrightarrow> \<forall>(_, _, cs) \<in> set (fold add_trace_case tcs groups). cs \<noteq> []"
    for tcs and groups :: trace_groups
  proof (induction tcs arbitrary: groups)
    case (Cons tc tcs)
    have "\<forall>(_, _, cs) \<in> set (add_trace_case tc groups). cs \<noteq> []"
      using Cons.prems by (fastforce simp: add_trace_case_def split: option.splits
          dest!: set_mp [OF set_update_subset])
    then show ?case using Cons.IH by simp
  qed simp
  have "?gs = [] \<longleftrightarrow> concat (map (\<lambda>(_, _, cs). cs) ?gs) = []"
    using ne [of "[]" "trace_cases plan"] by (cases ?gs) auto
  also have "\<dots> \<longleftrightarrow> mset (concat (map (\<lambda>(_, _, cs). cs) ?gs)) = {#}" by simp
  also have "\<dots> \<longleftrightarrow> filter (\<lambda>tc. tc_trace_group tc \<noteq> None) (trace_cases plan) = []"
    unfolding trace_groups_cases by (simp del: mset_filter)
  finally show ?thesis by (simp add: compiled_trace_groups_to_json_object_def Let_def)
qed

definition dcr_plan :: "CompiledTestPlan \<Rightarrow> bool" where
  "dcr_plan plan = (ck_api (ty_catalogue_key (cp_traceability plan)) \<in> {''dcr'', ''dynamic-client-registration''})"

definition traced_cases :: "CompiledTestPlan \<Rightarrow> CatalogueTestCase list" where
  "traced_cases plan = filter (\<lambda>tc. tc_trace_group tc \<noteq> None) (trace_cases plan)"

lemma gate_catalogue_report:
  assumes "no_failures steps"
  shows "gate_catalogue (JObj (compiled_plan_to_json_object plan steps)) = Inr n \<longleftrightarrow>
           n = length (traced_cases plan) \<and> (dcr_plan plan \<longrightarrow> traced_cases plan \<noteq> [])"
proof -
  obtain counts where
    "rtraverse gate_trace_group (enumerate 0 (compiled_trace_groups_to_json_object plan steps)) = Inr counts"
    "sum_list counts = length (traced_cases plan)"
    using gate_groups_rendered [OF assms] unfolding traced_cases_def by blast
  then show ?thesis
    using compiled_groups_empty [of plan steps, folded traced_cases_def]
    by (auto simp: gate_catalogue_def catalogue_members in_dcr_apis_def rbind_eqs gate_Inr dcr_plan_def
        split: if_splits)
qed

lemma gate_accepts:
  fixes tv t0 t1 plan policy cov nc steps cp
  defines "r \<equiv> build_smoke_check_result steps t0 t1 plan policy cov cp nc"
  shows "validate_structured_conformance_result (JObj (result_to_json_object tv r)) = Inr v \<longleftrightarrow>
           steps \<noteq> [] \<and> (\<forall>s \<in> set steps. sr_status s \<in> {CPassed, CWarn}) \<and>
           (\<forall>p. cp = Some p \<longrightarrow> dcr_plan p \<longrightarrow> traced_cases p \<noteq> []) \<and>
           v = [(''status'', JStr ''passed''), (''failed'', JInt 0),
                (''stepCount'', JInt (int (length steps))),
                (''caseCount'', JInt (case cp of None \<Rightarrow> 0 | Some p \<Rightarrow> int (length (traced_cases p))))]"
proof -
  have st: "sc_status r = CPassed \<longleftrightarrow> (\<forall>s \<in> set steps. sr_status s \<in> {CPassed, CWarn})"
    by (auto simp: r_def build_status_iff)
  have fields: "sc_steps r = steps" "sc_compiled_plan r = cp"
    by (simp_all add: r_def build_smoke_check_result_def)
  have sts: "gate_statuses (map (\<lambda>s. JObj (step_to_json_object s)) steps) l =
             Inr (map (\<lambda>s. check_status_name (sr_status s)) steps)" for l
    by (rule gate_statuses_rendered) (simp add: step_to_json_object_def)
  obtain summary where s: "jget (result_to_json_object tv r) ''summary'' = JObj summary"
    "jget summary ''failed'' = JInt (int (count_status CFailed steps))"
    using report_members(2) [of tv r] fields by auto
  show ?thesis
  proof (cases "\<forall>s \<in> set steps. sr_status s \<in> {CPassed, CWarn}")
    case True
    then have nf: "no_failures steps" by (auto simp: no_failures_def)
    then have zero: "count_status CFailed steps = 0" by (simp add: count_status_zero no_failures_def)
    have cat: "gate_catalogue (jget (result_to_json_object tv r) ''catalogue'') = Inr n \<longleftrightarrow>
        n = (case cp of None \<Rightarrow> 0 | Some p \<Rightarrow> length (traced_cases p)) \<and>
        (\<forall>p. cp = Some p \<longrightarrow> dcr_plan p \<longrightarrow> traced_cases p \<noteq> [])" for n
      unfolding report_members fields
      by (cases cp) (auto simp: gate_catalogue_report [OF nf], simp_all add: gate_catalogue_def)
    have none: "filter (\<lambda>s. s = ''failed'') (map (\<lambda>s. check_status_name (sr_status s)) steps) = []"
      using nf by (auto simp: filter_empty_conv no_failures_def)
    show ?thesis
      using True st zero s sts none
      by (auto simp: validate_structured_conformance_result_def Let_def rbind_eqs gate_Inr
          report_members(1,3) fields cat gate_non_negative_integer_def filter_empty_conv split: option.splits)
  next
    case False
    then have "sc_status r \<noteq> CPassed" using st by blast
    then show ?thesis using False
      by (auto simp: validate_structured_conformance_result_def rbind_eqs gate_Inr report_members(1))
  qed
qed

section \<open>Properties\<close>

text \<open>C4: The operational gate accepts a report the suite generated exactly when it has a step, every step passed or warned,
  and, for a Dynamic Client Registration plan, at least one case is traceable; the counts it returns are those of the run.
  No inconsistency between the summary, the steps and the trace of a generated report can make the gate reject it.\<close>

theorem gate_accepts_generated_reports:
  "validate_structured_conformance_result
     (JObj (result_to_json_object tv (build_smoke_check_result steps t0 t1 plan policy cov cp nc))) = Inr v \<longleftrightarrow>
   steps \<noteq> [] \<and> (\<forall>s \<in> set steps. sr_status s \<in> {CPassed, CWarn}) \<and>
   (\<forall>p. cp = Some p \<longrightarrow> dcr_plan p \<longrightarrow> traced_cases p \<noteq> []) \<and>
   v = [(''status'', JStr ''passed''), (''failed'', JInt 0), (''stepCount'', JInt (int (length steps))),
        (''caseCount'', JInt (case cp of None \<Rightarrow> 0 | Some p \<Rightarrow> int (length (traced_cases p))))]"
  by (rule gate_accepts)

theorem gate_accepts_generated_reports_witness:
  "\<exists>v. validate_structured_conformance_result
     (JObj (result_to_json_object ''2.0'' (build_smoke_check_result [sample_result ''accounts'' CWarn True]
        datetime_min datetime_min None None Complete None []))) = Inr v"
  by (simp add: gate_accepts_generated_reports sample_result_def)

end
