(* ===== verification/Certification_Validator.thy ===== *)
theory Certification_Validator
  imports Results
begin

text \<open>
  The OBL-side validator (\<open>conformance/certification_validator.py\<close>): parse a submitted report, read
  the mandatory steps off the manifest and decide whether the report certifies. File access and
  JSON decoding are outside; the decoded values are the arguments.
\<close>

datatype CertificationValidationError = CertificationValidationError string

datatype MandatoryValidationStatus = Submitted CheckStatus | Missing

datatype CertificationValidationReason =
    ToolVersionNotApproved | MandatoryStepMissing | MandatoryStepFailed | MandatoryStepSkipped
  | ManifestCoveragePartial

fun reason_name :: "CertificationValidationReason \<Rightarrow> string" where
  "reason_name ToolVersionNotApproved = ''tool_version_not_approved''"
| "reason_name MandatoryStepMissing = ''mandatory_step_missing''"
| "reason_name MandatoryStepFailed = ''mandatory_step_failed''"
| "reason_name MandatoryStepSkipped = ''mandatory_step_skipped''"
| "reason_name ManifestCoveragePartial = ''manifest_coverage_partial''"

fun REASON_LABELS :: "CertificationValidationReason \<Rightarrow> string" where
  "REASON_LABELS ToolVersionNotApproved = ''Tool version is not in the approved-release policy''"
| "REASON_LABELS MandatoryStepMissing = ''Mandatory step is missing from the submitted report''"
| "REASON_LABELS MandatoryStepFailed = ''Mandatory step failed in the submitted report''"
| "REASON_LABELS MandatoryStepSkipped = ''Mandatory step was skipped in the submitted report''"
| "REASON_LABELS ManifestCoveragePartial = ''Manifest is not marked as complete certification coverage''"

fun mandatory_status_name :: "MandatoryValidationStatus \<Rightarrow> string" where
  "mandatory_status_name (Submitted st) = check_status_name st"
| "mandatory_status_name Missing = ''missing''"

record ReportStep =
  rep_step_id :: string
  rep_status :: CheckStatus

record SubmittedReport =
  sub_report_version :: string
  sub_tool_version :: string
  sub_steps :: "ReportStep list"

record MandatoryStepValidation =
  mv_step_id :: string
  mv_status :: MandatoryValidationStatus
  mv_reason :: "CertificationValidationReason option"

record CertificationValidationResult =
  cv_valid :: bool
  cv_report_version :: string
  cv_tool_version :: string
  cv_tool_version_approved :: bool
  cv_policy_schema_version :: string
  cv_mandatory_steps :: "MandatoryStepValidation list"
  cv_reasons :: "CertificationValidationReason list"
  cv_manifest_coverage :: CertificationCoverage

section \<open>Parsing the report\<close>

definition cert_as_object :: "json \<Rightarrow> string \<Rightarrow> CertificationValidationError + json_object" where
  "cert_as_object = read_object CertificationValidationError"

definition cert_required_object ::
  "json_object \<Rightarrow> string \<Rightarrow> string \<Rightarrow> CertificationValidationError + json_object" where
  "cert_required_object parent key location =
     rbind (read_field CertificationValidationError parent key location)
       (\<lambda>v. cert_as_object v (location @ ''.'' @ key))"

definition cert_required_array ::
  "json_object \<Rightarrow> string \<Rightarrow> string \<Rightarrow> CertificationValidationError + json list" where
  "cert_required_array = read_array CertificationValidationError"

definition cert_required_non_empty_string ::
  "json_object \<Rightarrow> string \<Rightarrow> string \<Rightarrow> CertificationValidationError + string" where
  "cert_required_non_empty_string = read_non_empty_string CertificationValidationError"

definition check_status_of_name :: "string \<Rightarrow> CheckStatus option" where
  "check_status_of_name s =
     map_of (map (\<lambda>st. (check_status_name st, st)) [CPassed, CFailed, CWarn, CSkipped]) s"

definition required_report_step_status ::
  "json_object \<Rightarrow> string \<Rightarrow> string \<Rightarrow> CertificationValidationError + CheckStatus" where
  "required_report_step_status parent key location =
     rbind (cert_required_non_empty_string parent key location) (\<lambda>v.
       case check_status_of_name v of
         Some st \<Rightarrow> Inr st
       | None \<Rightarrow> Inl (CertificationValidationError (location @ ''.'' @ key @
                   '' must be one of: failed, passed, skipped, warn'')))"

fun parse_report_steps_from ::
  "nat \<Rightarrow> string list \<Rightarrow> json list \<Rightarrow> CertificationValidationError + ReportStep list" where
  "parse_report_steps_from index seen [] = Inr []"
| "parse_report_steps_from index seen (raw_step # raw_steps) =
     (let location = ''report.steps['' @ str_nat index @ '']''
      in rbind (cert_as_object raw_step location) (\<lambda>step.
         rbind (cert_required_non_empty_string step ''name'' location) (\<lambda>step_id.
         if step_id \<in> set seen
         then Inl (CertificationValidationError (location @ ''.name '' @ repr_str step_id @ '' is duplicated''))
         else
           rbind (required_report_step_status step ''status'' location) (\<lambda>status.
           rbind (parse_report_steps_from (Suc index) (step_id # seen) raw_steps) (\<lambda>rest.
           Inr (\<lparr>rep_step_id = step_id, rep_status = status\<rparr> # rest))))))"

definition parse_report_steps :: "json list \<Rightarrow> CertificationValidationError + ReportStep list" where
  "parse_report_steps raw_steps = parse_report_steps_from 0 [] raw_steps"

definition parse_submitted_report :: "json \<Rightarrow> CertificationValidationError + SubmittedReport" where
  "parse_submitted_report raw_report =
     rbind (cert_as_object raw_report ''report'') (\<lambda>report.
     rbind (cert_required_object report ''metadata'' ''report'') (\<lambda>metadata.
     rbind (cert_required_object report ''tool'' ''report'') (\<lambda>tool.
     rbind (cert_required_array report ''steps'' ''report'') (\<lambda>raw_steps.
     rbind (cert_required_non_empty_string metadata ''reportVersion'' ''report.metadata'') (\<lambda>report_version.
     rbind (cert_required_non_empty_string tool ''version'' ''report.tool'') (\<lambda>tool_version.
     rbind (parse_report_steps raw_steps) (\<lambda>steps.
     Inr \<lparr>sub_report_version = report_version, sub_tool_version = tool_version, sub_steps = steps\<rparr>)))))))"

definition cert_parse_approved_release_policy :: "json \<Rightarrow> CertificationValidationError + ApprovedReleasePolicy" where
  "cert_parse_approved_release_policy raw_policy =
     (case parse_approved_release_policy raw_policy of
        Inl (ApprovedReleasePolicyError m) \<Rightarrow> Inl (CertificationValidationError m)
      | Inr p \<Rightarrow> Inr p)"

section \<open>Validation\<close>

definition mandatory_step_ids_from_manifest :: "Manifest \<Rightarrow> string list" where
  "mandatory_step_ids_from_manifest m =
     (if mf_schema_version m \<noteq> V1 then [] else map step_id (filter step_mandatory (mf_steps m)))"

definition report_steps_by_id :: "ReportStep list \<Rightarrow> string \<Rightarrow> CheckStatus option" where
  "report_steps_by_id steps = map_of (rev (map (\<lambda>s. (rep_step_id s, rep_status s)) steps))"

definition validate_mandatory_step :: "(string \<Rightarrow> CheckStatus option) \<Rightarrow> string \<Rightarrow> MandatoryStepValidation" where
  "validate_mandatory_step report_steps sid =
     (case report_steps sid of
        None \<Rightarrow> \<lparr>mv_step_id = sid, mv_status = Missing, mv_reason = Some MandatoryStepMissing\<rparr>
      | Some CFailed \<Rightarrow> \<lparr>mv_step_id = sid, mv_status = Submitted CFailed, mv_reason = Some MandatoryStepFailed\<rparr>
      | Some CSkipped \<Rightarrow> \<lparr>mv_step_id = sid, mv_status = Submitted CSkipped, mv_reason = Some MandatoryStepSkipped\<rparr>
      | Some st \<Rightarrow> \<lparr>mv_step_id = sid, mv_status = Submitted st, mv_reason = None\<rparr>)"

definition mandatory_valid :: "MandatoryStepValidation \<Rightarrow> bool" where
  "mandatory_valid m = (mv_reason m = None)"

fun add_step_reasons ::
  "MandatoryStepValidation list \<Rightarrow> CertificationValidationReason list \<Rightarrow> CertificationValidationReason list" where
  "add_step_reasons [] reasons = reasons"
| "add_step_reasons (m # ms) reasons =
     add_step_reasons ms
       (case mv_reason m of
          None \<Rightarrow> reasons
        | Some r \<Rightarrow> (if r \<in> set reasons then reasons else reasons @ [r]))"

definition validation_reasons ::
  "MandatoryStepValidation list \<Rightarrow> bool \<Rightarrow> bool \<Rightarrow> CertificationValidationReason list" where
  "validation_reasons mandatory_steps tool_version_approved manifest_coverage_partial =
     add_step_reasons mandatory_steps (if tool_version_approved then [] else [ToolVersionNotApproved])
     @ (if manifest_coverage_partial then [ManifestCoveragePartial] else [])"

definition validate_report ::
  "SubmittedReport \<Rightarrow> Manifest \<Rightarrow> ApprovedReleasePolicy \<Rightarrow>
   CertificationValidationError + CertificationValidationResult" where
  "validate_report report manifest policy =
     (let mandatory_step_ids = mandatory_step_ids_from_manifest manifest
      in if mandatory_step_ids = []
         then Inl (CertificationValidationError ''manifest does not declare any mandatory certification steps'')
         else
           let report_steps = report_steps_by_id (sub_steps report);
               mandatory_step_results = map (validate_mandatory_step report_steps) mandatory_step_ids;
               tool_version_approved = is_tool_version_approved policy (sub_tool_version report);
               reasons = validation_reasons mandatory_step_results tool_version_approved
                           (mf_certification_coverage manifest \<noteq> Complete)
           in Inr \<lparr>cv_valid = (reasons = []), cv_report_version = sub_report_version report,
                   cv_tool_version = sub_tool_version report, cv_tool_version_approved = tool_version_approved,
                   cv_policy_schema_version = ap_schema_version policy,
                   cv_mandatory_steps = mandatory_step_results, cv_reasons = reasons,
                   cv_manifest_coverage = mf_certification_coverage manifest\<rparr>)"

section \<open>Rendering\<close>

definition count_mandatory :: "MandatoryValidationStatus \<Rightarrow> MandatoryStepValidation list \<Rightarrow> nat" where
  "count_mandatory st ms = length (filter (\<lambda>m. mv_status m = st) ms)"

definition count_mandatory_steps :: "MandatoryStepValidation list \<Rightarrow> (string, nat) dict" where
  "count_mandatory_steps ms =
     [(''total'', length ms), (''passed'', count_mandatory (Submitted CPassed) ms),
      (''warn'', count_mandatory (Submitted CWarn) ms), (''failed'', count_mandatory (Submitted CFailed) ms),
      (''skipped'', count_mandatory (Submitted CSkipped) ms), (''missing'', count_mandatory Missing ms)]"

definition mandatory_summary :: "MandatoryStepValidation list \<Rightarrow> json_object" where
  "mandatory_summary ms = map (\<lambda>(k, n). (k, JInt (int n))) (count_mandatory_steps ms)"

definition mandatory_to_json_object :: "MandatoryStepValidation \<Rightarrow> json_object" where
  "mandatory_to_json_object m =
     [(''stepId'', JStr (mv_step_id m)), (''status'', JStr (mandatory_status_name (mv_status m))),
      (''valid'', JBool (mandatory_valid m))]
     @ (case mv_reason m of None \<Rightarrow> [] | Some r \<Rightarrow> [(''reason'', JStr (reason_name r))])"

definition validation_to_json_object :: "CertificationValidationResult \<Rightarrow> json_object" where
  "validation_to_json_object r =
     [(''valid'', JBool (cv_valid r)),
      (''report'', JObj [(''reportVersion'', JStr (cv_report_version r)),
                         (''toolVersion'', JStr (cv_tool_version r))]),
      (''certificationCoverage'', JObj [(''value'', JStr (coverage_name (cv_manifest_coverage r)))]),
      (''approvedRelease'', JObj [(''approved'', JBool (cv_tool_version_approved r)),
                                  (''policySchemaVersion'', JStr (cv_policy_schema_version r))]),
      (''mandatory'', JObj (mandatory_summary (cv_mandatory_steps r) @
                       [(''steps'', JArr (map (\<lambda>m. JObj (mandatory_to_json_object m)) (cv_mandatory_steps r)))])),
      (''reasons'', JArr (map (\<lambda>x. JStr (reason_name x)) (cv_reasons r)))]"

definition reason_lines :: "CertificationValidationResult \<Rightarrow> CertificationValidationReason \<Rightarrow> string list" where
  "reason_lines r reason =
     (case reason of
        ToolVersionNotApproved \<Rightarrow> [''- '' @ REASON_LABELS reason @ '': '' @ cv_tool_version r]
      | ManifestCoveragePartial \<Rightarrow> [''- '' @ REASON_LABELS reason]
      | _ \<Rightarrow> map (\<lambda>m. ''- '' @ REASON_LABELS reason @ '': '' @ mv_step_id m)
               (filter (\<lambda>m. mv_reason m = Some reason) (cv_mandatory_steps r)))"

definition blocking_reason_lines :: "CertificationValidationResult \<Rightarrow> string list" where
  "blocking_reason_lines r = concat (map (reason_lines r) (cv_reasons r))"

definition render_confluence_summary :: "CertificationValidationResult \<Rightarrow> string" where
  "render_confluence_summary r =
     (let cnt = (\<lambda>st. str_nat (count_mandatory st (cv_mandatory_steps r)))
      in join [CHR 10]
        ([''Certification report validation: '' @ (if cv_valid r then ''PASS'' else ''FAIL''),
          '''',
          ''Tool version: '' @ cv_tool_version r @ '' ('' @
            (if cv_tool_version_approved r then ''approved'' else ''not approved'') @ '')'',
          ''Report metadata version: '' @ cv_report_version r,
          ''Approved-release policy: '' @ cv_policy_schema_version r,
          ''Certification coverage: '' @ coverage_name (cv_manifest_coverage r),
          ''Mandatory steps: '' @ str_nat (length (cv_mandatory_steps r)) @ '' total, ''
            @ cnt (Submitted CPassed) @ '' passed, '' @ cnt (Submitted CWarn) @ '' warn, ''
            @ cnt (Submitted CFailed) @ '' failed, '' @ cnt (Submitted CSkipped) @ '' skipped, ''
            @ cnt Missing @ '' missing'']
         @ (if cv_reasons r \<noteq> [] then ['''', ''Blocking reasons:''] @ blocking_reason_lines r else [])))"

section \<open>Lemmas\<close>

lemma set_add_step_reasons:
  "set (add_step_reasons ms rs) = set rs \<union> {r. \<exists>m \<in> set ms. mv_reason m = Some r}"
  by (induction ms arbitrary: rs) (auto split: option.splits)

lemma distinct_add_step_reasons: "distinct rs \<Longrightarrow> distinct (add_step_reasons ms rs)"
  by (induction ms arbitrary: rs) (auto split: option.splits)

lemma validate_mandatory_reason:
  "mv_reason (validate_mandatory_step f sid) = None \<longleftrightarrow> f sid = Some CPassed \<or> f sid = Some CWarn"
  by (auto simp: validate_mandatory_step_def split: option.splits CheckStatus.splits)

lemma add_step_reasons_Nil:
  "add_step_reasons ms rs = [] \<longleftrightarrow> rs = [] \<and> (\<forall>m \<in> set ms. mv_reason m = None)"
proof -
  have "add_step_reasons ms rs = [] \<longleftrightarrow> set rs \<union> {r. \<exists>m \<in> set ms. mv_reason m = Some r} = {}"
    unfolding set_add_step_reasons [symmetric] by simp
  then show ?thesis by (auto simp: not_Some_eq [symmetric] simp del: not_Some_eq)
qed

lemma validation_reasons_distinct:
  "distinct (validation_reasons (map (validate_mandatory_step f) ids) b c)"
proof -
  have "ManifestCoveragePartial \<notin> set (add_step_reasons (map (validate_mandatory_step f) ids)
          (if b then [] else [ToolVersionNotApproved]))"
    unfolding set_add_step_reasons
    by (auto simp: validate_mandatory_step_def split: option.splits CheckStatus.splits)
  then show ?thesis
    by (auto simp: validation_reasons_def distinct_add_step_reasons)
qed

lemma validate_report_valid_iff:
  "validate_report report manifest policy = Inr r \<Longrightarrow>
   cv_valid r \<longleftrightarrow>
     is_tool_version_approved policy (sub_tool_version report) \<and>
     mf_certification_coverage manifest = Complete \<and>
     (\<forall>sid \<in> set (mandatory_step_ids_from_manifest manifest).
        report_steps_by_id (sub_steps report) sid \<in> {Some CPassed, Some CWarn})"
  by (auto simp: validate_report_def Let_def validation_reasons_def add_step_reasons_Nil
      validate_mandatory_reason split: if_splits)

lemma check_status_roundtrip: "check_status_of_name (check_status_name st) = Some st"
  by (cases st) (simp_all add: check_status_of_name_def)

lemma check_status_name_strip: "py_strip (check_status_name st) = check_status_name st" "check_status_name st \<noteq> []"
  by (cases st; simp add: py_strip_stripped stripped_def is_space_def code_of_def)+

text \<open>The parser reads back the steps a generated report holds.\<close>

lemma step_to_json_lookup:
  "map_of (step_to_json_object s) ''name'' = Some (JStr (sr_name s))"
  "map_of (step_to_json_object s) ''status'' = Some (JStr (check_status_name (sr_status s)))"
  by (simp_all add: step_to_json_object_def)

lemma parse_generated_steps:
  assumes "distinct (map sr_name steps)" and "set (map sr_name steps) \<inter> set seen = {}"
    and "\<forall>s \<in> set steps. stripped (sr_name s) \<and> sr_name s \<noteq> []"
  shows "parse_report_steps_from i seen (map (\<lambda>s. JObj (step_to_json_object s)) steps) =
           Inr (map (\<lambda>s. \<lparr>rep_step_id = sr_name s, rep_status = sr_status s\<rparr>) steps)"
  using assms
proof (induction steps arbitrary: i seen)
  case (Cons s steps)
  have name: "cert_required_non_empty_string (step_to_json_object s) ''name'' l = Inr (sr_name s)" for l
    using Cons.prems(3)
    by (auto simp: cert_required_non_empty_string_def reader_Inr step_to_json_lookup py_strip_stripped)
  have "required_report_step_status (step_to_json_object s) ''status'' l = Inr (sr_status s)" for l
  proof -
    have "cert_required_non_empty_string (step_to_json_object s) ''status'' l = Inr (check_status_name (sr_status s))"
      by (simp add: cert_required_non_empty_string_def reader_Inr step_to_json_lookup check_status_name_strip)
    then show ?thesis by (simp add: required_report_step_status_def check_status_roundtrip)
  qed
  moreover have "parse_report_steps_from (Suc i) (sr_name s # seen) (map (\<lambda>s. JObj (step_to_json_object s)) steps) =
           Inr (map (\<lambda>s. \<lparr>rep_step_id = sr_name s, rep_status = sr_status s\<rparr>) steps)"
    using Cons.prems by (intro Cons.IH) auto
  ultimately show ?case using name Cons.prems(2)
    by (simp add: Let_def cert_as_object_def read_object_def)
qed simp

lemma parse_generated_report:
  assumes "stripped tv" "tv \<noteq> []" and "distinct (map sr_name (sc_steps r))"
    and "\<forall>s \<in> set (sc_steps r). stripped (sr_name s) \<and> sr_name s \<noteq> []"
  shows "parse_submitted_report (JObj (result_to_json_object tv r)) =
           Inr \<lparr>sub_report_version = REPORT_METADATA_VERSION, sub_tool_version = tv,
                sub_steps = map (\<lambda>s. \<lparr>rep_step_id = sr_name s, rep_status = sr_status s\<rparr>) (sc_steps r)\<rparr>"
proof -
  have steps: "parse_report_steps (map (\<lambda>s. JObj (step_to_json_object s)) (sc_steps r)) =
      Inr (map (\<lambda>s. \<lparr>rep_step_id = sr_name s, rep_status = sr_status s\<rparr>) (sc_steps r))"
    unfolding parse_report_steps_def using assms(3,4) by (intro parse_generated_steps) auto
  have "py_strip REPORT_METADATA_VERSION = REPORT_METADATA_VERSION" "REPORT_METADATA_VERSION \<noteq> []"
    by (simp_all add: REPORT_METADATA_VERSION_def py_strip_stripped stripped_def is_space_def code_of_def)
  then have ver: "cert_required_non_empty_string [(''reportVersion'', JStr REPORT_METADATA_VERSION)] ''reportVersion'' l
             = Inr REPORT_METADATA_VERSION" for l
    by (simp add: cert_required_non_empty_string_def reader_Inr)
  have tool: "cert_required_non_empty_string [(''version'', JStr tv)] ''version'' l = Inr tv" for l
    using assms(1,2) by (simp add: cert_required_non_empty_string_def reader_Inr py_strip_stripped)
  show ?thesis
    by (simp add: parse_submitted_report_def cert_required_object_def cert_as_object_def read_object_def
        read_field_def cert_required_array_def read_array_def result_to_json_object_def steps ver tool)
qed

section \<open>Properties\<close>

text \<open>C28: The validator accepts a submitted report exactly when the tool version is approved, the manifest declares complete
  coverage, and every mandatory step of the manifest is in the report as passed or warn; it refuses a manifest without
  mandatory steps, and otherwise always returns a verdict whose blocking reasons are distinct.\<close>

theorem validator_verdict:
  "(mandatory_step_ids_from_manifest manifest = [] \<longleftrightarrow> (\<exists>e. validate_report report manifest policy = Inl e)) \<and>
   (\<forall>r. validate_report report manifest policy = Inr r \<longrightarrow>
      distinct (cv_reasons r) \<and>
      (cv_valid r \<longleftrightarrow>
        is_tool_version_approved policy (sub_tool_version report) \<and> mf_certification_coverage manifest = Complete \<and>
        (\<forall>sid \<in> set (mandatory_step_ids_from_manifest manifest).
           report_steps_by_id (sub_steps report) sid \<in> {Some CPassed, Some CWarn})))"
proof -
  have "distinct (cv_reasons r)" if "validate_report report manifest policy = Inr r" for r
    using that validation_reasons_distinct by (auto simp: validate_report_def Let_def split: if_splits)
  then show ?thesis using validate_report_valid_iff by (auto simp: validate_report_def Let_def)
qed

theorem validator_verdict_witness:
  "\<exists>r. validate_report \<lparr>sub_report_version = ''1.0'', sub_tool_version = ''2.0'',
          sub_steps = [\<lparr>rep_step_id = ''accounts'', rep_status = CWarn\<rparr>]\<rparr> sample_manifest
        \<lparr>ap_schema_version = ''v1'', ap_approved_tool_versions = [''2.0'']\<rparr> = Inr r \<and> cv_valid r"
proof -
  let ?rep = "\<lparr>sub_report_version = ''1.0'', sub_tool_version = ''2.0'',
          sub_steps = [\<lparr>rep_step_id = ''accounts'', rep_status = CWarn\<rparr>]\<rparr>"
  let ?pol = "\<lparr>ap_schema_version = ''v1'', ap_approved_tool_versions = [''2.0'']\<rparr>"
  have ids: "mandatory_step_ids_from_manifest sample_manifest = [''accounts'']"
    by (simp add: mandatory_step_ids_from_manifest_def)
  note v = validator_verdict [of sample_manifest ?rep ?pol]
  obtain r where "validate_report ?rep sample_manifest ?pol = Inr r"
    using v ids by (cases "validate_report ?rep sample_manifest ?pol") auto
  with v ids show ?thesis by (auto simp: is_tool_version_approved_def report_steps_by_id_def)
qed

text \<open>C29: Round trip: the validator's parser reads a report the suite generated back to the report version, the stamped tool
  version and exactly the steps' names and statuses, in order, whenever step names are distinct, non-empty and stripped.\<close>

theorem generated_report_parses_back:
  assumes "distinct (map sr_name (sc_steps r))"
    and "\<forall>s \<in> set (sc_steps r). stripped (sr_name s) \<and> sr_name s \<noteq> []"
  shows "parse_submitted_report (JObj (result_to_json_object (resolve_conformance_tool_version environ pyproject) r)) =
           Inr \<lparr>sub_report_version = REPORT_METADATA_VERSION,
                sub_tool_version = resolve_conformance_tool_version environ pyproject,
                sub_steps = map (\<lambda>s. \<lparr>rep_step_id = sr_name s, rep_status = sr_status s\<rparr>) (sc_steps r)\<rparr>"
  using parse_generated_report [OF _ _ assms] tool_version_wf by blast

theorem generated_report_parses_back_witness:
  "\<exists>rep. parse_submitted_report (JObj (result_to_json_object (resolve_conformance_tool_version [] None)
       (build_smoke_check_result [sample_result ''accounts'' CPassed True] datetime_min datetime_min None None Complete None []))) =
     Inr rep \<and> sub_steps rep = [\<lparr>rep_step_id = ''accounts'', rep_status = CPassed\<rparr>]"
proof -
  let ?r = "build_smoke_check_result [sample_result ''accounts'' CPassed True] datetime_min datetime_min None None Complete None []"
  have "distinct (map sr_name (sc_steps ?r))" "\<forall>s \<in> set (sc_steps ?r). stripped (sr_name s) \<and> sr_name s \<noteq> []"
    by (simp_all add: build_smoke_check_result_def sample_result_def stripped_def is_space_def code_of_def)
  from generated_report_parses_back [OF this, of "[]" None] show ?thesis
    by (simp add: build_smoke_check_result_def sample_result_def)
qed

end
