(* ===== verification/Case_Order.thy ===== *)
theory Case_Order
  imports Catalogue_Model
begin

text \<open>
  The order of the compiled cases (\<open>_ordered_case_ids\<close> of \<open>conformance/catalogue.py\<close>): a depth-first
  search from the directly applicable cases that emits a case after its dependencies. The nested function
  \<open>visit\<close> mutates four containers of its closure. Three of them are the state \<open>dfs_state\<close>; the fourth,
  \<open>visiting\<close>, gains the case around the recursive calls and loses it again, so it holds the cases on the
  call stack and is an argument here. Since a case on the stack is never entered again, the search ends.
\<close>

datatype compile_error = CatalogueError string | CompileValueError

type_synonym cases = "(string, CatalogueTestCase) dict"

record dfs_state =
  df_ordered :: "string list"
  df_edges :: "(string, string list) dict"
  df_visited :: "string list"

definition set_add :: "'a \<Rightarrow> 'a list \<Rightarrow> 'a list" where
  "set_add x xs = (if x \<in> set xs then xs else xs @ [x])"

definition add_edge :: "string \<Rightarrow> string option \<Rightarrow> dfs_state \<Rightarrow> dfs_state" where
  "add_edge case_id dependent_id st =
     (case dependent_id of
        None \<Rightarrow> st
      | Some d \<Rightarrow> st\<lparr>df_edges := AList.update case_id
                      (set_add d (case map_of (df_edges st) case_id of None \<Rightarrow> [] | Some ds \<Rightarrow> ds)) (df_edges st)\<rparr>)"

definition finish_case :: "string \<Rightarrow> dfs_state \<Rightarrow> dfs_state" where
  "finish_case case_id st =
     st\<lparr>df_visited := set_add case_id (df_visited st), df_ordered := df_ordered st @ [case_id]\<rparr>"

definition missing_dependency :: "string \<Rightarrow> compile_error" where
  "missing_dependency case_id = CatalogueError (''Catalogue dependency '' @ quoted case_id @ '' does not exist'')"

definition dependency_cycle :: "string \<Rightarrow> compile_error" where
  "dependency_cycle case_id = CatalogueError (''Catalogue dependency cycle includes '' @ quoted case_id)"

definition inapplicable_dependency :: "string \<Rightarrow> SecurityProfile \<Rightarrow> compile_error" where
  "inapplicable_dependency case_id profile =
     CatalogueError (''Catalogue dependency '' @ quoted case_id @ '' is not applicable to security profile ''
       @ profile_name profile)"

definition unvisited :: "cases \<Rightarrow> string list \<Rightarrow> nat" where
  "unvisited cs visiting = card (set (keys cs) - set visiting)"

lemma unvisited_less:
  "map_of cs i = Some c \<Longrightarrow> i \<notin> set visiting \<Longrightarrow> unvisited cs (i # visiting) < unvisited cs visiting"
proof -
  assume "map_of cs i = Some c" "i \<notin> set visiting"
  then have "i \<in> set (keys cs) - set visiting" by (force dest: map_of_SomeD)
  then show ?thesis unfolding unvisited_def by (intro psubset_card_mono) auto
qed

function (sequential) visit ::
    "cases \<Rightarrow> SecurityProfile \<Rightarrow> string list \<Rightarrow> string \<Rightarrow> string option \<Rightarrow> dfs_state \<Rightarrow> compile_error + dfs_state"
  and visit_dependencies ::
    "cases \<Rightarrow> SecurityProfile \<Rightarrow> string list \<Rightarrow> string list \<Rightarrow> string \<Rightarrow> dfs_state \<Rightarrow> compile_error + dfs_state" where
  "visit cs profile visiting case_id dependent_id st =
     (case map_of cs case_id of
        None \<Rightarrow> Inl (missing_dependency case_id)
      | Some test_case \<Rightarrow>
          let st1 = add_edge case_id dependent_id st
          in if case_id \<in> set (df_visited st1) then Inr st1
             else if case_id \<in> set visiting then Inl (dependency_cycle case_id)
             else if \<not> applies_to (ta_security_profiles (tc_applicability test_case)) profile
               then Inl (inapplicable_dependency case_id profile)
             else rbind (visit_dependencies cs profile (case_id # visiting) (tc_dependencies test_case) case_id st1)
                    (\<lambda>st2. Inr (finish_case case_id st2)))"
| "visit_dependencies cs profile visiting [] case_id st = Inr st"
| "visit_dependencies cs profile visiting (d # ds) case_id st =
     rbind (visit cs profile visiting d (Some case_id) st)
       (\<lambda>st'. visit_dependencies cs profile visiting ds case_id st')"
  by pat_completeness auto
termination
  by (relation "measures [\<lambda>x. case x of Inl (cs, _, visiting, _) \<Rightarrow> unvisited cs visiting
                                 | Inr (cs, _, visiting, _) \<Rightarrow> unvisited cs visiting,
                          \<lambda>x. case x of Inl _ \<Rightarrow> 0 | Inr (_, _, _, ds, _) \<Rightarrow> Suc (length ds)]")
     (auto simp: unvisited_less)

declare visit.simps [simp del]

fun visit_roots :: "cases \<Rightarrow> SecurityProfile \<Rightarrow> string list \<Rightarrow> string list \<Rightarrow> dfs_state \<Rightarrow> compile_error + dfs_state" where
  "visit_roots cs profile direct_ids [] st = Inr st"
| "visit_roots cs profile direct_ids (i # is) st =
     (if i \<in> set direct_ids
      then rbind (visit cs profile [] i None st) (\<lambda>st'. visit_roots cs profile direct_ids is st')
      else visit_roots cs profile direct_ids is st)"

definition dfs_start :: dfs_state where
  "dfs_start = \<lparr>df_ordered = [], df_edges = [], df_visited = []\<rparr>"

definition ordered_case_ids ::
  "cases \<Rightarrow> string list \<Rightarrow> SecurityProfile \<Rightarrow> compile_error + string list \<times> (string, string list) dict" where
  "ordered_case_ids cs direct_ids profile =
     rbind (visit_roots cs profile direct_ids (keys cs) dfs_start)
       (\<lambda>st. Inr (df_ordered st, df_edges st))"

section \<open>The dependency relation\<close>

text \<open>\<open>depends\<close> relates a case to the cases it names as dependencies.\<close>

definition deps_of :: "cases \<Rightarrow> string \<Rightarrow> string list" where
  "deps_of cs i = (case map_of cs i of None \<Rightarrow> [] | Some c \<Rightarrow> tc_dependencies c)"

definition depends :: "cases \<Rightarrow> (string \<times> string) set" where
  "depends cs = {(i, d). d \<in> set (deps_of cs i)}"

definition case_ok :: "cases \<Rightarrow> SecurityProfile \<Rightarrow> string \<Rightarrow> bool" where
  "case_ok cs profile i =
     (case map_of cs i of None \<Rightarrow> False
      | Some c \<Rightarrow> applies_to (ta_security_profiles (tc_applicability c)) profile)"

fun topological :: "cases \<Rightarrow> string list \<Rightarrow> string list \<Rightarrow> bool" where
  "topological cs earlier [] = True"
| "topological cs earlier (i # is) =
     (i \<notin> set earlier \<and> set (deps_of cs i) \<subseteq> set earlier \<and> topological cs (earlier @ [i]) is)"

lemma topological_snoc:
  "topological cs e (xs @ [i]) \<longleftrightarrow>
   topological cs e xs \<and> i \<notin> set e \<union> set xs \<and> set (deps_of cs i) \<subseteq> set e \<union> set xs"
  by (induction xs arbitrary: e) auto

lemma topological_distinct: "topological cs e xs \<Longrightarrow> distinct xs \<and> set xs \<inter> set e = {}"
  by (induction xs arbitrary: e) fastforce+

text \<open>In a topological order no case depends on itself, directly or through others.\<close>

lemma topological_closed:
  assumes "topological cs [] xs" and "i \<in> set xs" and "(i, d) \<in> (depends cs)\<^sup>*"
  shows "d \<in> set xs"
  using assms(3,2)
proof (induction rule: rtrancl_induct)
  case (step y z)
  have "set (deps_of cs y) \<subseteq> set xs" if "y \<in> set xs" "topological cs e xs" "set e = {}" for y e
    using that
  proof (induction xs arbitrary: e rule: rev_induct)
    case (snoc x xs)
    then show ?case by (cases "y = x") (auto simp: topological_snoc)
  qed simp
  then show ?case using step assms(1) by (fastforce simp: depends_def)
qed simp

lemma topological_acyclic:
  assumes "topological cs [] xs" and "i \<in> set xs"
  shows "(i, i) \<notin> (depends cs)\<^sup>+"
  using assms
proof (induction xs arbitrary: i rule: rev_induct)
  case (snoc x xs)
  then have t: "topological cs [] xs" "x \<notin> set xs" "set (deps_of cs x) \<subseteq> set xs" by (auto simp: topological_snoc)
  show ?case
  proof (cases "i \<in> set xs")
    case True
    then show ?thesis using snoc.IH t by blast
  next
    case False
    then have i: "i = x" using snoc.prems by simp
    show ?thesis
    proof
      assume "(i, i) \<in> (depends cs)\<^sup>+"
      then obtain d where "(i, d) \<in> depends cs" "(d, i) \<in> (depends cs)\<^sup>*" by (meson tranclD)
      then have "x \<in> set xs" using t topological_closed [OF t(1)] by (auto simp: i depends_def)
      then show False using t(2) by simp
    qed
  qed
qed simp

section \<open>Soundness of the search\<close>

text \<open>
  What a search returns: the emitted cases are in topological order, they are the visited ones, and each of
  them exists and applies to the profile. A successful call only adds cases, all of which are reachable
  from the one it was asked for.
\<close>

definition dfs_inv :: "cases \<Rightarrow> SecurityProfile \<Rightarrow> dfs_state \<Rightarrow> bool" where
  "dfs_inv cs profile st =
     (topological cs [] (df_ordered st) \<and> set (df_visited st) = set (df_ordered st) \<and>
      (\<forall>i \<in> set (df_ordered st). case_ok cs profile i))"

lemma set_set_add [simp]: "set (set_add x xs) = insert x (set xs)"
  by (auto simp: set_add_def)

lemma add_edge_fields [simp]:
  "df_ordered (add_edge i d st) = df_ordered st" "df_visited (add_edge i d st) = df_visited st"
  by (auto simp: add_edge_def split: option.splits)

lemma finish_case_fields [simp]:
  "df_ordered (finish_case i st) = df_ordered st @ [i]" "set (df_visited (finish_case i st)) = insert i (set (df_visited st))"
  "df_edges (finish_case i st) = df_edges st"
  by (simp_all add: finish_case_def)

lemma dfs_inv_add_edge [simp]: "dfs_inv cs profile (add_edge i d st) = dfs_inv cs profile st"
  by (simp add: dfs_inv_def)

text \<open>The cases on the call stack are not emitted meanwhile: the frame of a call.\<close>

definition extends :: "string list \<Rightarrow> dfs_state \<Rightarrow> dfs_state \<Rightarrow> bool" where
  "extends visiting st st' =
     ((\<exists>new. df_ordered st' = df_ordered st @ new \<and> set new \<inter> set visiting = {}))"

lemma extends_refl: "df_ordered st' = df_ordered st \<Longrightarrow> extends visiting st st'"
  by (simp add: extends_def)

lemma extends_trans: "extends v a b \<Longrightarrow> extends v b c \<Longrightarrow> extends v a c"
  by (auto simp: extends_def)

lemma extends_set: "extends v a b \<Longrightarrow> set (df_ordered a) \<subseteq> set (df_ordered b)"
  by (auto simp: extends_def)

lemma visit_sound:
  "visit cs profile visiting i dep st = Inr st' \<Longrightarrow> dfs_inv cs profile st \<Longrightarrow>
     dfs_inv cs profile st' \<and> extends visiting st st' \<and> i \<in> set (df_ordered st') \<and>
     set (df_ordered st') \<subseteq> set (df_ordered st) \<union> (depends cs)\<^sup>* `` {i}"
  "visit_dependencies cs profile visiting ds j st = Inr st' \<Longrightarrow> dfs_inv cs profile st \<Longrightarrow>
     dfs_inv cs profile st' \<and> extends visiting st st' \<and> set ds \<subseteq> set (df_ordered st') \<and>
     set (df_ordered st') \<subseteq> set (df_ordered st) \<union> (depends cs)\<^sup>* `` set ds"
proof (induction cs profile visiting i dep st and cs profile visiting ds j st arbitrary: st' and st'
       rule: visit_visit_dependencies.induct)
  case (1 cs profile visiting i dep st)
  obtain c where c: "map_of cs i = Some c" using "1.prems"(1) by (auto simp: visit.simps split: option.splits)
  let ?st1 = "add_edge i dep st"
  show ?case
  proof (cases "i \<in> set (df_visited st)")
    case True
    then have "st' = ?st1" using "1.prems"(1) c by (auto simp: visit.simps)
    then show ?thesis using "1.prems"(2) True by (auto simp: dfs_inv_def extends_refl)
  next
    case False
    then obtain st2 where a: "i \<notin> set visiting" "applies_to (ta_security_profiles (tc_applicability c)) profile"
      "visit_dependencies cs profile (i # visiting) (tc_dependencies c) i ?st1 = Inr st2" "st' = finish_case i st2"
      using "1.prems"(1) c by (auto simp: visit.simps rbind_eqs split: if_splits)
    from "1.IH" [OF c refl, of st2] False a "1.prems"(2)
    have ih: "dfs_inv cs profile st2" "extends (i # visiting) ?st1 st2" "set (tc_dependencies c) \<subseteq> set (df_ordered st2)"
      "set (df_ordered st2) \<subseteq> set (df_ordered st) \<union> (depends cs)\<^sup>* `` set (tc_dependencies c)" by auto
    have deps: "deps_of cs i = tc_dependencies c" using c by (simp add: deps_of_def)
    have "i \<notin> set (df_ordered st2)" using ih(2) False "1.prems"(2) by (auto simp: extends_def dfs_inv_def)
    then have "dfs_inv cs profile st'"
      using ih(1,3) a(2,4) c deps by (auto simp: dfs_inv_def topological_snoc case_ok_def)
    moreover have "extends visiting st st'" using ih(2) a(1,4) by (auto simp: extends_def)
    moreover have "(depends cs)\<^sup>* `` set (tc_dependencies c) \<subseteq> (depends cs)\<^sup>* `` {i}"
      using deps by (auto simp: depends_def intro: converse_rtrancl_into_rtrancl)
    then have "set (df_ordered st2) \<subseteq> set (df_ordered st) \<union> (depends cs)\<^sup>* `` {i}" using ih(4) by blast
    ultimately show ?thesis using a(4) by auto
  qed
next
  case (2 cs profile visiting j st)
  then show ?case by (auto simp: extends_refl)
next
  case (3 cs profile visiting d ds j st)
  then obtain st1 where s: "visit cs profile visiting d (Some j) st = Inr st1"
    "visit_dependencies cs profile visiting ds j st1 = Inr st'" by (auto simp: rbind_eqs)
  have 1: "dfs_inv cs profile st1" "extends visiting st st1" "d \<in> set (df_ordered st1)"
    "set (df_ordered st1) \<subseteq> set (df_ordered st) \<union> (depends cs)\<^sup>* `` {d}"
    using "3.IH"(1) [OF s(1) "3.prems"(2)] by auto
  have 2: "dfs_inv cs profile st'" "extends visiting st1 st'" "set ds \<subseteq> set (df_ordered st')"
    "set (df_ordered st') \<subseteq> set (df_ordered st1) \<union> (depends cs)\<^sup>* `` set ds"
    using "3.IH"(2) [OF s(1) s(2) 1(1)] by auto
  have "(depends cs)\<^sup>* `` set (d # ds) = (depends cs)\<^sup>* `` {d} \<union> (depends cs)\<^sup>* `` set ds" by auto
  then have "set (df_ordered st') \<subseteq> set (df_ordered st) \<union> (depends cs)\<^sup>* `` set (d # ds)" using 1(4) 2(4) by blast
  moreover have "set (d # ds) \<subseteq> set (df_ordered st')" using 1(3) 2(3) extends_set [OF 2(2)] by auto
  ultimately show ?case using 2(1) extends_trans [OF 1(2) 2(2)] by blast
qed

lemma visit_roots_sound:
  "visit_roots cs profile direct is st = Inr st' \<Longrightarrow> dfs_inv cs profile st \<Longrightarrow>
     dfs_inv cs profile st' \<and> set (df_ordered st) \<union> (set is \<inter> set direct) \<subseteq> set (df_ordered st') \<and>
     set (df_ordered st') \<subseteq> set (df_ordered st) \<union> (depends cs)\<^sup>* `` (set is \<inter> set direct)"
proof (induction "is" arbitrary: st)
  case (Cons i "is")
  show ?case
  proof (cases "i \<in> set direct")
    case True
    then obtain st1 where s: "visit cs profile [] i None st = Inr st1" "visit_roots cs profile direct is st1 = Inr st'"
      using Cons.prems(1) by (auto simp: rbind_eqs)
    have 1: "dfs_inv cs profile st1" "extends [] st st1" "i \<in> set (df_ordered st1)"
      "set (df_ordered st1) \<subseteq> set (df_ordered st) \<union> (depends cs)\<^sup>* `` {i}"
      using visit_sound(1) [OF s(1) Cons.prems(2)] by auto
    have 2: "dfs_inv cs profile st'" "set (df_ordered st1) \<union> (set is \<inter> set direct) \<subseteq> set (df_ordered st')"
      "set (df_ordered st') \<subseteq> set (df_ordered st1) \<union> (depends cs)\<^sup>* `` (set is \<inter> set direct)"
      using Cons.IH [OF s(2) 1(1)] by auto
    have "(depends cs)\<^sup>* `` {i} \<union> (depends cs)\<^sup>* `` (set is \<inter> set direct) = (depends cs)\<^sup>* `` (set (i # is) \<inter> set direct)"
      using True by auto
    then have "set (df_ordered st') \<subseteq> set (df_ordered st) \<union> (depends cs)\<^sup>* `` (set (i # is) \<inter> set direct)"
      using 1(4) 2(3) by blast
    moreover have "set (df_ordered st) \<union> (set (i # is) \<inter> set direct) \<subseteq> set (df_ordered st')"
      using 1(3) 2(2) extends_set [OF 1(2)] by auto
    ultimately show ?thesis using 2(1) by blast
  qed (use Cons in auto)
qed simp

lemma ordered_case_ids_sound:
  assumes "ordered_case_ids cs direct profile = Inr (ids, edges)" and "set direct \<subseteq> set (keys cs)"
  shows "topological cs [] ids" and "set ids = (depends cs)\<^sup>* `` set direct" and "\<forall>i \<in> set ids. case_ok cs profile i"
proof -
  obtain st where st: "visit_roots cs profile direct (keys cs) dfs_start = Inr st" "ids = df_ordered st"
    using assms(1) by (auto simp: ordered_case_ids_def rbind_eqs)
  have "dfs_inv cs profile dfs_start" by (simp add: dfs_inv_def dfs_start_def)
  from visit_roots_sound [OF st(1) this] assms(2)
  have r: "dfs_inv cs profile st" "set direct \<subseteq> set ids" "set ids \<subseteq> (depends cs)\<^sup>* `` set direct"
    by (auto simp: st(2) dfs_start_def Int_absorb1)
  then show t: "topological cs [] ids" and "\<forall>i \<in> set ids. case_ok cs profile i" by (auto simp: dfs_inv_def st(2))
  show "set ids = (depends cs)\<^sup>* `` set direct" using r topological_closed [OF t] by auto
qed

section \<open>Completeness of the search\<close>

text \<open>
  The search fails only when it must: when every case it can reach exists and applies to the profile and none
  depends on itself, it returns. The cases on the stack all lead to the one being visited.
\<close>

lemma visit_complete:
  "(\<And>k. (i, k) \<in> (depends cs)\<^sup>* \<Longrightarrow> case_ok cs profile k \<and> (k, k) \<notin> (depends cs)\<^sup>+) \<Longrightarrow>
   (\<And>v. v \<in> set visiting \<Longrightarrow> (v, i) \<in> (depends cs)\<^sup>+) \<Longrightarrow> \<exists>st'. visit cs profile visiting i dep st = Inr st'"
  "(\<And>d k. d \<in> set ds \<Longrightarrow> (d, k) \<in> (depends cs)\<^sup>* \<Longrightarrow> case_ok cs profile k \<and> (k, k) \<notin> (depends cs)\<^sup>+) \<Longrightarrow>
   (\<And>v d. v \<in> set visiting \<Longrightarrow> d \<in> set ds \<Longrightarrow> (v, d) \<in> (depends cs)\<^sup>+) \<Longrightarrow>
   \<exists>st'. visit_dependencies cs profile visiting ds j st = Inr st'"
proof (induction cs profile visiting i dep st and cs profile visiting ds j st rule: visit_visit_dependencies.induct)
  case (1 cs profile visiting i dep st)
  have ok: "case_ok cs profile i" "(i, i) \<notin> (depends cs)\<^sup>+" using "1.prems"(1) [of i] by auto
  then obtain c where c: "map_of cs i = Some c" "applies_to (ta_security_profiles (tc_applicability c)) profile"
    by (auto simp: case_ok_def split: option.splits)
  have nv: "i \<notin> set visiting" using "1.prems"(2) ok(2) by blast
  show ?case
  proof (cases "i \<in> set (df_visited st)")
    case False
    have dep: "(i, d) \<in> depends cs" if "d \<in> set (tc_dependencies c)" for d
      using that c by (auto simp: depends_def deps_of_def)
    have "\<exists>st'. visit_dependencies cs profile (i # visiting) (tc_dependencies c) i (add_edge i dep st) = Inr st'"
    proof (rule "1.IH" [OF c(1) refl])
      fix d k assume "d \<in> set (tc_dependencies c)" "(d, k) \<in> (depends cs)\<^sup>*"
      then show "case_ok cs profile k \<and> (k, k) \<notin> (depends cs)\<^sup>+"
        using dep "1.prems"(1) by (meson converse_rtrancl_into_rtrancl)
    next
      fix v d assume "v \<in> set (i # visiting)" "d \<in> set (tc_dependencies c)"
      then show "(v, d) \<in> (depends cs)\<^sup>+" using dep "1.prems"(2) by (auto intro: trancl_into_trancl)
    qed (use False nv c in auto)
    then show ?thesis using c nv False by (auto simp: visit.simps)
  qed (simp add: visit.simps c)
next
  case (3 cs profile visiting d ds j st)
  obtain st1 where s: "visit cs profile visiting d (Some j) st = Inr st1" using "3.IH"(1) "3.prems" by auto
  then show ?case using "3.IH"(2) [OF s] "3.prems" by auto
qed simp

lemma visit_roots_complete:
  assumes "\<And>i k. i \<in> set direct \<Longrightarrow> (i, k) \<in> (depends cs)\<^sup>* \<Longrightarrow> case_ok cs profile k \<and> (k, k) \<notin> (depends cs)\<^sup>+"
  shows "\<exists>st'. visit_roots cs profile direct is st = Inr st'"
proof (induction "is" arbitrary: st)
  case (Cons i "is")
  show ?case
  proof (cases "i \<in> set direct")
    case True
    then obtain st1 where "visit cs profile [] i None st = Inr st1"
      using visit_complete(1) [of i cs profile "[]" None st] assms by auto
    then show ?thesis using True Cons.IH by simp
  qed (simp add: Cons.IH)
qed simp

section \<open>Reverse edges\<close>

text \<open>
  The recorded edges lead from a case to the emitted cases (and, during the search, those on the stack)
  that name it as a dependency.
\<close>

definition edge :: "(string, string list) dict \<Rightarrow> string \<Rightarrow> string list" where
  "edge edges i = (case map_of edges i of None \<Rightarrow> [] | Some ds \<Rightarrow> ds)"

definition edge_inv :: "cases \<Rightarrow> string list \<Rightarrow> dfs_state \<Rightarrow> bool" where
  "edge_inv cs visiting st =
     ((\<forall>c d. d \<in> set (edge (df_edges st) c) \<longrightarrow> c \<in> set (deps_of cs d) \<and> d \<in> set (df_ordered st) \<union> set visiting) \<and>
      (\<forall>d \<in> set (df_ordered st). \<forall>c \<in> set (deps_of cs d). d \<in> set (edge (df_edges st) c)))"

definition edges_grow :: "dfs_state \<Rightarrow> dfs_state \<Rightarrow> bool" where
  "edges_grow st st' = (\<forall>c. set (edge (df_edges st) c) \<subseteq> set (edge (df_edges st') c))"

lemma edges_grow_trans: "edges_grow a b \<Longrightarrow> edges_grow b c \<Longrightarrow> edges_grow a c"
  by (fastforce simp: edges_grow_def)

lemma edge_add_edge:
  "set (edge (df_edges (add_edge i dep st)) c) =
     set (edge (df_edges st) c) \<union> (if c = i then set_option dep else {})"
  by (auto simp: add_edge_def edge_def update_conv split: option.splits)

lemma add_edge_inv:
  assumes "edge_inv cs visiting st" and "\<And>j. dep = Some j \<Longrightarrow> j \<in> set visiting \<and> i \<in> set (deps_of cs j)"
  shows "edge_inv cs visiting (add_edge i dep st)" and "edges_grow st (add_edge i dep st)"
  using assms by (auto simp: edge_inv_def edges_grow_def edge_add_edge split: if_splits)

lemma visit_edges:
  "visit cs profile visiting i dep st = Inr st' \<Longrightarrow> edge_inv cs visiting st \<Longrightarrow>
     (\<And>j. dep = Some j \<Longrightarrow> j \<in> set visiting \<and> i \<in> set (deps_of cs j)) \<Longrightarrow>
     edge_inv cs visiting st' \<and> edges_grow st st' \<and> set_option dep \<subseteq> set (edge (df_edges st') i)"
  "visit_dependencies cs profile visiting ds j st = Inr st' \<Longrightarrow> edge_inv cs visiting st \<Longrightarrow>
     j \<in> set visiting \<Longrightarrow> set ds \<subseteq> set (deps_of cs j) \<Longrightarrow>
     edge_inv cs visiting st' \<and> edges_grow st st' \<and> (\<forall>d \<in> set ds. j \<in> set (edge (df_edges st') d))"
proof (induction cs profile visiting i dep st and cs profile visiting ds j st arbitrary: st' and st'
       rule: visit_visit_dependencies.induct)
  case (1 cs profile visiting i dep st)
  obtain c where c: "map_of cs i = Some c" using "1.prems"(1) by (auto simp: visit.simps split: option.splits)
  let ?st1 = "add_edge i dep st"
  note e1 = add_edge_inv [OF "1.prems"(2,3)]
  have d1: "set_option dep \<subseteq> set (edge (df_edges ?st1) i)" by (simp add: edge_add_edge)
  show ?case
  proof (cases "i \<in> set (df_visited st)")
    case True
    then have "st' = ?st1" using "1.prems"(1) c by (auto simp: visit.simps)
    then show ?thesis using e1 d1 by auto
  next
    case False
    then obtain st2 where a: "i \<notin> set visiting" "applies_to (ta_security_profiles (tc_applicability c)) profile"
      "visit_dependencies cs profile (i # visiting) (tc_dependencies c) i ?st1 = Inr st2" "st' = finish_case i st2"
      using "1.prems"(1) c by (auto simp: visit.simps rbind_eqs split: if_splits)
    have deps: "deps_of cs i = tc_dependencies c" using c by (simp add: deps_of_def)
    have "edge_inv cs (i # visiting) ?st1" using e1(1) by (auto simp: edge_inv_def)
    from "1.IH" [OF c refl, of st2] False a this deps
    have ih: "edge_inv cs (i # visiting) st2" "edges_grow ?st1 st2"
      "\<forall>d \<in> set (tc_dependencies c). i \<in> set (edge (df_edges st2) d)" by auto
    have "edge_inv cs visiting st'" using ih(1,3) a(4) deps by (auto simp: edge_inv_def)
    moreover have "edges_grow st st'" using edges_grow_trans [OF e1(2) ih(2)] a(4) by (simp add: edges_grow_def)
    moreover have "set_option dep \<subseteq> set (edge (df_edges st') i)" using d1 ih(2) a(4) by (auto simp: edges_grow_def)
    ultimately show ?thesis by blast
  qed
next
  case (2 cs profile visiting j st)
  then show ?case by (auto simp: edges_grow_def)
next
  case (3 cs profile visiting d ds j st)
  then obtain st1 where s: "visit cs profile visiting d (Some j) st = Inr st1"
    "visit_dependencies cs profile visiting ds j st1 = Inr st'" by (auto simp: rbind_eqs)
  have 1: "edge_inv cs visiting st1" "edges_grow st st1" "j \<in> set (edge (df_edges st1) d)"
    using "3.IH"(1) [OF s(1) "3.prems"(2)] "3.prems"(3,4) by auto
  have 2: "edge_inv cs visiting st'" "edges_grow st1 st'" "\<forall>d \<in> set ds. j \<in> set (edge (df_edges st') d)"
    using "3.IH"(2) [OF s(1) s(2) 1(1)] "3.prems"(3,4) by auto
  show ?case using 1(3) 2 edges_grow_trans [OF 1(2) 2(2)] by (auto simp: edges_grow_def)
qed

lemma visit_roots_edges:
  "visit_roots cs profile direct is st = Inr st' \<Longrightarrow> edge_inv cs [] st \<Longrightarrow> edge_inv cs [] st'"
proof (induction "is" arbitrary: st)
  case (Cons i "is")
  show ?case
  proof (cases "i \<in> set direct")
    case True
    then obtain st1 where s: "visit cs profile [] i None st = Inr st1" "visit_roots cs profile direct is st1 = Inr st'"
      using Cons.prems(1) by (auto simp: rbind_eqs)
    show ?thesis using Cons.IH [OF s(2)] visit_edges(1) [OF s(1) Cons.prems(2)] by simp
  qed (use Cons in auto)
qed simp

lemma ordered_case_ids_edges:
  assumes "ordered_case_ids cs direct profile = Inr (ids, edges)"
  shows "d \<in> set (edge edges c) \<longleftrightarrow> d \<in> set ids \<and> c \<in> set (deps_of cs d)"
proof -
  obtain st where st: "visit_roots cs profile direct (keys cs) dfs_start = Inr st" "ids = df_ordered st" "edges = df_edges st"
    using assms by (auto simp: ordered_case_ids_def rbind_eqs)
  have "edge_inv cs [] dfs_start" by (simp add: edge_inv_def dfs_start_def edge_def)
  from visit_roots_edges [OF st(1) this] show ?thesis by (auto simp: edge_inv_def st)
qed

lemma ordered_case_ids_total:
  assumes "set direct \<subseteq> set (keys cs)"
  shows "(\<exists>r. ordered_case_ids cs direct profile = Inr r) \<longleftrightarrow>
     (\<forall>i \<in> (depends cs)\<^sup>* `` set direct. case_ok cs profile i \<and> (i, i) \<notin> (depends cs)\<^sup>+)" (is "?l \<longleftrightarrow> ?r")
proof
  assume ?l
  then obtain ids edges where o: "ordered_case_ids cs direct profile = Inr (ids, edges)" by auto
  show ?r using ordered_case_ids_sound [OF o assms] topological_acyclic by metis
next
  assume ?r
  then have "\<exists>st'. visit_roots cs profile direct (keys cs) dfs_start = Inr st'"
    by (intro visit_roots_complete) blast
  then show ?l by (auto simp: ordered_case_ids_def)
qed

section \<open>Properties\<close>

definition sample_case :: "string \<Rightarrow> bool \<Rightarrow> string list \<Rightarrow> CatalogueTestCase" where
  "sample_case i mandatory deps =
     \<lparr>tc_test_case_id = i, tc_name = i, tc_role = RoleResource, tc_compliance_scope = [],
      tc_applicability = \<lparr>ta_security_profiles = \<lparr>sp_profiles = [ProfileAll]\<rparr>, ta_endpoint_refs = [],
                          ta_required_capability_ids = [], ta_specification_versions = []\<rparr>,
      tc_mandatory = mandatory, tc_dependencies = deps, tc_runtime_input_requirements = [], tc_request_steps = [],
      tc_assertions = [], tc_response_signature_required = False, tc_trace_group = None, tc_execution_steps = [],
      tc_state_inputs = [], tc_state_outputs = [], tc_expected_http_statuses = [],
      tc_gate_absence_behavior = GateExclude\<rparr>"

definition sample_cases :: cases where
  "sample_cases = [(''b'', sample_case ''b'' True [''a'']), (''a'', sample_case ''a'' True [])]"

text \<open>C8: The search over the dependencies always ends, and it succeeds exactly when every case reachable from the
  directly applicable ones exists in the catalogue, applies to the security profile and does not depend on itself. A success
  lists exactly those cases, each once and after all its dependencies, and records for every case the listed cases that
  depend on it.\<close>

theorem case_order_correct:
  assumes "set direct \<subseteq> set (keys cs)"
  shows "case ordered_case_ids cs direct profile of
      Inl _ \<Rightarrow> \<exists>i \<in> (depends cs)\<^sup>* `` set direct. \<not> case_ok cs profile i \<or> (i, i) \<in> (depends cs)\<^sup>+
    | Inr (ids, edges) \<Rightarrow>
        set ids = (depends cs)\<^sup>* `` set direct \<and> topological cs [] ids \<and> distinct ids \<and>
        (\<forall>i \<in> set ids. case_ok cs profile i \<and> (i, i) \<notin> (depends cs)\<^sup>+) \<and>
        (\<forall>c d. d \<in> set (edge edges c) \<longleftrightarrow> d \<in> set ids \<and> c \<in> set (deps_of cs d))"
proof (cases "ordered_case_ids cs direct profile")
  case (Inl e)
  then show ?thesis using ordered_case_ids_total [OF assms, of profile] by auto
next
  case (Inr r)
  obtain ids edges where r: "r = (ids, edges)" by (cases r)
  note o = Inr [unfolded r]
  show ?thesis
    unfolding o
    using ordered_case_ids_sound [OF o assms] ordered_case_ids_edges [OF o]
      topological_distinct [OF ordered_case_ids_sound(1) [OF o assms]]
      topological_acyclic [OF ordered_case_ids_sound(1) [OF o assms]] by auto
qed

theorem case_order_correct_witness:
  "ordered_case_ids sample_cases [''b''] Fapi2 = Inr ([''a'', ''b''], [(''a'', [''b''])]) \<and>
   set [''a'', ''b''] = (depends sample_cases)\<^sup>* `` {''b''}"
proof -
  have o: "ordered_case_ids sample_cases [''b''] Fapi2 = Inr ([''a'', ''b''], [(''a'', [''b''])])"
    by (simp add: ordered_case_ids_def sample_cases_def sample_case_def visit.simps dfs_start_def add_edge_def set_add_def
        finish_case_def applies_to_def)
  then show ?thesis
    using case_order_correct [of "[''b'']" sample_cases Fapi2] by (simp add: sample_cases_def)
qed

end
