(* ===== verification/Catalogue_Compiler.thy ===== *)
theory Catalogue_Compiler
  imports Case_Order Url_Validation
begin

text \<open>
  The catalogue compiler (\<open>compile_test_plan\<close> of \<open>conformance/catalogue.py\<close> and its helpers): from a
  catalogue and a participant's plan spec to the ordered, traceable compiled plan. A Python set whose order is never
  observed is a list read through \<open>set\<close>. \<open>CompileValueError\<close> is the plain \<open>ValueError\<close> of \<open>urlparse\<close> that the
  compiler's \<open>except HttpsUrlValidationError\<close> does not catch.
\<close>

section \<open>Indexes\<close>

definition canonical_implemented_endpoint :: "ImplementedEndpoint \<Rightarrow> ImplementedEndpoint" where
  "canonical_implemented_endpoint e =
     (if ie_method e = MethodGet \<and> ie_path e = ''/open-banking/v4.0/aisp/product''
      then \<lparr>ie_method = ie_method e, ie_path = ''/open-banking/v4.0/aisp/products'',
            ie_resource_group = ie_resource_group e, ie_operation_id = None, ie_capability_ids = []\<rparr>
      else e)"

fun index_cases :: "CatalogueTestCase list \<Rightarrow> cases \<Rightarrow> compile_error + cases" where
  "index_cases [] cs = Inr cs"
| "index_cases (c # rest) cs =
     (if tc_test_case_id c \<in> set (keys cs)
      then Inl (CatalogueError (''Catalogue test case id '' @ quoted (tc_test_case_id c) @ '' is a duplicate''))
      else index_cases rest (AList.update (tc_test_case_id c) c cs))"

definition catalogue_cases_by_id :: "TestCatalogue \<Rightarrow> compile_error + cases" where
  "catalogue_cases_by_id cat = index_cases (ct_test_cases cat) []"

type_synonym capability_index = "(string, EndpointCapability) dict"
type_synonym ref_index = "(EndpointRef, capability_index) dict"

definition ref_capabilities :: "ref_index \<Rightarrow> EndpointRef \<Rightarrow> capability_index" where
  "ref_capabilities by_ref r = (case map_of by_ref r of None \<Rightarrow> [] | Some caps \<Rightarrow> caps)"

definition add_capability_ref :: "EndpointCapability \<Rightarrow> EndpointRef \<Rightarrow> ref_index \<Rightarrow> ref_index" where
  "add_capability_ref cap r by_ref =
     AList.update r (AList.update (ec_capability_id cap) cap (ref_capabilities by_ref r)) by_ref"

fun index_capabilities ::
  "EndpointCapability list \<Rightarrow> capability_index \<Rightarrow> ref_index \<Rightarrow> compile_error + capability_index \<times> ref_index" where
  "index_capabilities [] by_id by_ref = Inr (by_id, by_ref)"
| "index_capabilities (cap # rest) by_id by_ref =
     (let name = ''Catalogue capability '' @ quoted (ec_capability_id cap)
      in if py_strip (ec_capability_id cap) = []
         then Inl (CatalogueError ''Catalogue capability id must be a non-empty string'')
         else if py_strip (ec_label cap) = [] then Inl (CatalogueError (name @ '' label must be non-empty''))
         else if py_strip (ec_description cap) = [] then Inl (CatalogueError (name @ '' description must be non-empty''))
         else if ec_endpoint_refs cap = []
         then Inl (CatalogueError (name @ '' must apply to at least one endpoint''))
         else if ec_capability_id cap \<in> set (keys by_id)
         then Inl (CatalogueError (''Catalogue capability id '' @ quoted (ec_capability_id cap) @ '' is a duplicate''))
         else index_capabilities rest (AList.update (ec_capability_id cap) cap by_id)
                (fold (add_capability_ref cap) (ec_endpoint_refs cap) by_ref))"

definition catalogue_capability_indexes :: "TestCatalogue \<Rightarrow> compile_error + capability_index \<times> ref_index" where
  "catalogue_capability_indexes cat = index_capabilities (ct_capabilities cat) [] []"

definition endpoint_ref :: "ImplementedEndpoint \<Rightarrow> EndpointRef" where
  "endpoint_ref e = \<lparr>er_method = ie_method e, er_path = ie_path e\<rparr>"

definition implemented_endpoint_refs :: "ImplementedEndpoint list \<Rightarrow> EndpointRef list" where
  "implemented_endpoint_refs es = map endpoint_ref es"

section \<open>Capabilities\<close>

definition check_capability_id ::
  "capability_index \<Rightarrow> capability_index \<Rightarrow> nat \<Rightarrow> ImplementedEndpoint \<Rightarrow> string \<Rightarrow> compile_error + unit" where
  "check_capability_id by_id endpoint_capabilities index e capability_id =
     (if capability_id \<notin> set (keys by_id)
      then Inl (CatalogueError (''planSpec.implementedEndpoints['' @ str_nat index
                  @ ''].capabilities contains unknown capability '' @ quoted capability_id))
      else if capability_id \<notin> set (keys endpoint_capabilities)
      then Inl (CatalogueError (''Capability '' @ quoted capability_id @ '' does not apply to implemented endpoint ''
                  @ method_name (ie_method e) @ '' '' @ ie_path e))
      else Inr ())"

definition normalised_capability_ids :: "capability_index \<Rightarrow> string list \<Rightarrow> string list" where
  "normalised_capability_ids endpoint_capabilities explicit =
     map ec_capability_id
       (filter (\<lambda>cap. ec_required cap \<or> ec_capability_id cap \<in> set explicit) (map snd endpoint_capabilities))"

definition capability_selections ::
  "EndpointCapability list \<Rightarrow> ImplementedEndpoint \<Rightarrow> string list \<Rightarrow> EndpointCapabilitySelection list" where
  "capability_selections capability_order e normalised_ids =
     map (\<lambda>cap. \<lparr>es_method = ie_method e, es_path = ie_path e, es_capability_id = ec_capability_id cap,
                 es_label = ec_label cap, es_required = ec_required cap\<rparr>)
       (filter (\<lambda>cap. endpoint_ref e \<in> set (ec_endpoint_refs cap) \<and> ec_capability_id cap \<in> set normalised_ids)
          capability_order)"

fun select_capabilities ::
  "capability_index \<Rightarrow> ref_index \<Rightarrow> EndpointCapability list \<Rightarrow> (nat \<times> ImplementedEndpoint) list \<Rightarrow>
   (EndpointRef, string list) dict \<Rightarrow> EndpointCapabilitySelection list \<Rightarrow>
   compile_error + (EndpointRef, string list) dict \<times> EndpointCapabilitySelection list" where
  "select_capabilities by_id by_ref order [] selected selections = Inr (selected, selections)"
| "select_capabilities by_id by_ref order ((index, e) # rest) selected selections =
     (let endpoint_capabilities = ref_capabilities by_ref (endpoint_ref e)
      in rbind (rtraverse (check_capability_id by_id endpoint_capabilities index e) (ie_capability_ids e)) (\<lambda>_.
         let normalised_ids = normalised_capability_ids endpoint_capabilities (ie_capability_ids e)
         in select_capabilities by_id by_ref order rest
              (AList.update (endpoint_ref e) normalised_ids selected)
              (selections @ capability_selections order e normalised_ids)))"

definition selected_capabilities_by_endpoint ::
  "ImplementedEndpoint list \<Rightarrow> capability_index \<Rightarrow> ref_index \<Rightarrow> EndpointCapability list \<Rightarrow>
   compile_error + (EndpointRef, string list) dict \<times> EndpointCapabilitySelection list" where
  "selected_capabilities_by_endpoint es by_id by_ref order =
     select_capabilities by_id by_ref order (enumerate 0 es) [] []"

definition check_case_capability ::
  "capability_index \<Rightarrow> CatalogueTestCase \<Rightarrow> string \<Rightarrow> compile_error + unit" where
  "check_case_capability by_id c capability_id =
     (case map_of by_id capability_id of
        None \<Rightarrow> Inl (CatalogueError (''Catalogue test case '' @ quoted (tc_test_case_id c)
                  @ '' references unknown capability '' @ quoted capability_id))
      | Some cap \<Rightarrow>
          if set (ta_endpoint_refs (tc_applicability c)) \<inter> set (ec_endpoint_refs cap) = {}
          then Inl (CatalogueError (''Catalogue test case '' @ quoted (tc_test_case_id c)
                 @ '' references capability '' @ quoted capability_id @ '' outside its endpoint applicability''))
          else Inr ())"

definition validate_case_capabilities :: "capability_index \<Rightarrow> CatalogueTestCase \<Rightarrow> compile_error + unit" where
  "validate_case_capabilities by_id c =
     (let required = ta_required_capability_ids (tc_applicability c)
      in if required = [] then Inr ()
         else if ta_endpoint_refs (tc_applicability c) = []
         then Inl (CatalogueError (''Catalogue test case '' @ quoted (tc_test_case_id c)
                @ '' cannot require capabilities without endpoint refs''))
         else rbind (rtraverse (check_case_capability by_id c) required) (\<lambda>_. Inr ()))"

definition validate_test_case_capability_references :: "TestCatalogue \<Rightarrow> capability_index \<Rightarrow> compile_error + unit" where
  "validate_test_case_capability_references cat by_id =
     rbind (rtraverse (validate_case_capabilities by_id) (ct_test_cases cat)) (\<lambda>_. Inr ())"

section \<open>Direct applicability\<close>

definition test_case_applies_to_specification_version :: "CatalogueTestCase \<Rightarrow> string option \<Rightarrow> bool" where
  "test_case_applies_to_specification_version c version =
     (case version of
        None \<Rightarrow> True
      | Some v \<Rightarrow> ta_specification_versions (tc_applicability c) = [] \<or>
                  v \<in> set (ta_specification_versions (tc_applicability c)))"

definition selected_capability_ids_for_refs :: "EndpointRef list \<Rightarrow> (EndpointRef, string list) dict \<Rightarrow> string list" where
  "selected_capability_ids_for_refs refs selected =
     concat (map (\<lambda>r. case map_of selected r of None \<Rightarrow> [] | Some ids \<Rightarrow> ids) refs)"

definition no_matching_endpoint :: string where
  "no_matching_endpoint = ''no matching implemented endpoint''"

definition case_decision ::
  "TestPlanSpec \<Rightarrow> EndpointRef list \<Rightarrow> (EndpointRef, string list) dict \<Rightarrow> CatalogueTestCase \<Rightarrow> bool \<times> string" where
  "case_decision spec implemented_refs selected c =
     (let app = tc_applicability c;
          missing = sort (remdups (filter
            (\<lambda>i. i \<notin> set (selected_capability_ids_for_refs (ta_endpoint_refs app) selected))
            (ta_required_capability_ids app)))
      in if \<not> applies_to (ta_security_profiles app) (ps_security_profile spec)
         then (False, ''not applicable to security profile '' @ profile_name (ps_security_profile spec))
         else if \<not> test_case_applies_to_specification_version c (ps_specification_version spec)
         then (False, ''not applicable to specification version ''
                 @ (case ps_specification_version spec of None \<Rightarrow> ''None'' | Some v \<Rightarrow> v))
         else if ta_endpoint_refs app = []
         then (True, ''applicable to selected profile and implemented endpoints'')
         else if \<not> set (ta_endpoint_refs app) \<subseteq> set implemented_refs then (False, no_matching_endpoint)
         else if missing \<noteq> []
         then (False, ''required capability not selected: '' @ join '', '' missing)
         else (True, if ta_required_capability_ids app \<noteq> []
                     then ''applicable to selected profile, implemented endpoints, and selected capabilities''
                     else ''applicable to selected profile and implemented endpoints''))"

definition base_decision ::
  "TestPlanSpec \<Rightarrow> EndpointRef list \<Rightarrow> (EndpointRef, string list) dict \<Rightarrow> CatalogueTestCase \<Rightarrow> ApplicabilityDecision" where
  "base_decision spec implemented_refs selected c =
     (case case_decision spec implemented_refs selected c of (sel, reason) \<Rightarrow>
        \<lparr>ad_test_case_id = tc_test_case_id c, ad_selected = sel, ad_reason = reason, ad_dependency_of = []\<rparr>)"

definition directly_applicable_case_ids ::
  "TestCatalogue \<Rightarrow> TestPlanSpec \<Rightarrow> EndpointRef list \<Rightarrow> (EndpointRef, string list) dict \<Rightarrow>
   string list \<times> (string, ApplicabilityDecision) dict" where
  "directly_applicable_case_ids cat spec implemented_refs selected =
     (map tc_test_case_id (filter (\<lambda>c. ad_selected (base_decision spec implemented_refs selected c)) (ct_test_cases cat)),
      fold (\<lambda>c. AList.update (tc_test_case_id c) (base_decision spec implemented_refs selected c)) (ct_test_cases cat) [])"

definition check_deselection :: "cases \<Rightarrow> string list \<Rightarrow> string \<Rightarrow> compile_error + unit" where
  "check_deselection cs direct_ids case_id =
     (case map_of cs case_id of
        None \<Rightarrow> Inl (CatalogueError (''Cannot deselect unknown test case '' @ quoted case_id))
      | Some c \<Rightarrow>
          if case_id \<notin> set direct_ids
          then Inl (CatalogueError (''Cannot deselect inapplicable test case '' @ quoted case_id))
          else if tc_mandatory c
          then Inl (CatalogueError (''Mandatory applicable test case '' @ quoted case_id @ '' cannot be deselected''))
          else Inr ())"

definition reject_invalid_deselection :: "string list \<Rightarrow> cases \<Rightarrow> string list \<Rightarrow> compile_error + unit" where
  "reject_invalid_deselection deselected cs direct_ids =
     rbind (rtraverse (check_deselection cs direct_ids) deselected) (\<lambda>_. Inr ())"

section \<open>Runtime inputs\<close>

definition REQUEST_HEADER_RUNTIME_INPUT_IDS :: "string list" where
  "REQUEST_HEADER_RUNTIME_INPUT_IDS =
     [''idempotencyKey'', ''xCustomerUserAgent'', ''xFapiAuthDate'', ''xFapiCustomerIpAddress'',
      ''xFapiFinancialId'', ''xFapiInteractionId'']"

definition SUPPORTED_RUNTIME_INPUT_TYPES :: "string list" where
  "SUPPORTED_RUNTIME_INPUT_TYPES = [''string'', ''number'', ''boolean'', ''json'', ''url'', ''file_reference'']"

fun source_name :: "RuntimeInputSource \<Rightarrow> string" where
  "source_name SrcPlan = ''plan''"
| "source_name SrcFixture = ''fixture''"
| "source_name SrcGenerated = ''generated''"
| "source_name SrcCaptured = ''captured''"
| "source_name SrcToken = ''token''"

definition runtime_input :: "string \<Rightarrow> string" where
  "runtime_input i = ''Runtime input '' @ quoted i"

definition merge_requirement ::
  "RuntimeInputRequirement \<Rightarrow> RuntimeInputRequirement \<Rightarrow> compile_error + RuntimeInputRequirement" where
  "merge_requirement existing r =
     (if ri_input_type existing \<noteq> ri_input_type r
      then Inl (CatalogueError (runtime_input (ri_input_id r) @ '' has conflicting catalogue requirements''))
      else if ri_source existing \<noteq> ri_source r
      then Inl (CatalogueError (runtime_input (ri_input_id r) @ '' has conflicting catalogue data sources''))
      else Inr (existing\<lparr>ri_required := ri_required existing \<or> ri_required r,
                        ri_sensitive := ri_sensitive existing \<or> ri_sensitive r,
                        ri_description := (if ri_description existing \<in> {None, Some []} then ri_description r
                                           else ri_description existing)\<rparr>))"

fun combine_requirements ::
  "RuntimeInputRequirement list \<Rightarrow> (string, RuntimeInputRequirement) dict \<Rightarrow>
   compile_error + (string, RuntimeInputRequirement) dict" where
  "combine_requirements [] acc = Inr acc"
| "combine_requirements (r # rs) acc =
     (if input_type_name (ri_input_type r) \<notin> set SUPPORTED_RUNTIME_INPUT_TYPES
      then Inl (CatalogueError (runtime_input (ri_input_id r) @ '' has unsupported type ''
                  @ quoted (input_type_name (ri_input_type r))))
      else case map_of acc (ri_input_id r) of
        None \<Rightarrow> combine_requirements rs (AList.update (ri_input_id r) r acc)
      | Some existing \<Rightarrow>
          rbind (merge_requirement existing r)
            (\<lambda>merged. combine_requirements rs (AList.update (ri_input_id r) merged acc)))"

definition case_of :: "cases \<Rightarrow> string \<Rightarrow> CatalogueTestCase" where
  "case_of cs i = the (map_of cs i)"

definition combined_runtime_requirements ::
  "cases \<Rightarrow> string list \<Rightarrow> compile_error + RuntimeInputRequirement list" where
  "combined_runtime_requirements cs ordered_ids =
     rbind (combine_requirements (concat (map (\<lambda>i. tc_runtime_input_requirements (case_of cs i)) ordered_ids)) [])
       (\<lambda>acc. Inr (map snd acc))"

definition reject_unsupported_request_header_runtime_inputs ::
  "RuntimeInputRequirement list \<Rightarrow> json_object \<Rightarrow> compile_error + unit" where
  "reject_unsupported_request_header_runtime_inputs requirements runtime_inputs =
     (let supported = map ri_input_id requirements;
          unsupported = sort (filter (\<lambda>i. i \<in> set REQUEST_HEADER_RUNTIME_INPUT_IDS \<and> i \<notin> set supported)
                                (keys runtime_inputs))
      in if unsupported \<noteq> []
         then Inl (CatalogueError (''Unsupported request header runtime input(s) for selected scope: ''
                     @ join '', '' unsupported))
         else Inr ())"

definition validate_runtime_input_value :: "RuntimeInputRequirement \<Rightarrow> json \<Rightarrow> compile_error + unit" where
  "validate_runtime_input_value r v =
     (case ri_input_type r of
        TUrl \<Rightarrow>
          (if \<not> is_string v \<or> py_strip (str_of v) = []
           then Inl (CatalogueError (runtime_input (ri_input_id r) @ '' must be a non-empty HTTPS URL''))
           else (case validate_https_url (py_strip (str_of v)) (runtime_input (ri_input_id r)) of
                   Inr _ \<Rightarrow> Inr ()
                 | Inl (HttpsUrlValidationError m) \<Rightarrow> Inl (CatalogueError m)
                 | Inl UrlValueError \<Rightarrow> Inl CompileValueError))
      | TNumber \<Rightarrow>
          (case v of JInt _ \<Rightarrow> Inr () | JFloat _ \<Rightarrow> Inr ()
           | _ \<Rightarrow> Inl (CatalogueError (runtime_input (ri_input_id r) @ '' must be a JSON number'')))
      | TBoolean \<Rightarrow>
          (case v of JBool _ \<Rightarrow> Inr ()
           | _ \<Rightarrow> Inl (CatalogueError (runtime_input (ri_input_id r) @ '' must be a JSON boolean'')))
      | TJson \<Rightarrow> Inr ()
      | _ \<Rightarrow>
          (if \<not> is_string v \<or> py_strip (str_of v) = []
           then Inl (CatalogueError (runtime_input (ri_input_id r) @ '' must be a non-empty string''))
           else Inr ()))"

definition runtime_input_trace :: "json_object \<Rightarrow> RuntimeInputRequirement \<Rightarrow> compile_error + RuntimeInputTrace" where
  "runtime_input_trace runtime_inputs r =
     (let v = jget runtime_inputs (ri_input_id r); provided = (v \<noteq> JNull)
      in if ri_source r \<noteq> SrcPlan then
           (if provided
            then Inl (CatalogueError (runtime_input (ri_input_id r) @ '' is '' @ source_name (ri_source r)
                   @ ''-sourced and cannot be supplied in test plan config''))
            else Inr \<lparr>rt_input_id = ri_input_id r, rt_input_type = ri_input_type r, rt_required = False,
                      rt_sensitive = ri_sensitive r, rt_provided = False, rt_value = JNull\<rparr>)
         else if ri_required r \<and> \<not> provided
         then Inl (CatalogueError (''Required runtime input '' @ quoted (ri_input_id r) @ '' is missing''))
         else rbind (if provided then validate_runtime_input_value r v else Inr ()) (\<lambda>_.
           Inr \<lparr>rt_input_id = ri_input_id r, rt_input_type = ri_input_type r, rt_required = ri_required r,
                rt_sensitive = ri_sensitive r, rt_provided = provided,
                rt_value = (if ri_sensitive r then JNull else v)\<rparr>))"

definition runtime_input_snapshot ::
  "cases \<Rightarrow> string list \<Rightarrow> json_object \<Rightarrow> compile_error + RuntimeInputTrace list" where
  "runtime_input_snapshot cs ordered_ids runtime_inputs =
     rbind (combined_runtime_requirements cs ordered_ids) (\<lambda>requirements.
     rbind (reject_unsupported_request_header_runtime_inputs requirements runtime_inputs) (\<lambda>_.
     rtraverse (runtime_input_trace runtime_inputs) requirements))"

section \<open>Overrides and traceability\<close>

definition override_reason :: "cases \<Rightarrow> string list \<Rightarrow> AssertionOverride \<Rightarrow> compile_error + string" where
  "override_reason cs ordered_ids ov =
     (if ao_test_case_id ov \<notin> set ordered_ids
      then Inl (CatalogueError (''Assertion override targets uncompiled test case '' @ quoted (ao_test_case_id ov)))
      else if ao_assertion_id ov \<notin> ca_assertion_id ` set (tc_assertions (case_of cs (ao_test_case_id ov)))
      then Inl (CatalogueError (''Assertion override targets unknown assertion ''
             @ quoted (ao_test_case_id ov @ ''.'' @ ao_assertion_id ov)))
      else Inr (''Assertion override supplied for '' @ ao_test_case_id ov @ ''.'' @ ao_assertion_id ov @ '': ''
             @ ao_reason ov))"

definition validate_assertion_overrides ::
  "cases \<Rightarrow> string list \<Rightarrow> AssertionOverride list \<Rightarrow> compile_error + string list" where
  "validate_assertion_overrides cs ordered_ids overrides = rtraverse (override_reason cs ordered_ids) overrides"

definition final_decision ::
  "string list \<Rightarrow> (string, string list) dict \<Rightarrow> string list \<Rightarrow> string \<times> ApplicabilityDecision \<Rightarrow> ApplicabilityDecision" where
  "final_decision selected_ids edges deselected = (\<lambda>(case_id, decision).
     let dependency_of = sort (remdups (edge edges case_id))
     in if case_id \<in> set deselected
        then \<lparr>ad_test_case_id = case_id, ad_selected = False, ad_reason = ''deselected by participant'',
              ad_dependency_of = dependency_of\<rparr>
        else if case_id \<in> set selected_ids
        then \<lparr>ad_test_case_id = case_id, ad_selected = True,
              ad_reason = (if dependency_of \<noteq> [] \<and> \<not> ad_selected decision then ''included as dependency''
                           else ad_reason decision),
              ad_dependency_of = dependency_of\<rparr>
        else decision)"

definition traceability_decisions ::
  "(string, ApplicabilityDecision) dict \<Rightarrow> string list \<Rightarrow> (string, string list) dict \<Rightarrow> string list \<Rightarrow>
   ApplicabilityDecision list" where
  "traceability_decisions base selected_ids edges deselected = map (final_decision selected_ids edges deselected) base"

definition skipped_case ::
  "string list \<Rightarrow> (string, ApplicabilityDecision) dict \<Rightarrow> CatalogueTestCase \<Rightarrow> bool" where
  "skipped_case selected_ids base c =
     (tc_test_case_id c \<notin> set selected_ids \<and>
      ad_reason (the (map_of base (tc_test_case_id c))) = no_matching_endpoint \<and>
      (tc_gate_absence_behavior c = GateSkip \<or>
       (case tc_trace_group c of None \<Rightarrow> False | Some g \<Rightarrow> tg_absence_behavior g = GateSkip)))"

definition compile_test_plan :: "TestCatalogue \<Rightarrow> TestPlanSpec \<Rightarrow> compile_error + CompiledTestPlan" where
  "compile_test_plan cat spec =
     (if ct_key cat \<noteq> ps_catalogue_key spec
      then Inl (CatalogueError ''planSpec.catalogue does not match the supplied catalogue'')
      else
        let implemented = map canonical_implemented_endpoint (ps_implemented_endpoints spec);
            deselected = ps_deselected_test_case_ids spec
        in rbind (catalogue_cases_by_id cat) (\<lambda>cs.
           rbind (catalogue_capability_indexes cat) (\<lambda>(by_id, by_ref).
           rbind (selected_capabilities_by_endpoint implemented by_id by_ref (ct_capabilities cat))
             (\<lambda>(selected_by_ref, selected_capabilities).
           rbind (validate_test_case_capability_references cat by_id) (\<lambda>_.
           let (direct_ids, base) =
                 directly_applicable_case_ids cat spec (implemented_endpoint_refs implemented) selected_by_ref
           in rbind (reject_invalid_deselection deselected cs direct_ids) (\<lambda>_.
              rbind (ordered_case_ids cs (filter (\<lambda>i. i \<notin> set deselected) direct_ids) (ps_security_profile spec))
                (\<lambda>(ordered_ids, edges).
              let blocked = sort (filter (\<lambda>i. i \<in> set deselected) ordered_ids)
              in rbind (rguard (blocked = [])
                    (CatalogueError (''Cannot deselect dependency test case(s): '' @ join '', '' blocked))) (\<lambda>_.
                 rbind (runtime_input_snapshot cs ordered_ids (ps_runtime_inputs spec)) (\<lambda>snapshot.
                 rbind (validate_assertion_overrides cs ordered_ids (ps_assertion_overrides spec)) (\<lambda>reasons.
                 Inr \<lparr>cp_catalogue_key = ct_key cat, cp_catalogue_version = ct_catalogue_version cat,
                      cp_security_profile = ps_security_profile spec,
                      cp_test_cases = map (case_of cs) ordered_ids,
                      cp_traceability =
                        \<lparr>ty_catalogue_key = ct_key cat, ty_catalogue_version = ct_catalogue_version cat,
                         ty_security_profile = ps_security_profile spec, ty_selected_endpoints = implemented,
                         ty_selected_capabilities = selected_capabilities,
                         ty_applicability_decisions = traceability_decisions base ordered_ids edges deselected,
                         ty_generated_test_case_ids = ordered_ids, ty_runtime_input_snapshot = snapshot,
                         ty_non_certifying_reasons = reasons, ty_provenance = ct_provenance cat\<rparr>,
                      cp_certifying = (reasons = []),
                      cp_skipped_test_cases = filter (skipped_case ordered_ids base) (ct_test_cases cat)\<rparr>))))))))))"

section \<open>What the indexes hold\<close>

abbreviation case_index :: "TestCatalogue \<Rightarrow> cases" where
  "case_index cat \<equiv> map (\<lambda>c. (tc_test_case_id c, c)) (ct_test_cases cat)"

lemma index_cases_Inr:
  "index_cases xs cs = Inr r \<longleftrightarrow>
   distinct (map tc_test_case_id xs) \<and> set (map tc_test_case_id xs) \<inter> set (keys cs) = {} \<and>
   r = cs @ map (\<lambda>c. (tc_test_case_id c, c)) xs"
  by (induction xs arbitrary: cs) (auto simp: keys_update_new)

lemma catalogue_cases_Inr:
  "catalogue_cases_by_id cat = Inr cs \<longleftrightarrow> distinct (map tc_test_case_id (ct_test_cases cat)) \<and> cs = case_index cat"
  by (auto simp: catalogue_cases_by_id_def index_cases_Inr)

lemma ref_capabilities_add:
  "map_of (ref_capabilities (add_capability_ref cap r' by_ref) r) =
     (if r = r' then (map_of (ref_capabilities by_ref r))(ec_capability_id cap \<mapsto> cap) else map_of (ref_capabilities by_ref r))"
  by (auto simp: add_capability_ref_def ref_capabilities_def update_conv)

lemma ref_capabilities_fold:
  "map_of (ref_capabilities (fold (add_capability_ref cap) refs by_ref) r) =
     (if r \<in> set refs then (map_of (ref_capabilities by_ref r))(ec_capability_id cap \<mapsto> cap)
      else map_of (ref_capabilities by_ref r))"
  by (induction refs arbitrary: by_ref) (auto simp: ref_capabilities_add)

definition ref_index_wf :: "ref_index \<Rightarrow> bool" where
  "ref_index_wf by_ref = (\<forall>r. distinct (keys (ref_capabilities by_ref r)))"

lemma ref_index_wf_fold: "ref_index_wf by_ref \<Longrightarrow> ref_index_wf (fold (add_capability_ref cap) refs by_ref)"
proof (induction refs arbitrary: by_ref)
  case (Cons r refs)
  have "ref_index_wf (add_capability_ref cap r by_ref)"
    unfolding ref_index_wf_def
  proof
    fix r'
    show "distinct (keys (ref_capabilities (add_capability_ref cap r by_ref) r'))"
      using Cons.prems by (cases "r' = r")
        (auto simp: add_capability_ref_def ref_capabilities_def ref_index_wf_def update_conv
           intro!: distinct_update)
  qed
  then show ?case using Cons.IH by simp
qed simp

lemma index_capabilities_Inr:
  "index_capabilities caps by_id by_ref = Inr (bi, br) \<Longrightarrow> ref_index_wf by_ref \<Longrightarrow>
   (\<And>r k cap. map_of (ref_capabilities by_ref r) k = Some cap \<Longrightarrow> k \<in> set (keys by_id)) \<Longrightarrow>
   ref_index_wf br \<and>
   (map_of (ref_capabilities br r) k = Some cap \<longleftrightarrow>
      map_of (ref_capabilities by_ref r) k = Some cap \<or>
      cap \<in> set caps \<and> r \<in> set (ec_endpoint_refs cap) \<and> ec_capability_id cap = k) \<and>
   set (map ec_capability_id caps) \<inter> set (keys by_id) = {}"
proof (induction caps arbitrary: by_id by_ref)
  case (Cons c caps)
  let ?by_id = "AList.update (ec_capability_id c) c by_id"
  let ?by_ref = "fold (add_capability_ref c) (ec_endpoint_refs c) by_ref"
  have new: "ec_capability_id c \<notin> set (keys by_id)" and rest: "index_capabilities caps ?by_id ?by_ref = Inr (bi, br)"
    using Cons.prems(1) by (auto simp: Let_def split: if_splits)
  have keys: "set (keys ?by_id) = insert (ec_capability_id c) (set (keys by_id))" using new by (simp add: keys_update_new)
  have inv: "k \<in> set (keys ?by_id)" if "map_of (ref_capabilities ?by_ref r) k = Some cap" for r k cap
    using that Cons.prems(3) [of r k cap] unfolding keys by (auto simp: ref_capabilities_fold split: if_splits)
  note ih = Cons.IH [OF rest ref_index_wf_fold [OF Cons.prems(2)] inv]
  have "map_of (ref_capabilities by_ref r) k = None" if "k = ec_capability_id c" for k
    using that new Cons.prems(3) [of r k] by (cases "map_of (ref_capabilities by_ref r) k") auto
  then show ?case using ih new unfolding keys by (auto simp: ref_capabilities_fold split: if_splits)
qed simp

lemma capability_index_spec:
  assumes "catalogue_capability_indexes cat = Inr (by_id, by_ref)"
  shows "(k, cap) \<in> set (ref_capabilities by_ref r) \<longleftrightarrow>
         cap \<in> set (ct_capabilities cat) \<and> r \<in> set (ec_endpoint_refs cap) \<and> ec_capability_id cap = k"
proof -
  have i: "index_capabilities (ct_capabilities cat) [] [] = Inr (by_id, by_ref)"
    using assms by (simp add: catalogue_capability_indexes_def)
  have "ref_index_wf []" by (simp add: ref_index_wf_def ref_capabilities_def)
  from index_capabilities_Inr [OF i this, of r k cap]
  have "ref_index_wf by_ref" "map_of (ref_capabilities by_ref r) k = Some cap \<longleftrightarrow>
      cap \<in> set (ct_capabilities cat) \<and> r \<in> set (ec_endpoint_refs cap) \<and> ec_capability_id cap = k"
    by (auto simp: ref_capabilities_def)
  then show ?thesis by (simp add: ref_index_wf_def map_of_eq_Some_iff)
qed

section \<open>Which capabilities are selected\<close>

text \<open>
  A declarative account: for an implemented endpoint the required capabilities count as selected, and those its last
  declaration names.
\<close>

definition declared :: "ImplementedEndpoint list \<Rightarrow> EndpointRef \<Rightarrow> ImplementedEndpoint option" where
  "declared es r = find (\<lambda>e. endpoint_ref e = r) (rev es)"

definition capability_selected :: "TestCatalogue \<Rightarrow> ImplementedEndpoint list \<Rightarrow> EndpointRef \<Rightarrow> string \<Rightarrow> bool" where
  "capability_selected cat es r k =
     (case declared es r of
        None \<Rightarrow> False
      | Some e \<Rightarrow> \<exists>cap \<in> set (ct_capabilities cat). ec_capability_id cap = k \<and> r \<in> set (ec_endpoint_refs cap) \<and>
                    (ec_required cap \<or> k \<in> set (ie_capability_ids e)))"

lemma find_append: "find P (xs @ ys) = (case find P xs of None \<Rightarrow> find P ys | Some x \<Rightarrow> Some x)"
  by (induction xs) auto

lemma select_capabilities_lookup:
  "select_capabilities by_id by_ref order ies selected selections = Inr (sel, sels) \<Longrightarrow>
   map_of sel r = (case declared (map snd ies) r of
       None \<Rightarrow> map_of selected r
     | Some e \<Rightarrow> Some (normalised_capability_ids (ref_capabilities by_ref r) (ie_capability_ids e)))"
proof (induction ies arbitrary: selected selections)
  case (Cons ie ies)
  obtain i e where ie: "ie = (i, e)" by (cases ie)
  have "select_capabilities by_id by_ref order ies
          (AList.update (endpoint_ref e)
            (normalised_capability_ids (ref_capabilities by_ref (endpoint_ref e)) (ie_capability_ids e)) selected)
          (selections @ capability_selections order e
            (normalised_capability_ids (ref_capabilities by_ref (endpoint_ref e)) (ie_capability_ids e))) = Inr (sel, sels)"
    using Cons.prems by (auto simp: ie Let_def rbind_eqs)
  from Cons.IH [OF this] show ?case
    by (auto simp: ie declared_def find_append update_conv split: option.splits)
qed (simp add: declared_def)

lemma normalised_capability_ids_iff:
  "k \<in> set (normalised_capability_ids d explicit) \<longleftrightarrow>
   (\<exists>key cap. (key, cap) \<in> set d \<and> ec_capability_id cap = k \<and> (ec_required cap \<or> k \<in> set explicit))"
proof -
  have eq: "set (normalised_capability_ids d explicit) =
      {ec_capability_id cap | cap. cap \<in> snd ` set d \<and> (ec_required cap \<or> ec_capability_id cap \<in> set explicit)}"
    by (auto simp: normalised_capability_ids_def)
  have "cap \<in> snd ` set d \<longleftrightarrow> (\<exists>key. (key, cap) \<in> set d)" for cap by force
  then show ?thesis unfolding eq by blast
qed

lemma selected_capabilities_spec:
  assumes "catalogue_capability_indexes cat = Inr (by_id, by_ref)"
    and "selected_capabilities_by_endpoint es by_id by_ref order = Inr (sel, sels)"
  shows "k \<in> set (selected_capability_ids_for_refs refs sel) \<longleftrightarrow> (\<exists>r \<in> set refs. capability_selected cat es r k)"
proof -
  have sel: "map_of sel r = map_option (\<lambda>e. normalised_capability_ids (ref_capabilities by_ref r) (ie_capability_ids e)) (declared es r)" for r
    using select_capabilities_lookup [OF assms(2) [unfolded selected_capabilities_by_endpoint_def]]
    by (simp split: option.splits)
  have norm: "k \<in> set (normalised_capability_ids (ref_capabilities by_ref r) explicit) \<longleftrightarrow>
      (\<exists>cap \<in> set (ct_capabilities cat). ec_capability_id cap = k \<and> r \<in> set (ec_endpoint_refs cap) \<and>
         (ec_required cap \<or> k \<in> set explicit))" for r explicit
    unfolding normalised_capability_ids_iff capability_index_spec [OF assms(1)] by blast
  have "k \<in> set (case map_of sel r of None \<Rightarrow> [] | Some ids \<Rightarrow> ids) \<longleftrightarrow> capability_selected cat es r k" for r
    by (cases "declared es r") (simp_all add: sel norm capability_selected_def)
  then show ?thesis by (simp add: selected_capability_ids_for_refs_def)
qed

section \<open>Applicability\<close>

text \<open>Which cases a plan spec applies to, independent of the indexes the compiler builds.\<close>

definition applicable :: "TestCatalogue \<Rightarrow> TestPlanSpec \<Rightarrow> CatalogueTestCase \<Rightarrow> bool" where
  "applicable cat spec c =
     (let app = tc_applicability c; es = map canonical_implemented_endpoint (ps_implemented_endpoints spec)
      in applies_to (ta_security_profiles app) (ps_security_profile spec) \<and>
         test_case_applies_to_specification_version c (ps_specification_version spec) \<and>
         set (ta_endpoint_refs app) \<subseteq> set (map endpoint_ref es) \<and>
         (\<forall>k \<in> set (ta_required_capability_ids app). \<exists>r \<in> set (ta_endpoint_refs app). capability_selected cat es r k))"

lemma case_capabilities_valid:
  assumes "validate_test_case_capability_references cat by_id = Inr u" and "c \<in> set (ct_test_cases cat)"
    and "ta_endpoint_refs (tc_applicability c) = []"
  shows "ta_required_capability_ids (tc_applicability c) = []"
proof -
  obtain us where "rtraverse (validate_case_capabilities by_id) (ct_test_cases cat) = Inr us"
    using assms(1) by (auto simp: validate_test_case_capability_references_def rbind_eqs)
  then obtain v where "validate_case_capabilities by_id c = Inr v" using rtraverse_Inr_source [OF _ assms(2)] by blast
  then show ?thesis using assms(3) by (auto simp: validate_case_capabilities_def Let_def split: if_splits)
qed

lemma base_decision_applicable:
  assumes idx: "catalogue_capability_indexes cat = Inr (by_id, by_ref)"
    and sel: "selected_capabilities_by_endpoint (map canonical_implemented_endpoint (ps_implemented_endpoints spec))
                by_id by_ref (ct_capabilities cat) = Inr (selected, sels)"
    and val: "validate_test_case_capability_references cat by_id = Inr u" and c: "c \<in> set (ct_test_cases cat)"
  shows "ad_selected (base_decision spec
           (implemented_endpoint_refs (map canonical_implemented_endpoint (ps_implemented_endpoints spec))) selected c) =
         applicable cat spec c"
proof -
  let ?es = "map canonical_implemented_endpoint (ps_implemented_endpoints spec)" and ?app = "tc_applicability c"
  let ?missing = "sort (remdups (filter (\<lambda>i. i \<notin> set (selected_capability_ids_for_refs (ta_endpoint_refs ?app) selected))
                    (ta_required_capability_ids ?app)))"
  have none: "?missing = [] \<longleftrightarrow> (\<forall>k \<in> set (ta_required_capability_ids ?app). \<exists>r \<in> set (ta_endpoint_refs ?app).
      capability_selected cat ?es r k)"
  proof -
    have "?missing = [] \<longleftrightarrow> set ?missing = {}" by (metis set_empty)
    also have "\<dots> \<longleftrightarrow> (\<forall>k \<in> set (ta_required_capability_ids ?app).
        k \<in> set (selected_capability_ids_for_refs (ta_endpoint_refs ?app) selected))" by auto
    finally show ?thesis unfolding selected_capabilities_spec [OF idx sel] .
  qed
  show ?thesis
  proof (cases "ta_endpoint_refs ?app = []")
    case True
    then have "ta_required_capability_ids ?app = []" using case_capabilities_valid [OF val c] by simp
    then show ?thesis using True
      by (simp add: base_decision_def case_decision_def applicable_def Let_def)
  next
    case False
    then show ?thesis unfolding applicable_def Let_def none [symmetric]
      by (simp add: base_decision_def case_decision_def Let_def implemented_endpoint_refs_def)
  qed
qed

lemma decisions_fold:
  "distinct (map f xs @ keys acc) \<Longrightarrow> fold (\<lambda>c. AList.update (f c) (g c)) xs acc = acc @ map (\<lambda>c. (f c, g c)) xs"
  by (induction xs arbitrary: acc) (auto simp: keys_update_new)

section \<open>A compilation, stage by stage\<close>

text \<open>
  What a successful compilation went through. The roots of the search are the applicable cases that were not
  deselected.
\<close>

definition direct_case_ids :: "TestCatalogue \<Rightarrow> TestPlanSpec \<Rightarrow> string list" where
  "direct_case_ids cat spec = map tc_test_case_id (filter (applicable cat spec) (ct_test_cases cat))"

definition root_case_ids :: "TestCatalogue \<Rightarrow> TestPlanSpec \<Rightarrow> string list" where
  "root_case_ids cat spec = filter (\<lambda>i. i \<notin> set (ps_deselected_test_case_ids spec)) (direct_case_ids cat spec)"

record stages =
  sg_refs :: "EndpointRef list"
  sg_selected :: "(EndpointRef, string list) dict"
  sg_ids :: "string list"
  sg_edges :: "(string, string list) dict"

definition compiled_by :: "TestCatalogue \<Rightarrow> TestPlanSpec \<Rightarrow> CompiledTestPlan \<Rightarrow> stages \<Rightarrow> bool" where
  "compiled_by cat spec plan g =
     (distinct (map tc_test_case_id (ct_test_cases cat)) \<and>
      (\<forall>c \<in> set (ct_test_cases cat). ad_selected (base_decision spec (sg_refs g) (sg_selected g) c) = applicable cat spec c) \<and>
      (\<forall>i \<in> set (ps_deselected_test_case_ids spec). check_deselection (case_index cat) (direct_case_ids cat spec) i = Inr ()) \<and>
      ordered_case_ids (case_index cat) (root_case_ids cat spec) (ps_security_profile spec) = Inr (sg_ids g, sg_edges g) \<and>
      set (sg_ids g) \<inter> set (ps_deselected_test_case_ids spec) = {} \<and>
      runtime_input_snapshot (case_index cat) (sg_ids g) (ps_runtime_inputs spec) =
        Inr (ty_runtime_input_snapshot (cp_traceability plan)) \<and>
      validate_assertion_overrides (case_index cat) (sg_ids g) (ps_assertion_overrides spec) =
        Inr (ty_non_certifying_reasons (cp_traceability plan)) \<and>
      cp_test_cases plan = map (case_of (case_index cat)) (sg_ids g) \<and>
      ty_generated_test_case_ids (cp_traceability plan) = sg_ids g \<and>
      ty_applicability_decisions (cp_traceability plan) =
        traceability_decisions (map (\<lambda>c. (tc_test_case_id c, base_decision spec (sg_refs g) (sg_selected g) c)) (ct_test_cases cat))
          (sg_ids g) (sg_edges g) (ps_deselected_test_case_ids spec) \<and>
      cp_certifying plan = (ty_non_certifying_reasons (cp_traceability plan) = []))"

lemma compile_stages:
  assumes "compile_test_plan cat spec = Inr plan"
  obtains g where "compiled_by cat spec plan g"
proof -
  let ?es = "map canonical_implemented_endpoint (ps_implemented_endpoints spec)"
  let ?refs = "implemented_endpoint_refs ?es" and ?des = "ps_deselected_test_case_ids spec"
  obtain cs where cs: "catalogue_cases_by_id cat = Inr cs"
    using assms by (auto simp: compile_test_plan_def rbind_eqs Let_def split: if_splits)
  then have dist: "distinct (map tc_test_case_id (ct_test_cases cat))" and idx: "cs = case_index cat"
    by (auto simp: catalogue_cases_Inr)
  obtain by_id by_ref where caps: "catalogue_capability_indexes cat = Inr (by_id, by_ref)"
    using assms cs by (auto simp: compile_test_plan_def rbind_eqs Let_def split: if_splits)
  obtain selected sels where sel: "selected_capabilities_by_endpoint ?es by_id by_ref (ct_capabilities cat) = Inr (selected, sels)"
    using assms cs caps by (auto simp: compile_test_plan_def rbind_eqs Let_def split: if_splits)
  have val: "validate_test_case_capability_references cat by_id = Inr ()"
    using assms cs caps sel by (auto simp: compile_test_plan_def rbind_eqs Let_def split: if_splits)
  note app = base_decision_applicable [OF caps sel val]
  have direct: "directly_applicable_case_ids cat spec ?refs selected =
      (direct_case_ids cat spec, map (\<lambda>c. (tc_test_case_id c, base_decision spec ?refs selected c)) (ct_test_cases cat))"
    using dist app
    by (simp add: directly_applicable_case_ids_def direct_case_ids_def decisions_fold cong: filter_cong)
  note unfold = compile_test_plan_def cs caps sel val direct idx root_case_ids_def [symmetric]
  obtain ids edges where ord: "ordered_case_ids (case_index cat) (root_case_ids cat spec) (ps_security_profile spec) = Inr (ids, edges)"
    using assms by (auto simp: unfold rbind_eqs Let_def split: if_splits)
  have des: "reject_invalid_deselection ?des (case_index cat) (direct_case_ids cat spec) = Inr ()"
    using assms by (auto simp: unfold rbind_eqs Let_def split: if_splits)
  have "sort (filter (\<lambda>i. i \<in> set ?des) ids) = []"
    using assms by (auto simp: unfold ord rbind_eqs Let_def rguard_eqs split: if_splits)
  then have blocked: "set ids \<inter> set ?des = {}" by (metis (no_types, lifting) disjoint_iff filter_empty_conv set_empty set_sort)
  have rest: "compiled_by cat spec plan \<lparr>sg_refs = ?refs, sg_selected = selected, sg_ids = ids, sg_edges = edges\<rparr>"
    unfolding compiled_by_def
  proof (intro conjI)
    show "\<forall>i \<in> set ?des. check_deselection (case_index cat) (direct_case_ids cat spec) i = Inr ()"
      using des by (auto simp: reject_invalid_deselection_def rbind_eqs dest: rtraverse_Inr_source)
  qed (use assms dist app ord blocked in \<open>auto simp: unfold rbind_eqs Let_def split: if_splits\<close>)
  then show thesis by (rule that)
qed

lemma case_index_lookup:
  "distinct (map tc_test_case_id (ct_test_cases cat)) \<Longrightarrow>
   map_of (case_index cat) i = Some c \<longleftrightarrow> c \<in> set (ct_test_cases cat) \<and> tc_test_case_id c = i"
proof -
  assume d: "distinct (map tc_test_case_id (ct_test_cases cat))"
  then have "distinct (map fst (case_index cat))" by (simp add: comp_def)
  from map_of_eq_Some_iff [OF this, of i c] show ?thesis by auto
qed

lemma roots_known: "set (root_case_ids cat spec) \<subseteq> set (keys (case_index cat))"
  by (auto simp: root_case_ids_def direct_case_ids_def)

text \<open>The compiled cases, as the search leaves them.\<close>

lemma compiled_ids:
  assumes g: "compiled_by cat spec plan g"
  shows "map tc_test_case_id (cp_test_cases plan) = sg_ids g" and "set (cp_test_cases plan) \<subseteq> set (ct_test_cases cat)"
    and "set (sg_ids g) = (depends (case_index cat))\<^sup>* `` set (root_case_ids cat spec)"
    and "topological (case_index cat) [] (sg_ids g)"
proof -
  have d: "distinct (map tc_test_case_id (ct_test_cases cat))" using g by (simp add: compiled_by_def)
  have o: "ordered_case_ids (case_index cat) (root_case_ids cat spec) (ps_security_profile spec) = Inr (sg_ids g, sg_edges g)"
    using g by (simp add: compiled_by_def)
  note sound = ordered_case_ids_sound [OF o roots_known]
  show "set (sg_ids g) = (depends (case_index cat))\<^sup>* `` set (root_case_ids cat spec)"
    and "topological (case_index cat) [] (sg_ids g)" by (rule sound(2), rule sound(1))
  have c: "case_of (case_index cat) i \<in> set (ct_test_cases cat) \<and> tc_test_case_id (case_of (case_index cat) i) = i"
    if i: "i \<in> set (sg_ids g)" for i
  proof -
    obtain c where m: "map_of (case_index cat) i = Some c"
      using sound(3) i by (auto simp: case_ok_def split: option.splits)
    show ?thesis unfolding case_of_def m option.sel using case_index_lookup [OF d, of i c] m by blast
  qed
  have t: "cp_test_cases plan = map (case_of (case_index cat)) (sg_ids g)" using g by (simp add: compiled_by_def)
  show "map tc_test_case_id (cp_test_cases plan) = sg_ids g" unfolding t using c by (simp add: map_idI)
  show "set (cp_test_cases plan) \<subseteq> set (ct_test_cases cat)" unfolding t using c by auto
qed

lemma compiled_case_iff:
  assumes g: "compiled_by cat spec plan g" and c: "c \<in> set (ct_test_cases cat)"
  shows "c \<in> set (cp_test_cases plan) \<longleftrightarrow> tc_test_case_id c \<in> set (sg_ids g)"
proof
  assume "tc_test_case_id c \<in> set (sg_ids g)"
  then obtain c' where c': "c' \<in> set (cp_test_cases plan)" "tc_test_case_id c' = tc_test_case_id c"
    unfolding compiled_ids(1) [OF g, symmetric] by auto
  then have "c' \<in> set (ct_test_cases cat)" using compiled_ids(2) [OF g] by blast
  then have "c' = c" using c c'(2) g by (auto simp: compiled_by_def distinct_map dest: inj_onD)
  then show "c \<in> set (cp_test_cases plan)" using c'(1) by simp
next
  assume "c \<in> set (cp_test_cases plan)"
  then show "tc_test_case_id c \<in> set (sg_ids g)" unfolding compiled_ids(1) [OF g, symmetric] by simp
qed

section \<open>Combined requirements\<close>

lemma merge_requirement_Inr:
  "merge_requirement a r = Inr m \<Longrightarrow>
   ri_input_id m = ri_input_id a \<and> ri_sensitive m = (ri_sensitive a \<or> ri_sensitive r) \<and>
   ri_required m = (ri_required a \<or> ri_required r) \<and> ri_source m = ri_source a \<and> ri_source r = ri_source a \<and>
   ri_input_type m = ri_input_type a \<and> ri_input_type r = ri_input_type a"
  by (auto simp: merge_requirement_def split: if_splits)

definition declared_by :: "RuntimeInputRequirement list \<Rightarrow> RuntimeInputRequirement \<Rightarrow> bool" where
  "declared_by rs m =
     ((\<exists>r \<in> set rs. ri_input_id r = ri_input_id m) \<and>
      (\<forall>r \<in> set rs. ri_input_id r = ri_input_id m \<longrightarrow> ri_source r = ri_source m \<and> ri_input_type r = ri_input_type m) \<and>
      (ri_sensitive m \<longleftrightarrow> (\<exists>r \<in> set rs. ri_input_id r = ri_input_id m \<and> ri_sensitive r)) \<and>
      (ri_required m \<longleftrightarrow> (\<exists>r \<in> set rs. ri_input_id r = ri_input_id m \<and> ri_required r)))"

definition combined :: "RuntimeInputRequirement list \<Rightarrow> (string, RuntimeInputRequirement) dict \<Rightarrow> bool" where
  "combined rs acc =
     (distinct (keys acc) \<and> set (keys acc) = ri_input_id ` set rs \<and>
      (\<forall>(k, m) \<in> set acc. ri_input_id m = k \<and> declared_by rs m))"

lemma combined_add:
  assumes acc: "combined seen acc"
    and v: "v = (case map_of acc (ri_input_id r) of None \<Rightarrow> Inr r | Some a \<Rightarrow> merge_requirement a r)" and m: "v = Inr m"
  shows "combined (seen @ [r]) (AList.update (ri_input_id r) m acc)"
proof -
  have d: "distinct (keys acc)" and ks: "set (keys acc) = ri_input_id ` set seen" using acc by (simp_all add: combined_def)
  have id: "ri_input_id m = ri_input_id r \<and> declared_by (seen @ [r]) m"
  proof (cases "map_of acc (ri_input_id r)")
    case None
    then have "ri_input_id r \<notin> ri_input_id ` set seen" unfolding ks [symmetric] by (simp add: map_of_eq_None_iff)
    then have "\<forall>x \<in> set seen. ri_input_id x \<noteq> ri_input_id r" by (metis imageI)
    then show ?thesis using None v m by (auto simp: declared_by_def)
  next
    case (Some a)
    then have a: "ri_input_id a = ri_input_id r" "declared_by seen a"
      using acc map_of_SomeD [OF Some] by (auto simp: combined_def)
    have "merge_requirement a r = Inr m" using Some v m by simp
    from merge_requirement_Inr [OF this] a show ?thesis unfolding declared_by_def by auto
  qed
  have other: "declared_by (seen @ [r]) m'" if "declared_by seen m'" "ri_input_id m' \<noteq> ri_input_id r" for m'
    using that by (auto simp: declared_by_def)
  have "set (AList.update (ri_input_id r) m acc) \<subseteq> insert (ri_input_id r, m) {(k, m') \<in> set acc. k \<noteq> ri_input_id r}"
    using d by (induction acc) (auto, force)
  then have "\<forall>(k, m') \<in> set (AList.update (ri_input_id r) m acc). ri_input_id m' = k \<and> declared_by (seen @ [r]) m'"
    using acc id other by (fastforce simp: combined_def)
  moreover have "set (keys (AList.update (ri_input_id r) m acc)) = insert (ri_input_id r) (set (keys acc))"
    by (simp add: dom_update)
  ultimately show ?thesis using d ks by (auto simp: combined_def distinct_update)
qed

lemma combine_requirements_combined:
  "combine_requirements rs acc = Inr res \<Longrightarrow> combined seen acc \<Longrightarrow> combined (seen @ rs) res"
proof (induction rs arbitrary: acc seen)
  case (Cons r rs)
  let ?v = "case map_of acc (ri_input_id r) of None \<Rightarrow> Inr r | Some a \<Rightarrow> merge_requirement a r"
  obtain m where m: "?v = Inr m" "combine_requirements rs (AList.update (ri_input_id r) m acc) = Inr res"
    using Cons.prems(1) by (auto simp: rbind_eqs split: option.splits if_splits)
  from Cons.IH [OF m(2) combined_add [OF Cons.prems(2) refl m(1)]] show ?case by simp
qed simp

lemma snapshot_traces:
  assumes "runtime_input_snapshot cs ids inputs = Inr traces"
  shows "\<exists>acc. combined (concat (map (\<lambda>i. tc_runtime_input_requirements (case_of cs i)) ids)) acc \<and>
           list_all2 (\<lambda>r t. runtime_input_trace inputs r = Inr t) (map snd acc) traces"
proof -
  obtain acc where acc: "combine_requirements (concat (map (\<lambda>i. tc_runtime_input_requirements (case_of cs i)) ids)) [] = Inr acc"
    "rtraverse (runtime_input_trace inputs) (map snd acc) = Inr traces"
    using assms by (auto simp: runtime_input_snapshot_def combined_runtime_requirements_def rbind_eqs)
  have "combined [] []" by (simp add: combined_def)
  from combine_requirements_combined [OF acc(1) this] acc(2) show ?thesis by (auto simp: rtraverse_Inr)
qed

lemma runtime_input_trace_Inr:
  "runtime_input_trace inputs r = Inr t \<Longrightarrow>
   rt_input_id t = ri_input_id r \<and> rt_sensitive t = ri_sensitive r \<and> rt_input_type t = ri_input_type r \<and>
   rt_value t = (if ri_sensitive r then JNull else jget inputs (ri_input_id r)) \<and>
   rt_provided t = (jget inputs (ri_input_id r) \<noteq> JNull) \<and>
   (ri_source r = SrcPlan \<longrightarrow> ri_required r \<longrightarrow> rt_provided t) \<and> (ri_source r \<noteq> SrcPlan \<longrightarrow> \<not> rt_provided t)"
  by (auto simp: runtime_input_trace_def Let_def rbind_eqs split: if_splits)

lemma list_all2_map_eq: "list_all2 (\<lambda>x y. f x = g y) xs ys \<Longrightarrow> map g ys = map f xs"
  by (induction rule: list_all2_induct) auto

lemma list_all2_source: "list_all2 P xs ys \<Longrightarrow> y \<in> set ys \<Longrightarrow> \<exists>x \<in> set xs. P x y"
  by (induction rule: list_all2_induct) auto

text \<open>The requirements of the compiled cases.\<close>

definition compiled_requirements :: "CompiledTestPlan \<Rightarrow> RuntimeInputRequirement list" where
  "compiled_requirements plan = concat (map tc_runtime_input_requirements (cp_test_cases plan))"

lemma snapshot_spec:
  assumes g: "compiled_by cat spec plan g"
  shows "distinct (map rt_input_id (ty_runtime_input_snapshot (cp_traceability plan)))"
    and "rt_input_id ` set (ty_runtime_input_snapshot (cp_traceability plan)) = ri_input_id ` set (compiled_requirements plan)"
    and "t \<in> set (ty_runtime_input_snapshot (cp_traceability plan)) \<Longrightarrow>
         \<exists>m. declared_by (compiled_requirements plan) m \<and> runtime_input_trace (ps_runtime_inputs spec) m = Inr t"
proof -
  let ?inputs = "ps_runtime_inputs spec" and ?traces = "ty_runtime_input_snapshot (cp_traceability plan)"
  have reqs: "compiled_requirements plan =
      concat (map (\<lambda>i. tc_runtime_input_requirements (case_of (case_index cat) i)) (sg_ids g))"
    using g by (simp add: compiled_requirements_def compiled_by_def comp_def)
  obtain acc where acc: "combined (compiled_requirements plan) acc"
    "list_all2 (\<lambda>r t. runtime_input_trace ?inputs r = Inr t) (map snd acc) ?traces"
    using snapshot_traces [of "case_index cat" "sg_ids g" ?inputs ?traces] g unfolding reqs by (auto simp: compiled_by_def)
  have ids: "map rt_input_id ?traces = keys acc"
  proof -
    have "list_all2 (\<lambda>r t. ri_input_id r = rt_input_id t) (map snd acc) ?traces"
      using acc(2) by (rule list_all2_mono) (simp add: runtime_input_trace_Inr)
    then have "map rt_input_id ?traces = map ri_input_id (map snd acc)" by (rule list_all2_map_eq)
    also have "\<dots> = keys acc" using acc(1) by (auto simp: combined_def)
    finally show ?thesis .
  qed
  show "distinct (map rt_input_id ?traces)" using acc(1) unfolding ids by (simp add: combined_def)
  show "rt_input_id ` set ?traces = ri_input_id ` set (compiled_requirements plan)"
    using acc(1) ids by (metis combined_def set_map)
  assume "t \<in> set ?traces"
  then obtain m where "m \<in> set (map snd acc)" "runtime_input_trace ?inputs m = Inr t"
    using list_all2_source [OF acc(2)] by blast
  then show "\<exists>m. declared_by (compiled_requirements plan) m \<and> runtime_input_trace ?inputs m = Inr t"
    using acc(1) by (auto simp: combined_def)
qed

lemma compiled_contents:
  assumes "compile_test_plan cat spec = Inr plan"
  shows "let ids = map tc_test_case_id (cp_test_cases plan)
         in set ids = (depends (case_index cat))\<^sup>* ``
              {tc_test_case_id c | c. c \<in> set (ct_test_cases cat) \<and> applicable cat spec c \<and>
                 tc_test_case_id c \<notin> set (ps_deselected_test_case_ids spec)} \<and>
            topological (case_index cat) [] ids \<and> distinct ids \<and> set (cp_test_cases plan) \<subseteq> set (ct_test_cases cat) \<and>
            (\<forall>c \<in> set (ct_test_cases cat). applicable cat spec c \<longrightarrow> tc_mandatory c \<longrightarrow> c \<in> set (cp_test_cases plan)) \<and>
            set ids \<inter> set (ps_deselected_test_case_ids spec) = {}"
proof -
  obtain g where g: "compiled_by cat spec plan g" using compile_stages [OF assms] .
  note ids = compiled_ids [OF g]
  have roots: "set (root_case_ids cat spec) = {tc_test_case_id c | c. c \<in> set (ct_test_cases cat) \<and> applicable cat spec c \<and>
      tc_test_case_id c \<notin> set (ps_deselected_test_case_ids spec)}"
    by (auto simp: root_case_ids_def direct_case_ids_def)
  have mandatory: "c \<in> set (cp_test_cases plan)" if c: "c \<in> set (ct_test_cases cat)" "applicable cat spec c" "tc_mandatory c" for c
  proof -
    have m: "map_of (case_index cat) (tc_test_case_id c) = Some c"
      using case_index_lookup [of cat "tc_test_case_id c" c] c(1) g by (simp only: compiled_by_def)
    have "check_deselection (case_index cat) (direct_case_ids cat spec) (tc_test_case_id c) \<noteq> Inr ()"
      using c(3) unfolding check_deselection_def m by simp
    then have "tc_test_case_id c \<notin> set (ps_deselected_test_case_ids spec)" using g unfolding compiled_by_def by blast
    then have "tc_test_case_id c \<in> set (sg_ids g)" using ids(3) roots c by blast
    then show ?thesis using compiled_case_iff [OF g c(1)] by blast
  qed
  have "set (sg_ids g) \<inter> set (ps_deselected_test_case_ids spec) = {}" using g by (simp add: compiled_by_def)
  then show ?thesis
    unfolding Let_def ids(1)
    using ids(2,3,4) topological_distinct [OF ids(4)] mandatory unfolding roots by blast
qed

lemma compiled_snapshot_safe:
  assumes "compile_test_plan cat spec = Inr plan"
  shows "let traces = ty_runtime_input_snapshot (cp_traceability plan); reqs = compiled_requirements plan
         in distinct (map rt_input_id traces) \<and> rt_input_id ` set traces = ri_input_id ` set reqs \<and>
            (\<forall>t \<in> set traces.
               (rt_sensitive t \<longleftrightarrow> (\<exists>r \<in> set reqs. ri_input_id r = rt_input_id t \<and> ri_sensitive r)) \<and>
               rt_value t = (if rt_sensitive t then JNull else jget (ps_runtime_inputs spec) (rt_input_id t))) \<and>
            (\<forall>r \<in> set reqs.
               (ri_required r \<and> ri_source r = SrcPlan \<longrightarrow> jget (ps_runtime_inputs spec) (ri_input_id r) \<noteq> JNull) \<and>
               (ri_source r \<noteq> SrcPlan \<longrightarrow> jget (ps_runtime_inputs spec) (ri_input_id r) = JNull))"
proof -
  obtain g where g: "compiled_by cat spec plan g" using compile_stages [OF assms] .
  let ?traces = "ty_runtime_input_snapshot (cp_traceability plan)" and ?reqs = "compiled_requirements plan"
  note sp = snapshot_spec [OF g]
  have 1: "(rt_sensitive t \<longleftrightarrow> (\<exists>r \<in> set ?reqs. ri_input_id r = rt_input_id t \<and> ri_sensitive r)) \<and>
      rt_value t = (if rt_sensitive t then JNull else jget (ps_runtime_inputs spec) (rt_input_id t))"
    if t: "t \<in> set ?traces" for t
  proof -
    obtain m where m: "declared_by ?reqs m" "runtime_input_trace (ps_runtime_inputs spec) m = Inr t" using sp(3) [OF t] by blast
    have "ri_sensitive m \<longleftrightarrow> (\<exists>r \<in> set ?reqs. ri_input_id r = ri_input_id m \<and> ri_sensitive r)"
      using m(1) unfolding declared_by_def by blast
    moreover have "rt_input_id t = ri_input_id m" "rt_sensitive t = ri_sensitive m"
      "rt_value t = (if ri_sensitive m then JNull else jget (ps_runtime_inputs spec) (ri_input_id m))"
      using runtime_input_trace_Inr [OF m(2)] by simp_all
    ultimately show ?thesis by metis
  qed
  have 2: "(ri_required r \<and> ri_source r = SrcPlan \<longrightarrow> jget (ps_runtime_inputs spec) (ri_input_id r) \<noteq> JNull) \<and>
      (ri_source r \<noteq> SrcPlan \<longrightarrow> jget (ps_runtime_inputs spec) (ri_input_id r) = JNull)" if r: "r \<in> set ?reqs" for r
  proof -
    have "ri_input_id r \<in> rt_input_id ` set ?traces" unfolding sp(2) using r by simp
    then obtain t where t: "t \<in> set ?traces" "rt_input_id t = ri_input_id r" by auto
    obtain m where m: "declared_by ?reqs m" "runtime_input_trace (ps_runtime_inputs spec) m = Inr t" using sp(3) [OF t(1)] by blast
    have "ri_input_id m = ri_input_id r" using runtime_input_trace_Inr [OF m(2)] t(2) by simp
    then have "ri_source m = ri_source r" "ri_required r \<longrightarrow> ri_required m" using m(1) r by (auto simp: declared_by_def)
    then show ?thesis using runtime_input_trace_Inr [OF m(2)] \<open>ri_input_id m = ri_input_id r\<close> by auto
  qed
  show ?thesis unfolding Let_def using sp(1,2) 1 2 by blast
qed

section \<open>Properties\<close>

definition sample_input :: RuntimeInputRequirement where
  "sample_input = \<lparr>ri_input_id = ''clientSecret'', ri_input_type = TString, ri_label = ''Secret'', ri_required = True,
                   ri_sensitive = True, ri_description = None, ri_source = SrcPlan\<rparr>"

definition sample_key :: CatalogueKey where
  "sample_key = \<lparr>ck_standard = ''obl'', ck_version = ''v4.0'', ck_api = ''ais''\<rparr>"

definition sample_catalogue :: TestCatalogue where
  "sample_catalogue =
     \<lparr>ct_key = sample_key, ct_catalogue_version = ''1'',
      ct_test_cases = [sample_case ''b'' True [''a''],
                       (sample_case ''a'' False [])\<lparr>tc_runtime_input_requirements := [sample_input]\<rparr>],
      ct_capabilities = [], ct_configuration_requirements = [], ct_runtime_capabilities = [], ct_provenance = None\<rparr>"

definition sample_spec :: TestPlanSpec where
  "sample_spec =
     \<lparr>ps_catalogue_key = sample_key, ps_security_profile = Fapi2, ps_implemented_endpoints = [],
      ps_runtime_inputs = [(''clientSecret'', JStr ''s3cret'')], ps_specification_version = None,
      ps_deselected_test_case_ids = [], ps_assertion_overrides = []\<rparr>"

lemma sample_compiles:
  "\<exists>plan. compile_test_plan sample_catalogue sample_spec = Inr plan \<and> map tc_test_case_id (cp_test_cases plan) = [''a'', ''b''] \<and>
     ty_runtime_input_snapshot (cp_traceability plan) =
       [\<lparr>rt_input_id = ''clientSecret'', rt_input_type = TString, rt_required = True, rt_sensitive = True,
         rt_provided = True, rt_value = JNull\<rparr>]"
  by (simp add: compile_test_plan_def sample_catalogue_def sample_spec_def sample_case_def sample_input_def sample_key_def
      catalogue_cases_by_id_def catalogue_capability_indexes_def selected_capabilities_by_endpoint_def
      validate_test_case_capability_references_def validate_case_capabilities_def directly_applicable_case_ids_def
      base_decision_def case_decision_def applies_to_def test_case_applies_to_specification_version_def
      selected_capability_ids_for_refs_def reject_invalid_deselection_def
      ordered_case_ids_def visit.simps dfs_start_def add_edge_def set_add_def finish_case_def rguard_def
      runtime_input_snapshot_def combined_runtime_requirements_def case_of_def SUPPORTED_RUNTIME_INPUT_TYPES_def
      reject_unsupported_request_header_runtime_inputs_def REQUEST_HEADER_RUNTIME_INPUT_IDS_def runtime_input_trace_def
      jget_def validate_runtime_input_value_def validate_assertion_overrides_def
      py_strip_def is_space_def code_of_def Let_def)

text \<open>C5: A compiled plan holds exactly the cases reachable by dependency from the applicable cases that were not
  deselected, each once and after all its dependencies; applicability is judged by profile, specification version, implemented
  endpoints and selected capabilities. Every applicable mandatory case is among them, and no deselected one.\<close>

theorem compiled_plan_contents:
  assumes "compile_test_plan cat spec = Inr plan"
  shows "let ids = map tc_test_case_id (cp_test_cases plan)
         in set ids = (depends (case_index cat))\<^sup>* ``
              {tc_test_case_id c | c. c \<in> set (ct_test_cases cat) \<and> applicable cat spec c \<and>
                 tc_test_case_id c \<notin> set (ps_deselected_test_case_ids spec)} \<and>
            topological (case_index cat) [] ids \<and> distinct ids \<and> set (cp_test_cases plan) \<subseteq> set (ct_test_cases cat) \<and>
            (\<forall>c \<in> set (ct_test_cases cat). applicable cat spec c \<longrightarrow> tc_mandatory c \<longrightarrow> c \<in> set (cp_test_cases plan)) \<and>
            set ids \<inter> set (ps_deselected_test_case_ids spec) = {}"
  using assms by (rule compiled_contents)

theorem compiled_plan_contents_witness:
  "\<exists>plan. compile_test_plan sample_catalogue sample_spec = Inr plan \<and> map tc_test_case_id (cp_test_cases plan) = [''a'', ''b''] \<and>
     topological (case_index sample_catalogue) [] [''a'', ''b'']"
proof -
  obtain plan where p: "compile_test_plan sample_catalogue sample_spec = Inr plan"
    "map tc_test_case_id (cp_test_cases plan) = [''a'', ''b'']" using sample_compiles by (elim exE conjE) auto
  have "topological (case_index sample_catalogue) [] (map tc_test_case_id (cp_test_cases plan))"
    using compiled_plan_contents [OF p(1)] unfolding Let_def by (elim conjE)
  then show ?thesis using p by auto
qed

text \<open>C6: The snapshot of runtime inputs a compiled plan exposes has one entry per input the compiled cases declare. An input is
  marked sensitive as soon as one of them declares it so, and then its value is never in the snapshot; any other entry
  shows the value of the plan spec. A compilation that succeeds was given every required plan input and none of another source.\<close>

theorem runtime_snapshot_is_safe:
  assumes "compile_test_plan cat spec = Inr plan"
  shows "let traces = ty_runtime_input_snapshot (cp_traceability plan); reqs = compiled_requirements plan
         in distinct (map rt_input_id traces) \<and> rt_input_id ` set traces = ri_input_id ` set reqs \<and>
            (\<forall>t \<in> set traces.
               (rt_sensitive t \<longleftrightarrow> (\<exists>r \<in> set reqs. ri_input_id r = rt_input_id t \<and> ri_sensitive r)) \<and>
               rt_value t = (if rt_sensitive t then JNull else jget (ps_runtime_inputs spec) (rt_input_id t))) \<and>
            (\<forall>r \<in> set reqs.
               (ri_required r \<and> ri_source r = SrcPlan \<longrightarrow> jget (ps_runtime_inputs spec) (ri_input_id r) \<noteq> JNull) \<and>
               (ri_source r \<noteq> SrcPlan \<longrightarrow> jget (ps_runtime_inputs spec) (ri_input_id r) = JNull))"
  using assms by (rule compiled_snapshot_safe)

theorem runtime_snapshot_is_safe_witness:
  "\<exists>plan t. compile_test_plan sample_catalogue sample_spec = Inr plan \<and>
     t \<in> set (ty_runtime_input_snapshot (cp_traceability plan)) \<and> rt_sensitive t \<and> rt_value t = JNull \<and>
     jget (ps_runtime_inputs sample_spec) (rt_input_id t) = JStr ''s3cret''"
proof -
  obtain plan where p: "compile_test_plan sample_catalogue sample_spec = Inr plan"
    "ty_runtime_input_snapshot (cp_traceability plan) =
       [\<lparr>rt_input_id = ''clientSecret'', rt_input_type = TString, rt_required = True, rt_sensitive = True,
         rt_provided = True, rt_value = JNull\<rparr>]" using sample_compiles by (elim exE conjE) auto
  then obtain t where t: "t \<in> set (ty_runtime_input_snapshot (cp_traceability plan))" "rt_sensitive t" "rt_input_id t = ''clientSecret''"
    by auto
  have "rt_value t = JNull"
    using runtime_snapshot_is_safe [OF p(1)] t(1,2) unfolding Let_def by metis
  then show ?thesis using p(1) t by (intro exI [of _ plan] exI [of _ t]) (simp add: sample_spec_def jget_def)
qed

text \<open>C36: The traceability of a compiled plan accounts for every case of the catalogue, in catalogue order: its decision says selected
  exactly when the case was compiled. The plan is certifying exactly when the participant overrode no assertion.\<close>

theorem traceability_is_complete:
  assumes "compile_test_plan cat spec = Inr plan"
  shows "map ad_test_case_id (ty_applicability_decisions (cp_traceability plan)) = map tc_test_case_id (ct_test_cases cat) \<and>
         (\<forall>d \<in> set (ty_applicability_decisions (cp_traceability plan)).
            ad_selected d \<longleftrightarrow> ad_test_case_id d \<in> set (ty_generated_test_case_ids (cp_traceability plan))) \<and>
         ty_generated_test_case_ids (cp_traceability plan) = map tc_test_case_id (cp_test_cases plan) \<and>
         (cp_certifying plan \<longleftrightarrow> ps_assertion_overrides spec = [])"
proof -
  obtain g where g: "compiled_by cat spec plan g" using compile_stages [OF assms] .
  let ?dec = "\<lambda>c. base_decision spec (sg_refs g) (sg_selected g) c"
  let ?fin = "\<lambda>c. final_decision (sg_ids g) (sg_edges g) (ps_deselected_test_case_ids spec) (tc_test_case_id c, ?dec c)"
  have dec: "ty_applicability_decisions (cp_traceability plan) = map ?fin (ct_test_cases cat)"
    using g by (simp add: compiled_by_def traceability_decisions_def)
  have gen: "ty_generated_test_case_ids (cp_traceability plan) = sg_ids g" using g by (simp add: compiled_by_def)
  have id: "ad_test_case_id (?fin c) = tc_test_case_id c" for c
    by (simp add: final_decision_def Let_def base_decision_def split: prod.splits)
  have sel: "ad_selected (?fin c) \<longleftrightarrow> tc_test_case_id c \<in> set (sg_ids g)" if c: "c \<in> set (ct_test_cases cat)" for c
  proof -
    have dis: "set (sg_ids g) \<inter> set (ps_deselected_test_case_ids spec) = {}" using g by (simp add: compiled_by_def)
    have app: "ad_selected (?dec c) = applicable cat spec c" using g c by (simp add: compiled_by_def)
    have "tc_test_case_id c \<in> set (sg_ids g)"
      if a: "applicable cat spec c" "tc_test_case_id c \<notin> set (ps_deselected_test_case_ids spec)"
    proof -
      have "tc_test_case_id c \<in> set (root_case_ids cat spec)" using a c by (auto simp: root_case_ids_def direct_case_ids_def)
      then show ?thesis unfolding compiled_ids(3) [OF g] by blast
    qed
    then show ?thesis using dis app by (auto simp: final_decision_def Let_def)
  qed
  have "rtraverse (override_reason (case_index cat) (sg_ids g)) (ps_assertion_overrides spec) =
      Inr (ty_non_certifying_reasons (cp_traceability plan))"
    and "cp_certifying plan = (ty_non_certifying_reasons (cp_traceability plan) = [])"
    using g by (simp_all add: compiled_by_def validate_assertion_overrides_def)
  then have "cp_certifying plan \<longleftrightarrow> ps_assertion_overrides spec = []" by (metis rtraverse_length length_0_conv)
  then show ?thesis unfolding dec gen compiled_ids(1) [OF g] using id sel by (simp add: comp_def)
qed

theorem traceability_is_complete_witness:
  "\<exists>plan. compile_test_plan sample_catalogue sample_spec = Inr plan \<and> cp_certifying plan \<and>
     map ad_test_case_id (ty_applicability_decisions (cp_traceability plan)) = [''b'', ''a'']"
proof -
  obtain plan where p: "compile_test_plan sample_catalogue sample_spec = Inr plan"
    using sample_compiles by (elim exE conjE) auto
  have "cp_certifying plan" "map ad_test_case_id (ty_applicability_decisions (cp_traceability plan)) =
      map tc_test_case_id (ct_test_cases sample_catalogue)"
    using traceability_is_complete [OF p] by (simp_all add: sample_spec_def)
  then show ?thesis using p by (simp add: sample_catalogue_def sample_case_def)
qed

text \<open>
  The legacy path of the products endpoint is rewritten without its operation id and capability ids: an explicit capability
  selection on that path is dropped without an error.
\<close>

lemma legacy_product_path_drops_capabilities:
  "canonical_implemented_endpoint
     \<lparr>ie_method = MethodGet, ie_path = ''/open-banking/v4.0/aisp/product'', ie_resource_group = g,
      ie_operation_id = Some op_id, ie_capability_ids = ids\<rparr> =
   \<lparr>ie_method = MethodGet, ie_path = ''/open-banking/v4.0/aisp/products'', ie_resource_group = g,
    ie_operation_id = None, ie_capability_ids = []\<rparr>"
  by (simp add: canonical_implemented_endpoint_def)

end
