(* ===== verification/Plan_Document.thy ===== *)
theory Plan_Document
  imports Catalogue_Compiler Specification_Registry
begin

text \<open>
  Compilation of a shared plan document (\<open>compile_test_plan_document\<close> of \<open>conformance/catalogue.py\<close>): the
  catalogue areas of the document's boundary, the partition of its endpoints among them, one compilation per area and
  the merge of the results.
\<close>

section \<open>Documents\<close>

datatype PlanExecutionMode = ModeCertification | ModeDevelopment

record PlanDocumentEndpoint =
  pe_method :: HttpMethod
  pe_path :: string
  pe_operation_id :: "string option"
  pe_capability_ids :: "string list"
  pe_required :: "bool option"
  pe_locked :: "bool option"

record PlanResourceGroup =
  pg_resource_group_id :: string
  pg_label :: "string option"
  pg_endpoints :: "PlanDocumentEndpoint list"
  pg_select_all :: bool

record PlanDocumentV2 =
  pd_schema_version :: string
  pd_scheme :: string
  pd_specification :: string
  pd_version :: string
  pd_security_profile :: SecurityProfile
  pd_resource_groups :: "PlanResourceGroup list"
  pd_config :: json_object
  pd_runtime_inputs :: json_object
  pd_security_environment :: json_object
  pd_business_test_data :: json_object
  pd_metadata :: json_object
  pd_execution_mode :: PlanExecutionMode
  pd_endpoints :: "PlanDocumentEndpoint list"
  pd_dynamic_client_registration :: json_object

record PlanDocumentBoundary =
  pb_scheme :: string
  pb_specification :: string
  pb_version :: string

datatype ParsedPlanDocument = ParsedSpec TestPlanSpec | ParsedDocument PlanDocumentV2

section \<open>Boundaries and areas\<close>

definition supported_plan_document_boundaries :: "TestCatalogue list \<Rightarrow> PlanDocumentBoundary list" where
  "supported_plan_document_boundaries cats =
     concat (map (\<lambda>d. map (\<lambda>v. \<lparr>pb_scheme = sd_scheme d, pb_specification = sd_specification d, pb_version = sv_version v\<rparr>)
       (filter (\<lambda>v. list_ex (\<lambda>api. \<lparr>ck_standard = sv_catalogue_standard v, ck_version = sv_catalogue_version v,
                                     ck_api = api\<rparr> \<in> set (map ct_key cats)) (sv_catalogue_apis v))
          (sd_versions d))) supported_specifications)"

definition specification_binding_for_plan_boundary ::
  "PlanDocumentBoundary \<Rightarrow> compile_error + SpecificationDefinition \<times> SpecificationVersionDefinition" where
  "specification_binding_for_plan_boundary b =
     (case specification_for_boundary (pb_scheme b) (pb_specification b) (pb_version b) of
        Inl (RegistryValueError m) \<Rightarrow> Inl (CatalogueError m)
      | Inr r \<Rightarrow> Inr r)"

definition internal_catalogue_version_for_plan_boundary :: "PlanDocumentBoundary \<Rightarrow> compile_error + string" where
  "internal_catalogue_version_for_plan_boundary b =
     rbind (specification_binding_for_plan_boundary b) (\<lambda>(d, v). Inr (sv_catalogue_version v))"

definition catalogue_areas_for_plan_document_boundary ::
  "PlanDocumentBoundary \<Rightarrow> TestCatalogue list \<Rightarrow> compile_error + TestCatalogue list" where
  "catalogue_areas_for_plan_document_boundary b cats =
     rbind (specification_binding_for_plan_boundary b) (\<lambda>(d, v).
       let candidates = filter (\<lambda>cat. ck_standard (ct_key cat) = sv_catalogue_standard v \<and>
                                      ck_version (ct_key cat) = sv_catalogue_version v \<and>
                                      ck_api (ct_key cat) \<in> set (sv_catalogue_apis v)) cats
       in if candidates = []
          then Inl (CatalogueError (''No catalogues are available for '' @ pb_scheme b @ ''/'' @ pb_specification b
                 @ ''/'' @ pb_version b))
          else Inr candidates)"

definition document_boundary :: "PlanDocumentV2 \<Rightarrow> PlanDocumentBoundary" where
  "document_boundary doc =
     \<lparr>pb_scheme = pd_scheme doc, pb_specification = pd_specification doc, pb_version = pd_version doc\<rparr>"

definition candidate_catalogues_for_plan_document_v2 ::
  "PlanDocumentV2 \<Rightarrow> TestCatalogue list \<Rightarrow> compile_error + TestCatalogue list" where
  "candidate_catalogues_for_plan_document_v2 doc cats =
     catalogue_areas_for_plan_document_boundary (document_boundary doc) cats"

definition internal_catalogue_version_for_plan_document_v2 :: "PlanDocumentV2 \<Rightarrow> compile_error + string" where
  "internal_catalogue_version_for_plan_document_v2 doc =
     internal_catalogue_version_for_plan_boundary (document_boundary doc)"

definition key_text :: "CatalogueKey \<Rightarrow> string" where
  "key_text k = ck_standard k @ ''/'' @ ck_version k @ ''/'' @ ck_api k"

definition resolve_catalogue_from_collection :: "CatalogueKey \<Rightarrow> TestCatalogue list \<Rightarrow> compile_error + TestCatalogue" where
  "resolve_catalogue_from_collection k cats =
     (case find (\<lambda>cat. ct_key cat = k) cats of
        Some cat \<Rightarrow> Inr cat
      | None \<Rightarrow> Inl (CatalogueError (''Unsupported catalogue: '' @ key_text k @ ''. Supported catalogues: ''
                       @ join '', '' (map (key_text \<circ> ct_key) cats))))"

section \<open>Endpoints of a document\<close>

definition CANONICAL_RESOURCE_GROUPS_BY_API :: "(string \<times> string \<times> string \<times> string) list" where
  "CANONICAL_RESOURCE_GROUPS_BY_API =
     [(''ais'', ''AIS'', ''account-and-transaction'', ''Account and Transaction''),
      (''pis'', ''PIS'', ''payment-initiation'', ''Payment Initiation''),
      (''cbpii'', ''CBPII'', ''confirmation-of-funds'', ''Confirmation of Funds''),
      (''vrp'', ''VRP'', ''variable-recurring-payments'', ''Variable Recurring Payments'')]"

definition RESOURCE_GROUP_API_BY_CANONICAL_ID :: "(string, string) dict" where
  "RESOURCE_GROUP_API_BY_CANONICAL_ID =
     map (\<lambda>(api, canonical_id, _). (canonical_id, api)) CANONICAL_RESOURCE_GROUPS_BY_API"

definition RESOURCE_GROUP_API_BY_BUILDER_ID :: "(string, string) dict" where
  "RESOURCE_GROUP_API_BY_BUILDER_ID =
     map (\<lambda>(api, _, builder_id, _). (builder_id, api)) CANONICAL_RESOURCE_GROUPS_BY_API"

definition api_for_plan_resource_group_id :: "string \<Rightarrow> string option" where
  "api_for_plan_resource_group_id i =
     (case map_of RESOURCE_GROUP_API_BY_CANONICAL_ID i of
        Some api \<Rightarrow> Some api
      | None \<Rightarrow>
          (case map_of RESOURCE_GROUP_API_BY_BUILDER_ID i of
             Some api \<Rightarrow> Some api
           | None \<Rightarrow>
               (case partition_at CHR ''.'' i of (api, separator, _) \<Rightarrow>
                  if separator \<and> api \<noteq> [] then Some api else None)))"

definition ordered_catalogue_endpoint_refs :: "TestCatalogue \<Rightarrow> EndpointRef list" where
  "ordered_catalogue_endpoint_refs cat =
     fold set_add (concat (map (ta_endpoint_refs \<circ> tc_applicability) (ct_test_cases cat))
                   @ concat (map ec_endpoint_refs (ct_capabilities cat))) []"

definition catalogue_endpoint_refs :: "TestCatalogue \<Rightarrow> EndpointRef list" where
  "catalogue_endpoint_refs cat =
     concat (map (ta_endpoint_refs \<circ> tc_applicability) (ct_test_cases cat))
     @ concat (map ec_endpoint_refs (ct_capabilities cat))"

definition no_owner :: "string \<Rightarrow> compile_error" where
  "no_owner i = CatalogueError (''No catalogue area owns resource group '' @ quoted i)"

definition all_endpoints_for_resource_group ::
  "PlanResourceGroup \<Rightarrow> (string, TestCatalogue) dict \<Rightarrow> compile_error + ImplementedEndpoint list" where
  "all_endpoints_for_resource_group g by_api =
     (case api_for_plan_resource_group_id (pg_resource_group_id g) of
        None \<Rightarrow> Inl (no_owner (pg_resource_group_id g))
      | Some api \<Rightarrow>
          (case map_of by_api api of
             None \<Rightarrow> Inl (no_owner (pg_resource_group_id g))
           | Some cat \<Rightarrow>
               Inr (map (\<lambda>r. \<lparr>ie_method = er_method r, ie_path = er_path r,
                              ie_resource_group = pg_resource_group_id g, ie_operation_id = None,
                              ie_capability_ids = []\<rparr>) (ordered_catalogue_endpoint_refs cat))))"

definition declared_endpoint :: "string \<Rightarrow> PlanDocumentEndpoint \<Rightarrow> ImplementedEndpoint" where
  "declared_endpoint rgroup e =
     \<lparr>ie_method = pe_method e, ie_path = pe_path e, ie_resource_group = rgroup,
      ie_operation_id = pe_operation_id e, ie_capability_ids = pe_capability_ids e\<rparr>"

definition implemented_endpoints_from_plan_document_v2 ::
  "PlanDocumentV2 \<Rightarrow> TestCatalogue list \<Rightarrow> compile_error + ImplementedEndpoint list" where
  "implemented_endpoints_from_plan_document_v2 doc cats =
     (if pd_endpoints doc \<noteq> [] then Inr (map (declared_endpoint (pd_specification doc)) (pd_endpoints doc))
      else
        let by_api = fold (\<lambda>cat. AList.update (ck_api (ct_key cat)) cat) cats []
        in rbind (rtraverse (\<lambda>g.
             if pg_select_all g then all_endpoints_for_resource_group g by_api
             else Inr (map (declared_endpoint (pg_resource_group_id g)) (pg_endpoints g))) (pd_resource_groups doc))
             (\<lambda>ess. Inr (concat ess)))"

section \<open>Partition by owning area\<close>

record partition_state =
  pt_endpoints :: "(nat, ImplementedEndpoint list) dict"
  pt_seen :: "(nat, EndpointRef list) dict"
  pt_alias :: "(nat, EndpointRef list) dict"

definition refs_at :: "(nat, 'a list) dict \<Rightarrow> nat \<Rightarrow> 'a list" where
  "refs_at d i = (case map_of d i of None \<Rightarrow> [] | Some rs \<Rightarrow> rs)"

definition catalogue_index_for_resource_group :: "string \<Rightarrow> (string, nat) dict \<Rightarrow> compile_error + nat option" where
  "catalogue_index_for_resource_group rgroup indexes =
     (case api_for_plan_resource_group_id rgroup of
        None \<Rightarrow> Inr None
      | Some api \<Rightarrow>
          (case map_of indexes api of
             None \<Rightarrow> Inl (CatalogueError (''Resource group '' @ quoted rgroup @ '' is not available for this plan boundary. ''
                       @ ''Available API families: '' @ join '', '' (sort (keys indexes))))
           | Some i \<Rightarrow> Inr (Some i)))"

definition append_partitioned_endpoint ::
  "nat \<Rightarrow> ImplementedEndpoint \<Rightarrow> TestCatalogue \<Rightarrow> partition_state \<Rightarrow> compile_error + partition_state" where
  "append_partitioned_endpoint i e cat st =
     (if endpoint_ref e \<in> set (refs_at (pt_seen st) i)
      then Inl (CatalogueError (''planSpec scope duplicates implemented endpoint '' @ method_name (ie_method e) @ '' ''
             @ ie_path e @ '' in catalogue area '' @ ck_api (ct_key cat)))
      else Inr (st\<lparr>pt_seen := AList.update i (refs_at (pt_seen st) i @ [endpoint_ref e]) (pt_seen st),
                  pt_endpoints := AList.update i (refs_at (pt_endpoints st) i @ [e]) (pt_endpoints st)\<rparr>))"

definition owner_index ::
  "TestCatalogue list \<Rightarrow> (string, nat) dict \<Rightarrow> ImplementedEndpoint \<Rightarrow> compile_error + nat" where
  "owner_index cats indexes e =
     rbind (catalogue_index_for_resource_group (ie_resource_group e) indexes) (\<lambda>group_index.
       case group_index of
         Some i \<Rightarrow>
           if endpoint_ref e \<notin> set (catalogue_endpoint_refs (cats ! i))
           then Inl (CatalogueError (''Resource group '' @ quoted (ie_resource_group e) @ '' does not contain endpoint ''
                  @ method_name (ie_method e) @ '' '' @ ie_path e))
           else Inr i
       | None \<Rightarrow>
           let owners = filter (\<lambda>i. endpoint_ref e \<in> set (catalogue_endpoint_refs (cats ! i))) [0 ..< length cats]
           in (case owners of
                 [] \<Rightarrow> Inl (CatalogueError (''No catalogue area owns endpoint '' @ method_name (ie_method e) @ '' '' @ ie_path e))
               | [i] \<Rightarrow> Inr i
               | _ \<Rightarrow> Inl (CatalogueError (''Endpoint '' @ method_name (ie_method e) @ '' '' @ ie_path e
                         @ '' is ambiguous across catalogues: '' @ join '', '' (map (\<lambda>i. ck_api (ct_key (cats ! i))) owners)))))"

definition partition_endpoint ::
  "TestCatalogue list \<Rightarrow> (string, nat) dict \<Rightarrow> ImplementedEndpoint \<Rightarrow> partition_state \<Rightarrow> compile_error + partition_state" where
  "partition_endpoint cats indexes raw st =
     (let e = canonical_implemented_endpoint raw
      in rbind (owner_index cats indexes e) (\<lambda>i.
         if endpoint_ref e \<in> set (refs_at (pt_seen st) i) \<and>
            (ie_path raw \<noteq> ie_path e \<or> endpoint_ref e \<in> set (refs_at (pt_alias st) i))
         then Inr st
         else rbind (append_partitioned_endpoint i e (cats ! i) st) (\<lambda>st'.
           Inr (if ie_path raw \<noteq> ie_path e
                then st'\<lparr>pt_alias := AList.update i (set_add (endpoint_ref e) (refs_at (pt_alias st') i)) (pt_alias st')\<rparr>
                else st'))))"

fun partition_endpoints ::
  "TestCatalogue list \<Rightarrow> (string, nat) dict \<Rightarrow> ImplementedEndpoint list \<Rightarrow> partition_state \<Rightarrow>
   compile_error + partition_state" where
  "partition_endpoints cats indexes [] st = Inr st"
| "partition_endpoints cats indexes (e # es) st =
     rbind (partition_endpoint cats indexes e st) (\<lambda>st'. partition_endpoints cats indexes es st')"

definition partition_implemented_endpoints_by_catalogue ::
  "ImplementedEndpoint list \<Rightarrow> TestCatalogue list \<Rightarrow> compile_error + (TestCatalogue \<times> ImplementedEndpoint list) list" where
  "partition_implemented_endpoints_by_catalogue es cats =
     (let indexes = fold (\<lambda>(i, cat). AList.update (ck_api (ct_key cat)) i) (enumerate 0 cats) []
      in rbind (partition_endpoints cats indexes es \<lparr>pt_endpoints = [], pt_seen = [], pt_alias = []\<rparr>) (\<lambda>st.
         Inr (map (\<lambda>(i, cat). (cat, refs_at (pt_endpoints st) i))
                (filter (\<lambda>(i, cat). i \<in> set (keys (pt_endpoints st))) (enumerate 0 cats)))))"

section \<open>Merging\<close>

fun merge_compiled_test_cases ::
  "CatalogueTestCase list \<Rightarrow> CatalogueTestCase list \<Rightarrow> compile_error + CatalogueTestCase list" where
  "merge_compiled_test_cases [] merged = Inr merged"
| "merge_compiled_test_cases (c # cs) merged =
     (if tc_test_case_id c \<in> set (map tc_test_case_id merged)
      then Inl (CatalogueError (''Compiled test case id '' @ quoted (tc_test_case_id c)
             @ '' is duplicated across catalogues''))
      else merge_compiled_test_cases cs (merged @ [c]))"

definition merged_runtime_input_trace_value ::
  "RuntimeInputTrace \<Rightarrow> RuntimeInputTrace \<Rightarrow> bool \<Rightarrow> compile_error + json" where
  "merged_runtime_input_trace_value existing incoming sensitive =
     (if sensitive then Inr JNull
      else if rt_value existing = JNull then Inr (rt_value incoming)
      else if rt_value incoming = JNull \<or> py_eq (rt_value existing) (rt_value incoming) then Inr (rt_value existing)
      else Inl (CatalogueError (runtime_input (rt_input_id existing) @ '' has conflicting trace values'')))"

definition merge_runtime_input_trace :: "RuntimeInputTrace \<Rightarrow> RuntimeInputTrace \<Rightarrow> compile_error + RuntimeInputTrace" where
  "merge_runtime_input_trace existing incoming =
     (if rt_input_type existing \<noteq> rt_input_type incoming
      then Inl (CatalogueError (runtime_input (rt_input_id existing) @ '' has conflicting catalogue types''))
      else
        let sensitive = (rt_sensitive existing \<or> rt_sensitive incoming)
        in rbind (merged_runtime_input_trace_value existing incoming sensitive) (\<lambda>v.
           Inr \<lparr>rt_input_id = rt_input_id existing, rt_input_type = rt_input_type existing,
                rt_required = (rt_required existing \<or> rt_required incoming), rt_sensitive = sensitive,
                rt_provided = (rt_provided existing \<or> rt_provided incoming), rt_value = v\<rparr>))"

fun merge_traces ::
  "RuntimeInputTrace list \<Rightarrow> (string, RuntimeInputTrace) dict \<Rightarrow> compile_error + (string, RuntimeInputTrace) dict" where
  "merge_traces [] acc = Inr acc"
| "merge_traces (t # ts) acc =
     (case map_of acc (rt_input_id t) of
        None \<Rightarrow> merge_traces ts (AList.update (rt_input_id t) t acc)
      | Some existing \<Rightarrow>
          rbind (merge_runtime_input_trace existing t)
            (\<lambda>m. merge_traces ts (AList.update (rt_input_id t) m acc)))"

definition merge_runtime_input_snapshots :: "CompiledTestPlan list \<Rightarrow> compile_error + RuntimeInputTrace list" where
  "merge_runtime_input_snapshots plans =
     rbind (merge_traces (concat (map (ty_runtime_input_snapshot \<circ> cp_traceability) plans)) [])
       (\<lambda>acc. Inr (map snd acc))"

definition aggregate_catalogue_version :: "CompiledTestPlan list \<Rightarrow> string" where
  "aggregate_catalogue_version plans =
     join ''; '' (map (\<lambda>p. ck_api (ty_catalogue_key (cp_traceability p)) @ '':'' @ cp_catalogue_version p) plans)"

definition aggregate_catalogue_provenance :: "CompiledTestPlan list \<Rightarrow> compile_error + CatalogueProvenance option" where
  "aggregate_catalogue_provenance plans =
     (case List.map_filter (\<lambda>p. ty_provenance (cp_traceability p)) plans of
        [] \<Rightarrow> Inr None
      | first # rest \<Rightarrow>
          if list_ex (\<lambda>candidate. candidate \<noteq> first) rest
          then Inl (CatalogueError ''Cannot aggregate catalogue areas with different source provenance'')
          else Inr (Some first))"

definition merge_compiled_plan_documents_v2 ::
  "PlanDocumentV2 \<Rightarrow> CompiledTestPlan list \<Rightarrow> ImplementedEndpoint list \<Rightarrow> compile_error + CompiledTestPlan" where
  "merge_compiled_plan_documents_v2 doc plans endpoints =
     (let aggregate_key = \<lparr>ck_standard = pd_scheme doc, ck_version = pd_version doc, ck_api = pd_specification doc\<rparr>
      in rbind (merge_compiled_test_cases (concat (map cp_test_cases plans)) []) (\<lambda>test_cases.
         rbind (merge_runtime_input_snapshots plans) (\<lambda>snapshot.
         rbind (aggregate_catalogue_provenance plans) (\<lambda>provenance.
         Inr \<lparr>cp_catalogue_key = aggregate_key, cp_catalogue_version = aggregate_catalogue_version plans,
              cp_security_profile = pd_security_profile doc, cp_test_cases = test_cases,
              cp_traceability =
                \<lparr>ty_catalogue_key = aggregate_key, ty_catalogue_version = aggregate_catalogue_version plans,
                 ty_security_profile = pd_security_profile doc, ty_selected_endpoints = endpoints,
                 ty_selected_capabilities = concat (map (ty_selected_capabilities \<circ> cp_traceability) plans),
                 ty_applicability_decisions = concat (map (ty_applicability_decisions \<circ> cp_traceability) plans),
                 ty_generated_test_case_ids = map tc_test_case_id test_cases, ty_runtime_input_snapshot = snapshot,
                 ty_non_certifying_reasons = concat (map (ty_non_certifying_reasons \<circ> cp_traceability) plans),
                 ty_provenance = provenance\<rparr>,
              cp_certifying = list_all cp_certifying plans,
              cp_skipped_test_cases = concat (map cp_skipped_test_cases plans)\<rparr>))))"

definition area_spec :: "PlanDocumentV2 \<Rightarrow> TestCatalogue \<Rightarrow> ImplementedEndpoint list \<Rightarrow> TestPlanSpec" where
  "area_spec doc cat endpoints =
     \<lparr>ps_catalogue_key = ct_key cat, ps_security_profile = pd_security_profile doc,
      ps_implemented_endpoints = endpoints, ps_runtime_inputs = pd_runtime_inputs doc,
      ps_specification_version = Some (pd_version doc), ps_deselected_test_case_ids = [],
      ps_assertion_overrides = []\<rparr>"

definition compile_plan_document_v2 :: "PlanDocumentV2 \<Rightarrow> TestCatalogue list \<Rightarrow> compile_error + CompiledTestPlan" where
  "compile_plan_document_v2 doc cats =
     rbind (candidate_catalogues_for_plan_document_v2 doc cats) (\<lambda>candidates.
     rbind (implemented_endpoints_from_plan_document_v2 doc candidates) (\<lambda>endpoints.
     rbind (rguard (endpoints \<noteq> [])
              (CatalogueError (''testPlan.'' @ (if pd_resource_groups doc \<noteq> [] then ''resourceGroups'' else ''endpoints'')
                 @ '' must select at least one endpoint''))) (\<lambda>_.
     rbind (partition_implemented_endpoints_by_catalogue endpoints candidates) (\<lambda>parts.
     rbind (rtraverse (\<lambda>(cat, es). compile_test_plan cat (area_spec doc cat es)) parts) (\<lambda>plans.
     merge_compiled_plan_documents_v2 doc plans endpoints)))))"

definition compile_test_plan_document :: "ParsedPlanDocument \<Rightarrow> TestCatalogue list \<Rightarrow> compile_error + CompiledTestPlan" where
  "compile_test_plan_document document cats =
     (case document of
        ParsedSpec spec \<Rightarrow>
          rbind (resolve_catalogue_from_collection (ps_catalogue_key spec) cats) (\<lambda>cat. compile_test_plan cat spec)
      | ParsedDocument doc \<Rightarrow> compile_plan_document_v2 doc cats)"

section \<open>The partition\<close>

lemma refs_at_update: "refs_at (AList.update i v d) j = (if j = i then v else refs_at d j)"
  by (simp add: refs_at_def update_conv)

lemma index_bound:
  assumes "\<And>api i. map_of indexes api = Some i \<Longrightarrow> i < length cats" and "owner_index cats indexes e = Inr i"
  shows "i < length cats \<and> endpoint_ref e \<in> set (catalogue_endpoint_refs (cats ! i))"
proof -
  obtain gi where gi: "catalogue_index_for_resource_group (ie_resource_group e) indexes = Inr gi"
    using assms(2) by (auto simp: owner_index_def rbind_eqs)
  show ?thesis
  proof (cases gi)
    case (Some j)
    then show ?thesis using assms gi
      by (auto simp: owner_index_def catalogue_index_for_resource_group_def split: option.splits if_splits)
  next
    case None
    let ?owners = "filter (\<lambda>i. endpoint_ref e \<in> set (catalogue_endpoint_refs (cats ! i))) [0 ..< length cats]"
    have "?owners = [i]" using assms(2) gi None by (auto simp: owner_index_def Let_def split: list.splits)
    then have "i \<in> set ?owners" by simp
    then show ?thesis by simp
  qed
qed

definition partition_inv :: "TestCatalogue list \<Rightarrow> ImplementedEndpoint list \<Rightarrow> partition_state \<Rightarrow> bool" where
  "partition_inv cats es st =
     ((\<forall>i. map endpoint_ref (refs_at (pt_endpoints st) i) = refs_at (pt_seen st) i \<and> distinct (refs_at (pt_seen st) i) \<and>
           set (refs_at (pt_endpoints st) i) \<subseteq> canonical_implemented_endpoint ` set es \<and>
           (\<forall>e \<in> set (refs_at (pt_endpoints st) i). endpoint_ref e \<in> set (catalogue_endpoint_refs (cats ! i)))) \<and>
      (\<forall>i \<in> set (keys (pt_endpoints st)). i < length cats \<and> refs_at (pt_endpoints st) i \<noteq> []) \<and>
      (\<forall>raw \<in> set es. \<exists>i < length cats. endpoint_ref (canonical_implemented_endpoint raw) \<in> set (refs_at (pt_seen st) i)))"

lemma partition_inv_add:
  assumes inv: "partition_inv cats es st" and idx: "\<And>api i. map_of indexes api = Some i \<Longrightarrow> i < length cats"
    and step: "partition_endpoint cats indexes raw st = Inr st'"
  shows "partition_inv cats (es @ [raw]) st'"
proof -
  let ?e = "canonical_implemented_endpoint raw"
  obtain i where i: "owner_index cats indexes ?e = Inr i" using step by (auto simp: partition_endpoint_def Let_def rbind_eqs)
  have b: "i < length cats" "endpoint_ref ?e \<in> set (catalogue_endpoint_refs (cats ! i))" using index_bound [OF idx i] by auto
  show ?thesis
  proof (cases "endpoint_ref ?e \<in> set (refs_at (pt_seen st) i)")
    case True
    then have "st' = st" using step i
      by (auto simp: partition_endpoint_def append_partitioned_endpoint_def Let_def rbind_eqs split: if_splits)
    then show ?thesis using inv True b unfolding partition_inv_def by auto
  next
    case False
    then have seen: "pt_seen st' = AList.update i (refs_at (pt_seen st) i @ [endpoint_ref ?e]) (pt_seen st)"
      and ends: "pt_endpoints st' = AList.update i (refs_at (pt_endpoints st) i @ [?e]) (pt_endpoints st)"
      using step i
      by (auto simp: partition_endpoint_def append_partitioned_endpoint_def Let_def rbind_eqs split: if_splits)
    have ks: "set (keys (pt_endpoints st')) = insert i (set (keys (pt_endpoints st)))" by (simp add: ends dom_update)
    show ?thesis
      unfolding partition_inv_def
    proof (intro conjI allI ballI)
      fix r assume "r \<in> set (es @ [raw])"
      then consider "r \<in> set es" | "r = raw" by auto
      then show "\<exists>j < length cats. endpoint_ref (canonical_implemented_endpoint r) \<in> set (refs_at (pt_seen st') j)"
      proof cases
        case 1
        then obtain j where j: "j < length cats" "endpoint_ref (canonical_implemented_endpoint r) \<in> set (refs_at (pt_seen st) j)"
          using inv by (auto simp: partition_inv_def)
        then have "endpoint_ref (canonical_implemented_endpoint r) \<in> set (refs_at (pt_seen st') j)" by (auto simp: seen refs_at_update)
        then show ?thesis using j(1) by blast
      next
        case 2
        then have "endpoint_ref (canonical_implemented_endpoint r) \<in> set (refs_at (pt_seen st') i)" by (simp add: seen refs_at_update)
        then show ?thesis using b(1) by blast
      qed
    qed (use inv False b in \<open>auto simp: partition_inv_def seen ends refs_at_update dom_update split: if_splits\<close>)
  qed
qed

lemma partition_endpoints_inv:
  "partition_endpoints cats indexes es st = Inr st' \<Longrightarrow> partition_inv cats before st \<Longrightarrow>
   (\<And>api i. map_of indexes api = Some i \<Longrightarrow> i < length cats) \<Longrightarrow> partition_inv cats (before @ es) st'"
proof (induction es arbitrary: st before)
  case (Cons e es)
  then obtain st1 where s: "partition_endpoint cats indexes e st = Inr st1" "partition_endpoints cats indexes es st1 = Inr st'"
    by (auto simp: rbind_eqs)
  show ?case
    using Cons.IH [OF s(2) partition_inv_add [OF Cons.prems(2,3) s(1)] Cons.prems(3)] by simp
qed simp

lemma area_indexes:
  fixes cats :: "TestCatalogue list"
  shows "map_of (fold (\<lambda>(i, cat). AList.update (ck_api (ct_key cat)) i) (enumerate 0 cats) []) api = Some i \<Longrightarrow> i < length cats"
proof -
  have "map_of (fold (\<lambda>(i, cat). AList.update (ck_api (ct_key cat)) i) ics acc) api = Some i \<Longrightarrow>
      i \<in> fst ` set ics \<or> map_of acc api = Some i" for ics :: "(nat \<times> TestCatalogue) list" and acc
    by (induction ics arbitrary: acc) (fastforce simp: update_conv split: if_splits prod.splits)+
  from this [of "enumerate 0 cats" "[]"]
  show "map_of (fold (\<lambda>(i, cat). AList.update (ck_api (ct_key cat)) i) (enumerate 0 cats) []) api = Some i \<Longrightarrow> i < length cats"
    by (auto simp: in_set_enumerate_eq)
qed

section \<open>Merged plans\<close>

lemma merge_cases_Inr:
  "merge_compiled_test_cases cs merged = Inr r \<Longrightarrow> distinct (map tc_test_case_id merged) \<Longrightarrow>
   r = merged @ cs \<and> distinct (map tc_test_case_id r)"
  by (induction cs arbitrary: merged) (fastforce split: if_splits)+

text \<open>Every dependency of a case comes before it in the list.\<close>

fun deps_first :: "string set \<Rightarrow> CatalogueTestCase list \<Rightarrow> bool" where
  "deps_first earlier [] = True"
| "deps_first earlier (c # cs) =
     (set (tc_dependencies c) \<subseteq> earlier \<and> deps_first (insert (tc_test_case_id c) earlier) cs)"

lemma deps_first_mono: "deps_first a cs \<Longrightarrow> a \<subseteq> b \<Longrightarrow> deps_first b cs"
  by (induction cs arbitrary: a b) (auto, meson insert_mono)

lemma deps_first_append: "deps_first a cs \<Longrightarrow> deps_first (a \<union> tc_test_case_id ` set cs) ds \<Longrightarrow> deps_first a (cs @ ds)"
  by (induction cs arbitrary: a) auto

lemma deps_first_concat: "(\<And>cs. cs \<in> set css \<Longrightarrow> deps_first {} cs) \<Longrightarrow> deps_first a (concat css)"
proof (induction css arbitrary: a)
  case (Cons cs css)
  have "deps_first a cs" by (rule deps_first_mono [of "{}"]) (use Cons.prems in auto)
  then show ?case using Cons by (simp add: deps_first_append)
qed simp

lemma topological_deps_first:
  "topological cs e ids \<Longrightarrow> (\<And>i. i \<in> set ids \<Longrightarrow> \<exists>c. map_of cs i = Some c \<and> tc_test_case_id c = i) \<Longrightarrow>
   deps_first (set e) (map (case_of cs) ids)"
proof (induction ids arbitrary: e)
  case (Cons i ids)
  obtain c where c: "map_of cs i = Some c" "tc_test_case_id c = i" using Cons.prems(2) [of i] by auto
  have "deps_first (set (e @ [i])) (map (case_of cs) ids)" by (rule Cons.IH) (use Cons.prems in auto)
  moreover have "case_of cs i = c" "deps_of cs i = tc_dependencies c" using c by (simp_all add: case_of_def deps_of_def)
  ultimately show ?case using Cons.prems(1) c(2) by simp
qed simp

lemma compiled_deps_first:
  assumes "compile_test_plan cat spec = Inr plan"
  shows "deps_first {} (cp_test_cases plan)"
proof -
  obtain g where g: "compiled_by cat spec plan g" using compile_stages [OF assms] .
  have d: "distinct (map tc_test_case_id (ct_test_cases cat))" using g by (simp add: compiled_by_def)
  have "\<exists>c. map_of (case_index cat) i = Some c \<and> tc_test_case_id c = i" if i: "i \<in> set (sg_ids g)" for i
  proof -
    obtain c where "c \<in> set (cp_test_cases plan)" "tc_test_case_id c = i"
      using i unfolding compiled_ids(1) [OF g, symmetric] by auto
    then have "map_of (case_index cat) i = Some c" using case_index_lookup [OF d, of i c] compiled_ids(2) [OF g] by blast
    then show ?thesis using \<open>tc_test_case_id c = i\<close> by blast
  qed
  from topological_deps_first [OF compiled_ids(4) [OF g] this]
  have "deps_first {} (map (case_of (case_index cat)) (sg_ids g))" by simp
  then show ?thesis using g by (simp add: compiled_by_def)
qed

text \<open>The merged snapshot: one entry per input, sensitive when one of the merged entries is, and then without value.\<close>

definition merged_from :: "RuntimeInputTrace list \<Rightarrow> (string, RuntimeInputTrace) dict \<Rightarrow> bool" where
  "merged_from ts acc =
     (distinct (keys acc) \<and> set (keys acc) = rt_input_id ` set ts \<and>
      (\<forall>(k, m) \<in> set acc. rt_input_id m = k \<and>
         (rt_sensitive m \<longleftrightarrow> (\<exists>t \<in> set ts. rt_input_id t = k \<and> rt_sensitive t)) \<and>
         (rt_sensitive m \<longrightarrow> rt_value m = JNull)))"

lemma update_entries:
  "distinct (keys d) \<Longrightarrow> set (AList.update k v d) \<subseteq> insert (k, v) {(k', v') \<in> set d. k' \<noteq> k}"
  by (induction d) (auto, force)

lemma merge_trace_Inr:
  "merge_runtime_input_trace a t = Inr m \<Longrightarrow>
   rt_input_id m = rt_input_id a \<and> rt_sensitive m = (rt_sensitive a \<or> rt_sensitive t) \<and> (rt_sensitive m \<longrightarrow> rt_value m = JNull)"
  by (auto simp: merge_runtime_input_trace_def merged_runtime_input_trace_value_def Let_def rbind_eqs split: if_splits)

lemma merged_from_add:
  assumes acc: "merged_from ts acc" and t: "rt_sensitive t \<Longrightarrow> rt_value t = JNull"
    and m: "(case map_of acc (rt_input_id t) of None \<Rightarrow> Inr t | Some a \<Rightarrow> merge_runtime_input_trace a t) = Inr m"
  shows "merged_from (ts @ [t]) (AList.update (rt_input_id t) m acc)"
proof -
  let ?k = "rt_input_id t"
  have d: "distinct (keys acc)" and ks: "set (keys acc) = rt_input_id ` set ts" using acc by (simp_all add: merged_from_def)
  have new: "rt_input_id m = ?k \<and> (rt_sensitive m \<longleftrightarrow> (\<exists>u \<in> set (ts @ [t]). rt_input_id u = ?k \<and> rt_sensitive u)) \<and>
      (rt_sensitive m \<longrightarrow> rt_value m = JNull)"
  proof (cases "map_of acc ?k")
    case None
    then have "?k \<notin> rt_input_id ` set ts" unfolding ks [symmetric] by (simp add: map_of_eq_None_iff)
    then have "\<forall>x \<in> set ts. rt_input_id x \<noteq> ?k" by (metis imageI)
    then show ?thesis using None m t by auto
  next
    case (Some a)
    then have "rt_input_id a = ?k" "rt_sensitive a \<longleftrightarrow> (\<exists>u \<in> set ts. rt_input_id u = ?k \<and> rt_sensitive u)"
      using acc map_of_SomeD [OF Some] by (auto simp: merged_from_def)
    moreover have "merge_runtime_input_trace a t = Inr m" using Some m by simp
    ultimately show ?thesis using merge_trace_Inr [of a t m] by auto
  qed
  have old: "rt_input_id m' = k \<and> (rt_sensitive m' \<longleftrightarrow> (\<exists>u \<in> set (ts @ [t]). rt_input_id u = k \<and> rt_sensitive u)) \<and>
      (rt_sensitive m' \<longrightarrow> rt_value m' = JNull)" if e: "(k, m') \<in> set acc" "k \<noteq> ?k" for k m'
    using acc e by (auto simp: merged_from_def)
  have "\<forall>(k, m') \<in> set (AList.update ?k m acc). rt_input_id m' = k \<and>
      (rt_sensitive m' \<longleftrightarrow> (\<exists>u \<in> set (ts @ [t]). rt_input_id u = k \<and> rt_sensitive u)) \<and> (rt_sensitive m' \<longrightarrow> rt_value m' = JNull)"
  proof (clarify)
    fix k m' assume "(k, m') \<in> set (AList.update ?k m acc)"
    then have "(k, m') = (?k, m) \<or> (k, m') \<in> set acc \<and> k \<noteq> ?k" using update_entries [OF d, of ?k m] by blast
    then show "rt_input_id m' = k \<and> (rt_sensitive m' \<longleftrightarrow> (\<exists>u \<in> set (ts @ [t]). rt_input_id u = k \<and> rt_sensitive u)) \<and>
      (rt_sensitive m' \<longrightarrow> rt_value m' = JNull)" using new old by blast
  qed
  moreover have "set (keys (AList.update ?k m acc)) = insert ?k (set (keys acc))" by (simp add: dom_update)
  ultimately show ?thesis using d ks by (auto simp: merged_from_def distinct_update)
qed

lemma merge_traces_merged:
  "merge_traces ts acc = Inr res \<Longrightarrow> merged_from seen acc \<Longrightarrow>
   (\<And>t. t \<in> set ts \<Longrightarrow> rt_sensitive t \<Longrightarrow> rt_value t = JNull) \<Longrightarrow> merged_from (seen @ ts) res"
proof (induction ts arbitrary: acc seen)
  case (Cons t ts)
  let ?v = "case map_of acc (rt_input_id t) of None \<Rightarrow> Inr t | Some a \<Rightarrow> merge_runtime_input_trace a t"
  obtain m where m: "?v = Inr m" "merge_traces ts (AList.update (rt_input_id t) m acc) = Inr res"
    using Cons.prems(1) by (auto simp: rbind_eqs split: option.splits)
  have t: "rt_sensitive t \<Longrightarrow> rt_value t = JNull" using Cons.prems(3) by simp
  from Cons.IH [OF m(2) merged_from_add [OF Cons.prems(2) t m(1)]] Cons.prems(3) show ?case by simp
qed simp

section \<open>A compiled document, area by area\<close>

lemma compile_document_areas:
  assumes "compile_test_plan_document (ParsedDocument doc) cats = Inr plan"
  obtains parts plans acc where
    "list_all2 (\<lambda>(cat, es) p. compile_test_plan cat (area_spec doc cat es) = Inr p) parts plans"
    "cp_test_cases plan = concat (map cp_test_cases plans)" "distinct (map tc_test_case_id (cp_test_cases plan))"
    "merge_traces (concat (map (ty_runtime_input_snapshot \<circ> cp_traceability) plans)) [] = Inr acc"
    "ty_runtime_input_snapshot (cp_traceability plan) = map snd acc"
    "cp_certifying plan = list_all cp_certifying plans"
proof -
  obtain parts plans es where p: "rtraverse (\<lambda>(cat, es). compile_test_plan cat (area_spec doc cat es)) parts = Inr plans"
    "merge_compiled_plan_documents_v2 doc plans es = Inr plan"
    using assms by (auto simp: compile_test_plan_document_def compile_plan_document_v2_def rbind_eqs)
  obtain tcs acc where m: "merge_compiled_test_cases (concat (map cp_test_cases plans)) [] = Inr tcs"
    "merge_traces (concat (map (ty_runtime_input_snapshot \<circ> cp_traceability) plans)) [] = Inr acc"
    "cp_test_cases plan = tcs" "ty_runtime_input_snapshot (cp_traceability plan) = map snd acc"
    "cp_certifying plan = list_all cp_certifying plans"
    using p(2) by (auto simp: merge_compiled_plan_documents_v2_def merge_runtime_input_snapshots_def Let_def rbind_eqs)
  have t: "tcs = concat (map cp_test_cases plans) \<and> distinct (map tc_test_case_id tcs)" by (metis append_Nil distinct.simps(1) list.simps(8) m(1) merge_cases_Inr)
  have l: "list_all2 (\<lambda>(cat, es) p. compile_test_plan cat (area_spec doc cat es) = Inr p) parts plans"
    using p(1) by (auto simp: rtraverse_Inr case_prod_unfold)
  have c: "cp_test_cases plan = concat (map cp_test_cases plans)" "distinct (map tc_test_case_id (cp_test_cases plan))"
    unfolding m(3) using t by blast+
  show thesis by (rule that [OF l c m(2,4,5)])
qed

lemma area_plan_props:
  assumes "compile_test_plan cat (area_spec doc cat es) = Inr p"
  shows "deps_first {} (cp_test_cases p)" and "cp_certifying p"
    and "rt_input_id ` set (ty_runtime_input_snapshot (cp_traceability p)) = ri_input_id ` set (compiled_requirements p)"
    and "t \<in> set (ty_runtime_input_snapshot (cp_traceability p)) \<Longrightarrow>
         rt_sensitive t \<longleftrightarrow> (\<exists>r \<in> set (compiled_requirements p). ri_input_id r = rt_input_id t \<and> ri_sensitive r)"
    and "t \<in> set (ty_runtime_input_snapshot (cp_traceability p)) \<Longrightarrow> rt_sensitive t \<Longrightarrow> rt_value t = JNull"
proof -
  obtain g where g: "compiled_by cat (area_spec doc cat es) p g" using compile_stages [OF assms] .
  show "deps_first {} (cp_test_cases p)" by (rule compiled_deps_first [OF assms])
  have "ty_non_certifying_reasons (cp_traceability p) = []"
    using g by (simp add: compiled_by_def validate_assertion_overrides_def area_spec_def)
  then show "cp_certifying p" using g by (simp add: compiled_by_def)
  note safe = compiled_snapshot_safe [OF assms, unfolded Let_def]
  show "rt_input_id ` set (ty_runtime_input_snapshot (cp_traceability p)) = ri_input_id ` set (compiled_requirements p)"
    using safe by blast
  show "t \<in> set (ty_runtime_input_snapshot (cp_traceability p)) \<Longrightarrow>
         rt_sensitive t \<longleftrightarrow> (\<exists>r \<in> set (compiled_requirements p). ri_input_id r = rt_input_id t \<and> ri_sensitive r)"
    using safe by blast
  show "t \<in> set (ty_runtime_input_snapshot (cp_traceability p)) \<Longrightarrow> rt_sensitive t \<Longrightarrow> rt_value t = JNull"
    using safe by metis
qed

lemma document_plan:
  assumes "compile_test_plan_document (ParsedDocument doc) cats = Inr plan"
  shows "distinct (map tc_test_case_id (cp_test_cases plan)) \<and> deps_first {} (cp_test_cases plan) \<and> cp_certifying plan \<and>
         distinct (map rt_input_id (ty_runtime_input_snapshot (cp_traceability plan))) \<and>
         rt_input_id ` set (ty_runtime_input_snapshot (cp_traceability plan)) = ri_input_id ` set (compiled_requirements plan) \<and>
         (\<forall>t \<in> set (ty_runtime_input_snapshot (cp_traceability plan)).
            (rt_sensitive t \<longleftrightarrow> (\<exists>r \<in> set (compiled_requirements plan). ri_input_id r = rt_input_id t \<and> ri_sensitive r)) \<and>
            (rt_sensitive t \<longrightarrow> rt_value t = JNull))"
proof -
  obtain parts plans acc where p:
    "list_all2 (\<lambda>(cat, es) p. compile_test_plan cat (area_spec doc cat es) = Inr p) parts plans"
    "cp_test_cases plan = concat (map cp_test_cases plans)" "distinct (map tc_test_case_id (cp_test_cases plan))"
    "merge_traces (concat (map (ty_runtime_input_snapshot \<circ> cp_traceability) plans)) [] = Inr acc"
    "ty_runtime_input_snapshot (cp_traceability plan) = map snd acc"
    "cp_certifying plan = list_all cp_certifying plans" by (rule compile_document_areas [OF assms])
  let ?ts = "concat (map (ty_runtime_input_snapshot \<circ> cp_traceability) plans)"
  have area: "\<exists>cat es. compile_test_plan cat (area_spec doc cat es) = Inr q" if q: "q \<in> set plans" for q
    using list_all2_source [OF p(1) q] by auto
  have reqs: "set (compiled_requirements plan) = (\<Union>q \<in> set plans. set (compiled_requirements q))"
    unfolding compiled_requirements_def p(2) by auto
  have sens: "rt_value t = JNull" if u: "t \<in> set ?ts" "rt_sensitive t" for t
  proof -
    obtain q where q: "q \<in> set plans" "t \<in> set (ty_runtime_input_snapshot (cp_traceability q))" using u(1) by auto
    obtain cat es where "compile_test_plan cat (area_spec doc cat es) = Inr q" using area [OF q(1)] by blast
    from area_plan_props(5) [OF this q(2) u(2)] show ?thesis .
  qed
  have "merged_from [] []" by (simp add: merged_from_def)
  from merge_traces_merged [OF p(4) this sens] have acc: "merged_from ?ts acc" by simp
  have ids: "map rt_input_id (map snd acc) = keys acc" using acc by (auto simp: merged_from_def)
  have img: "rt_input_id ` set ?ts = ri_input_id ` set (compiled_requirements plan)"
  proof -
    have "rt_input_id ` set (ty_runtime_input_snapshot (cp_traceability q)) = ri_input_id ` set (compiled_requirements q)"
      if q: "q \<in> set plans" for q using area [OF q] area_plan_props(3) by blast
    then show ?thesis unfolding reqs by (simp add: image_UN)
  qed
  have ts: "(\<exists>t \<in> set ?ts. rt_input_id t = k \<and> rt_sensitive t) \<longleftrightarrow>
      (\<exists>r \<in> set (compiled_requirements plan). ri_input_id r = k \<and> ri_sensitive r)" for k
  proof
    assume "\<exists>t \<in> set ?ts. rt_input_id t = k \<and> rt_sensitive t"
    then obtain q t where q: "q \<in> set plans" "t \<in> set (ty_runtime_input_snapshot (cp_traceability q))"
      "rt_input_id t = k" "rt_sensitive t" by auto
    obtain cat es where c: "compile_test_plan cat (area_spec doc cat es) = Inr q" using area [OF q(1)] by blast
    have "\<exists>r \<in> set (compiled_requirements q). ri_input_id r = k \<and> ri_sensitive r"
      using area_plan_props(4) [OF c q(2)] q(3,4) by simp
    then show "\<exists>r \<in> set (compiled_requirements plan). ri_input_id r = k \<and> ri_sensitive r"
      unfolding reqs using q(1) by blast
  next
    assume "\<exists>r \<in> set (compiled_requirements plan). ri_input_id r = k \<and> ri_sensitive r"
    then obtain q r where q: "q \<in> set plans" "r \<in> set (compiled_requirements q)" "ri_input_id r = k" "ri_sensitive r"
      unfolding reqs by blast
    obtain cat es where c: "compile_test_plan cat (area_spec doc cat es) = Inr q" using area [OF q(1)] by blast
    have "k \<in> rt_input_id ` set (ty_runtime_input_snapshot (cp_traceability q))"
      unfolding area_plan_props(3) [OF c] using q by auto
    then obtain t where t: "t \<in> set (ty_runtime_input_snapshot (cp_traceability q))" "rt_input_id t = k" by auto
    then have "rt_sensitive t" using area_plan_props(4) [OF c t(1)] q by blast
    then show "\<exists>t \<in> set ?ts. rt_input_id t = k \<and> rt_sensitive t" using t q(1) by auto
  qed
  have deps: "deps_first {} (cp_test_cases plan)"
    unfolding p(2)
  proof (rule deps_first_concat)
    fix cs assume "cs \<in> set (map cp_test_cases plans)"
    then obtain q where q: "q \<in> set plans" "cs = cp_test_cases q" by auto
    show "deps_first {} cs" unfolding q(2) using area [OF q(1)] area_plan_props(1) by blast
  qed
  have cert: "cp_certifying plan" unfolding p(6) list_all_iff using area area_plan_props(2) by blast
  have entries: "(rt_sensitive t \<longleftrightarrow> (\<exists>r \<in> set (compiled_requirements plan). ri_input_id r = rt_input_id t \<and> ri_sensitive r)) \<and>
      (rt_sensitive t \<longrightarrow> rt_value t = JNull)" if t: "t \<in> set (map snd acc)" for t
  proof -
    obtain k where e: "(k, t) \<in> set acc" using t by auto
    have all: "\<forall>(k, m) \<in> set acc. rt_input_id m = k \<and>
         (rt_sensitive m \<longleftrightarrow> (\<exists>t \<in> set ?ts. rt_input_id t = k \<and> rt_sensitive t)) \<and>
         (rt_sensitive m \<longrightarrow> rt_value m = JNull)" using acc unfolding merged_from_def by (elim conjE)
    have "rt_input_id t = k" "rt_sensitive t \<longleftrightarrow> (\<exists>u \<in> set ?ts. rt_input_id u = k \<and> rt_sensitive u)"
      "rt_sensitive t \<longrightarrow> rt_value t = JNull" using bspec [OF all e] by simp_all
    then show ?thesis unfolding ts by simp
  qed
  have "set (keys acc) = rt_input_id ` set ?ts" "distinct (keys acc)" using acc by (simp_all add: merged_from_def)
  then have "distinct (map rt_input_id (map snd acc))" "rt_input_id ` set (map snd acc) = ri_input_id ` set (compiled_requirements plan)"
    unfolding ids img by (metis, metis ids set_map)
  then show ?thesis using p(3) deps cert entries unfolding p(5) by blast
qed

section \<open>Properties\<close>

text \<open>The endpoints of a plan document are split among the catalogue areas so that every one of them, after rewriting of its
  legacy path, lands in an area, each area gets only endpoints it owns that the document declared, and no area gets an
  endpoint twice.\<close>

lemma endpoints_are_partitioned:
  assumes "partition_implemented_endpoints_by_catalogue es cats = Inr parts"
  shows "(\<forall>raw \<in> set es. \<exists>(cat, aes) \<in> set parts. endpoint_ref (canonical_implemented_endpoint raw) \<in> endpoint_ref ` set aes) \<and>
         (\<forall>(cat, aes) \<in> set parts. cat \<in> set cats \<and> aes \<noteq> [] \<and> distinct (map endpoint_ref aes) \<and>
            set aes \<subseteq> canonical_implemented_endpoint ` set es \<and>
            endpoint_ref ` set aes \<subseteq> set (catalogue_endpoint_refs cat))"
proof -
  let ?indexes = "fold (\<lambda>(i, cat). AList.update (ck_api (ct_key cat)) i) (enumerate 0 cats) []"
  obtain st where st: "partition_endpoints cats ?indexes es \<lparr>pt_endpoints = [], pt_seen = [], pt_alias = []\<rparr> = Inr st"
    "parts = map (\<lambda>(i, cat). (cat, refs_at (pt_endpoints st) i))
                (filter (\<lambda>(i, cat). i \<in> set (keys (pt_endpoints st))) (enumerate 0 cats))"
    using assms by (auto simp: partition_implemented_endpoints_by_catalogue_def Let_def rbind_eqs)
  have "partition_inv cats [] \<lparr>pt_endpoints = [], pt_seen = [], pt_alias = []\<rparr>" by (simp add: partition_inv_def refs_at_def)
  from partition_endpoints_inv [OF st(1) this area_indexes] have inv: "partition_inv cats es st" by simp
  have part: "(cat, aes) \<in> set parts \<longleftrightarrow> (\<exists>i < length cats. cat = cats ! i \<and> aes = refs_at (pt_endpoints st) i \<and>
      i \<in> set (keys (pt_endpoints st)))" for cat aes
    unfolding st(2) by (auto simp: in_set_enumerate_eq image_iff split: prod.splits)
  have "\<exists>(cat, aes) \<in> set parts. endpoint_ref (canonical_implemented_endpoint raw) \<in> endpoint_ref ` set aes"
    if raw: "raw \<in> set es" for raw
  proof -
    obtain i where i: "i < length cats" "endpoint_ref (canonical_implemented_endpoint raw) \<in> set (refs_at (pt_seen st) i)"
      using inv raw by (auto simp: partition_inv_def)
    have e: "map endpoint_ref (refs_at (pt_endpoints st) i) = refs_at (pt_seen st) i" using inv by (simp add: partition_inv_def)
    then have in_e: "endpoint_ref (canonical_implemented_endpoint raw) \<in> endpoint_ref ` set (refs_at (pt_endpoints st) i)"
      using i(2) by (metis set_map)
    then have "i \<in> set (keys (pt_endpoints st))"
      by (auto simp: refs_at_def split: option.splits dest: map_of_SomeD) (metis fst_conv imageI map_of_SomeD set_map)
    then have "(cats ! i, refs_at (pt_endpoints st) i) \<in> set parts" using part i(1) by blast
    then show ?thesis using in_e by blast
  qed
  moreover have "cat \<in> set cats \<and> aes \<noteq> [] \<and> distinct (map endpoint_ref aes) \<and>
      set aes \<subseteq> canonical_implemented_endpoint ` set es \<and> endpoint_ref ` set aes \<subseteq> set (catalogue_endpoint_refs cat)"
    if p: "(cat, aes) \<in> set parts" for cat aes
    using inv p unfolding part partition_inv_def by (auto simp del: map_map)
  ultimately show ?thesis by blast
qed

definition sample_ref :: EndpointRef where
  "sample_ref = \<lparr>er_method = MethodGet, er_path = ''/accounts''\<rparr>"

definition sample_area :: TestCatalogue where
  "sample_area =
     \<lparr>ct_key = \<lparr>ck_standard = ''open-banking'', ck_version = ''v4.0'', ck_api = ''ais''\<rparr>, ct_catalogue_version = ''1'',
      ct_test_cases = [(sample_case ''a'' True [])\<lparr>tc_applicability :=
          \<lparr>ta_security_profiles = \<lparr>sp_profiles = [ProfileAll]\<rparr>, ta_endpoint_refs = [sample_ref],
           ta_required_capability_ids = [], ta_specification_versions = []\<rparr>\<rparr>],
      ct_capabilities = [], ct_configuration_requirements = [], ct_runtime_capabilities = [], ct_provenance = None\<rparr>"

definition sample_declared :: PlanDocumentEndpoint where
  "sample_declared = \<lparr>pe_method = MethodGet, pe_path = ''/accounts'', pe_operation_id = None, pe_capability_ids = [],
                      pe_required = None, pe_locked = None\<rparr>"

definition sample_document :: PlanDocumentV2 where
  "sample_document =
     \<lparr>pd_schema_version = ''v2'', pd_scheme = ''open-banking-uk'', pd_specification = ''read-write'', pd_version = ''4.0.1'',
      pd_security_profile = Fapi1Advanced,
      pd_resource_groups = [\<lparr>pg_resource_group_id = ''ais.accounts'', pg_label = None, pg_endpoints = [sample_declared],
                             pg_select_all = False\<rparr>],
      pd_config = [], pd_runtime_inputs = [], pd_security_environment = [], pd_business_test_data = [], pd_metadata = [],
      pd_execution_mode = ModeCertification, pd_endpoints = [], pd_dynamic_client_registration = []\<rparr>"

lemmas partition_eval = partition_implemented_endpoints_by_catalogue_def partition_endpoint_def owner_index_def
  catalogue_index_for_resource_group_def api_for_plan_resource_group_id_def RESOURCE_GROUP_API_BY_CANONICAL_ID_def
  RESOURCE_GROUP_API_BY_BUILDER_ID_def CANONICAL_RESOURCE_GROUPS_BY_API_def append_partitioned_endpoint_def
  canonical_implemented_endpoint_def catalogue_endpoint_refs_def declared_endpoint_def refs_at_def endpoint_ref_def
  sample_ref_def sample_area_def sample_declared_def sample_case_def

lemma sample_partition:
  "partition_implemented_endpoints_by_catalogue [declared_endpoint ''ais.accounts'' sample_declared] [sample_area] =
   Inr [(sample_area, [declared_endpoint ''ais.accounts'' sample_declared])]"
  by (simp add: partition_eval)

theorem endpoints_are_partitioned_witness:
  "\<exists>parts. partition_implemented_endpoints_by_catalogue [declared_endpoint ''ais.accounts'' sample_declared] [sample_area] = Inr parts \<and>
     parts = [(sample_area, [declared_endpoint ''ais.accounts'' sample_declared])] \<and>
     endpoint_ref (declared_endpoint ''ais.accounts'' sample_declared) \<in> set (catalogue_endpoint_refs sample_area)"
  using endpoints_are_partitioned [OF sample_partition] sample_partition by auto

text \<open>C7: A plan document that compiles gives a certifying plan over all its catalogue areas: no case id occurs twice, every
  dependency of a case comes before it, and the merged snapshot of runtime inputs has one entry per declared input that carries no
  value as soon as a case of any area declares the input sensitive.\<close>

theorem document_plan_sound:
  assumes "compile_test_plan_document (ParsedDocument doc) cats = Inr plan"
  shows "distinct (map tc_test_case_id (cp_test_cases plan)) \<and> deps_first {} (cp_test_cases plan) \<and> cp_certifying plan \<and>
         distinct (map rt_input_id (ty_runtime_input_snapshot (cp_traceability plan))) \<and>
         rt_input_id ` set (ty_runtime_input_snapshot (cp_traceability plan)) = ri_input_id ` set (compiled_requirements plan) \<and>
         (\<forall>t \<in> set (ty_runtime_input_snapshot (cp_traceability plan)).
            (rt_sensitive t \<longleftrightarrow> (\<exists>r \<in> set (compiled_requirements plan). ri_input_id r = rt_input_id t \<and> ri_sensitive r)) \<and>
            (rt_sensitive t \<longrightarrow> rt_value t = JNull))"
  using assms by (rule document_plan)

lemma sample_document_compiles:
  "\<exists>plan. compile_test_plan_document (ParsedDocument sample_document) [sample_area] = Inr plan \<and>
     map tc_test_case_id (cp_test_cases plan) = [''a'']"
proof -
  have cand: "candidate_catalogues_for_plan_document_v2 sample_document [sample_area] = Inr [sample_area]"
    by (simp add: candidate_catalogues_for_plan_document_v2_def catalogue_areas_for_plan_document_boundary_def
        specification_binding_for_plan_boundary_def document_boundary_def specification_for_boundary_def registry_defs
        sample_document_def sample_area_def)
  have es: "implemented_endpoints_from_plan_document_v2 sample_document [sample_area] =
      Inr [declared_endpoint ''ais.accounts'' sample_declared]"
    by (simp add: implemented_endpoints_from_plan_document_v2_def sample_document_def)
  have "\<exists>p. compile_test_plan sample_area (area_spec sample_document sample_area [declared_endpoint ''ais.accounts'' sample_declared]) = Inr p \<and>
      map tc_test_case_id (cp_test_cases p) = [''a''] \<and> ty_runtime_input_snapshot (cp_traceability p) = [] \<and>
      ty_provenance (cp_traceability p) = None"
    by (simp add: compile_test_plan_def area_spec_def sample_area_def sample_document_def sample_case_def sample_ref_def
        sample_declared_def declared_endpoint_def canonical_implemented_endpoint_def endpoint_ref_def implemented_endpoint_refs_def
        ref_capabilities_def normalised_capability_ids_def capability_selections_def
        catalogue_cases_by_id_def catalogue_capability_indexes_def selected_capabilities_by_endpoint_def
        validate_test_case_capability_references_def validate_case_capabilities_def directly_applicable_case_ids_def
        base_decision_def case_decision_def applies_to_def test_case_applies_to_specification_version_def
        selected_capability_ids_for_refs_def reject_invalid_deselection_def
        ordered_case_ids_def visit.simps dfs_start_def add_edge_def set_add_def finish_case_def rguard_def
        runtime_input_snapshot_def combined_runtime_requirements_def case_of_def
        reject_unsupported_request_header_runtime_inputs_def validate_assertion_overrides_def Let_def)
  then obtain p where p: "compile_test_plan sample_area (area_spec sample_document sample_area
      [declared_endpoint ''ais.accounts'' sample_declared]) = Inr p"
    "map tc_test_case_id (cp_test_cases p) = [''a'']" "ty_runtime_input_snapshot (cp_traceability p) = []"
    "ty_provenance (cp_traceability p) = None" by (elim exE conjE) auto
  obtain c where "cp_test_cases p = [c]" "tc_test_case_id c = ''a''" using p(2) by auto
  then show ?thesis using p
    by (simp add: compile_test_plan_document_def compile_plan_document_v2_def cand es rguard_def sample_partition
        merge_compiled_plan_documents_v2_def merge_runtime_input_snapshots_def aggregate_catalogue_provenance_def
        List.map_filter_simps Let_def)
qed

theorem document_plan_sound_witness:
  "\<exists>plan. compile_test_plan_document (ParsedDocument sample_document) [sample_area] = Inr plan \<and> cp_certifying plan \<and>
     map tc_test_case_id (cp_test_cases plan) = [''a'']"
proof -
  obtain plan where p: "compile_test_plan_document (ParsedDocument sample_document) [sample_area] = Inr plan"
    "map tc_test_case_id (cp_test_cases plan) = [''a'']" using sample_document_compiles by (elim exE conjE) auto
  have "cp_certifying plan" using document_plan_sound [OF p(1)] by (elim conjE)
  then show ?thesis using p by auto
qed

end
