(* ===== verification/Spec2Isabelle.thy ===== *)
theory Spec2Isabelle
  imports Headers Manifest_Parser Assertions Manifest_Execution Builder_Draft_Store Run_Lifecycle Result_Gate Certification_Validator Plan_Document
begin

text \<open>
  A verification development for the Open Banking conformance suite (the Python package under
  \<open>src/conformance\<close>). The suite compiles a participant's test plan against a catalogue of test cases, runs the
  plan against a bank's API in a background thread, follows the customer's authorisation through a browser callback, and
  writes a JSON report; a gate and a certification validator then judge that report.

  \<^bold>\<open>How the parts correspond to theories.\<close>

  \<^item> \<open>Prelude\<close>, \<open>Json\<close>, \<open>Py_Url\<close>: the language and its standard library. A fallible function
    returns \<open>'e + 'a\<close>, \<open>Inl\<close> for the exception; a \<open>dict\<close> is an association list in insertion order;
    a \<open>str\<close> is a list of Latin-1 characters; JSON is a datatype with Python's equality, \<open>repr\<close> and \<open>dumps\<close>;
    \<open>urlparse\<close> and \<open>ip_address\<close> follow CPython. The locales \<open>finite_dict\<close> and \<open>inductive_invariant\<close> state
    what the stores rely on.
  \<^item> \<open>Masking\<close>, \<open>Headers\<close>, \<open>Execution_Log\<close>: \<open>masking.py\<close>, \<open>headers.py\<close> and \<open>execution_log.py\<close>. Masking
    is shown to hide exactly the secrets, the logger to store masked payloads only; its \<open>emit\<close> raises, and stores nothing,
    when the authorisation URL of an event cannot be split.
  \<^item> \<open>Url_Validation\<close>: \<open>url_validation.py\<close>. The two checks are shown to accept exactly a grammar of URLs,
    which for the legacy callback is wider than documented.
  \<^item> \<open>Manifest_Model\<close>, \<open>Test_Plan\<close>, \<open>Execution_Schedule\<close>: the dataclasses of \<open>manifest.py\<close>,
    \<open>test_plan.py\<close> and \<open>execution_schedule.py\<close>: default plan, deselection, and the schedule of the selected steps.
  \<^item> \<open>Manifest_Templates\<close>, \<open>Manifest_Parser\<close>: the placeholder grammar and the parser of \<open>manifest.py\<close>. What it
    accepts is a well-formed manifest, and the templates it accepts resolve once the steps they name have run.
  \<^item> \<open>Catalogue_Model\<close>, \<open>Case_Order\<close>, \<open>Catalogue_Compiler\<close>: \<open>catalogue.py\<close>. The dataclasses,
    the dependency search (total, and complete about the errors it raises), and \<open>compile_test_plan\<close>: which cases a
    compiled plan holds and in which order, what its snapshot of runtime inputs reveals, what its traceability says.
  \<^item> \<open>Specification_Registry\<close>, \<open>Plan_Document\<close>: \<open>specification_registry.py\<close> and, of \<open>catalogue.py\<close>, the
    compilation of a whole plan document: how its endpoints are split among the catalogue areas that own them, and
    that the merged plan is what the compilations of the areas give.
  \<^item> \<open>Placeholder_Context\<close>, \<open>Schema_Validation\<close>, \<open>Assertions\<close>: \<open>context.py\<close>, \<open>schema_validation.py\<close> and
    \<open>assertions.py\<close>: what the executor resolves before a request and judges after it. Substitution is one pass over the
    template; a prepared schema is plain JSON Schema and its preparation ends; the equality of assertions is equality of
    abstract JSON values.
  \<^item> \<open>Signing\<close>, \<open>Response_Signature\<close>: \<open>signing_service.py\<close>, \<open>signing_credentials.py\<close> and \<open>response_signature.py\<close>:
    which response signatures are accepted, and that a signature the suite makes is one of them; the base64url decoding
    of a protected header inverts the encoding.
  \<^item> \<open>Http_Json\<close>, \<open>Url_Query\<close>: \<open>http.py\<close>, \<open>psu_authorization.py\<close> and the masking of URL queries: the request that
    \<open>send_json\<close> builds and how it reads the response, the authorisation URL and the parameters of a redirect.
  \<^item> \<open>Step_Execution\<close>, \<open>Psu_Execution\<close>, \<open>Manifest_Execution\<close>: \<open>executor.py\<close>: the HTTP step and the customer's
    authorisation as functions from a context to a result, a new context and log events; sequences and
    concurrent groups of them; runs of both manifest versions. When a step passes, fails or is skipped, that its evidence is
    masked, that a headless authorisation passes on a genuine redirect only, that a run ends, reports every selected step
    once and keeps its groups apart.
  \<^item> \<open>Auth_Session_Store\<close>, \<open>Run_Store\<close>, \<open>Api_Views\<close>: \<open>api/auth_session_store.py\<close>, \<open>api/run_store.py\<close>,
    and of \<open>api/views.py\<close> and \<open>api/callback_views.py\<close> the run, auth-session and callback handlers. Each store is a record or
    association list with one function per method; its lock makes each method one atomic step.
  \<^item> \<open>Builder_Draft_Store\<close>: \<open>api/builder_draft_store.py\<close>. The store of drafts refines a bounded map that keeps the latest.
  \<^item> \<open>Run_Lifecycle\<close>: \<open>api/run_lifecycle.py\<close> and the process as a whole. \<open>lifecycle_step\<close> interleaves the
    launches (the reservation of the slot and the start of the thread are two steps), the run threads with each way they
    leave the executor, the registration requests (in the stages between which other threads may run) and the callbacks;
    its invariant gives that at most one run is active, that no session outlives its run and that terminal runs stay so.
    In every execution fair to its thread an active run ends; only a thread that cannot be started keeps the slot.
  \<^item> \<open>Results\<close>, \<open>Result_Gate\<close>, \<open>Approved_Releases\<close>, \<open>Certification_Validator\<close>: \<open>results.py\<close>,
    \<open>result_gate.py\<close>, \<open>approved_releases.py\<close> with \<open>version.py\<close>, and \<open>certification_validator.py\<close>: how a report is
    built, when the gate and the validator accept it, and that the validator reads a generated report back.
  \<^item> This theory: the properties that span components, first of all that the participant's own eligibility
    verdict agrees with the validator's.

  \<^bold>\<open>Parameters and bounds.\<close> Clocks, generated identifiers, the bundled schema documents, \<open>json.loads\<close>, the JSON Schema validator, the HTTP transport, the JOSE library and the bytes of key files are arguments. What concurrent
  threads do is one too: the executor's steps take what they find in the shared caches and in the auth-session store, and a run
  the order in which its log receives the events of the groups. Every function is total but the
  loop that waits for the customer, a partial function that is shown to end after at most 240 polls on a clock that advances
  by the half second slept between two of its tests (nothing is assumed of the time between setting the deadline and the
  first test but that the clock does not run backwards); the recursive ones that are not structural (masking, the dependency search, the
  JSON traversals, URL decoding) have termination proofs, so no fuel is used. Integers are unbounded, as Python's are, and the limit of 4300
  digits for converting text is written out.

  \<^bold>\<open>Not modelled.\<close> Input and output (files, sockets, the database of the web framework), templates and forms of the
  browser interface, third-party cryptography, command lines and deployment scripts, and the
  built-in catalogues, which are tables of data. Of \<open>catalogue.py\<close> the parsing and
  export of plan documents; of \<open>executor.py\<close> the translation of a compiled catalogue plan into a manifest, which depends on
  those tables step id by step id; and the dynamic client registration of \<open>dcr_execution.py\<close>, a second protocol engine.
\<close>

section \<open>The participant's self-assessment and the validator\<close>

text \<open>
  The link between the two is the list of step results of a manifest run: one result per selected
  step, named by the step's id and carrying its mandatory flag. The executor produces such a list.
\<close>

definition records_run :: "Manifest \<Rightarrow> TestPlan \<Rightarrow> StepResult list \<Rightarrow> bool" where
  "records_run m plan steps =
     (distinct (map sr_name steps) \<and>
      set (map sr_name steps) = set (filter (\<lambda>i. i \<in> set (selected_step_ids plan)) (map step_id (mf_steps m))) \<and>
      (\<forall>s \<in> set steps. \<forall>step \<in> set (mf_steps m). step_id step = sr_name s \<longrightarrow> sr_mandatory s = step_mandatory step))"

lemma run_records:
  assumes wf: "wf_manifest m" and v1: "mf_schema_version m = V1"
    and run: "run_manifest_v1 env run_id config policy cp m plan = Returns ev result"
  shows "records_run m plan (sc_steps result)"
proof -
  have dist: "distinct (map step_id (mf_steps m))" using wf by (simp add: wf_manifest_def)
  note pairs = run_v1_pairs [OF dist v1 run]
  have names: "map sr_name (sc_steps result) = map step_id (run_order m plan)"
    using arg_cong [OF pairs, of "map fst"] by (simp add: comp_def)
  have "sr_mandatory s = step_mandatory step" if "s \<in> set (sc_steps result)" "step \<in> set (mf_steps m)" "step_id step = sr_name s" for s step
  proof -
    have "(sr_name s, sr_mandatory s) \<in> set (map (\<lambda>s. (step_id s, step_mandatory s)) (run_order m plan))"
      using that(1) unfolding pairs [symmetric] by auto
    then obtain t where "t \<in> set (mf_steps m)" "step_id t = sr_name s" "step_mandatory t = sr_mandatory s"
      by (auto simp: run_order_def selected_steps_def)
    moreover from this have "t = step" using that(2,3) dist unfolding distinct_map by (metis inj_onD)
    ultimately show ?thesis by simp
  qed
  moreover have "distinct (map sr_name (sc_steps result))" unfolding names by (rule run_order_distinct [OF dist])
  ultimately show ?thesis
    unfolding records_run_def names by (auto simp: selected_steps_subset selected_steps_def)
qed

lemma records_run_names:
  assumes "records_run m plan steps" and "s \<in> set steps"
  shows "\<exists>step \<in> set (mf_steps m). step_id step = sr_name s"
proof -
  have "sr_name s \<in> set (map sr_name steps)" using assms(2) by simp
  then have "sr_name s \<in> set (filter (\<lambda>i. i \<in> set (selected_step_ids plan)) (map step_id (mf_steps m)))"
    using assms(1) unfolding records_run_def by blast
  then show ?thesis by auto
qed

lemma report_lookup:
  assumes "distinct (map sr_name steps)"
  shows "report_steps_by_id (map (\<lambda>s. \<lparr>rep_step_id = sr_name s, rep_status = sr_status s\<rparr>) steps) i = Some st \<longleftrightarrow>
           (\<exists>s \<in> set steps. sr_name s = i \<and> sr_status s = st)"
proof -
  have "map fst (rev (map (\<lambda>s. (sr_name s, sr_status s)) steps)) = rev (map sr_name steps)"
    by (simp add: rev_map comp_def)
  then have "distinct (map fst (rev (map (\<lambda>s. (sr_name s, sr_status s)) steps)))" using assms by simp
  from map_of_eq_Some_iff [OF this, of i st] show ?thesis
    by (auto simp: report_steps_by_id_def comp_def)
qed

lemma mandatory_covered:
  assumes wf: "wf_manifest m" "mf_schema_version m = V1"
    and plan: "with_deselection (default_plan_from_manifest m) ids = Inr plan"
    and steps: "records_run m plan steps"
  shows "(deselected_mandatory_step_ids plan = [] \<and> (\<exists>s \<in> set steps. sr_mandatory s) \<and>
          (\<forall>s \<in> set steps. sr_mandatory s \<longrightarrow> sr_status s = CPassed \<or> sr_status s = CWarn)) \<longleftrightarrow>
         mandatory_step_ids_from_manifest m \<noteq> [] \<and>
         (\<forall>i \<in> set (mandatory_step_ids_from_manifest m).
            \<exists>s \<in> set steps. sr_name s = i \<and> (sr_status s = CPassed \<or> sr_status s = CWarn))"
proof -
  let ?M = "set (mandatory_step_ids_from_manifest m)"
  have M: "i \<in> ?M \<longleftrightarrow> (\<exists>st \<in> set (mf_steps m). step_id st = i \<and> step_mandatory st)" for i
    using wf(2) by (auto simp: mandatory_step_ids_from_manifest_def)
  have inj: "a = b" if "a \<in> set (mf_steps m)" "b \<in> set (mf_steps m)" "step_id a = step_id b" for a b
    using wf(1) that by (auto simp: wf_manifest_def distinct_map dest: inj_onD)
  have names: "i \<in> set (map sr_name steps) \<longleftrightarrow> i \<in> set (selected_step_ids plan) \<and> (\<exists>st \<in> set (mf_steps m). step_id st = i)" for i
    using steps by (fastforce simp: records_run_def)
  have mand: "sr_mandatory s \<longleftrightarrow> sr_name s \<in> ?M" if "s \<in> set steps" for s
  proof -
    obtain st where st: "st \<in> set (mf_steps m)" "step_id st = sr_name s" using records_run_names [OF steps \<open>s \<in> set steps\<close>] by auto
    then have "sr_mandatory s = step_mandatory st" using steps that by (auto simp: records_run_def)
    then show ?thesis using M st inj by metis
  qed
  have sel: "selected_step_ids plan = filter (\<lambda>i. i \<notin> set ids) (selected_step_ids (default_plan_from_manifest m))"
    by (rule with_deselection_selected [OF plan])
  have ent: "tp_entries plan = map (\<lambda>e. e\<lparr>te_selected := (te_step_id e \<notin> set ids \<and> te_selected e)\<rparr>)
               (tp_entries (default_plan_from_manifest m))"
    by (rule with_deselection_Inr(2) [OF plan])
  have des: "deselected_mandatory_step_ids plan = [] \<longleftrightarrow> (\<forall>i \<in> ?M. i \<notin> set ids)"
    using wf(2) unfolding deselected_mandatory_step_ids_def ent
    by (auto simp: default_plan_from_manifest_def mandatory_step_ids_from_manifest_def filter_empty_conv)
  have msel: "i \<in> set (selected_step_ids plan) \<longleftrightarrow> i \<notin> set ids" if "i \<in> ?M" for i
    using that wf(2) unfolding sel
    by (auto simp: default_plan_selected mandatory_step_ids_from_manifest_def)
  have present: "(\<exists>s \<in> set steps. sr_name s = i) \<longleftrightarrow> i \<notin> set ids" if "i \<in> ?M" for i
    using names [of i] msel [OF that] that M by fastforce
  have uniq: "s = t" if "s \<in> set steps" "t \<in> set steps" "sr_name s = sr_name t" for s t
  proof -
    have "distinct (map sr_name steps)" using steps by (simp add: records_run_def)
    then show ?thesis using that by (auto simp: distinct_map dest: inj_onD)
  qed
  show ?thesis (is "?L = ?R")
  proof
    assume L: ?L
    then obtain s where s: "s \<in> set steps" "sr_mandatory s" by blast
    then have ne: "mandatory_step_ids_from_manifest m \<noteq> []" using mand by auto
    have "\<exists>s \<in> set steps. sr_name s = i \<and> (sr_status s = CPassed \<or> sr_status s = CWarn)" if i: "i \<in> ?M" for i
    proof -
      have "i \<notin> set ids" using L i unfolding des by blast
      then obtain t where "t \<in> set steps" "sr_name t = i" using present [OF i] by blast
      then show ?thesis using L i mand by blast
    qed
    with ne show ?R by blast
  next
    assume R: ?R
    then have ok: "\<exists>s \<in> set steps. sr_name s = i \<and> (sr_status s = CPassed \<or> sr_status s = CWarn)" if "i \<in> ?M" for i
      using that by simp
    have "i \<notin> set ids" if "i \<in> ?M" for i using ok [OF that] present [OF that] by auto
    moreover have "hd (mandatory_step_ids_from_manifest m) \<in> ?M" using R by simp
    with ok mand have "\<exists>s \<in> set steps. sr_mandatory s" by metis
    moreover have "sr_status s = CPassed \<or> sr_status s = CWarn" if s: "s \<in> set steps" "sr_mandatory s" for s
    proof -
      have "sr_name s \<in> ?M" using mand [OF s(1)] s(2) by simp
      from ok [OF this] obtain t where "t \<in> set steps" "sr_name t = sr_name s"
        "sr_status t = CPassed \<or> sr_status t = CWarn" by auto
      with uniq [OF _ s(1)] show ?thesis by auto
    qed
    ultimately show ?L unfolding des by blast
  qed
qed

lemma eligibility_agrees:
  assumes wf: "wf_manifest m" "mf_schema_version m = V1"
    and ids: "\<forall>step \<in> set (mf_steps m). stripped (step_id step) \<and> step_id step \<noteq> []"
    and plan: "with_deselection (default_plan_from_manifest m) deselected = Inr plan"
    and steps: "records_run m plan steps"
    and tv: "tv = resolve_conformance_tool_version environ pyproject"
    and report: "report = result_to_json_object tv
           (build_smoke_check_result steps t0 t1 (Some plan) (Some policy) (mf_certification_coverage m) cp nc)"
  shows "jget (obj_of (jget report ''certificationEligibility'')) ''eligible'' = JBool True \<longleftrightarrow>
         nc = [] \<and> (\<exists>sub r. parse_submitted_report (JObj report) = Inr sub \<and>
                       validate_report sub m policy = Inr r \<and> cv_valid r)"
proof -
  let ?r = "build_smoke_check_result steps t0 t1 (Some plan) (Some policy) (mf_certification_coverage m) cp nc"
  let ?sub = "\<lparr>sub_report_version = REPORT_METADATA_VERSION, sub_tool_version = tv,
               sub_steps = map (\<lambda>s. \<lparr>rep_step_id = sr_name s, rep_status = sr_status s\<rparr>) steps\<rparr>"
  have flds: "sc_steps ?r = steps" "sc_deselected_mandatory_step_ids ?r = deselected_mandatory_step_ids plan"
    "sc_approved_release_policy ?r = Some policy" "sc_certification_coverage ?r = mf_certification_coverage m"
    "sc_non_certifying_reasons ?r = nc"
    by (simp_all add: build_smoke_check_result_def)
  have dist: "distinct (map sr_name steps)" using steps by (simp add: records_run_def)
  have nm: "\<forall>s \<in> set steps. stripped (sr_name s) \<and> sr_name s \<noteq> []"
  proof
    fix s assume "s \<in> set steps"
    then show "stripped (sr_name s) \<and> sr_name s \<noteq> []" using ids records_run_names [OF steps] by metis
  qed
  have parse: "parse_submitted_report (JObj report) = Inr ?sub"
    unfolding report using parse_generated_report [of tv ?r] tool_version_wf tv dist nm flds(1) by simp
  have el: "jget (obj_of (jget report ''certificationEligibility'')) ''eligible'' = JBool True \<longleftrightarrow>
      eligibility_reasons steps (deselected_mandatory_step_ids plan) (Some policy) tv (mf_certification_coverage m) nc = []"
    by (simp add: report report_members flds jget_eligible)
  have val: "(\<exists>r. validate_report ?sub m policy = Inr r \<and> cv_valid r) \<longleftrightarrow>
      mandatory_step_ids_from_manifest m \<noteq> [] \<and> is_tool_version_approved policy tv \<and> mf_certification_coverage m = Complete \<and>
      (\<forall>i \<in> set (mandatory_step_ids_from_manifest m).
            \<exists>s \<in> set steps. sr_name s = i \<and> (sr_status s = CPassed \<or> sr_status s = CWarn))"
  proof (cases "mandatory_step_ids_from_manifest m = []")
    case False
    then obtain r where r: "validate_report ?sub m policy = Inr r" by (simp add: validate_report_def Let_def)
    show ?thesis using validate_report_valid_iff [OF r] False r report_lookup [OF dist] by auto
  qed (simp add: validate_report_def Let_def)
  show ?thesis
    unfolding el eligible_iff parse using mandatory_covered [OF wf plan steps] val by auto
qed

definition catalogue_reasons :: "CompiledTestPlan option \<Rightarrow> string list" where
  "catalogue_reasons cp = (case cp of None \<Rightarrow> [] | Some p \<Rightarrow> ty_non_certifying_reasons (cp_traceability p))"

text \<open>C1: The participant's self-assessment is honest. Whatever the bank answered, when the executor returns from a run of a manifest,
  the report of its result says eligible exactly when no catalogue reason blocks and the OBL-side validator, given the same
  manifest and approved-release policy, parses that very report and declares it valid.\<close>

theorem self_assessment_agrees_with_validator:
  assumes "wf_manifest m" "mf_schema_version m = V1"
    and "\<forall>step \<in> set (mf_steps m). stripped (step_id step) \<and> step_id step \<noteq> []"
    and "with_deselection (default_plan_from_manifest m) deselected = Inr plan"
    and "run_manifest_v1 env run_id config (Some policy) cp m plan = Returns ev result"
    and "tv = resolve_conformance_tool_version environ pyproject"
    and "report = result_to_json_object tv result"
  shows "jget (obj_of (jget report ''certificationEligibility'')) ''eligible'' = JBool True \<longleftrightarrow>
         catalogue_reasons cp = [] \<and> (\<exists>sub r. parse_submitted_report (JObj report) = Inr sub \<and>
                       validate_report sub m policy = Inr r \<and> cv_valid r)"
proof -
  obtain steps where result: "result = build_smoke_check_result steps (rn_started_at env) (rn_finished_at env) (Some plan) (Some policy)
      (mf_certification_coverage m) cp (catalogue_reasons cp)"
    by (rule run_v1_Returns [OF assms(5)]) (simp add: catalogue_reasons_def)
  then have "records_run m plan steps" using run_records [OF assms(1,2,5)] by (simp add: build_smoke_check_result_def)
  from eligibility_agrees [OF assms(1,2,3,4) this assms(6) assms(7) [unfolded result]] show ?thesis .
qed

definition sample_policy :: ApprovedReleasePolicy where
  "sample_policy = \<lparr>ap_schema_version = ''v1'', ap_approved_tool_versions = [''0+unknown'']\<rparr>"

theorem self_assessment_agrees_with_validator_witness:
  "\<exists>ev result sub r. run_manifest_v1 sample_run_env ''run'' None (Some sample_policy) None sample_manifest
        (default_plan_from_manifest sample_manifest) = Returns ev result \<and>
     parse_submitted_report (JObj (result_to_json_object (resolve_conformance_tool_version [] None) result)) = Inr sub \<and>
     validate_report sub sample_manifest sample_policy = Inr r \<and> cv_valid r"
proof -
  let ?plan = "default_plan_from_manifest sample_manifest"
  let ?tv = "resolve_conformance_tool_version [] None"
  obtain ev result where run: "run_manifest_v1 sample_run_env ''run'' None (Some sample_policy) None sample_manifest ?plan = Returns ev result"
    and passed: "map sr_status (sc_steps result) = [CPassed, CPassed]" by (rule sample_run_returns)
  have ids: "\<forall>step \<in> set (mf_steps sample_manifest). stripped (step_id step) \<and> step_id step \<noteq> []"
    by (simp add: stripped_def is_space_def code_of_def)
  have plan: "with_deselection ?plan [] = Inr ?plan"
    by (simp add: with_deselection_def Let_def default_plan_from_manifest_def)
  have tv: "?tv = ''0+unknown''"
    by (simp add: resolve_conformance_tool_version_def read_pyproject_version_def UNKNOWN_TOOL_VERSION_def)
  note agrees = self_assessment_agrees_with_validator [OF sample_manifest_facts(9) sample_manifest_facts(1) ids plan run refl refl,
      of "[]" None]
  have "records_run sample_manifest ?plan (sc_steps result)" by (rule run_records [OF sample_manifest_facts(9,1) run])
  then have "\<exists>s \<in> set (sc_steps result). sr_mandatory s"
    by (fastforce simp: records_run_def selected_step_ids_def default_plan_from_manifest_def)
  moreover have "\<forall>s \<in> set (sc_steps result). sr_status s = CPassed"
    using arg_cong [OF passed, of set] by auto
  ultimately have "eligibility_reasons (sc_steps result) (deselected_mandatory_step_ids ?plan) (Some sample_policy) ?tv Complete [] = []"
    unfolding tv by (simp add: eligible_iff sample_policy_def is_tool_version_approved_def default_plan_selects_mandatory)
  moreover have "sc_deselected_mandatory_step_ids result = deselected_mandatory_step_ids ?plan"
      "sc_approved_release_policy result = Some sample_policy" "sc_certification_coverage result = Complete"
      "sc_non_certifying_reasons result = []"
    by (rule run_v1_Returns [OF run], simp add: build_smoke_check_result_def)+
  ultimately have "jget (obj_of (jget (result_to_json_object ?tv result) ''certificationEligibility'')) ''eligible'' = JBool True"
    by (simp add: report_members jget_eligible)
  with agrees run show ?thesis by blast
qed

end
